(* ===== verification/Prelude.thy ===== *)
theory Prelude
  imports Main "HOL-Library.List_Lexorder" "HOL-Library.Char_ord" "HOL-Library.Multiset"
begin

text \<open>
  Shared vocabulary of the development.

  \<^item> Strings. A JavaScript string is a sequence of code units; the model uses HOL's
    \<^typ>\<open>string\<close>, whose characters are the code units 0 to 255. On that fragment length,
    slicing, code-unit order, \<open>trim\<close> and \<open>toLowerCase\<close> below are the JavaScript ones.
  \<^item> \<open>js_sort\<close>, the stable \<open>Array.prototype.sort\<close> with a numeric comparator, and the
    locale \<open>consistent_cmp\<close> stating what a comparator has to promise; every comparator of
    the program interprets it where it is defined.
  \<^item> A few facts on \<^const>\<open>find\<close> and \<^const>\<open>filter\<close>, which is how the program looks
    things up in its snapshots.
\<close>

named_theorems jstr \<open>evaluation rules for the string operations\<close>

section \<open>Strings\<close>

text \<open>Code units are compared by number. \<open>char_le\<close> computes the comparison on the bits, the
  most significant first, which is how the kernel evaluates character classes below.\<close>

fun bits_le :: "bool list \<Rightarrow> bool list \<Rightarrow> bool" where
  "bits_le (x # xs) (y # ys) = (if x = y then bits_le xs ys else y)"
| "bits_le _ _ = True"

fun bits_value :: "bool list \<Rightarrow> nat" where
  "bits_value [] = 0"
| "bits_value (x # xs) = of_bool x * 2 ^ length xs + bits_value xs"

definition char_bits :: "char \<Rightarrow> bool list" where
  "char_bits c = (case c of Char b0 b1 b2 b3 b4 b5 b6 b7 \<Rightarrow> [b7, b6, b5, b4, b3, b2, b1, b0])"

definition char_le :: "char \<Rightarrow> char \<Rightarrow> bool" where
  "char_le a b = bits_le (char_bits a) (char_bits b)"

lemma bits_value_less: "bits_value xs < 2 ^ length xs"
  by (induction xs) (auto simp: of_bool_def)

lemma bits_le_iff: "length xs = length ys \<Longrightarrow> bits_le xs ys = (bits_value xs \<le> bits_value ys)"
proof (induction xs ys rule: bits_le.induct)
  case (1 x xs y ys)
  then show ?case using bits_value_less [of xs] bits_value_less [of ys] by auto
qed auto

lemma char_le_iff: "char_le a b = ((of_char a :: nat) \<le> of_char b)"
proof -
  have "bits_value (char_bits c) = of_char c" for c
    by (cases c) (simp add: char_bits_def)
  moreover have "length (char_bits a) = length (char_bits b)"
    by (simp add: char_bits_def split: char.split)
  ultimately show ?thesis by (simp add: char_le_def bits_le_iff)
qed

definition char_range :: "char \<Rightarrow> char \<Rightarrow> char \<Rightarrow> bool" where
  "char_range a b c = ((of_char a :: nat) \<le> of_char c \<and> (of_char c :: nat) \<le> of_char b)"

lemma char_range_code [code]: "char_range a b c = (char_le a c \<and> char_le c b)"
  by (simp add: char_range_def char_le_iff)

definition is_digit :: "char \<Rightarrow> bool" where
  "is_digit c = char_range CHR ''0'' CHR ''9'' c"

definition one_of :: "string \<Rightarrow> char \<Rightarrow> bool" where
  "one_of cs c = (c \<in> set cs)"

text \<open>Latin-1 whitespace, as \<open>String.prototype.trim\<close> sees it.\<close>

definition js_space :: "char \<Rightarrow> bool" where
  "js_space c = (char_range CHR 0x09 CHR 0x0D c \<or> c = CHR 0x20 \<or> c = CHR 0xA0)"

definition js_trim :: "string \<Rightarrow> string" where
  "js_trim s = rev (dropWhile js_space (rev (dropWhile js_space s)))"

text \<open>\<open>toLowerCase\<close> on one code unit: A-Z, and the Latin-1 capitals but the multiplication sign.\<close>

definition js_lower_char :: "char \<Rightarrow> char" where
  "js_lower_char c =
     (let n = (of_char c :: nat) in
      if (65 \<le> n \<and> n \<le> 90) \<or> (192 \<le> n \<and> n \<le> 222 \<and> n \<noteq> 215) then char_of (n + 32) else c)"

lemma lower_bit:
  fixes c defines "n \<equiv> (of_char c :: nat)"
  assumes "(65 \<le> n \<and> n \<le> 90) \<or> (192 \<le> n \<and> n \<le> 222)"
  shows "char_of (n + 32) = (case c of Char b0 b1 b2 b3 b4 b5 b6 b7 \<Rightarrow> Char b0 b1 b2 b3 b4 True b6 b7)"
proof (cases c)
  case (Char b0 b1 b2 b3 b4 b5 b6 b7)
  have "\<not> b5" using assms(2)
    by (cases b5; cases b7; cases b6; cases b4; cases b3; cases b2; cases b1; cases b0) (simp_all add: n_def Char)
  then have "n + 32 = of_char (Char b0 b1 b2 b3 b4 True b6 b7)"
    by (simp add: n_def Char)
  then have "char_of (n + 32) = Char b0 b1 b2 b3 b4 True b6 b7" by (simp only: char_of_char)
  then show ?thesis by (simp only: Char char.case)
qed

lemma js_lower_char_code [code]:
  "js_lower_char c =
     (if char_range CHR ''A'' CHR ''Z'' c \<or> (char_range CHR 0xC0 CHR 0xDE c \<and> c \<noteq> CHR 0xD7)
      then (case c of Char b0 b1 b2 b3 b4 b5 b6 b7 \<Rightarrow> Char b0 b1 b2 b3 b4 True b6 b7) else c)"
proof -
  have "c = CHR 0xD7 \<longleftrightarrow> (of_char c :: nat) = of_char CHR 0xD7" by (simp only: of_char_eq_iff)
  then have d: "c \<noteq> CHR 0xD7 \<longleftrightarrow> (of_char c :: nat) \<noteq> 215" by simp
  have r: "char_range CHR ''A'' CHR ''Z'' c = (65 \<le> (of_char c :: nat) \<and> (of_char c :: nat) \<le> 90)"
    "char_range CHR 0xC0 CHR 0xDE c = (192 \<le> (of_char c :: nat) \<and> (of_char c :: nat) \<le> 222)"
    by (simp_all add: char_range_def)
  show ?thesis
    unfolding js_lower_char_def Let_def r d
    using lower_bit [of c] by (cases "65 \<le> (of_char c :: nat) \<and> (of_char c :: nat) \<le> 90 \<or> 192 \<le> (of_char c :: nat) \<and> (of_char c :: nat) \<le> 222 \<and> (of_char c :: nat) \<noteq> 215") auto
qed
definition js_lower :: "string \<Rightarrow> string" where
  "js_lower s = map js_lower_char s"

definition starts_with :: "string \<Rightarrow> string \<Rightarrow> bool" where
  "starts_with p s = (take (length p) s = p)"

fun js_includes :: "string \<Rightarrow> string \<Rightarrow> bool" where
  "js_includes needle [] = (needle = [])"
| "js_includes needle (c # s) = (starts_with needle (c # s) \<or> js_includes needle s)"

text \<open>\<open>indexOf\<close> and \<open>lastIndexOf\<close> of one code unit; \<open>None\<close> for the \<open>-1\<close> of the source.\<close>

fun index_of :: "char \<Rightarrow> string \<Rightarrow> nat option" where
  "index_of c [] = None"
| "index_of c (x # s) = (if x = c then Some 0 else map_option Suc (index_of c s))"

fun last_index_of :: "char \<Rightarrow> string \<Rightarrow> nat option" where
  "last_index_of c [] = None"
| "last_index_of c (x # s) =
     (case last_index_of c s of
        Some i \<Rightarrow> Some (Suc i)
      | None \<Rightarrow> if x = c then Some 0 else None)"

text \<open>Decimal rendering, \<open>String(n)\<close> for a non-negative integer.\<close>

definition digit_char :: "nat \<Rightarrow> char" where
  "digit_char d = char_of (48 + d)"

fun show_nat :: "nat \<Rightarrow> string" where
  "show_nat n = (if n < 10 then [digit_char n] else show_nat (n div 10) @ [digit_char (n mod 10)])"

declare show_nat.simps [simp del]

definition show_int :: "int \<Rightarrow> string" where
  "show_int i = (if i < 0 then CHR ''-'' # show_nat (nat (- i)) else show_nat (nat i))"

text \<open>\<open>parts.join(sep)\<close>.\<close>

fun js_join :: "string \<Rightarrow> string list \<Rightarrow> string" where
  "js_join sep [] = []"
| "js_join sep [x] = x"
| "js_join sep (x # y # xs) = x @ sep @ js_join sep (y # xs)"

lemma index_of_SomeD:
  "index_of c s = Some i \<Longrightarrow> i < length s \<and> s ! i = c \<and> c \<notin> set (take i s)"
  by (induction s arbitrary: i) (auto split: if_splits)

lemma index_of_None_iff: "index_of c s = None \<longleftrightarrow> c \<notin> set s"
  by (induction s) auto

lemma last_index_of_None_iff: "last_index_of c s = None \<longleftrightarrow> c \<notin> set s"
  by (induction s) (auto split: option.splits)

lemma last_index_of_SomeD:
  "last_index_of c s = Some i \<Longrightarrow> i < length s \<and> s ! i = c \<and> c \<notin> set (drop (Suc i) s)"
proof (induction s arbitrary: i)
  case Nil
  then show ?case by simp
next
  case (Cons x s)
  show ?case
  proof (cases "last_index_of c s")
    case None
    with Cons.prems have "i = 0" "x = c" by (auto split: if_splits)
    moreover from None have "c \<notin> set s" by (simp add: last_index_of_None_iff)
    ultimately show ?thesis by simp
  next
    case (Some j)
    with Cons.IH [of j] Cons.prems show ?thesis by auto
  qed
qed

lemma last_index_of_append_unique:
  "c \<notin> set t \<Longrightarrow> last_index_of c (s @ c # t) = Some (length s)"
proof (induction s)
  case Nil
  then have "last_index_of c t = None" by (simp add: last_index_of_None_iff)
  then show ?case by simp
next
  case (Cons x s)
  then show ?case by simp
qed

lemma index_of_append_unique: "c \<notin> set s \<Longrightarrow> index_of c (s @ c # t) = Some (length s)"
  by (induction s) auto

lemma js_lower_length [simp]: "length (js_lower s) = length s"
  by (simp add: js_lower_def)

lemma js_lower_Nil [simp]: "js_lower [] = []"
  by (simp add: js_lower_def)

lemma js_lower_Cons [simp]: "js_lower (c # s) = js_lower_char c # js_lower s"
  by (simp add: js_lower_def)

lemma show_nat_not_Nil [simp]: "show_nat n \<noteq> []"
  by (subst show_nat.simps) simp

lemma starts_with_append [simp]: "starts_with p (p @ s)"
  by (simp add: starts_with_def)

lemma starts_with_iff: "starts_with p s \<longleftrightarrow> (\<exists>t. s = p @ t)"
proof
  assume "starts_with p s"
  then have "s = p @ drop (length p) s"
    unfolding starts_with_def by (metis append_take_drop_id)
  then show "\<exists>t. s = p @ t" by blast
qed (auto simp: starts_with_def)

lemma drop_starts_with: "starts_with p s \<Longrightarrow> p @ drop (length p) s = s"
  by (auto simp: starts_with_iff)

text \<open>The strong congruence rules, for rewriting inside the branches of a decision.\<close>

lemmas case_congs = option.case_cong list.case_cong sum.case_cong prod.case_cong if_cong

section \<open>First matches\<close>

lemma find_SomeD: "find P xs = Some x \<Longrightarrow> x \<in> set xs \<and> P x"
  by (auto simp: find_Some_iff)

lemma find_None_iff_all: "find P xs = None \<longleftrightarrow> (\<forall>x. x \<in> set xs \<longrightarrow> \<not> P x)"
  by (auto simp: find_None_iff)

lemma find_filter_imp: "(\<And>x. P x \<Longrightarrow> Q x) \<Longrightarrow> find P (filter Q xs) = find P xs"
  by (induction xs) auto

lemma find_cong_on: "(\<And>x. x \<in> set xs \<Longrightarrow> P x = Q x) \<Longrightarrow> find P xs = find Q xs"
  by (induction xs) auto

section \<open>The stable sort and its comparators\<close>

fun js_insert :: "('a \<Rightarrow> 'a \<Rightarrow> int) \<Rightarrow> 'a \<Rightarrow> 'a list \<Rightarrow> 'a list" where
  "js_insert cmp x [] = [x]"
| "js_insert cmp x (y # ys) = (if cmp x y \<le> 0 then x # y # ys else y # js_insert cmp x ys)"

definition js_sort :: "('a \<Rightarrow> 'a \<Rightarrow> int) \<Rightarrow> 'a list \<Rightarrow> 'a list" where
  "js_sort cmp xs = foldr (js_insert cmp) xs []"

lemma js_sort_Nil [simp]: "js_sort cmp [] = []"
  by (simp add: js_sort_def)

lemma js_sort_Cons [simp]: "js_sort cmp (x # xs) = js_insert cmp x (js_sort cmp xs)"
  by (simp add: js_sort_def)

lemma mset_js_insert [simp]: "mset (js_insert cmp x ys) = add_mset x (mset ys)"
  by (induction ys) auto

lemma mset_js_sort [simp]: "mset (js_sort cmp xs) = mset xs"
  by (induction xs) auto

lemma set_js_insert [simp]: "set (js_insert cmp x ys) = insert x (set ys)"
  by (induction ys) auto

lemma set_js_sort [simp]: "set (js_sort cmp xs) = set xs"
  by (induction xs) auto

lemma length_js_sort [simp]: "length (js_sort cmp xs) = length xs"
  using mset_js_sort [of cmp xs] by (metis size_mset)

lemma js_sort_eq_Nil_iff [simp]: "js_sort cmp xs = [] \<longleftrightarrow> xs = []"
  by (metis length_0_conv length_js_sort)

text \<open>
  What the callers of \<open>sort\<close> rely on: the comparator is a total preorder read off the sign.
\<close>

locale consistent_cmp =
  fixes cmp :: "'a \<Rightarrow> 'a \<Rightarrow> int"
  assumes cmp_total: "cmp a b \<le> 0 \<or> cmp b a \<le> 0"
    and cmp_trans: "cmp a b \<le> 0 \<Longrightarrow> cmp b c \<le> 0 \<Longrightarrow> cmp a c \<le> 0"
begin

lemma cmp_refl: "cmp a a \<le> 0"
  using cmp_total by blast

lemma sorted_insert_step:
  "sorted_wrt (\<lambda>a b. cmp a b \<le> 0) ys \<Longrightarrow> sorted_wrt (\<lambda>a b. cmp a b \<le> 0) (js_insert cmp x ys)"
proof (induction ys)
  case Nil
  then show ?case by simp
next
  case (Cons y ys)
  show ?case
  proof (cases "cmp x y \<le> 0")
    case True
    with Cons.prems show ?thesis by (auto intro: cmp_trans)
  next
    case False
    then have "cmp y x \<le> 0" using cmp_total [of x y] by blast
    with False Cons show ?thesis by auto
  qed
qed

lemma sorted_sort: "sorted_wrt (\<lambda>a b. cmp a b \<le> 0) (js_sort cmp xs)"
  by (induction xs) (auto intro: sorted_insert_step)

lemma hd_sort_least: "y \<in> set xs \<Longrightarrow> cmp (hd (js_sort cmp xs)) y \<le> 0"
proof -
  assume y: "y \<in> set xs"
  then obtain z zs where zs: "js_sort cmp xs = z # zs"
    by (cases "js_sort cmp xs") auto
  from y have "y \<in> set (z # zs)" by (metis set_js_sort zs)
  with sorted_sort [of xs] zs show ?thesis by (auto intro: cmp_refl)
qed

lemma filter_insert_keep:
  assumes tie: "\<And>a b. P a \<Longrightarrow> P b \<Longrightarrow> cmp a b \<le> 0"
  shows "sorted_wrt (\<lambda>a b. cmp a b \<le> 0) ys \<Longrightarrow>
    filter P (js_insert cmp x ys) = (if P x then x # filter P ys else filter P ys)"
proof (induction ys)
  case Nil
  then show ?case by simp
next
  case (Cons y ys)
  show ?case
  proof (cases "cmp x y \<le> 0")
    case True
    then show ?thesis by auto
  next
    case False
    show ?thesis
    proof (cases "P x")
      case True
      with False tie have "\<not> P y" by blast
      with False True Cons show ?thesis by simp
    next
      case notx: False
      with False Cons show ?thesis by simp
    qed
  qed
qed

text \<open>Stability: a class of mutually tied elements keeps its input order.\<close>

lemma stable_sort:
  "(\<And>a b. P a \<Longrightarrow> P b \<Longrightarrow> cmp a b \<le> 0) \<Longrightarrow> filter P (js_sort cmp xs) = filter P xs"
  by (induction xs) (auto simp: filter_insert_keep [OF _ sorted_sort])

lemma insert_below_all: "(\<And>y. y \<in> set ys \<Longrightarrow> cmp x y \<le> 0) \<Longrightarrow> js_insert cmp x ys = x # ys"
  by (cases ys) auto

text \<open>Where only equal elements tie, the result does not depend on the input order.\<close>

lemma sorted_unique:
  assumes anti: "\<And>a b. a \<in> set xs \<Longrightarrow> b \<in> set xs \<Longrightarrow> cmp a b \<le> 0 \<Longrightarrow> cmp b a \<le> 0 \<Longrightarrow> a = b"
    and "mset xs = mset ys" "sorted_wrt (\<lambda>a b. cmp a b \<le> 0) xs" "sorted_wrt (\<lambda>a b. cmp a b \<le> 0) ys"
  shows "xs = ys"
  using assms
proof (induction xs arbitrary: ys)
  case Nil
  then show ?case by simp
next
  case (Cons x xs)
  then obtain y ys' where ys: "ys = y # ys'" by (cases ys) auto
  have "x \<in> set ys" using Cons.prems(2) by (metis list.set_intros(1) mset_eq_setD)
  moreover have "y \<in> set (x # xs)" using Cons.prems(2) ys by (metis list.set_intros(1) mset_eq_setD)
  ultimately have "cmp x y \<le> 0" "cmp y x \<le> 0"
    using Cons.prems(3,4) ys cmp_refl by auto
  with Cons.prems(1) \<open>y \<in> set (x # xs)\<close> have "x = y" by simp
  with Cons ys show ?case by simp
qed

lemma sort_perm:
  assumes "\<And>a b. a \<in> set xs \<Longrightarrow> b \<in> set xs \<Longrightarrow> cmp a b \<le> 0 \<Longrightarrow> cmp b a \<le> 0 \<Longrightarrow> a = b"
    and "mset xs = mset ys"
  shows "js_sort cmp xs = js_sort cmp ys"
  by (rule sorted_unique) (use assms in \<open>auto intro: sorted_sort\<close>)

text \<open>Sorting and filtering commute, so a first match in the sorted list only depends on the
  elements that can match.\<close>

lemma filter_insert_sorted:
  "sorted_wrt (\<lambda>a b. cmp a b \<le> 0) ys \<Longrightarrow>
     filter Q (js_insert cmp x ys) =
       (if Q x then js_insert cmp x (filter Q ys) else filter Q ys)"
proof (induction ys)
  case Nil
  then show ?case by simp
next
  case (Cons y ys)
  show ?case
  proof (cases "cmp x y \<le> 0")
    case True
    with Cons.prems have "cmp x z \<le> 0" if "z \<in> set (y # ys)" for z
      using that by (auto intro: cmp_trans)
    then have "js_insert cmp x (filter Q ys) = x # filter Q ys"
      by (intro insert_below_all) auto
    with True show ?thesis by simp
  next
    case False
    with Cons show ?thesis by auto
  qed
qed

lemma filter_sort: "filter Q (js_sort cmp xs) = js_sort cmp (filter Q xs)"
  by (induction xs) (auto simp: filter_insert_sorted [OF sorted_sort])

lemma find_sort_filter:
  "(\<And>x. P x \<Longrightarrow> Q x) \<Longrightarrow> find P (js_sort cmp (filter Q xs)) = find P (js_sort cmp xs)"
  by (simp add: find_filter_imp flip: filter_sort)

text \<open>A list already in order is left as it is.\<close>

lemma sort_id: "sorted_wrt (\<lambda>a b. cmp a b \<le> 0) xs \<Longrightarrow> js_sort cmp xs = xs"
  by (induction xs) (auto simp: insert_below_all)

end

end
