(* ===== verification/Targets.thy ===== *)
theory Targets
  imports Prelude
begin

text \<open>
  The routing vocabulary every other component shares: routing constants
  (\<open>shared/src/routing-constants.ts\<close>), the stored form of a rule target
  (\<open>shared/src/routing-target.ts\<close>) and the aggregator SKU variants
  (\<open>shared/src/model-variants.ts\<close>, \<open>shared/src/server/models/variants.ts\<close>).
\<close>

section \<open>Constants\<close>

definition DEFAULT_TIER_KEY :: string where
  "DEFAULT_TIER_KEY = ''default''"

definition TIER_HEADER_NAME :: string where
  "TIER_HEADER_NAME = ''x-polyrouter-tier''"

definition AUTO_ALIAS :: string where
  "AUTO_ALIAS = ''auto''"

definition MAX_MODELS_PER_TIER :: nat where
  "MAX_MODELS_PER_TIER = 5"

text \<open>\<open>TIER_KEY_PATTERN\<close>: \<open>^[a-z0-9](?:[a-z0-9_-]{0,63})$\<close>, without the \<open>m\<close> flag.\<close>

definition slug_head :: "char \<Rightarrow> bool" where
  "slug_head c = (char_range CHR ''a'' CHR ''z'' c \<or> is_digit c)"

definition slug_tail :: "char \<Rightarrow> bool" where
  "slug_tail c = (slug_head c \<or> c = CHR ''_'' \<or> c = CHR ''-'')"

fun TIER_KEY_PATTERN :: "string \<Rightarrow> bool" where
  "TIER_KEY_PATTERN [] = False"
| "TIER_KEY_PATTERN (c # s) = (slug_head c \<and> length s \<le> 63 \<and> list_all slug_tail s)"

section \<open>Stored targets\<close>

datatype routing_target = TierTarget string | ModelTarget string

definition TIER_PREFIX :: string where "TIER_PREFIX = ''tier:''"
definition MODEL_PREFIX :: string where "MODEL_PREFIX = ''model:''"

definition parseRoutingTarget :: "string \<Rightarrow> routing_target option" where
  "parseRoutingTarget raw =
     (if starts_with TIER_PREFIX raw then
        (let key = drop (length TIER_PREFIX) raw in
         if length key > 0 then Some (TierTarget key) else None)
      else if starts_with MODEL_PREFIX raw then
        (let i = drop (length MODEL_PREFIX) raw in
         if length i > 0 then Some (ModelTarget i) else None)
      else None)"

fun formatRoutingTarget :: "routing_target \<Rightarrow> string" where
  "formatRoutingTarget (TierTarget key) = TIER_PREFIX @ key"
| "formatRoutingTarget (ModelTarget i) = MODEL_PREFIX @ i"

fun target_ref :: "routing_target \<Rightarrow> string" where
  "target_ref (TierTarget key) = key"
| "target_ref (ModelTarget i) = i"

lemma prefixes_disjoint [simp]: "\<not> starts_with TIER_PREFIX (MODEL_PREFIX @ s)"
  by (simp add: starts_with_def TIER_PREFIX_def MODEL_PREFIX_def)

lemma parse_format: "target_ref t \<noteq> [] \<Longrightarrow> parseRoutingTarget (formatRoutingTarget t) = Some t"
  by (cases t) (simp_all add: parseRoutingTarget_def)

lemma format_parse: "parseRoutingTarget raw = Some t \<Longrightarrow> formatRoutingTarget t = raw \<and> target_ref t \<noteq> []"
  by (auto simp: parseRoutingTarget_def Let_def drop_starts_with split: if_splits)

text \<open>C1 (round trip). A stored target string is accepted exactly when it is the formatting of a
  target with a non-empty reference, and then parsing returns that target: the management API and
  the proxy, which share these two functions, can never disagree about what a rule points at.\<close>

theorem routing_target_roundtrip:
  "parseRoutingTarget raw = Some t \<longleftrightarrow> raw = formatRoutingTarget t \<and> target_ref t \<noteq> []"
  using parse_format format_parse by blast

section \<open>SKU variants\<close>

definition MODEL_VARIANTS :: "string list" where
  "MODEL_VARIANTS = [''batch'', ''free'', ''nitro'', ''floor'', ''extended'', ''thinking'',
     ''online'', ''exacto'']"

definition NON_ROUTABLE_VARIANTS :: "string list" where
  "NON_ROUTABLE_VARIANTS = [''batch'']"

record parsed_variant =
  pv_base :: string
  pv_variant :: string

definition parseModelVariant :: "string \<Rightarrow> parsed_variant option" where
  "parseModelVariant externalModelId =
     (let i = js_trim externalModelId in
      case last_index_of (CHR '':'') i of
        None \<Rightarrow> None
      | Some colon \<Rightarrow>
          if colon = 0 \<or> colon = length i - 1 then None
          else
            let suffix = js_lower (js_trim (drop (colon + 1) i)) in
            if suffix \<notin> set MODEL_VARIANTS then None
            else
              let base = js_trim (take colon i) in
              if base = [] then None
              else Some \<lparr>pv_base = base, pv_variant = suffix\<rparr>)"

definition isNonRoutableVariant :: "string option \<Rightarrow> bool" where
  "isNonRoutableVariant v = (case v of None \<Rightarrow> False | Some x \<Rightarrow> x \<in> set NON_ROUTABLE_VARIANTS)"

text \<open>\<open>AGGREGATOR_FAMILIES\<close> of \<open>pricing/resolve.ts\<close>.\<close>

definition AGGREGATOR_FAMILIES :: "string list" where
  "AGGREGATOR_FAMILIES = [''openrouter'']"

definition is_aggregator :: "string \<Rightarrow> bool" where
  "is_aggregator family = (js_lower (js_trim family) \<in> set AGGREGATOR_FAMILIES)"

definition variantForProvider :: "string option \<Rightarrow> string \<Rightarrow> parsed_variant option" where
  "variantForProvider billingFamily externalModelId =
     (case billingFamily of
        None \<Rightarrow> None
      | Some f \<Rightarrow> if is_aggregator f then parseModelVariant externalModelId else None)"

definition modelBatchCapable :: "bool \<Rightarrow> string option \<Rightarrow> bool \<Rightarrow> bool" where
  "modelBatchCapable seam billingFamily hasBatchTwin =
     (if \<not> seam then False
      else case billingFamily of
             None \<Rightarrow> True
           | Some f \<Rightarrow> if \<not> is_aggregator f then True else hasBatchTwin)"

lemma parseModelVariant_SomeD:
  assumes "parseModelVariant s = Some v"
  shows "pv_variant v \<in> set MODEL_VARIANTS \<and> pv_base v \<noteq> [] \<and>
    (\<exists>b suf. js_trim s = b @ CHR '':'' # suf \<and> CHR '':'' \<notin> set suf \<and> pv_base v = js_trim b
       \<and> pv_variant v = js_lower (js_trim suf))"
proof -
  let ?i = "js_trim s"
  from assms obtain colon where c: "last_index_of (CHR '':'') ?i = Some colon"
    and ok: "js_lower (js_trim (drop (colon + 1) ?i)) \<in> set MODEL_VARIANTS"
    and ne: "js_trim (take colon ?i) \<noteq> []"
    and v: "v = \<lparr>pv_base = js_trim (take colon ?i), pv_variant = js_lower (js_trim (drop (colon + 1) ?i))\<rparr>"
    by (auto simp: parseModelVariant_def Let_def split: option.splits if_splits)
  from last_index_of_SomeD [OF c]
  have "colon < length ?i" "?i ! colon = CHR '':''" "CHR '':'' \<notin> set (drop (Suc colon) ?i)"
    by auto
  moreover from this have "?i = take colon ?i @ CHR '':'' # drop (Suc colon) ?i"
    by (metis id_take_nth_drop)
  ultimately have "\<exists>b suf. ?i = b @ CHR '':'' # suf \<and> CHR '':'' \<notin> set suf \<and>
      pv_base v = js_trim b \<and> pv_variant v = js_lower (js_trim suf)"
    using v by (intro exI [of _ "take colon ?i"] exI [of _ "drop (Suc colon) ?i"]) simp
  with ok ne v show ?thesis by simp
qed

end
