(* ===== verification/Routing.thy ===== *)
theory Routing
  imports Targets
begin

text \<open>
  Layer-0 route resolution, \<open>data-plane/src/routing/resolve.ts\<close>: the owned configuration snapshot,
  the tier and target resolvers, the rule order, the smart layers' band and workload targets and
  the five-phase \<open>resolveRoute\<close>. A decision is \<open>Inr\<close>, a typed refusal \<open>Inl\<close>. The optional and
  the nullable fields of the source are both \<^typ>\<open>'a option\<close>: no function here tells them apart.
\<close>

section \<open>The snapshot and the decision\<close>

datatype entry_mode = AnyMode | BatchMode
datatype resolution_mode = SyncRes | BatchRes

record route_tier =
  tier_id :: string
  tier_key :: string

record route_entry =
  entry_modelId :: string
  entry_position :: int
  entry_mode :: entry_mode

record route_rule =
  rule_id :: string
  rule_matchType :: string
  rule_headerName :: string
  rule_headerValue :: "string option"
  rule_workloadClass :: "string option"
  rule_target :: string
  rule_priority :: int
  rule_createdAt :: int

record route_model =
  model_id :: string
  model_providerId :: string
  model_externalModelId :: string
  model_variant :: "string option"

record routing_snapshot =
  snap_tiers :: "route_tier list"
  snap_entriesByTierId :: "string \<rightharpoonup> route_entry list"
  snap_rules :: "route_rule list"
  snap_models :: "route_model list"

record parsed_route =
  pr_modelField :: string
  pr_headers :: "string \<rightharpoonup> string"
  pr_mode :: "resolution_mode option"

datatype decision_layer =
  LExplicit | LHeader | LDefault | LStructural | LCascade | LSemantic | LWorkload

definition DECISION_LAYERS :: "decision_layer list" where
  "DECISION_LAYERS =
     [LExplicit, LHeader, LDefault, LStructural, LCascade, LSemantic, LWorkload]"

record route_target =
  tgt_providerId :: string
  tgt_modelId :: string
  tgt_externalModelId :: string

record matched_header =
  mh_name :: string
  mh_value :: "string option"

record route_decision =
  dec_providerId :: string
  dec_modelId :: string
  dec_externalModelId :: string
  dec_tierKey :: "string option"
  dec_layer :: decision_layer
  dec_reason :: string
  dec_scope :: "string option"
  dec_matchedHeader :: "matched_header option"
  dec_chain :: "route_target list"

datatype route_error_kind =
  UnknownModel | AmbiguousModel | EmptyTier | UnresolvedTarget | NoDefault | BatchOnlyModel

record route_error =
  err_kind :: route_error_kind
  err_detail :: "string option"
  err_baseModelId :: "string option"
  err_baseIsRoutable :: "bool option"

type_synonym route_result = "route_error + route_decision"

definition isRoutable :: "route_model \<Rightarrow> bool" where
  "isRoutable m = (\<not> isNonRoutableVariant (model_variant m))"

definition plain_error :: "route_error_kind \<Rightarrow> string \<Rightarrow> route_error" where
  "plain_error k d =
     \<lparr>err_kind = k, err_detail = Some d, err_baseModelId = None, err_baseIsRoutable = None\<rparr>"

definition batchOnlyError :: "routing_snapshot \<Rightarrow> route_model \<Rightarrow> route_error" where
  "batchOnlyError snap model =
     (case parseModelVariant (model_externalModelId model) of
        None \<Rightarrow> plain_error BatchOnlyModel (model_externalModelId model)
      | Some parsed \<Rightarrow>
          let sibling = find (\<lambda>m. model_providerId m = model_providerId model \<and>
                                model_externalModelId m = pv_base parsed) (snap_models snap)
          in \<lparr>err_kind = BatchOnlyModel, err_detail = Some (model_externalModelId model),
              err_baseModelId = Some (pv_base parsed),
              err_baseIsRoutable =
                Some (case sibling of None \<Rightarrow> False | Some s \<Rightarrow> isRoutable s)\<rparr>)"

definition target :: "route_model \<Rightarrow> route_target" where
  "target m =
     \<lparr>tgt_providerId = model_providerId m, tgt_modelId = model_id m,
      tgt_externalModelId = model_externalModelId m\<rparr>"

definition modelDecision :: "route_model \<Rightarrow> decision_layer \<Rightarrow> string \<Rightarrow> route_decision" where
  "modelDecision m layer reason =
     \<lparr>dec_providerId = model_providerId m, dec_modelId = model_id m,
      dec_externalModelId = model_externalModelId m, dec_tierKey = None, dec_layer = layer,
      dec_reason = reason, dec_scope = None, dec_matchedHeader = None, dec_chain = [target m]\<rparr>"

section \<open>Tiers\<close>

definition position_cmp :: "route_entry \<Rightarrow> route_entry \<Rightarrow> int" where
  "position_cmp a b = entry_position a - entry_position b"

interpretation position: consistent_cmp position_cmp
  by unfold_locales (auto simp: position_cmp_def)

definition tier_entries :: "routing_snapshot \<Rightarrow> route_tier \<Rightarrow> route_entry list" where
  "tier_entries snap tier =
     (case snap_entriesByTierId snap (tier_id tier) of None \<Rightarrow> [] | Some es \<Rightarrow> es)"

definition modelById :: "routing_snapshot \<Rightarrow> string \<Rightarrow> route_model option" where
  "modelById snap i = find (\<lambda>m. model_id m = i) (snap_models snap)"

definition nonRoutable :: "routing_snapshot \<Rightarrow> route_entry \<Rightarrow> bool" where
  "nonRoutable snap e =
     (case modelById snap (entry_modelId e) of None \<Rightarrow> False | Some m \<Rightarrow> \<not> isRoutable m)"

definition reserved :: "resolution_mode \<Rightarrow> route_entry \<Rightarrow> bool" where
  "reserved mode e = (mode = SyncRes \<and> entry_mode e = BatchMode)"

definition dropped :: "routing_snapshot \<Rightarrow> resolution_mode \<Rightarrow> route_entry \<Rightarrow> bool" where
  "dropped snap mode e = (nonRoutable snap e \<or> reserved mode e)"

definition excluded_note :: "nat \<Rightarrow> nat \<Rightarrow> string \<Rightarrow> string" where
  "excluded_note excludedVariant excludedReserved reason =
     (let parts =
        (if excludedVariant > 0 then [show_nat excludedVariant @ '' batch-only''] else []) @
        (if excludedReserved > 0 then [show_nat excludedReserved @ '' batch-reserved''] else [])
      in if parts = [] then reason else reason @ '' (excluded '' @ js_join '', '' parts @ '')'')"

definition tier_primary ::
    "routing_snapshot \<Rightarrow> resolution_mode \<Rightarrow> route_entry list \<Rightarrow> route_entry option" where
  "tier_primary snap mode sorted_all =
     (let entries = filter (\<lambda>e. \<not> dropped snap mode e) sorted_all;
          atZero = find (\<lambda>e. entry_position e = 0) sorted_all
      in case mode of
           BatchRes \<Rightarrow>
             (case find (\<lambda>e. entry_mode e = BatchMode) sorted_all of
                Some e \<Rightarrow> Some e
              | None \<Rightarrow> atZero)
         | SyncRes \<Rightarrow>
             (case atZero of
                None \<Rightarrow> None
              | Some z \<Rightarrow>
                  if dropped snap mode z
                  then (case entries of [] \<Rightarrow> None | e # _ \<Rightarrow> Some e)
                  else Some z))"

definition chain_of :: "routing_snapshot \<Rightarrow> route_entry list \<Rightarrow> route_target list" where
  "chain_of snap es =
     map target (List.map_filter (\<lambda>e. modelById snap (entry_modelId e)) es)"

definition resolveTier ::
    "routing_snapshot \<Rightarrow> route_tier \<Rightarrow> decision_layer \<Rightarrow> string \<Rightarrow> resolution_mode \<Rightarrow> route_result"
  where
  "resolveTier snap tier layer reason mode =
     (let all = js_sort position_cmp (tier_entries snap tier);
          excludedVariant =
            length (filter (\<lambda>e. nonRoutable snap e \<and> \<not> reserved mode e) all);
          excludedReserved = length (filter (reserved mode) all);
          entries = filter (\<lambda>e. \<not> dropped snap mode e) all
      in case tier_primary snap mode all of
           None \<Rightarrow> Inl (plain_error EmptyTier (tier_key tier))
         | Some primary \<Rightarrow>
             let chain = chain_of snap (case mode of BatchRes \<Rightarrow> [primary] | SyncRes \<Rightarrow> entries)
             in case modelById snap (entry_modelId primary) of
                  None \<Rightarrow> Inl (plain_error UnresolvedTarget (tier_key tier))
                | Some primaryModel \<Rightarrow>
                    if chain = [] then Inl (plain_error UnresolvedTarget (tier_key tier))
                    else if mode = BatchRes \<and> \<not> isRoutable primaryModel
                    then Inl (batchOnlyError snap primaryModel)
                    else Inr
                      \<lparr>dec_providerId = model_providerId primaryModel,
                       dec_modelId = model_id primaryModel,
                       dec_externalModelId = model_externalModelId primaryModel,
                       dec_tierKey = Some (tier_key tier), dec_layer = layer,
                       dec_reason = excluded_note excludedVariant excludedReserved reason,
                       dec_scope = None, dec_matchedHeader = None, dec_chain = chain\<rparr>)"

definition tierByKey :: "routing_snapshot \<Rightarrow> string \<Rightarrow> route_tier option" where
  "tierByKey snap key = find (\<lambda>t. tier_key t = key) (snap_tiers snap)"

definition resolveTarget ::
    "routing_snapshot \<Rightarrow> string \<Rightarrow> decision_layer \<Rightarrow> string \<Rightarrow> route_result" where
  "resolveTarget snap tgt layer reason =
     (case parseRoutingTarget tgt of
        None \<Rightarrow> Inl (plain_error UnresolvedTarget tgt)
      | Some (TierTarget key) \<Rightarrow>
          (case tierByKey snap key of
             None \<Rightarrow> Inl (plain_error UnresolvedTarget tgt)
           | Some tier \<Rightarrow> resolveTier snap tier layer reason SyncRes)
      | Some (ModelTarget i) \<Rightarrow>
          (case modelById snap i of
             None \<Rightarrow> Inl (plain_error UnresolvedTarget tgt)
           | Some m \<Rightarrow>
               if \<not> isRoutable m then Inl (batchOnlyError snap m)
               else Inr (modelDecision m layer reason)))"

section \<open>The rule order\<close>

text \<open>
  \<open>b.priority - a.priority || a.createdAt - b.createdAt || (a.id < b.id ? -1 : ...)\<close>: the first
  non-zero of three differences.
\<close>

definition ruleOrder :: "route_rule \<Rightarrow> route_rule \<Rightarrow> int" where
  "ruleOrder a b =
     (if rule_priority b - rule_priority a \<noteq> 0 then rule_priority b - rule_priority a
      else if rule_createdAt a - rule_createdAt b \<noteq> 0 then rule_createdAt a - rule_createdAt b
      else if rule_id a < rule_id b then -1 else if rule_id a > rule_id b then 1 else 0)"

interpretation rules: consistent_cmp ruleOrder
  by unfold_locales (auto simp: ruleOrder_def split: if_splits)

section \<open>Band and workload targets\<close>

definition js_head :: "'a list \<Rightarrow> 'a option" where
  "js_head xs = (case xs of [] \<Rightarrow> None | x # _ \<Rightarrow> Some x)"

definition best_rule :: "(route_rule \<Rightarrow> bool) \<Rightarrow> route_rule list \<Rightarrow> route_rule option" where
  "best_rule P rs = js_head (js_sort ruleOrder (filter P rs))"

text \<open>The rule a band selects, with whether it is scoped to the request's class.\<close>

definition band_rule :: "route_rule list \<Rightarrow> string \<Rightarrow> string option \<Rightarrow> (route_rule \<times> bool) option"
  where
  "band_rule rs matchType scope =
     (let ofBand = filter (\<lambda>r. rule_matchType r = matchType) rs;
          scopedRule =
            (case scope of
               None \<Rightarrow> None
             | Some s \<Rightarrow> best_rule (\<lambda>r. rule_workloadClass r = Some s) ofBand)
      in case scopedRule of
           Some r \<Rightarrow> Some (r, True)
         | None \<Rightarrow>
             map_option (\<lambda>r. (r, False)) (best_rule (\<lambda>r. rule_workloadClass r = None) ofBand))"

definition resolveBandTarget ::
    "routing_snapshot \<Rightarrow> string \<Rightarrow> decision_layer \<Rightarrow> string \<Rightarrow> string option \<Rightarrow> route_decision option"
  where
  "resolveBandTarget snap matchType layer reason scope =
     (case band_rule (snap_rules snap) matchType scope of
        None \<Rightarrow> None
      | Some (r, scoped) \<Rightarrow>
          (case resolveTarget snap (rule_target r) layer reason of
             Inl _ \<Rightarrow> None
           | Inr d \<Rightarrow> Some (if scoped then d\<lparr>dec_scope := scope\<rparr> else d)))"

definition bandRuleIsScoped :: "routing_snapshot \<Rightarrow> string \<Rightarrow> string option \<Rightarrow> bool" where
  "bandRuleIsScoped snap matchType scope =
     (case scope of
        None \<Rightarrow> False
      | Some s \<Rightarrow>
          list_ex (\<lambda>r. rule_matchType r = matchType \<and> rule_workloadClass r = Some s)
            (snap_rules snap))"

definition resolveWorkloadTarget ::
    "routing_snapshot \<Rightarrow> string \<Rightarrow> string \<Rightarrow> route_decision option" where
  "resolveWorkloadTarget snap cls reason =
     (case best_rule (\<lambda>r. rule_matchType r = ''auto_workload'' \<and> rule_workloadClass r = Some cls)
              (snap_rules snap) of
        None \<Rightarrow> None
      | Some r \<Rightarrow>
          (case resolveTarget snap (rule_target r) LWorkload reason of
             Inl _ \<Rightarrow> None
           | Inr d \<Rightarrow> Some d))"

section \<open>The five phases\<close>

definition explicit_phase :: "routing_snapshot \<Rightarrow> resolution_mode \<Rightarrow> string \<Rightarrow> route_result" where
  "explicit_phase snap mode mf =
     (let qualified =
        (case index_of (CHR '':'') mf of
           None \<Rightarrow> None
         | Some colon \<Rightarrow>
             if colon > 0 then
               find (\<lambda>m. model_providerId m = take colon mf \<and>
                       model_externalModelId m = drop (colon + 1) mf) (snap_models snap)
             else None)
      in case qualified of
           Some m \<Rightarrow>
             if \<not> isRoutable m then Inl (batchOnlyError snap m)
             else Inr (modelDecision m LExplicit (''explicit model '' @ model_externalModelId m))
         | None \<Rightarrow>
             let matches = filter (\<lambda>m. model_externalModelId m = mf) (snap_models snap);
                 routable = filter isRoutable matches
             in case routable of
                  [m] \<Rightarrow> Inr (modelDecision m LExplicit (''explicit model '' @ mf))
                | _ # _ # _ \<Rightarrow> Inl (plain_error AmbiguousModel mf)
                | [] \<Rightarrow>
                    (case matches of
                       m # _ \<Rightarrow> Inl (batchOnlyError snap m)
                     | [] \<Rightarrow>
                         (case tierByKey snap mf of
                            Some tier \<Rightarrow>
                              resolveTier snap tier LExplicit (''explicit tier '' @ mf) mode
                          | None \<Rightarrow> Inl (plain_error UnknownModel mf))))"

definition with_header :: "string \<Rightarrow> string option \<Rightarrow> route_result \<Rightarrow> route_result" where
  "with_header n v r =
     (case r of
        Inl e \<Rightarrow> Inl e
      | Inr d \<Rightarrow> Inr (d\<lparr>dec_matchedHeader := Some \<lparr>mh_name = n, mh_value = v\<rparr>\<rparr>))"

definition is_remap :: "string \<Rightarrow> route_rule \<Rightarrow> bool" where
  "is_remap builtin r =
     (rule_matchType r = ''header'' \<and> rule_headerValue r = Some builtin \<and>
      js_lower (rule_headerName r) = TIER_HEADER_NAME)"

definition other_header_match :: "(string \<rightharpoonup> string) \<Rightarrow> route_rule \<Rightarrow> bool" where
  "other_header_match headers r =
     (rule_matchType r = ''header'' \<and> rule_headerValue r \<noteq> None \<and>
      js_lower (rule_headerName r) \<noteq> TIER_HEADER_NAME \<and>
      headers (js_lower (rule_headerName r)) = rule_headerValue r)"

definition tier_header_phase ::
    "routing_snapshot \<Rightarrow> resolution_mode \<Rightarrow> route_rule list \<Rightarrow> string option \<Rightarrow> route_result option"
  where
  "tier_header_phase snap mode rules builtin =
     (case builtin of
        None \<Rightarrow> None
      | Some v \<Rightarrow>
          if length v = 0 then None
          else case find (is_remap v) rules of
                 Some r \<Rightarrow>
                   Some (with_header (rule_headerName r) (rule_headerValue r)
                     (resolveTarget snap (rule_target r) LHeader
                        (''header rule '' @ rule_headerName r)))
               | None \<Rightarrow>
                   (case tierByKey snap v of
                      Some tier \<Rightarrow>
                        Some (with_header TIER_HEADER_NAME (Some (tier_key tier))
                          (resolveTier snap tier LHeader (TIER_HEADER_NAME @ '': '' @ v) mode))
                    | None \<Rightarrow> None))"

definition other_header_phase ::
    "routing_snapshot \<Rightarrow> route_rule list \<Rightarrow> (string \<rightharpoonup> string) \<Rightarrow> route_result option" where
  "other_header_phase snap rules headers =
     (case find (other_header_match headers) rules of
        None \<Rightarrow> None
      | Some r \<Rightarrow>
          Some (with_header (rule_headerName r) None
            (resolveTarget snap (rule_target r) LHeader (''header rule '' @ rule_headerName r))))"

definition default_phases ::
    "routing_snapshot \<Rightarrow> resolution_mode \<Rightarrow> route_rule list \<Rightarrow> string \<Rightarrow> route_result" where
  "default_phases snap mode rules mf =
     (case find (\<lambda>r. rule_matchType r = ''default'') rules of
        Some r \<Rightarrow> resolveTarget snap (rule_target r) LDefault ''default rule''
      | None \<Rightarrow>
          (case tierByKey snap DEFAULT_TIER_KEY of
             None \<Rightarrow>
               Inl \<lparr>err_kind = NoDefault, err_detail = None, err_baseModelId = None,
                    err_baseIsRoutable = None\<rparr>
           | Some t \<Rightarrow>
               resolveTier snap t LDefault
                 (if mf = AUTO_ALIAS then ''auto -> default tier'' else ''default tier'') mode))"

definition resolveRoute :: "routing_snapshot \<Rightarrow> parsed_route \<Rightarrow> route_result" where
  "resolveRoute snap parsed =
     (let mf = pr_modelField parsed;
          mode = (case pr_mode parsed of None \<Rightarrow> SyncRes | Some m \<Rightarrow> m)
      in if length mf > 0 \<and> mf \<noteq> AUTO_ALIAS then explicit_phase snap mode mf
         else
           let rules = js_sort ruleOrder (snap_rules snap)
           in case tier_header_phase snap mode rules (pr_headers parsed TIER_HEADER_NAME) of
                Some r \<Rightarrow> r
              | None \<Rightarrow>
                  (case other_header_phase snap rules (pr_headers parsed) of
                     Some r \<Rightarrow> r
                   | None \<Rightarrow> default_phases snap mode rules mf))"

end
