(* ===== verification/RoutingFacts.thy ===== *)
theory RoutingFacts
  imports Routing
begin

text \<open>
  The properties of Layer-0 resolution: what a decision may contain (no unservable member, no
  reserved capacity on a synchronous walk, no header value that could be a credential), which
  phase wins, and that the order in which rules are stored is irrelevant.
\<close>

section \<open>What the lookups return\<close>

lemma modelById_SomeD: "modelById snap i = Some m \<Longrightarrow> m \<in> set (snap_models snap) \<and> model_id m = i"
  unfolding modelById_def by (auto dest: find_SomeD)

definition servable :: "routing_snapshot \<Rightarrow> route_target \<Rightarrow> bool" where
  "servable snap t = list_ex (\<lambda>m. target m = t \<and> isRoutable m) (snap_models snap)"

definition dec_primary :: "route_decision \<Rightarrow> route_target" where
  "dec_primary d =
     \<lparr>tgt_providerId = dec_providerId d, tgt_modelId = dec_modelId d,
      tgt_externalModelId = dec_externalModelId d\<rparr>"

definition servable_decision :: "routing_snapshot \<Rightarrow> route_decision \<Rightarrow> bool" where
  "servable_decision snap d =
     (dec_chain d \<noteq> [] \<and> servable snap (dec_primary d) \<and> list_all (servable snap) (dec_chain d))"

lemma servable_targetI: "m \<in> set (snap_models snap) \<Longrightarrow> isRoutable m \<Longrightarrow> servable snap (target m)"
  by (auto simp: servable_def list_ex_iff)

lemma chain_of_memD:
  "t \<in> set (chain_of snap es) \<Longrightarrow>
     \<exists>e m. e \<in> set es \<and> modelById snap (entry_modelId e) = Some m \<and> t = target m"
  by (auto simp: chain_of_def map_filter_def)

lemma chain_of_Nil [simp]: "chain_of snap [] = []"
  by (simp add: chain_of_def map_filter_def)

lemma chain_of_Cons:
  "chain_of snap (e # es) =
     (case modelById snap (entry_modelId e) of
        None \<Rightarrow> chain_of snap es
      | Some m \<Rightarrow> target m # chain_of snap es)"
  by (simp add: chain_of_def map_filter_simps split: option.splits)

lemma not_dropped_routable:
  "\<not> dropped snap mode e \<Longrightarrow> modelById snap (entry_modelId e) = Some m \<Longrightarrow> isRoutable m"
  by (auto simp: dropped_def nonRoutable_def)

lemma tier_primary_SomeD:
  assumes "tier_primary snap mode es = Some e"
  shows "e \<in> set es \<and> (mode = SyncRes \<longrightarrow> \<not> dropped snap mode e)"
  using assms
  by (auto simp: tier_primary_def Let_def filter_eq_Cons_iff dest!: find_SomeD
      split: resolution_mode.splits option.splits list.splits if_splits)

lemma resolveTier_InrD:
  assumes r: "resolveTier snap tier layer reason mode = Inr d"
  shows "\<exists>primary pm.
    tier_primary snap mode (js_sort position_cmp (tier_entries snap tier)) = Some primary \<and>
    modelById snap (entry_modelId primary) = Some pm \<and>
    (mode = BatchRes \<longrightarrow> isRoutable pm) \<and> dec_primary d = target pm \<and>
    dec_chain d = chain_of snap (case mode of BatchRes \<Rightarrow> [primary]
        | SyncRes \<Rightarrow> filter (\<lambda>e. \<not> dropped snap mode e)
             (js_sort position_cmp (tier_entries snap tier))) \<and>
    dec_chain d \<noteq> [] \<and> dec_tierKey d = Some (tier_key tier) \<and> dec_layer d = layer \<and>
    dec_matchedHeader d = None \<and> dec_scope d = None"
proof (cases "tier_primary snap mode (js_sort position_cmp (tier_entries snap tier))")
  case None
  with r show ?thesis by (simp add: resolveTier_def Let_def)
next
  case (Some primary)
  show ?thesis
  proof (cases "modelById snap (entry_modelId primary)")
    case None
    with Some r show ?thesis by (simp add: resolveTier_def Let_def)
  next
    case pm: (Some pm)
    from r Some pm show ?thesis
      unfolding resolveTier_def Let_def
      by (auto simp: dec_primary_def target_def split: if_splits)
  qed
qed

lemma resolveTier_servable:
  assumes "resolveTier snap tier layer reason mode = Inr d"
  shows "servable_decision snap d"
proof -
  let ?es = "js_sort position_cmp (tier_entries snap tier)"
  from resolveTier_InrD [OF assms] obtain primary pm where
    p: "tier_primary snap mode ?es = Some primary"
    and pm: "modelById snap (entry_modelId primary) = Some pm"
    and br: "mode = BatchRes \<longrightarrow> isRoutable pm" and dp: "dec_primary d = target pm"
    and ch: "dec_chain d = chain_of snap (case mode of BatchRes \<Rightarrow> [primary]
        | SyncRes \<Rightarrow> filter (\<lambda>e. \<not> dropped snap mode e) ?es)" and ne: "dec_chain d \<noteq> []"
    by blast
  have pr: "isRoutable pm"
    using br pm tier_primary_SomeD [OF p] by (cases mode) (auto intro: not_dropped_routable)
  have tpm: "servable snap (target pm)"
    using pr pm by (auto intro: servable_targetI dest: modelById_SomeD)
  have "servable snap t" if "t \<in> set (dec_chain d)" for t
  proof (cases mode)
    case BatchRes
    with that ch pm tpm show ?thesis by (simp add: chain_of_Cons)
  next
    case SyncRes
    with that ch obtain e m where "\<not> dropped snap mode e"
      "modelById snap (entry_modelId e) = Some m" "t = target m"
      by (auto dest!: chain_of_memD)
    then show ?thesis
      using not_dropped_routable modelById_SomeD servable_targetI by blast
  qed
  with dp ne tpm show ?thesis by (simp add: servable_decision_def list_all_iff)
qed

lemma modelDecision_servable:
  "m \<in> set (snap_models snap) \<Longrightarrow> isRoutable m \<Longrightarrow> servable_decision snap (modelDecision m l r)"
  by (auto simp: servable_decision_def modelDecision_def dec_primary_def
      intro: servable_targetI [unfolded target_def] servable_targetI)

lemma resolveTarget_servable: "resolveTarget snap tgt l r = Inr d \<Longrightarrow> servable_decision snap d"
  by (auto simp: resolveTarget_def split: option.splits routing_target.splits if_splits
      dest: modelById_SomeD intro: resolveTier_servable modelDecision_servable)

lemma servable_decision_header [simp]:
  "servable_decision snap (d\<lparr>dec_matchedHeader := h\<rparr>) = servable_decision snap d"
  "servable_decision snap (d\<lparr>dec_scope := s\<rparr>) = servable_decision snap d"
  by (simp_all add: servable_decision_def dec_primary_def)

lemma with_header_InrD:
  "with_header n v r = Inr d \<Longrightarrow>
     \<exists>d'. r = Inr d' \<and> d = d'\<lparr>dec_matchedHeader := Some \<lparr>mh_name = n, mh_value = v\<rparr>\<rparr>"
  by (auto simp: with_header_def split: sum.splits)

lemma filter_singletonD: "filter P xs = [x] \<Longrightarrow> x \<in> set xs \<and> P x"
  by (metis filter_eq_ConsD in_set_conv_decomp)

lemma modelDecision_fields [simp]:
  "dec_layer (modelDecision m l r) = l" "dec_matchedHeader (modelDecision m l r) = None"
  "dec_scope (modelDecision m l r) = None" "dec_primary (modelDecision m l r) = target m"
  "dec_chain (modelDecision m l r) = [target m]"
  by (simp_all add: modelDecision_def dec_primary_def target_def)

lemma explicit_phase_InrD:
  assumes "explicit_phase snap mode mf = Inr d"
  shows "(\<exists>m r. m \<in> set (snap_models snap) \<and> isRoutable m \<and> d = modelDecision m LExplicit r) \<or>
    (\<exists>tier. resolveTier snap tier LExplicit (''explicit tier '' @ mf) mode = Inr d)"
  using assms
  unfolding explicit_phase_def Let_def
  by (auto split: option.splits if_splits list.splits dest!: find_SomeD filter_singletonD)

lemma resolveTarget_InrD:
  assumes "resolveTarget snap tgt l r = Inr d"
  shows "(\<exists>m. m \<in> set (snap_models snap) \<and> isRoutable m \<and> d = modelDecision m l r) \<or>
    (\<exists>tier. resolveTier snap tier l r SyncRes = Inr d)"
  using assms
  unfolding resolveTarget_def
  by (auto split: option.splits routing_target.splits if_splits dest: modelById_SomeD)

lemma resolveTarget_layer:
  "resolveTarget snap tgt l r = Inr d \<Longrightarrow> dec_layer d = l \<and> dec_matchedHeader d = None"
  by (auto dest!: resolveTarget_InrD resolveTier_InrD)

text \<open>The sources a decision can have, with the header each one records.\<close>

lemma tier_header_phase_InrD:
  assumes "tier_header_phase snap mode rules builtin = Some (Inr d)"
  shows "\<exists>v d'. builtin = Some v \<and> servable_decision snap d' \<and> dec_layer d' = LHeader \<and>
    ((\<exists>r. find (is_remap v) rules = Some r \<and>
        d = d'\<lparr>dec_matchedHeader := Some \<lparr>mh_name = rule_headerName r, mh_value = rule_headerValue r\<rparr>\<rparr>) \<or>
     (\<exists>t. tierByKey snap v = Some t \<and>
        d = d'\<lparr>dec_matchedHeader := Some \<lparr>mh_name = TIER_HEADER_NAME, mh_value = Some (tier_key t)\<rparr>\<rparr>))"
proof -
  from assms obtain v where v: "builtin = Some v"
    by (auto simp: tier_header_phase_def split: option.splits)
  show ?thesis
  proof (cases "find (is_remap v) rules")
    case (Some r)
    with assms v have "with_header (rule_headerName r) (rule_headerValue r)
        (resolveTarget snap (rule_target r) LHeader (''header rule '' @ rule_headerName r)) = Inr d"
      by (simp add: tier_header_phase_def split: if_splits)
    from with_header_InrD [OF this] obtain d' where
      d': "resolveTarget snap (rule_target r) LHeader (''header rule '' @ rule_headerName r) = Inr d'"
      "d = d'\<lparr>dec_matchedHeader := Some \<lparr>mh_name = rule_headerName r, mh_value = rule_headerValue r\<rparr>\<rparr>"
      by (elim exE conjE)
    show ?thesis
    proof (intro exI [of _ v] exI [of _ d'] conjI disjI1 exI [of _ r])
      show "servable_decision snap d'" using d'(1) by (rule resolveTarget_servable)
      show "dec_layer d' = LHeader" using resolveTarget_layer [OF d'(1)] by (rule conjunct1)
    qed (fact v Some d'(2))+
  next
    case None
    with assms v obtain t where t: "tierByKey snap v = Some t"
      and "with_header TIER_HEADER_NAME (Some (tier_key t))
        (resolveTier snap t LHeader (TIER_HEADER_NAME @ '': '' @ v) mode) = Inr d"
      by (simp add: tier_header_phase_def split: if_splits option.splits)
    from with_header_InrD [OF this(2)] obtain d' where
      d': "resolveTier snap t LHeader (TIER_HEADER_NAME @ '': '' @ v) mode = Inr d'"
      "d = d'\<lparr>dec_matchedHeader := Some \<lparr>mh_name = TIER_HEADER_NAME, mh_value = Some (tier_key t)\<rparr>\<rparr>"
      by (elim exE conjE)
    show ?thesis
    proof (intro exI [of _ v] exI [of _ d'] conjI disjI2 exI [of _ t])
      show "servable_decision snap d'" using d'(1) by (rule resolveTier_servable)
      show "dec_layer d' = LHeader" using resolveTier_InrD [OF d'(1)] by (elim exE conjE)
    qed (fact v t d'(2))+
  qed
qed

lemma other_header_phase_InrD:
  assumes "other_header_phase snap rules headers = Some (Inr d)"
  shows "\<exists>r d'. find (other_header_match headers) rules = Some r \<and> servable_decision snap d' \<and>
    dec_layer d' = LHeader \<and>
    d = d'\<lparr>dec_matchedHeader := Some \<lparr>mh_name = rule_headerName r, mh_value = None\<rparr>\<rparr>"
proof -
  from assms obtain r where f: "find (other_header_match headers) rules = Some r"
    and "with_header (rule_headerName r) None
      (resolveTarget snap (rule_target r) LHeader (''header rule '' @ rule_headerName r)) = Inr d"
    by (simp add: other_header_phase_def split: option.splits)
  from with_header_InrD [OF this(2)] obtain d' where
    d': "resolveTarget snap (rule_target r) LHeader (''header rule '' @ rule_headerName r) = Inr d'"
    "d = d'\<lparr>dec_matchedHeader := Some \<lparr>mh_name = rule_headerName r, mh_value = None\<rparr>\<rparr>"
    by (elim exE conjE)
  show ?thesis
  proof (intro exI [of _ r] exI [of _ d'] conjI)
    show "servable_decision snap d'" using d'(1) by (rule resolveTarget_servable)
    show "dec_layer d' = LHeader" using resolveTarget_layer [OF d'(1)] by (rule conjunct1)
  qed (fact f d'(2))+
qed

lemma default_phases_InrD:
  assumes "default_phases snap mode rules mf = Inr d"
  shows "servable_decision snap d \<and> dec_layer d = LDefault \<and> dec_matchedHeader d = None"
  using assms resolveTier_InrD resolveTarget_layer resolveTarget_servable resolveTier_servable
  unfolding default_phases_def
  by (fastforce split: option.splits)

lemma explicit_phase_decision:
  assumes "explicit_phase snap mode mf = Inr d"
  shows "servable_decision snap d \<and> dec_layer d = LExplicit \<and> dec_matchedHeader d = None"
  using explicit_phase_InrD [OF assms] resolveTier_InrD modelDecision_servable resolveTier_servable
  by fastforce

lemma resolveRoute_cases:
  "resolveRoute snap p = r \<Longrightarrow>
     (length (pr_modelField p) > 0 \<and> pr_modelField p \<noteq> AUTO_ALIAS \<and>
        explicit_phase snap (case pr_mode p of None \<Rightarrow> SyncRes | Some m \<Rightarrow> m) (pr_modelField p) = r) \<or>
     tier_header_phase snap (case pr_mode p of None \<Rightarrow> SyncRes | Some m \<Rightarrow> m)
        (js_sort ruleOrder (snap_rules snap)) (pr_headers p TIER_HEADER_NAME) = Some r \<or>
     other_header_phase snap (js_sort ruleOrder (snap_rules snap)) (pr_headers p) = Some r \<or>
     default_phases snap (case pr_mode p of None \<Rightarrow> SyncRes | Some m \<Rightarrow> m)
        (js_sort ruleOrder (snap_rules snap)) (pr_modelField p) = r"
  unfolding resolveRoute_def Let_def by (auto split: if_splits option.splits)

section \<open>A snapshot to evaluate\<close>

text \<open>A routable model and its batch-priced twin, a chain that starts with the twin, a chain with
  a reserved member, and rules of several kinds.\<close>

definition demo_models :: "route_model list" where
  "demo_models =
     [\<lparr>model_id = ''m1'', model_providerId = ''p1'', model_externalModelId = ''x:batch'',
       model_variant = Some ''batch''\<rparr>,
      \<lparr>model_id = ''m2'', model_providerId = ''p1'', model_externalModelId = ''x'',
       model_variant = None\<rparr>,
      \<lparr>model_id = ''m3'', model_providerId = ''p2'', model_externalModelId = ''y'',
       model_variant = Some ''free''\<rparr>]"

definition demo_rule ::
    "string \<Rightarrow> string \<Rightarrow> string \<Rightarrow> string option \<Rightarrow> string \<Rightarrow> int \<Rightarrow> route_rule" where
  "demo_rule i mt hn hv t pr =
     \<lparr>rule_id = i, rule_matchType = mt, rule_headerName = hn, rule_headerValue = hv,
      rule_workloadClass = None, rule_target = t, rule_priority = pr, rule_createdAt = 0\<rparr>"

definition demo_snapshot :: routing_snapshot where
  "demo_snapshot =
     \<lparr>snap_tiers =
        [\<lparr>tier_id = ''t1'', tier_key = ''fast''\<rparr>, \<lparr>tier_id = ''t2'', tier_key = ''default''\<rparr>],
      snap_entriesByTierId =
        [''t1'' \<mapsto> [\<lparr>entry_modelId = ''m3'', entry_position = 2, entry_mode = AnyMode\<rparr>,
                    \<lparr>entry_modelId = ''m1'', entry_position = 0, entry_mode = AnyMode\<rparr>,
                    \<lparr>entry_modelId = ''m2'', entry_position = 1, entry_mode = AnyMode\<rparr>],
         ''t2'' \<mapsto> [\<lparr>entry_modelId = ''m2'', entry_position = 0, entry_mode = AnyMode\<rparr>,
                    \<lparr>entry_modelId = ''m3'', entry_position = 1, entry_mode = BatchMode\<rparr>]],
      snap_rules =
        [demo_rule ''r1'' ''header'' ''X-Env'' (Some ''prod'') ''tier:fast'' 1,
         demo_rule ''r2'' ''header'' ''X-Polyrouter-Tier'' (Some ''shopping'') ''model:m3'' 0,
         demo_rule ''r3'' ''auto_low'' [] None ''tier:fast'' 0],
      snap_models = demo_models\<rparr>"

definition demo_request :: "string \<Rightarrow> (string \<rightharpoonup> string) \<Rightarrow> parsed_route" where
  "demo_request mf hs = \<lparr>pr_modelField = mf, pr_headers = hs, pr_mode = None\<rparr>"

definition demo_decision :: "route_target list \<Rightarrow> decision_layer \<Rightarrow> string option \<Rightarrow> string \<Rightarrow>
    matched_header option \<Rightarrow> route_decision" where
  "demo_decision chain layer tk reason mh =
     \<lparr>dec_providerId = tgt_providerId (hd chain), dec_modelId = tgt_modelId (hd chain),
      dec_externalModelId = tgt_externalModelId (hd chain), dec_tierKey = tk, dec_layer = layer,
      dec_reason = reason, dec_scope = None, dec_matchedHeader = mh, dec_chain = chain\<rparr>"

section \<open>Properties\<close>

text \<open>C7 (safety). A decision of \<open>resolveRoute\<close>, whichever phase made it and in either resolution
  mode, has a non-empty fallback chain, and every member of the chain as well as the primary is a
  model of the snapshot that is routable: no request is ever dispatched to a batch-priced twin.\<close>

theorem resolveRoute_servable: "resolveRoute snap p = Inr d \<Longrightarrow> servable_decision snap d"
  by (drule resolveRoute_cases)
    (auto dest!: explicit_phase_decision tier_header_phase_InrD other_header_phase_InrD
      default_phases_InrD)

lemma demo_fast: "resolveRoute demo_snapshot (demo_request ''fast'' Map.empty) =
  Inr (demo_decision [target (demo_models ! 1), target (demo_models ! 2)] LExplicit (Some ''fast'')
    ''explicit tier fast (excluded 1 batch-only)'' None)"
  by code_simp

theorem resolveRoute_servable_witness:
  "servable_decision demo_snapshot
     (demo_decision [target (demo_models ! 1), target (demo_models ! 2)] LExplicit (Some ''fast'')
        ''explicit tier fast (excluded 1 batch-only)'' None)"
  by (rule resolveRoute_servable [OF demo_fast])

text \<open>A decision names a matched header exactly when a header chose the route, and the
  recorded value is null unless the header is the built-in tier header, where it is a tier key or
  rule value of the owned configuration: a rule on any other header, whose value can be a
  credential, is recorded by name only.\<close>

theorem matched_header_no_secret:
  assumes "resolveRoute snap p = Inr d"
  shows "(dec_matchedHeader d \<noteq> None) = (dec_layer d = LHeader) \<and>
    (case dec_matchedHeader d of
       None \<Rightarrow> True
     | Some h \<Rightarrow>
         (case mh_value h of
            None \<Rightarrow> js_lower (mh_name h) \<noteq> TIER_HEADER_NAME
          | Some v \<Rightarrow> js_lower (mh_name h) = TIER_HEADER_NAME \<and>
              (v \<in> tier_key ` set (snap_tiers snap) \<or>
               Some v \<in> rule_headerValue ` set (snap_rules snap))))"
  using resolveRoute_cases [OF assms]
proof (elim disjE conjE)
  assume "tier_header_phase snap (case pr_mode p of None \<Rightarrow> SyncRes | Some m \<Rightarrow> m)
    (js_sort ruleOrder (snap_rules snap)) (pr_headers p TIER_HEADER_NAME) = Some (Inr d)"
  then show ?thesis
    by (auto dest!: tier_header_phase_InrD find_SomeD
        simp: is_remap_def tierByKey_def TIER_HEADER_NAME_def js_lower_char_def Let_def image_iff
        split: option.splits) metis+
next
  assume "other_header_phase snap (js_sort ruleOrder (snap_rules snap)) (pr_headers p) =
    Some (Inr d)"
  then show ?thesis
    by (auto dest!: other_header_phase_InrD find_SomeD simp: other_header_match_def)
qed (auto dest!: explicit_phase_decision default_phases_InrD)

lemma demo_other_header: "resolveRoute demo_snapshot (demo_request ''auto'' [''x-env'' \<mapsto> ''prod'']) =
  Inr (demo_decision [target (demo_models ! 1), target (demo_models ! 2)] LHeader (Some ''fast'')
    ''header rule X-Env (excluded 1 batch-only)'' (Some \<lparr>mh_name = ''X-Env'', mh_value = None\<rparr>))"
  by code_simp

theorem matched_header_no_secret_witness:
  "dec_matchedHeader
     (demo_decision [target (demo_models ! 1), target (demo_models ! 2)] LHeader (Some ''fast'')
       ''header rule X-Env (excluded 1 batch-only)'' (Some \<lparr>mh_name = ''X-Env'', mh_value = None\<rparr>)) \<noteq> None"
  using matched_header_no_secret [OF demo_other_header] by (simp add: demo_decision_def)

text \<open>Only the tiers, entries and models of the snapshot matter once a rule is chosen.\<close>

lemma batchOnlyError_rules [simp]: "batchOnlyError (snap\<lparr>snap_rules := rs\<rparr>) m = batchOnlyError snap m"
  by (simp add: batchOnlyError_def split: option.split)

lemma modelById_rules [simp]: "modelById (snap\<lparr>snap_rules := rs\<rparr>) i = modelById snap i"
  by (simp add: modelById_def)

lemma tierByKey_rules [simp]: "tierByKey (snap\<lparr>snap_rules := rs\<rparr>) k = tierByKey snap k"
  by (simp add: tierByKey_def)

lemma dropped_rules [simp]:
  "nonRoutable (snap\<lparr>snap_rules := rs\<rparr>) = nonRoutable snap"
  "dropped (snap\<lparr>snap_rules := rs\<rparr>) = dropped snap"
  by (auto simp: nonRoutable_def dropped_def fun_eq_iff)

lemma tier_parts_rules [simp]:
  "tier_entries (snap\<lparr>snap_rules := rs\<rparr>) = tier_entries snap"
  "chain_of (snap\<lparr>snap_rules := rs\<rparr>) = chain_of snap"
  "tier_primary (snap\<lparr>snap_rules := rs\<rparr>) = tier_primary snap"
  by (auto simp: tier_entries_def chain_of_def tier_primary_def fun_eq_iff Let_def
      split: option.split resolution_mode.split list.split)

lemma resolveTier_rules [simp]: "resolveTier (snap\<lparr>snap_rules := rs\<rparr>) = resolveTier snap"
  by (simp add: resolveTier_def fun_eq_iff Let_def split: option.split)

lemma resolveTarget_rules [simp]: "resolveTarget (snap\<lparr>snap_rules := rs\<rparr>) = resolveTarget snap"
  by (simp add: resolveTarget_def fun_eq_iff split: option.split routing_target.split)

lemma phases_rules [simp]:
  "explicit_phase (snap\<lparr>snap_rules := rs\<rparr>) = explicit_phase snap"
  "tier_header_phase (snap\<lparr>snap_rules := rs\<rparr>) = tier_header_phase snap"
  "other_header_phase (snap\<lparr>snap_rules := rs\<rparr>) = other_header_phase snap"
  "default_phases (snap\<lparr>snap_rules := rs\<rparr>) = default_phases snap"
  by (simp_all add: explicit_phase_def tier_header_phase_def other_header_phase_def
      default_phases_def fun_eq_iff Let_def cong: case_congs)

lemma ruleOrder_antisym:
  "ruleOrder a b \<le> 0 \<Longrightarrow> ruleOrder b a \<le> 0 \<Longrightarrow> rule_id a = rule_id b"
  by (auto simp: ruleOrder_def split: if_splits)

lemma sort_rules_perm:
  assumes "distinct (map rule_id rs)" "mset rs' = mset rs"
  shows "js_sort ruleOrder rs' = js_sort ruleOrder rs"
proof (rule rules.sort_perm [symmetric])
  show "mset rs = mset rs'" by (simp add: assms)
  fix a b assume "a \<in> set rs" "b \<in> set rs" "ruleOrder a b \<le> 0" "ruleOrder b a \<le> 0"
  then show "a = b" using assms(1) ruleOrder_antisym inj_onD
    by (metis distinct_map)
qed

text \<open>C27 (equivalence). The order in which a tenant's rules are stored never changes a route: for
  rules with distinct ids, \<open>resolveRoute\<close> and \<open>resolveBandTarget\<close> give the same answer on every
  permutation of them.\<close>

theorem rule_storage_order_irrelevant:
  assumes "distinct (map rule_id (snap_rules snap))" and "mset rs' = mset (snap_rules snap)"
  shows "resolveRoute (snap\<lparr>snap_rules := rs'\<rparr>) p = resolveRoute snap p \<and>
    resolveBandTarget (snap\<lparr>snap_rules := rs'\<rparr>) mt l r sc = resolveBandTarget snap mt l r sc"
proof -
  have s: "js_sort ruleOrder (filter P rs') = js_sort ruleOrder (filter P (snap_rules snap))" for P
    using sort_rules_perm [OF assms] by (metis rules.filter_sort)
  then have "band_rule rs' mt sc = band_rule (snap_rules snap) mt sc"
    by (simp add: band_rule_def best_rule_def cong: option.case_cong)
  moreover from s [of "\<lambda>_. True"] have "js_sort ruleOrder rs' = js_sort ruleOrder (snap_rules snap)"
    by simp
  ultimately show ?thesis
    by (simp add: resolveRoute_def resolveBandTarget_def Let_def cong: case_congs)
qed

theorem rule_storage_order_irrelevant_witness:
  "resolveRoute (demo_snapshot\<lparr>snap_rules := rev (snap_rules demo_snapshot)\<rparr>)
       (demo_request [] [''x-env'' \<mapsto> ''prod'']) =
     resolveRoute demo_snapshot (demo_request [] [''x-env'' \<mapsto> ''prod''])"
  using rule_storage_order_irrelevant [of demo_snapshot "rev (snap_rules demo_snapshot)"]
  by (simp add: demo_snapshot_def demo_rule_def)

text \<open>The per-request tier header cannot be shadowed: when a request made no model
  selection and its \<open>x-polyrouter-tier\<close> value names an owned tier or matches a tier-header rule,
  the route is the one obtained with every rule on another header (of whatever priority), every
  default rule and every band rule deleted.\<close>

theorem tier_header_not_shadowed:
  assumes mf: "pr_modelField p \<in> {[], AUTO_ALIAS}"
    and hdr: "pr_headers p TIER_HEADER_NAME = Some v" "v \<noteq> []"
    and named: "tierByKey snap v \<noteq> None \<or> list_ex (is_remap v) (snap_rules snap)"
  shows "resolveRoute snap p =
    resolveRoute (snap\<lparr>snap_rules := filter (is_remap v) (snap_rules snap)\<rparr>) p"
proof -
  let ?rs = "js_sort ruleOrder (snap_rules snap)"
  let ?rs' = "js_sort ruleOrder (filter (is_remap v) (snap_rules snap))"
  have f: "find (is_remap v) ?rs' = find (is_remap v) ?rs"
    by (rule rules.find_sort_filter)
  have "find (is_remap v) ?rs \<noteq> None" if "tierByKey snap v = None"
    using named that by (auto simp: find_None_iff list_ex_iff)
  then have "tier_header_phase snap mode ?rs (Some v) \<noteq> None" for mode
    using hdr(2) by (auto simp: tier_header_phase_def split: option.splits)
  then obtain r where r:
    "tier_header_phase snap (case pr_mode p of None \<Rightarrow> SyncRes | Some m \<Rightarrow> m) ?rs (Some v) = Some r"
    by blast
  then have "tier_header_phase snap (case pr_mode p of None \<Rightarrow> SyncRes | Some m \<Rightarrow> m) ?rs' (Some v) = Some r"
    using hdr(2) by (simp add: tier_header_phase_def f)
  with r mf hdr have "resolveRoute snap p = r"
    "resolveRoute (snap\<lparr>snap_rules := filter (is_remap v) (snap_rules snap)\<rparr>) p = r"
    by (auto simp: resolveRoute_def)
  then show ?thesis by simp
qed

theorem tier_header_not_shadowed_witness:
  "resolveRoute demo_snapshot
       (demo_request ''auto'' [''x-polyrouter-tier'' \<mapsto> ''shopping'', ''x-env'' \<mapsto> ''prod'']) =
     resolveRoute (demo_snapshot\<lparr>snap_rules := [snap_rules demo_snapshot ! 1]\<rparr>)
       (demo_request ''auto'' [''x-polyrouter-tier'' \<mapsto> ''shopping'', ''x-env'' \<mapsto> ''prod''])"
proof -
  let ?p = "demo_request ''auto'' [''x-polyrouter-tier'' \<mapsto> ''shopping'', ''x-env'' \<mapsto> ''prod'']"
  have "filter (is_remap ''shopping'') (snap_rules demo_snapshot) = [snap_rules demo_snapshot ! 1]"
    by code_simp
  moreover have "list_ex (is_remap ''shopping'') (snap_rules demo_snapshot)" by code_simp
  ultimately show ?thesis
    using tier_header_not_shadowed [of ?p "''shopping''" demo_snapshot]
    by (simp add: demo_request_def AUTO_ALIAS_def TIER_HEADER_NAME_def)
qed

text \<open>A non-empty model field other than the \<open>auto\<close> alias decides alone: no
  request header and no rule of the tenant can change where an explicitly named model or tier goes,
  and a name that is neither is an error, never a silent default.\<close>

theorem explicit_selection_terminates:
  assumes "pr_modelField p \<noteq> []" "pr_modelField p \<noteq> AUTO_ALIAS"
  shows "resolveRoute snap p = resolveRoute (snap\<lparr>snap_rules := rs\<rparr>) (p\<lparr>pr_headers := hs\<rparr>) \<and>
    (case resolveRoute snap p of Inl _ \<Rightarrow> True | Inr d \<Rightarrow> dec_layer d = LExplicit)"
proof -
  obtain mode where m: "resolveRoute snap p = explicit_phase snap mode (pr_modelField p)"
    "resolveRoute (snap\<lparr>snap_rules := rs\<rparr>) (p\<lparr>pr_headers := hs\<rparr>) =
       explicit_phase snap mode (pr_modelField p)"
    using assms by (auto simp: resolveRoute_def)
  then show ?thesis
    by (auto split: sum.split dest: explicit_phase_decision)
qed

theorem explicit_selection_terminates_witness:
  "resolveRoute demo_snapshot (demo_request ''nope'' Map.empty) =
     resolveRoute (demo_snapshot\<lparr>snap_rules := []\<rparr>)
       ((demo_request ''nope'' Map.empty)\<lparr>pr_headers := [''x-polyrouter-tier'' \<mapsto> ''fast'']\<rparr>)"
  using explicit_selection_terminates [of "demo_request ''nope'' Map.empty"]
  by (simp add: demo_request_def AUTO_ALIAS_def)

text \<open>C28 (safety). A synchronous tier resolution never uses capacity reserved for batch work: every
  member of its chain comes from an unreserved entry of the tier whose model is routable, in
  configured position order.\<close>

theorem sync_reservation_respected:
  assumes "resolveTier snap tier layer reason SyncRes = Inr d"
  shows "dec_chain d = chain_of snap
      (js_sort position_cmp
         (filter (\<lambda>e. entry_mode e = AnyMode \<and> \<not> nonRoutable snap e) (tier_entries snap tier)))"
proof -
  have "(\<lambda>e. \<not> dropped snap SyncRes e) = (\<lambda>e. entry_mode e = AnyMode \<and> \<not> nonRoutable snap e)"
    by (rule ext) (metis dropped_def reserved_def entry_mode.exhaust entry_mode.distinct(1))
  with resolveTier_InrD [OF assms] show ?thesis
    by (auto simp: position.filter_sort)
qed

theorem sync_reservation_respected_witness:
  "\<exists>d. resolveTier demo_snapshot (snap_tiers demo_snapshot ! 1) LDefault ''d'' SyncRes = Inr d \<and>
     dec_chain d = [target (demo_models ! 1)]"
proof -
  have d: "resolveTier demo_snapshot (snap_tiers demo_snapshot ! 1) LDefault ''d'' SyncRes =
    Inr (demo_decision [target (demo_models ! 1)] LDefault (Some ''default'')
      ''d (excluded 1 batch-reserved)'' None)"
    by code_simp
  have "chain_of demo_snapshot
      (js_sort position_cmp
         (filter (\<lambda>e. entry_mode e = AnyMode \<and> \<not> nonRoutable demo_snapshot e)
            (tier_entries demo_snapshot (snap_tiers demo_snapshot ! 1)))) =
    [target (demo_models ! 1)]"
    by code_simp
  with d sync_reservation_respected [OF d] show ?thesis by simp
qed

section \<open>The primary and the batch candidate\<close>

lemma find_zero_first:
  assumes "sorted_wrt (\<lambda>a b. position_cmp a b \<le> 0) es"
    and "\<And>e. e \<in> set es \<Longrightarrow> 0 \<le> entry_position e" and "find (\<lambda>e. entry_position e = 0) es = Some z"
  shows "hd es = z"
  using assms by (cases es) (force simp: position_cmp_def dest: find_SomeD split: if_splits)+

text \<open>On a synchronous resolution the fallback walk starts at the decision's own
  primary: when positions are non-negative (the database's constraint), the head of the chain is the
  provider and model the decision names.\<close>

theorem sync_chain_starts_at_primary:
  assumes r: "resolveTier snap tier layer reason SyncRes = Inr d"
    and pos: "\<And>e. e \<in> set (tier_entries snap tier) \<Longrightarrow> 0 \<le> entry_position e"
  shows "hd (dec_chain d) = dec_primary d"
proof -
  let ?all = "js_sort position_cmp (tier_entries snap tier)"
  let ?entries = "filter (\<lambda>e. \<not> dropped snap SyncRes e) ?all"
  from resolveTier_InrD [OF r] obtain e m where
    e: "tier_primary snap SyncRes ?all = Some e" "modelById snap (entry_modelId e) = Some m"
    and d: "dec_primary d = target m" "dec_chain d = chain_of snap ?entries" by auto
  obtain z where z: "find (\<lambda>e. entry_position e = 0) ?all = Some z"
    and ez: "if dropped snap SyncRes z then \<exists>es. ?entries = e # es else e = z"
    using e(1) by (auto simp: tier_primary_def Let_def split: option.splits if_splits list.splits)
  have "\<exists>es. ?entries = e # es"
  proof (cases "dropped snap SyncRes z")
    case False
    have "hd ?all = z" using position.sorted_sort pos z by (intro find_zero_first) auto
    moreover have "?all \<noteq> []" using z by auto
    ultimately obtain es where "?all = z # es" by (cases ?all) auto
    with False ez show ?thesis by simp
  qed (use ez in simp)
  then obtain es where "?entries = e # es" by blast
  with d e(2) show ?thesis by (simp add: chain_of_Cons)
qed

theorem sync_chain_starts_at_primary_witness:
  "hd (dec_chain (demo_decision [target (demo_models ! 1), target (demo_models ! 2)] LExplicit
      (Some ''fast'') ''f (excluded 1 batch-only)'' None)) = target (demo_models ! 1)"
proof -
  have r: "resolveTier demo_snapshot (snap_tiers demo_snapshot ! 0) LExplicit ''f'' SyncRes =
    Inr (demo_decision [target (demo_models ! 1), target (demo_models ! 2)] LExplicit
      (Some ''fast'') ''f (excluded 1 batch-only)'' None)"
    by code_simp
  have "hd (dec_chain (demo_decision [target (demo_models ! 1), target (demo_models ! 2)] LExplicit
      (Some ''fast'') ''f (excluded 1 batch-only)'' None)) =
    dec_primary (demo_decision [target (demo_models ! 1), target (demo_models ! 2)] LExplicit
      (Some ''fast'') ''f (excluded 1 batch-only)'' None)"
    by (rule sync_chain_starts_at_primary [OF r])
      (auto simp: tier_entries_def demo_snapshot_def)
  then show ?thesis by (simp add: demo_decision_def)
qed

lemma find_sorted_least:
  assumes "sorted_wrt (\<lambda>a b. position_cmp a b \<le> 0) es" "find P es = Some z" "e \<in> set es" "P e"
  shows "entry_position z \<le> entry_position e"
  using assms by (induction es) (auto simp: position_cmp_def split: if_splits)

text \<open>A batch resolution has exactly one candidate and never promotes: it is the
  lowest-position reserved entry when the tier holds a reserved entry, otherwise the position-0
  entry, and its model is routable.\<close>

theorem batch_single_candidate:
  assumes "resolveTier snap tier layer reason BatchRes = Inr d"
  shows "\<exists>e m. e \<in> set (tier_entries snap tier) \<and> modelById snap (entry_modelId e) = Some m \<and>
    isRoutable m \<and> dec_chain d = [target m] \<and>
    (if list_ex (\<lambda>x. entry_mode x = BatchMode) (tier_entries snap tier)
     then entry_mode e = BatchMode \<and>
       list_all (\<lambda>x. entry_mode x = BatchMode \<longrightarrow> entry_position e \<le> entry_position x)
         (tier_entries snap tier)
     else entry_position e = 0)"
proof -
  let ?all = "js_sort position_cmp (tier_entries snap tier)"
  from resolveTier_InrD [OF assms] obtain e m where
    e: "tier_primary snap BatchRes ?all = Some e" "modelById snap (entry_modelId e) = Some m"
    and d: "isRoutable m" "dec_chain d = [target m]" by (auto simp: chain_of_Cons)
  have mem: "e \<in> set (tier_entries snap tier)" using tier_primary_SomeD [OF e(1)] by simp
  have "if list_ex (\<lambda>x. entry_mode x = BatchMode) (tier_entries snap tier)
     then entry_mode e = BatchMode \<and>
       list_all (\<lambda>x. entry_mode x = BatchMode \<longrightarrow> entry_position e \<le> entry_position x)
         (tier_entries snap tier)
     else entry_position e = 0"
  proof (cases "find (\<lambda>e. entry_mode e = BatchMode) ?all")
    case None
    with e(1) show ?thesis
      by (auto simp: tier_primary_def find_None_iff list_ex_iff dest!: find_SomeD)
  next
    case (Some z)
    with e(1) have "z = e" by (simp add: tier_primary_def)
    with Some mem find_sorted_least [OF position.sorted_sort Some] show ?thesis
      by (auto simp: list_all_iff list_ex_iff dest!: find_SomeD)
  qed
  with mem e(2) d show ?thesis by blast
qed

theorem batch_single_candidate_witness:
  "\<exists>e m. e \<in> set (tier_entries demo_snapshot (snap_tiers demo_snapshot ! 1)) \<and>
     modelById demo_snapshot (entry_modelId e) = Some m \<and> isRoutable m \<and>
     [target (demo_models ! 2)] = [target m]"
proof -
  have r: "resolveTier demo_snapshot (snap_tiers demo_snapshot ! 1) LExplicit ''b'' BatchRes =
    Inr (demo_decision [target (demo_models ! 2)] LExplicit (Some ''default'') ''b'' None)"
    by code_simp
  from batch_single_candidate [OF r] show ?thesis by (auto simp: demo_decision_def)
qed

section \<open>Bands\<close>

lemma js_head_Some_iff: "js_head xs = Some x \<longleftrightarrow> (\<exists>ys. xs = x # ys)"
  by (auto simp: js_head_def split: list.splits)

lemma best_rule_SomeD:
  assumes "best_rule P rs = Some r"
  shows "r \<in> set rs \<and> P r \<and> (\<forall>x. x \<in> set rs \<and> P x \<longrightarrow> ruleOrder r x \<le> 0)"
proof -
  from assms obtain ys where s: "js_sort ruleOrder (filter P rs) = r # ys"
    by (auto simp: best_rule_def js_head_Some_iff)
  then have "set (filter P rs) = set (r # ys)" by (metis set_js_sort)
  moreover have "ruleOrder r x \<le> 0" if "x \<in> set (filter P rs)" for x
    using rules.hd_sort_least [OF that] s by simp
  ultimately show ?thesis by (auto simp: set_eq_iff)
qed

lemma best_rule_None_iff: "best_rule P rs = None \<longleftrightarrow> \<not> list_ex P rs"
  by (auto simp: best_rule_def js_head_def filter_empty_conv list_ex_iff split: list.split)
    (metis filter_empty_conv js_sort_eq_Nil_iff list.distinct(1))

text \<open>Band selection under a workload class. If a rule of the band is scoped to the
  class, the highest-priority scoped rule decides alone: the decision carries the class, and an
  unresolvable scoped rule makes the band unroutable instead of falling back to a generic rule. If
  none is, the scope changes nothing.\<close>

theorem scoped_band_exclusive:
  "if bandRuleIsScoped snap mt (Some s)
   then resolveBandTarget snap mt l r (Some s) =
          resolveBandTarget (snap\<lparr>snap_rules := filter (\<lambda>x. rule_workloadClass x = Some s)
             (snap_rules snap)\<rparr>) mt l r (Some s) \<and>
        (case resolveBandTarget snap mt l r (Some s) of None \<Rightarrow> True | Some d \<Rightarrow> dec_scope d = Some s)
   else resolveBandTarget snap mt l r (Some s) = resolveBandTarget snap mt l r None"
proof -
  let ?scoped = "best_rule (\<lambda>x. rule_workloadClass x = Some s)
      (filter (\<lambda>x. rule_matchType x = mt) (snap_rules snap))"
  have iff: "bandRuleIsScoped snap mt (Some s) \<longleftrightarrow> ?scoped \<noteq> None"
    by (auto simp: bandRuleIsScoped_def best_rule_None_iff list_ex_iff)
  have flt: "best_rule (\<lambda>x. rule_workloadClass x = Some s) (filter (\<lambda>x. rule_matchType x = mt)
        (filter (\<lambda>x. rule_workloadClass x = Some s) (snap_rules snap))) = ?scoped"
    by (simp add: best_rule_def) (metis (mono_tags, lifting) filter_cong)
  show ?thesis
  proof (cases ?scoped)
    case None
    with iff show ?thesis
      by (auto simp: resolveBandTarget_def band_rule_def split: option.split sum.split)
  next
    case (Some x)
    with iff flt show ?thesis
      by (auto simp: resolveBandTarget_def band_rule_def split: sum.split)
  qed
qed

section \<open>Refusals\<close>

text \<open>The alternative a \<open>batch_only_model\<close> refusal offers is a route the router has: when
  the refusal says that the base id is routable, asking for that base id qualified by the refused
  model's provider is an explicit route to a routable model of that provider.\<close>

theorem batch_only_alternative_routes:
  assumes e: "batchOnlyError snap m = e" "err_baseIsRoutable e = Some True" "err_baseModelId e = Some b"
    and pid: "CHR '':'' \<notin> set (model_providerId m)" "model_providerId m \<noteq> []"
  shows "\<exists>d. resolveRoute snap \<lparr>pr_modelField = model_providerId m @ CHR '':'' # b,
      pr_headers = hs, pr_mode = mode\<rparr> = Inr d \<and>
    dec_providerId d = model_providerId m \<and> dec_externalModelId d = b \<and> servable_decision snap d"
proof -
  let ?P = "\<lambda>x. model_providerId x = model_providerId m \<and> model_externalModelId x = b"
  from e obtain sib where sib: "find ?P (snap_models snap) = Some sib" "isRoutable sib"
    by (auto simp: batchOnlyError_def plain_error_def Let_def split: option.splits)
  let ?mf = "model_providerId m @ CHR '':'' # b"
  have i: "index_of (CHR '':'') ?mf = Some (length (model_providerId m))"
    using pid(1) by (rule index_of_append_unique)
  have ne: "?mf \<noteq> [] \<and> ?mf \<noteq> AUTO_ALIAS"
  proof
    have "CHR '':'' \<notin> set AUTO_ALIAS" by (simp add: AUTO_ALIAS_def)
    moreover have "CHR '':'' \<in> set ?mf" by simp
    ultimately show "?mf \<noteq> AUTO_ALIAS" by metis
  qed simp
  have r: "resolveRoute snap \<lparr>pr_modelField = ?mf, pr_headers = hs, pr_mode = mode\<rparr> =
    Inr (modelDecision sib LExplicit (''explicit model '' @ model_externalModelId sib))"
    using ne i sib pid(2) by (simp add: resolveRoute_def explicit_phase_def Let_def)
  from find_SomeD [OF sib(1)] have "sib \<in> set (snap_models snap) \<and> ?P sib" .
  with r sib(2) show ?thesis
    by (intro exI) (auto simp: modelDecision_servable, auto simp: modelDecision_def)
qed

theorem batch_only_alternative_routes_witness:
  "\<exists>d. resolveRoute demo_snapshot (demo_request ''p1:x'' Map.empty) = Inr d \<and>
     dec_providerId d = ''p1'' \<and> dec_externalModelId d = ''x''"
proof -
  have "batchOnlyError demo_snapshot (demo_models ! 0) =
    \<lparr>err_kind = BatchOnlyModel, err_detail = Some ''x:batch'', err_baseModelId = Some ''x'',
     err_baseIsRoutable = Some True\<rparr>"
    by code_simp
  from batch_only_alternative_routes [OF this, of "''x''" Map.empty None] show ?thesis
    by (auto simp: demo_request_def demo_models_def)
qed

end
