(* ===== verification/Regex.thy ===== *)
theory Regex
  imports Prelude
begin

text \<open>
  Regular expressions as JavaScript runs them: a backtracking matcher that tries alternatives
  from left to right and greedy repetitions from the longest, so the first result is the match
  \<open>RegExp.prototype.exec\<close> reports. The program's patterns are translated one by one into
  the datatype below; a match state is the text consumed so far (reversed), the text left and
  the captured groups.
\<close>

datatype regex =
    RChar "char \<Rightarrow> bool"
  | RSeq "regex list"
  | RAlt "regex list"
  | RRep nat "nat option" bool regex  \<comment> \<open>at least, at most, greedy\<close>
  | RGroup nat regex
  | RBoundary   \<comment> \<open>\\b\<close>
  | RStart   \<comment> \<open>^\<close>
  | REnd   \<comment> \<open>$\<close>

type_synonym match_state = "string \<times> string \<times> (nat \<times> string) list"

definition word_char :: "char \<Rightarrow> bool" where
  "word_char c =
     (char_range CHR ''a'' CHR ''z'' c \<or> char_range CHR ''A'' CHR ''Z'' c \<or> is_digit c \<or> c = CHR ''_'')"

definition at_boundary :: "string \<Rightarrow> string \<Rightarrow> bool" where
  "at_boundary before rest =
     ((case before of [] \<Rightarrow> False | c # _ \<Rightarrow> word_char c)
        \<noteq> (case rest of [] \<Rightarrow> False | c # _ \<Rightarrow> word_char c))"

text \<open>Between \<open>lo\<close> and \<open>hi\<close> rounds of a step, longest first when greedy. A round that
  consumes nothing ends the repetition, and \<open>n\<close> (the length of the text left, plus the
  mandatory rounds) bounds the recursion.\<close>

primrec rounds ::
  "nat \<Rightarrow> nat \<Rightarrow> nat option \<Rightarrow> bool \<Rightarrow> (match_state \<Rightarrow> match_state list) \<Rightarrow> match_state \<Rightarrow> match_state list" where
  "rounds 0 lo hi greedy step st = (if lo = 0 then [st] else [])"
| "rounds (Suc n) lo hi greedy step st =
     (let more = (if hi = Some 0 then []
                  else concat (map (rounds n (lo - 1) (map_option (\<lambda>h. h - 1) hi) greedy step)
                         (filter (\<lambda>st'. lo > 0 \<or> length (fst (snd st')) < length (fst (snd st)))
                            (step st))))
      in if lo > 0 then more else if greedy then more @ [st] else st # more)"

primrec matches :: "regex \<Rightarrow> match_state \<Rightarrow> match_state list"
  and match_seq :: "regex list \<Rightarrow> match_state \<Rightarrow> match_state list"
  and match_alt :: "regex list \<Rightarrow> match_state \<Rightarrow> match_state list" where
  "matches (RChar p) st = (case fst (snd st) of [] \<Rightarrow> [] | c # s' \<Rightarrow> if p c then [(c # fst st, s', snd (snd st))] else [])"
| "matches (RSeq rs) st = match_seq rs st"
| "matches (RAlt rs) st = match_alt rs st"
| "matches (RRep lo hi greedy r) st = rounds (lo + length (fst (snd st))) lo hi greedy (matches r) st"
| "matches (RGroup i r) st =
     map (\<lambda>(b', s', g'). (b', s', (i, rev (take (length b' - length (fst st)) b')) # g'))
       (matches r st)"
| "matches RBoundary st = (if at_boundary (fst st) (fst (snd st)) then [st] else [])"
| "matches RStart st = (if fst st = [] then [st] else [])"
| "matches REnd st = (if fst (snd st) = [] then [st] else [])"
| "match_seq [] st = [st]"
| "match_seq (r # rs) st = concat (map (match_seq rs) (matches r st))"
| "match_alt [] st = []"
| "match_alt (r # rs) st = matches r st @ match_alt rs st"

definition match_at :: "regex \<Rightarrow> string \<Rightarrow> string \<Rightarrow> match_state option" where
  "match_at r before s = (case matches r (before, s, []) of [] \<Rightarrow> None | m # _ \<Rightarrow> Some m)"

text \<open>\<open>re.exec(s)\<close>: the leftmost position where the pattern matches.\<close>

primrec exec_from :: "regex \<Rightarrow> string \<Rightarrow> string \<Rightarrow> match_state option" where
  "exec_from r before [] = match_at r before []"
| "exec_from r before (c # s) =
     (case match_at r before (c # s) of
        Some m \<Rightarrow> Some m
      | None \<Rightarrow> exec_from r (c # before) s)"

definition re_exec :: "regex \<Rightarrow> string \<Rightarrow> match_state option" where
  "re_exec r s = exec_from r [] s"

definition re_test :: "regex \<Rightarrow> string \<Rightarrow> bool" where
  "re_test r s = (re_exec r s \<noteq> None)"

definition group :: "nat \<Rightarrow> match_state \<Rightarrow> string option" where
  "group i m = map_of (snd (snd m)) i"

text \<open>\<open>s.replace(/re/g, f)\<close> for a pattern that never matches the empty text: after a match
  the search resumes behind it. The output of a match is computed from its state.\<close>

primrec replace_all ::
  "nat \<Rightarrow> regex \<Rightarrow> (string \<Rightarrow> match_state \<Rightarrow> string) \<Rightarrow> string \<Rightarrow> string \<Rightarrow> string" where
  "replace_all 0 r out before s = s"
| "replace_all (Suc n) r out before s =
     (case s of
        [] \<Rightarrow> []
      | c # s' \<Rightarrow>
          (case match_at r before s of
             Some (b', rest, g) \<Rightarrow>
               if length rest < length s
               then out (rev (take (length s - length rest) b')) (b', rest, g)
                      @ replace_all n r out b' rest
               else c # replace_all n r out (c # before) s'
           | None \<Rightarrow> c # replace_all n r out (c # before) s'))"

definition re_replace :: "regex \<Rightarrow> (string \<Rightarrow> match_state \<Rightarrow> string) \<Rightarrow> string \<Rightarrow> string" where
  "re_replace r out s = replace_all (Suc (length s)) r out [] s"

text \<open>Building blocks: a literal, a literal under the \<open>i\<close> flag, and the usual classes.\<close>

definition rlit :: "string \<Rightarrow> regex" where
  "rlit s = RSeq (map (\<lambda>c. RChar (\<lambda>x. x = c)) s)"

definition rlit_ci :: "string \<Rightarrow> regex" where
  "rlit_ci s = RSeq (map (\<lambda>c. RChar (\<lambda>x. js_lower_char x = js_lower_char c)) s)"

definition rclass :: "(char \<Rightarrow> bool) \<Rightarrow> regex" where "rclass p = RChar p"
definition rstar :: "regex \<Rightarrow> regex" where "rstar r = RRep 0 None True r"
definition rplus :: "regex \<Rightarrow> regex" where "rplus r = RRep 1 None True r"
definition ropt :: "regex \<Rightarrow> regex" where "ropt r = RRep 0 (Some 1) True r"
definition ratleast :: "nat \<Rightarrow> regex \<Rightarrow> regex" where "ratleast n r = RRep n None True r"
definition rbetween :: "nat \<Rightarrow> nat \<Rightarrow> regex \<Rightarrow> regex" where "rbetween m n r = RRep m (Some n) True r"

lemmas regex_defs =
  rlit_def rlit_ci_def rclass_def rstar_def rplus_def ropt_def ratleast_def rbetween_def

section \<open>Facts of the matcher\<close>

text \<open>Patterns without groups.\<close>

primrec no_groups :: "regex \<Rightarrow> bool" where
  "no_groups (RChar p) = True"
| "no_groups (RSeq rs) = list_all (\<lambda>b. b) (map no_groups rs)"
| "no_groups (RAlt rs) = list_all (\<lambda>b. b) (map no_groups rs)"
| "no_groups (RRep lo hi greedy r) = no_groups r"
| "no_groups (RGroup i r) = False"
| "no_groups RBoundary = True"
| "no_groups RStart = True"
| "no_groups REnd = True"

lemma rounds_inv:
  assumes "\<And>t t'. P t \<Longrightarrow> t' \<in> set (step t) \<Longrightarrow> P t'" and "P st" and "m \<in> set (rounds n lo hi gr step st)"
  shows "P m"
  using assms(2,3)
proof (induction n arbitrary: lo hi st)
  case 0
  then show ?case by (auto split: if_splits)
next
  case (Suc n)
  let ?rest = "concat (map (rounds n (lo - 1) (map_option (\<lambda>h. h - 1) hi) gr step)
      (filter (\<lambda>st'. lo > 0 \<or> length (fst (snd st')) < length (fst (snd st))) (step st)))"
  from Suc.prems(2) have "m = st \<or> m \<in> set ?rest"
    by (auto simp: Let_def simp del: set_concat split: if_splits)
  then show ?case
  proof
    assume "m \<in> set ?rest"
    then obtain t where "t \<in> set (step st)"
      "m \<in> set (rounds n (lo - 1) (map_option (\<lambda>h. h - 1) hi) gr step t)" by auto
    with Suc show ?thesis using assms(1) by blast
  qed (use Suc.prems(1) in simp)
qed

text \<open>Induction along a match: a reflexive and transitive relation between states that holds
  for one consumed character, and for a capture where the pattern has groups, holds between the
  state a match starts from and every state it ends in.\<close>

locale match_relation =
  fixes rel :: "match_state \<Rightarrow> match_state \<Rightarrow> bool"
  assumes rel_refl: "rel st st"
    and rel_trans: "rel st st' \<Longrightarrow> rel st' st'' \<Longrightarrow> rel st st''"
    and rel_char: "rel (b, c # s, g) (c # b, s, g)"
begin

definition group_ok :: "regex \<Rightarrow> bool" where
  "group_ok r = (no_groups r \<or> (\<forall>st b s g i u. rel st (b, s, g) \<longrightarrow> rel st (b, s, (i, u) # g)))"

lemma seq_rel:
  assumes "\<And>r st m. r \<in> set rs \<Longrightarrow> m \<in> set (matches r st) \<Longrightarrow> rel st m" "m \<in> set (match_seq rs st)"
  shows "rel st m"
  using assms
proof (induction rs arbitrary: st)
  case Nil
  then show ?case by (simp add: rel_refl)
next
  case (Cons r rs)
  from Cons.prems(2) obtain m1 where m1: "m1 \<in> set (matches r st)" "m \<in> set (match_seq rs m1)" by auto
  have "rel st m1" by (rule Cons.prems(1) [OF _ m1(1)]) simp
  moreover have "rel m1 m" by (rule Cons.IH [OF Cons.prems(1) m1(2)]) simp_all
  ultimately show ?case by (rule rel_trans)
qed

lemma alt_rel:
  assumes "\<And>r st m. r \<in> set rs \<Longrightarrow> m \<in> set (matches r st) \<Longrightarrow> rel st m" "m \<in> set (match_alt rs st)"
  shows "rel st m"
proof -
  from assms(2) have "list_ex (\<lambda>r. m \<in> set (matches r st)) rs" by (induction rs) auto
  then obtain r where "r \<in> set rs" "m \<in> set (matches r st)" unfolding list_ex_iff by blast
  then show ?thesis by (rule assms(1))
qed

lemma matches_rel:
  assumes "group_ok r" "m \<in> set (matches r st)"
  shows "rel st m"
  using assms
proof (induction r arbitrary: st m)
  case (RChar p)
  then show ?case by (cases st) (auto simp: rel_char split: list.splits if_splits)
next
  case (RSeq rs)
  have ok: "group_ok r" if "r \<in> set rs" for r using RSeq.prems(1) that by (auto simp: group_ok_def list_all_iff)
  show ?case
  proof (rule seq_rel)
    fix r st' m' assume "r \<in> set rs" "m' \<in> set (matches r st')"
    then show "rel st' m'" by (intro RSeq.IH ok)
  next
    show "m \<in> set (match_seq rs st)" using RSeq.prems(2) by simp
  qed
next
  case (RAlt rs)
  have ok: "group_ok r" if "r \<in> set rs" for r using RAlt.prems(1) that by (auto simp: group_ok_def list_all_iff)
  show ?case
  proof (rule alt_rel)
    fix r st' m' assume "r \<in> set rs" "m' \<in> set (matches r st')"
    then show "rel st' m'" by (intro RAlt.IH ok)
  next
    show "m \<in> set (match_alt rs st)" using RAlt.prems(2) by simp
  qed
next
  case (RRep lo hi gr r)
  show ?case
  proof (rule rounds_inv [where P = "rel st", OF _ rel_refl RRep.prems(2)[unfolded matches.simps]])
    fix t t' assume "rel st t" "t' \<in> set (matches r t)"
    moreover have "group_ok r" using RRep.prems(1) by (simp add: group_ok_def)
    ultimately show "rel st t'" by (blast intro: rel_trans RRep.IH)
  qed
next
  case (RGroup i r)
  have grp: "rel st (b, s, (i, u) # g)" if "rel st (b, s, g)" for st b s g i u
    using RGroup.prems(1) that unfolding group_ok_def by (metis no_groups.simps(5))
  have ok: "group_ok r" using RGroup.prems(1) by (simp add: group_ok_def)
  from RGroup.prems(2) obtain b s g u where "(b, s, g) \<in> set (matches r st)" "m = (b, s, (i, u) # g)"
    by (cases st) auto
  with grp [OF RGroup.IH [OF ok]] show ?case by simp
qed (auto simp: rel_refl split: if_splits)

end

text \<open>A match splits the text: what was consumed and what is left make up the whole. It
  pushes what it consumed on the text before it. Without groups it leaves the captures alone.\<close>

interpretation splits: match_relation
  "\<lambda>st m. rev (fst m) @ fst (snd m) = rev (fst st) @ fst (snd st)"
  by unfold_locales auto

interpretation extends: match_relation "\<lambda>st m. \<exists>u. fst m = u @ fst st"
proof unfold_locales
  fix st st' st'' :: match_state
  assume "\<exists>u. fst st' = u @ fst st" "\<exists>u. fst st'' = u @ fst st'"
  then show "\<exists>u. fst st'' = u @ fst st" by (metis append_assoc)
qed auto

interpretation captures: match_relation "\<lambda>st m. snd (snd m) = snd (snd st)"
  by unfold_locales auto

lemma matches_split:
  "m \<in> set (matches r st) \<Longrightarrow> rev (fst m) @ fst (snd m) = rev (fst st) @ fst (snd st)"
  by (rule splits.matches_rel) (simp add: splits.group_ok_def)

lemma matches_extend: "m \<in> set (matches r st) \<Longrightarrow> \<exists>u. fst m = u @ fst st"
  by (rule extends.matches_rel) (simp add: extends.group_ok_def)

lemma match_seq_extend: "m \<in> set (match_seq rs st) \<Longrightarrow> \<exists>u. fst m = u @ fst st"
  by (rule extends.seq_rel) (auto intro: matches_extend)

lemma no_groups_captures:
  "m \<in> set (match_seq rs st) \<Longrightarrow> list_all no_groups rs \<Longrightarrow> snd (snd m) = snd (snd st)"
proof (rule captures.seq_rel)
  fix r st' m'
  assume "list_all no_groups rs" "r \<in> set rs" "m' \<in> set (matches r st')"
  then show "snd (snd m') = snd (snd st')"
    by (intro captures.matches_rel) (simp_all add: captures.group_ok_def list_all_iff)
qed

lemma match_at_split:
  assumes "match_at r b s = Some m"
  shows "rev (fst m) @ fst (snd m) = rev b @ s"
proof -
  from assms have "m \<in> set (matches r (b, s, []))"
    by (auto simp: match_at_def split: list.splits)
  then show ?thesis using matches_split by fastforce
qed

text \<open>The demo patterns of the language documentation, as a check of the engine: greediness,
  backtracking, a lazy repetition, captures and word boundaries.\<close>

lemma regex_demo:
  "re_replace (RSeq [rlit ''a'', rstar (rlit ''b'')]) (\<lambda>_ _. ''X'') ''cabbbdab'' = ''cXdX''"
  "map_option (group 1)
     (re_exec (RSeq [RGroup 1 (RRep 1 None False (rclass is_digit)), rlit ''5'']) ''12565'')
     = Some (Some ''12'')"
  "re_test (RSeq [RBoundary, rlit ''key'', RBoundary]) ''a-key=1''"
  "\<not> re_test (RSeq [RBoundary, rlit ''key'', RBoundary]) ''monkey1''"
  by code_simp+

end
