(* ===== verification/Json.thy ===== *)
theory Json
  imports Complex_Main Prelude
begin

text \<open>
  JSON values and \<open>JSON.parse\<close>, which the program uses on every body it did not write.
  Numbers are exact rationals (the rounding of a literal to a double is not modelled), strings
  are over the code units 0 to 255 (a \<open>\\u\<close> escape above them is outside the fragment and
  rejected), and an object is its properties in order, each name once; a repeated name keeps its
  first position and its last value, as in JavaScript.
\<close>

datatype json =
    JNull
  | JBool bool
  | JNum rat
  | JStr string
  | JArr "json list"
  | JObj "(string \<times> json) list"

fun obj_put :: "string \<Rightarrow> 'a \<Rightarrow> (string \<times> 'a) list \<Rightarrow> (string \<times> 'a) list" where
  "obj_put k v [] = [(k, v)]"
| "obj_put k v ((k', v') # kvs) = (if k' = k then (k, v) # kvs else (k', v') # obj_put k v kvs)"

lemma map_of_obj_put [simp]: "map_of (obj_put k v kvs) = (map_of kvs)(k \<mapsto> v)"
  by (induction k v kvs rule: obj_put.induct) auto

text \<open>\<open>typeof v === 'object' && v !== null\<close>, and a property read on such a value; an array
  has no named property the program reads.\<close>

definition is_object :: "json \<Rightarrow> bool" where
  "is_object v = (case v of JObj _ \<Rightarrow> True | JArr _ \<Rightarrow> True | _ \<Rightarrow> False)"

text \<open>The \<open>isRecord\<close> of the source: an object that is not an array.\<close>

definition isRecord :: "json \<Rightarrow> bool" where
  "isRecord v = (case v of JObj _ \<Rightarrow> True | _ \<Rightarrow> False)"

definition obj_prop :: "string \<Rightarrow> json \<Rightarrow> json option" where
  "obj_prop k v = (case v of JObj kvs \<Rightarrow> map_of kvs k | _ \<Rightarrow> None)"

definition str_prop :: "string \<Rightarrow> json \<Rightarrow> string option" where
  "str_prop k v = (case obj_prop k v of Some (JStr s) \<Rightarrow> Some s | _ \<Rightarrow> None)"

section \<open>\<open>JSON.parse\<close>\<close>

fun nat_of_digits :: "string \<Rightarrow> nat" where
  "nat_of_digits s = foldl (\<lambda>n c. 10 * n + (of_char c - 48)) 0 s"

definition hex_val :: "char \<Rightarrow> nat option" where
  "hex_val c = (let n = (of_char c :: nat) in
     if 48 \<le> n \<and> n \<le> 57 then Some (n - 48)
     else if 65 \<le> n \<and> n \<le> 70 then Some (n - 55)
     else if 97 \<le> n \<and> n \<le> 102 then Some (n - 87) else None)"

definition json_ws :: "char \<Rightarrow> bool" where
  "json_ws c = one_of [CHR 0x20, CHR 0x09, CHR 0x0A, CHR 0x0D] c"

definition skip_ws :: "string \<Rightarrow> string" where
  "skip_ws s = dropWhile json_ws s"

text \<open>The text of a string literal behind its opening quote.\<close>

fun parse_chars :: "string \<Rightarrow> (string \<times> string) option" where
  "parse_chars [] = None"
| "parse_chars (c # s) =
     (if c = CHR 0x22 then Some ([], s)
      else if char_range CHR 0x00 CHR 0x1F c then None
      else if c = CHR 0x5C then
        (case s of
           [] \<Rightarrow> None
         | e # s1 \<Rightarrow>
             if e = CHR ''u'' then
               (case s1 of
                  a # b # c1 # d # s2 \<Rightarrow>
                    (case (hex_val a, hex_val b, hex_val c1, hex_val d) of
                       (Some 0, Some 0, Some x, Some y) \<Rightarrow>
                         map_option (\<lambda>(t, r). (char_of (16 * x + y) # t, r)) (parse_chars s2)
                     | _ \<Rightarrow> None)
                | _ \<Rightarrow> None)
             else
               (let put = (\<lambda>x. map_option (\<lambda>(t, r). (x # t, r)) (parse_chars s1)) in
                if e = CHR 0x22 \<or> e = CHR 0x5C \<or> e = CHR ''/'' then put e
                else if e = CHR ''b'' then put (CHR 0x08)
                else if e = CHR ''f'' then put (CHR 0x0C)
                else if e = CHR ''n'' then put (CHR 0x0A)
                else if e = CHR ''r'' then put (CHR 0x0D)
                else if e = CHR ''t'' then put (CHR 0x09)
                else None))
      else map_option (\<lambda>(t, r). (c # t, r)) (parse_chars s))"

text \<open>A number: the sign, the integer part without leading zeros, fraction, exponent.\<close>

definition parse_int_part :: "string \<Rightarrow> (nat \<times> string) option" where
  "parse_int_part s =
     (case s of
        [] \<Rightarrow> None
      | c # s' \<Rightarrow>
          if c = CHR ''0'' then Some (0, s')
          else if is_digit c then Some (nat_of_digits (takeWhile is_digit s), dropWhile is_digit s)
          else None)"

definition parse_frac :: "string \<Rightarrow> (rat \<times> string) option" where
  "parse_frac s =
     (case s of
        c # s' \<Rightarrow>
          if c = CHR ''.'' then
            (let ds = takeWhile is_digit s' in
             if ds = [] then None
             else Some (of_nat (nat_of_digits ds) / 10 ^ length ds, dropWhile is_digit s'))
          else Some (0, s)
      | [] \<Rightarrow> Some (0, []))"

definition parse_exp :: "string \<Rightarrow> (bool \<times> nat \<times> string) option" where
  "parse_exp s =
     (case s of
        c # s' \<Rightarrow>
          if c = CHR ''e'' \<or> c = CHR ''E'' then
            (let (neg, s2) = (case s' of
                   x # r \<Rightarrow> if x = CHR ''-'' then (True, r) else if x = CHR ''+'' then (False, r)
                            else (False, s')
                 | [] \<Rightarrow> (False, []));
                 ds = takeWhile is_digit s2
             in if ds = [] then None else Some (neg, nat_of_digits ds, dropWhile is_digit s2))
          else Some (False, 0, s)
      | [] \<Rightarrow> Some (False, 0, []))"

definition parse_number :: "string \<Rightarrow> (rat \<times> string) option" where
  "parse_number s =
     (let (neg, s0) = (case s of c # r \<Rightarrow> if c = CHR ''-'' then (True, r) else (False, s) | [] \<Rightarrow> (False, s)) in
      case parse_int_part s0 of
        None \<Rightarrow> None
      | Some (i, s1) \<Rightarrow>
          (case parse_frac s1 of
             None \<Rightarrow> None
           | Some (f, s2) \<Rightarrow>
               (case parse_exp s2 of
                  None \<Rightarrow> None
                | Some (eneg, e, s3) \<Rightarrow>
                    (let m = of_nat i + f; v = (if eneg then m / 10 ^ e else m * 10 ^ e)
                     in Some (if neg then - v else v, s3)))))"

definition strip_prefix :: "string \<Rightarrow> string \<Rightarrow> string option" where
  "strip_prefix p s = (if starts_with p s then Some (drop (length p) s) else None)"

fun parse_value :: "nat \<Rightarrow> string \<Rightarrow> (json \<times> string) option"
  and parse_items :: "nat \<Rightarrow> string \<Rightarrow> (json list \<times> string) option"
  and parse_members :: "nat \<Rightarrow> (string \<times> json) list \<Rightarrow> string \<Rightarrow> ((string \<times> json) list \<times> string) option" where
  "parse_value 0 s = None"
| "parse_value (Suc n) s =
     (case skip_ws s of
        [] \<Rightarrow> None
      | c # r \<Rightarrow>
          if c = CHR 0x22 then map_option (\<lambda>(t, r'). (JStr t, r')) (parse_chars r)
          else if c = CHR 0x5B then
            (case skip_ws r of
               x # r' \<Rightarrow> if x = CHR 0x5D then Some (JArr [], r')
                         else map_option (\<lambda>(vs, r''). (JArr vs, r'')) (parse_items n r)
             | [] \<Rightarrow> None)
          else if c = CHR 0x7B then
            (case skip_ws r of
               x # r' \<Rightarrow> if x = CHR 0x7D then Some (JObj [], r')
                         else map_option (\<lambda>(ms, r''). (JObj ms, r'')) (parse_members n [] r)
             | [] \<Rightarrow> None)
          else
            (case strip_prefix ''null'' (c # r) of
               Some r' \<Rightarrow> Some (JNull, r')
             | None \<Rightarrow>
            (case strip_prefix ''true'' (c # r) of
               Some r' \<Rightarrow> Some (JBool True, r')
             | None \<Rightarrow>
            (case strip_prefix ''false'' (c # r) of
               Some r' \<Rightarrow> Some (JBool False, r')
             | None \<Rightarrow> map_option (\<lambda>(q, r'). (JNum q, r')) (parse_number (c # r))))))"
| "parse_items 0 s = None"
| "parse_items (Suc n) s =
     (case parse_value n s of
        None \<Rightarrow> None
      | Some (v, r) \<Rightarrow>
          (case skip_ws r of
             x # r' \<Rightarrow> if x = CHR 0x5D then Some ([v], r')
                       else if x = CHR '','' then map_option (\<lambda>(vs, r''). (v # vs, r'')) (parse_items n r')
                       else None
           | [] \<Rightarrow> None))"
| "parse_members 0 acc s = None"
| "parse_members (Suc n) acc s =
     (case skip_ws s of
        [] \<Rightarrow> None
      | q # r0 \<Rightarrow>
          if q \<noteq> CHR 0x22 then None
          else (case parse_chars r0 of
             None \<Rightarrow> None
           | Some (k, r1) \<Rightarrow>
               (case skip_ws r1 of
                  [] \<Rightarrow> None
                | col # r2 \<Rightarrow>
                    if col \<noteq> CHR '':'' then None
                    else (case parse_value n r2 of
                       None \<Rightarrow> None
                     | Some (v, r3) \<Rightarrow>
                         (case skip_ws r3 of
                            x # r4 \<Rightarrow>
                              if x = CHR 0x7D then Some (obj_put k v acc, r4)
                              else if x = CHR '','' then parse_members n (obj_put k v acc) r4
                              else None
                          | [] \<Rightarrow> None)))))"

text \<open>\<open>JSON.parse\<close>; a thrown \<open>SyntaxError\<close> is \<open>None\<close>. Twice the length of the text bounds
  the recursion: every value, item and member consumes a character at every second call.\<close>

definition json_parse :: "string \<Rightarrow> json option" where
  "json_parse s =
     (case parse_value (2 * length s + 2) s of
        Some (v, r) \<Rightarrow> if skip_ws r = [] then Some v else None
      | None \<Rightarrow> None)"

section \<open>The recursion bound is enough\<close>

lemma skip_ws_length: "length (skip_ws s) \<le> length s"
  by (simp add: skip_ws_def length_dropWhile_le)

lemma parse_chars_length: "parse_chars s = Some (t, r) \<Longrightarrow> length r < length s"
proof (induction s arbitrary: t r rule: parse_chars.induct)
  case (2 c s)
  then show ?case
    by (fastforce simp: Let_def split: if_splits list.splits option.splits nat.splits)
qed simp

lemma takeWhile_nonempty_drop: "s \<noteq> [] \<Longrightarrow> P (hd s) \<Longrightarrow> length (dropWhile P s) < length s"
  by (cases s) (auto simp: length_dropWhile_le less_Suc_eq_le)

lemma parse_int_part_length: "parse_int_part s = Some (i, r) \<Longrightarrow> length r < length s"
  by (auto simp: parse_int_part_def length_dropWhile_le less_Suc_eq_le split: list.splits if_splits)

lemma parse_frac_length: "parse_frac s = Some (f, r) \<Longrightarrow> length r \<le> length s"
  by (auto simp: parse_frac_def Let_def split: list.splits if_splits
      intro: le_SucI length_dropWhile_le)

lemma parse_exp_length: "parse_exp s = Some (b, e, r) \<Longrightarrow> length r \<le> length s"
  by (auto simp: parse_exp_def Let_def split: list.splits if_splits
      intro: le_SucI length_dropWhile_le)

lemma parse_number_length: "parse_number s = Some (q, r) \<Longrightarrow> length r < length s"
  by (fastforce simp: parse_number_def Let_def split: list.splits if_splits option.splits prod.splits
      dest: parse_int_part_length parse_frac_length parse_exp_length)

lemma strip_prefix_length: "strip_prefix (p # ps) s = Some r \<Longrightarrow> length r < length s"
  by (cases s) (auto simp: strip_prefix_def starts_with_def split: if_splits)

lemma skip_ws_ConsD: "skip_ws s = c # r \<Longrightarrow> length r < length s"
  using skip_ws_length [of s] by simp

lemma parse_length:
  "parse_value n s = Some (v, r) \<Longrightarrow> length r < length s"
  "parse_items n s = Some (vs, r) \<Longrightarrow> length r < length s"
  "parse_members n acc s = Some (ms, r) \<Longrightarrow> length r < length s"
proof (induction n s and n s and n acc s arbitrary: v r and vs r and ms r
    rule: parse_value_parse_items_parse_members.induct)
  case (2 n s)
  show ?case
  proof (cases "skip_ws s")
    case Nil
    with 2(3) show ?thesis by simp
  next
    case (Cons c t)
    note IH = 2(1,2)[OF Cons]
    from Cons have "length t < length s" by (rule skip_ws_ConsD)
    moreover from 2(3) have "length r < length (c # t)"
      by (auto simp: Cons split: list.splits if_splits option.splits
          dest: parse_chars_length strip_prefix_length parse_number_length skip_ws_ConsD
          intro: less_SucI IH)
    ultimately show ?thesis using skip_ws_length [of s] Cons by simp
  qed
next
  case (4 n s)
  from 4(3) obtain v r1 x r2 where v: "parse_value n s = Some (v, r1)" and x: "skip_ws r1 = x # r2"
    by (auto split: option.splits list.splits)
  from 4(1)[OF v] skip_ws_ConsD [OF x] have "length r2 < length s" by simp
  moreover have "x \<noteq> CHR 0x5D \<Longrightarrow> \<exists>vs'. parse_items n r2 = Some (vs', r)" "x = CHR 0x5D \<Longrightarrow> r = r2"
    using 4(3) by (auto simp: v x split: if_splits)
  moreover have "x \<noteq> CHR 0x5D \<Longrightarrow> x = CHR '',''" using 4(3) by (auto simp: v x split: if_splits)
  ultimately show ?case using 4(2)[OF v _ x] by fastforce
next
  case (6 n acc s)
  from 6(3) obtain r0 k r1 r2 v r3 x r4
    where s: "skip_ws s = CHR 0x22 # r0" and k: "parse_chars r0 = Some (k, r1)"
      and c: "skip_ws r1 = CHR '':'' # r2" and v: "parse_value n r2 = Some (v, r3)"
      and x: "skip_ws r3 = x # r4"
    by (auto split: option.splits list.splits if_splits)
  from 6(1)[OF s _ k _ c _ v] skip_ws_ConsD [OF s] skip_ws_ConsD [OF c] skip_ws_ConsD [OF x]
    parse_chars_length [OF k]
  have l: "length r4 < length s" by simp
  show ?case
  proof (cases "x = CHR 0x7D")
    case True
    with 6(3) l show ?thesis by (simp add: s k c v x)
  next
    case False
    with 6(3) have "x = CHR '',''" "parse_members n (obj_put k v acc) r4 = Some (ms, r)"
      by (simp_all add: s k c v x split: if_splits)
    with 6(2)[OF s _ k _ c _ v _ x] l show ?thesis by fastforce
  qed
qed simp_all

lemma parse_fuel_irrelevant:
  "2 * length s + 2 \<le> n \<Longrightarrow> 2 * length s + 2 \<le> m \<Longrightarrow> parse_value n s = parse_value m s"
  "2 * length s + 3 \<le> n \<Longrightarrow> 2 * length s + 3 \<le> m \<Longrightarrow> parse_items n s = parse_items m s"
  "2 * length s + 3 \<le> n \<Longrightarrow> 2 * length s + 3 \<le> m \<Longrightarrow> parse_members n acc s = parse_members m acc s"
proof (induction "n" s and n s and n acc s arbitrary: m and m and m
    rule: parse_value_parse_items_parse_members.induct)
  case (2 n s)
  from 2(4) obtain m' where m: "m = Suc m'" by (cases m) auto
  show ?case
  proof (cases "skip_ws s")
    case Nil
    then show ?thesis by (simp add: m)
  next
    case (Cons c t)
    then have "length t < length s" by (rule skip_ws_ConsD)
    with 2(3,4) have "2 * length t + 3 \<le> n" "2 * length t + 3 \<le> m'" by (simp_all add: m)
    note b = this
    have items: "parse_items n t = parse_items m' t"
      if "c = CHR 0x5B" "skip_ws t = x # r" "x \<noteq> CHR 0x5D" for x r
      using b that by (intro 2(1)[OF Cons _ _ that(2,3)]) auto
    have members: "parse_members n [] t = parse_members m' [] t"
      if "c = CHR 0x7B" "skip_ws t = x # r" "x \<noteq> CHR 0x7D" for x r
      using b that by (intro 2(2)[OF Cons _ _ _ that(2,3)]) auto
    show ?thesis
      by (cases "skip_ws t") (simp_all add: m Cons items members)
  qed
next
  case (4 n s)
  from 4(4) obtain m' where m: "m = Suc m'" by (cases m) auto
  have v: "parse_value n s = parse_value m' s" using 4(3,4) by (intro 4(1)) (simp_all add: m)
  have "parse_items n t = parse_items m' t"
    if "parse_value n s = Some (v, r)" "skip_ws r = CHR '','' # t" for v r t
  proof -
    from that have "length t < length r" "length r < length s"
      by (auto dest: skip_ws_ConsD parse_length)
    with 4(3,4) have "2 * length t + 3 \<le> n" "2 * length t + 3 \<le> m'" by (simp_all add: m)
    then show ?thesis by (intro 4(2)[OF that(1) _ that(2)]) simp_all
  qed
  then show ?case by (auto simp: m v [symmetric] split: option.splits list.splits)
next
  case (6 n acc s)
  from 6(4) obtain m' where m: "m = Suc m'" by (cases m) auto
  show ?case
  proof (cases "skip_ws s")
    case Nil
    then show ?thesis by (simp add: m)
  next
    case s: (Cons q r0)
    then have r0: "length r0 < length s" by (rule skip_ws_ConsD)
    have v: "parse_value n r2 = parse_value m' r2"
      if "q = CHR 0x22" "parse_chars r0 = Some (k, r1)" "skip_ws r1 = CHR '':'' # r2" for k r1 r2
    proof -
      from that r0 have "length r2 < length s" by (auto dest!: parse_chars_length skip_ws_ConsD)
      with 6(3,4) that(1) show ?thesis by (intro 6(1)[OF s _ that(2) _ that(3)]) (simp_all add: m)
    qed
    have w: "parse_members n (obj_put k v acc) r4 = parse_members m' (obj_put k v acc) r4"
      if "q = CHR 0x22" "parse_chars r0 = Some (k, r1)" "skip_ws r1 = CHR '':'' # r2"
        "parse_value n r2 = Some (v, r3)" "skip_ws r3 = CHR '','' # r4" for k r1 r2 v r3 r4
    proof -
      from that r0 have "length r4 < length s"
        by (auto dest!: parse_chars_length skip_ws_ConsD parse_length(1))
      with 6(3,4) that(1) show ?thesis
        by (intro 6(2)[OF s _ that(2) _ that(3) _ that(4) _ that(5)]) (simp_all add: m)
    qed
    from v w show ?thesis
      by (auto simp: m s split: option.splits list.splits)
  qed
qed simp_all

lemma json_parse_fuel:
  "2 * length s + 2 \<le> n \<Longrightarrow>
   json_parse s = (case parse_value n s of
        Some (v, r) \<Rightarrow> if skip_ws r = [] then Some v else None
      | None \<Rightarrow> None)"
  unfolding json_parse_def using parse_fuel_irrelevant(1) [of s n "2 * length s + 2"] by simp

text \<open>Literals with quotes: \<open>~\<close> stands for the quotation mark, \<open>^\<close> for the backslash.\<close>

definition quoted :: "string \<Rightarrow> string" where
  "quoted s = map (\<lambda>c. if c = CHR ''~'' then CHR 0x22 else if c = CHR ''^'' then CHR 0x5C else c) s"

lemma json_demo:
  "json_parse (quoted ''{~a~: [1, -2.5e1, null], ~b~:{~c~:~x^n~}, ~a~ : true }'')
     = Some (JObj [(''a'', JBool True), (''b'', JObj [(''c'', JStr [CHR ''x'', CHR 0x0A])])])"
  "json_parse ''[01]'' = None" "json_parse ''<html>'' = None"
  by code_simp+

end
