(* ===== verification/PlanErrors.thy ===== *)
theory PlanErrors
  imports Regex Json
begin

text \<open>
  \<open>providers/errors.ts\<close> (the error taxonomy and its two classifiers) and
  \<open>providers/plan-errors.ts\<close>: the three dialects in which a subscription plan reports an
  exhausted window, a throttle, a missing entitlement or an inactive plan. The lookup reads the
  parsed envelope; the dialect's reset time stays absolute or relative as the provider stated
  it. \<open>Date.parse\<close>, whose treatment of malformed dates the language leaves to the engine, is
  the parameter \<open>date_parse\<close>; HTTP statuses are natural numbers.
\<close>

section \<open>The taxonomy (errors.ts)\<close>

datatype provider_error_kind =
    auth | permission | rate_limit | unavailable | bad_request | unknown_model
  | insufficient_funds | content_policy | policy_block | upstream_rejected
  | oversized_response | credential | quota_exhausted | risk_control
  | plan_entitlement | plan_inactive

definition PROVIDER_ERROR_KINDS :: "provider_error_kind list" where
  "PROVIDER_ERROR_KINDS =
     [auth, permission, rate_limit, unavailable, bad_request, unknown_model,
      insufficient_funds, content_policy, policy_block, upstream_rejected,
      oversized_response, credential, quota_exhausted, risk_control,
      plan_entitlement, plan_inactive]"

definition shouldFallback :: "provider_error_kind \<Rightarrow> bool" where
  "shouldFallback kind = (kind \<noteq> policy_block \<and> kind \<noteq> oversized_response)"

definition breakerImpact :: "provider_error_kind \<Rightarrow> bool" where
  "breakerImpact kind =
     (kind = rate_limit \<or> kind = unavailable \<or> kind = auth \<or> kind = insufficient_funds)"

section \<open>Dialects (plan-errors.ts)\<close>

datatype plan_dialect = zai | minimax | kimi
datatype plan_window = short | long

text \<open>\<open>PlanReset\<close>: each field optional.\<close>

record plan_reset =
  resetAt :: "int option"
  retryAfterMs :: "int option"
  window :: "plan_window option"

record plan_classification = plan_reset +
  plan_kind :: provider_error_kind

record plan_entry =
  entry_kind :: provider_error_kind
  entry_window :: "plan_window option"

definition Q_SHORT :: plan_entry where
  "Q_SHORT = \<lparr>entry_kind = quota_exhausted, entry_window = Some short\<rparr>"
definition Q_LONG :: plan_entry where
  "Q_LONG = \<lparr>entry_kind = quota_exhausted, entry_window = Some long\<rparr>"
definition plain_entry :: "provider_error_kind \<Rightarrow> plan_entry" where
  "plain_entry k = \<lparr>entry_kind = k, entry_window = None\<rparr>"
definition RISK :: plan_entry where "RISK = plain_entry risk_control"
definition INACTIVE :: plan_entry where "INACTIVE = plain_entry plan_inactive"
definition ENTITLEMENT :: plan_entry where "ENTITLEMENT = plain_entry plan_entitlement"
definition RATE :: plan_entry where "RATE = plain_entry rate_limit"
definition UNAVAILABLE :: plan_entry where "UNAVAILABLE = plain_entry unavailable"

definition ZAI_CODES :: "(string \<times> plan_entry) list" where
  "ZAI_CODES =
     [(''1308'', Q_SHORT), (''1310'', Q_LONG), (''1316'', Q_SHORT), (''1317'', Q_LONG),
      (''1318'', Q_SHORT), (''1319'', Q_LONG), (''1320'', Q_SHORT), (''1321'', Q_LONG),
      (''1313'', RISK), (''1309'', INACTIVE), (''1314'', INACTIVE), (''1315'', INACTIVE),
      (''1113'', INACTIVE), (''1311'', ENTITLEMENT), (''1302'', RATE), (''1305'', UNAVAILABLE)]"

definition MINIMAX_CODES :: "(int \<times> plan_entry) list" where
  "MINIMAX_CODES =
     [(2056, Q_SHORT), (2067, Q_SHORT), (2057, INACTIVE), (2061, ENTITLEMENT),
      (2068, ENTITLEMENT), (2062, RATE), (2064, UNAVAILABLE), (2066, UNAVAILABLE),
      (2069, plain_entry unknown_model)]"

definition KIMI_MESSAGES :: "(string \<times> nat \<times> plan_entry) list" where
  "KIMI_MESSAGES =
     [(''You've reached your 5-hour usage limit'', 429, Q_SHORT),
      (''You've reached your weekly (7-day) usage limit'', 429, Q_LONG),
      (''You've reached your monthly usage limit'', 429, Q_LONG),
      (''Your credit balance is insufficient'', 429, Q_LONG),
      (''Your organization's Extra Usage balance has run out'', 429, Q_LONG),
      (''You've reached the Extra Usage limit set for your account by your organization'', 429, Q_LONG),
      (''You've reached your concurrent request limit'', 429, RISK),
      (''We're receiving too many requests'', 429, RATE),
      (''The engine is currently overloaded'', 429, UNAVAILABLE),
      (''Your current subscription does not have access to'', 403, ENTITLEMENT),
      (''Your current plan supports only'', 403, ENTITLEMENT)]"

definition ZAI_FLUSH_TIME_ZONE :: "string option" where
  "ZAI_FLUSH_TIME_ZONE = None"

text \<open>The first string \<open>message\<close> along the nested \<open>error\<close> chain, four levels at most.\<close>

fun envelope_message_from :: "nat \<Rightarrow> json option \<Rightarrow> string option" where
  "envelope_message_from 0 node = None"
| "envelope_message_from (Suc n) node =
     (case node of
        None \<Rightarrow> None
      | Some v \<Rightarrow>
          if \<not> isRecord v then None
          else (case str_prop ''message'' v of
                  Some m \<Rightarrow> Some m
                | None \<Rightarrow> envelope_message_from n (obj_prop ''error'' v)))"

definition envelopeMessage :: "json \<Rightarrow> string option" where
  "envelopeMessage envelope = envelope_message_from 4 (Some envelope)"

text \<open>\<open>String(code)\<close>: an integer literal in decimal. A fraction is rendered as its quotient:
  like the text JavaScript gives, it is not the text of any code in the table.\<close>

definition number_text :: "rat \<Rightarrow> string" where
  "number_text q = (case quotient_of q of (n, d) \<Rightarrow>
     if d = 1 then show_int n else show_int n @ ''/'' @ show_int d)"

definition errorCodeString :: "json \<Rightarrow> string option" where
  "errorCodeString envelope =
     (if \<not> isRecord envelope then None
      else (case obj_prop ''error'' envelope of
        None \<Rightarrow> None
      | Some err \<Rightarrow>
          if \<not> isRecord err then None
          else (case obj_prop ''code'' err of
            Some (JStr code) \<Rightarrow> Some (js_trim code)
          | Some (JNum code) \<Rightarrow> Some (number_text code)
          | _ \<Rightarrow> None)))"

text \<open>A number or a numeric string of one to nine digits, integers only.\<close>

definition digits_between :: "nat \<Rightarrow> nat \<Rightarrow> string \<Rightarrow> bool" where
  "digits_between lo hi s = (lo \<le> length s \<and> length s \<le> hi \<and> list_all is_digit s)"

definition asCode :: "json option \<Rightarrow> int option" where
  "asCode v =
     (case v of
        Some (JNum q) \<Rightarrow> (case quotient_of q of (n, d) \<Rightarrow> if d = 1 then Some n else None)
      | Some (JStr s) \<Rightarrow>
          if digits_between 1 9 (js_trim s) then Some (int (nat_of_digits (js_trim s))) else None
      | _ \<Rightarrow> None)"

definition minimaxCode :: "json \<Rightarrow> int option" where
  "minimaxCode envelope =
     (if \<not> isRecord envelope then None
      else
        let fromError =
              (case obj_prop ''error'' envelope of
                 Some err \<Rightarrow> if isRecord err then asCode (obj_prop ''code'' err) else None
               | None \<Rightarrow> None)
        in case fromError of
             Some c \<Rightarrow> Some c
           | None \<Rightarrow>
               (case obj_prop ''base_resp'' envelope of
                  Some base \<Rightarrow> if isRecord base then asCode (obj_prop ''status_code'' base) else None
                | None \<Rightarrow> None))"

subsection \<open>Reset times\<close>

definition ZAI_RESET_TAIL :: nat where "ZAI_RESET_TAIL = 256"

definition rspace :: regex where "rspace = rclass js_space"
definition rdigits :: "nat \<Rightarrow> regex" where "rdigits n = rbetween n n (rclass is_digit)"

text \<open>\<open>.\<close> in a pattern: everything but a line terminator.\<close>

definition rdot :: regex where
  "rdot = rclass (\<lambda>c. c \<noteq> CHR 0x0A \<and> c \<noteq> CHR 0x0D)"

text \<open>\<open>/\\bresets? at\\s+(.+?)[.\\s]*$/i\<close>\<close>

definition ZAI_RESET_CLAUSE :: regex where
  "ZAI_RESET_CLAUSE = RSeq [RBoundary, rlit_ci ''reset'', ropt (rlit_ci ''s''), rlit_ci '' at'',
     rplus rspace, RGroup 1 (RRep 1 None False rdot),
     rstar (rclass (\<lambda>c. c = CHR ''.'' \<or> js_space c)), REnd]"

definition iso_date :: regex where
  "iso_date = RSeq [rdigits 4, rlit ''-'', rdigits 2, rlit ''-'', rdigits 2]"

definition iso_time :: regex where
  "iso_time = RSeq [rdigits 2, rlit '':'', rdigits 2,
     ropt (RSeq [rlit '':'', rdigits 2,
       ropt (RSeq [rlit ''.'', rbetween 1 9 (rclass is_digit)])])]"

definition ISO_WITH_ZONE :: regex where
  "ISO_WITH_ZONE = RSeq [RStart, RGroup 1 iso_date, rclass (one_of ''Tt ''), RGroup 2 iso_time,
     ropt rspace,
     RGroup 3 (RAlt [rlit_ci ''Z'',
       RSeq [rclass (one_of ''+-''), rdigits 2, ropt (rlit '':''), rdigits 2]]), REnd]"

definition ISO_NO_ZONE :: regex where
  "ISO_NO_ZONE = RSeq [RStart, RGroup 1 iso_date, rclass (one_of ''T ''), RGroup 2 iso_time, REnd]"

definition js_upper_ascii :: "string \<Rightarrow> string" where
  "js_upper_ascii s = map (\<lambda>c. if char_range CHR ''a'' CHR ''z'' c then char_of ((of_char c :: nat) - 32) else c) s"

text \<open>The numeric zone \<open>+hhmm\<close> with its colon.\<close>

definition colon_zone :: "string \<Rightarrow> string" where
  "colon_zone z =
     (case z of
        [sg, a, b, c, d] \<Rightarrow>
          if one_of ''+-'' sg \<and> list_all is_digit [a, b, c, d] then [sg, a, b, CHR '':'', c, d] else z
      | _ \<Rightarrow> z)"

definition isoToMs :: "(string \<Rightarrow> int option) \<Rightarrow> string \<Rightarrow> string \<Rightarrow> string \<Rightarrow> int option" where
  "isoToMs date_parse date time zone =
     (let z = (if js_upper_ascii zone = ''Z'' then ''Z'' else colon_zone zone)
      in date_parse (date @ ''T'' @ time @ z))"

definition js_slice_tail :: "nat \<Rightarrow> string \<Rightarrow> string" where
  "js_slice_tail n s = drop (length s - n) s"

definition grp :: "nat \<Rightarrow> match_state \<Rightarrow> string" where
  "grp i m = (case group i m of Some s \<Rightarrow> s | None \<Rightarrow> [])"

definition zone_offset :: "string \<Rightarrow> bool" where
  "zone_offset z = re_test (RSeq [RStart, rclass (one_of ''+-''), rdigits 2, rlit '':'', rdigits 2, REnd]) z"

definition parseZaiResetTime ::
  "(string \<Rightarrow> int option) \<Rightarrow> string option \<Rightarrow> string option \<Rightarrow> int option" where
  "parseZaiResetTime date_parse message zone =
     (case message of
        None \<Rightarrow> None
      | Some msg \<Rightarrow>
          (case re_exec ZAI_RESET_CLAUSE (js_slice_tail ZAI_RESET_TAIL (js_trim msg)) of
             None \<Rightarrow> None
           | Some clause \<Rightarrow>
               let value = js_trim (grp 1 clause) in
               (case re_exec ISO_WITH_ZONE value of
                  Some m \<Rightarrow> isoToMs date_parse (grp 1 m) (grp 2 m) (grp 3 m)
                | None \<Rightarrow>
                    if digits_between 10 10 value then Some (int (nat_of_digits value) * 1000)
                    else if digits_between 13 13 value then Some (int (nat_of_digits value))
                    else (case zone of
                       Some z \<Rightarrow>
                         if zone_offset z then
                           (case re_exec ISO_NO_ZONE value of
                              Some m \<Rightarrow> isoToMs date_parse (grp 1 m) (grp 2 m) z
                            | None \<Rightarrow> None)
                         else None
                     | None \<Rightarrow> None))))"

text \<open>\<open>/^(?:Mon|...|Sun)[a-z]*,\\s.+\\sGMT$/\<close>\<close>

definition HTTP_DATE :: regex where
  "HTTP_DATE = RSeq [RStart,
     RAlt (map rlit [''Mon'', ''Tue'', ''Wed'', ''Thu'', ''Fri'', ''Sat'', ''Sun'']),
     rstar (rclass (char_range CHR ''a'' CHR ''z'')), rlit '','', rspace, rplus rdot, rspace,
     rlit ''GMT'', REnd]"

text \<open>\<open>Retry-After\<close>: \<open>Inl\<close> an absolute instant, \<open>Inr\<close> a relative duration.\<close>

definition parseRetryAfter ::
  "(string \<Rightarrow> int option) \<Rightarrow> string option \<Rightarrow> (int + int) option" where
  "parseRetryAfter date_parse value =
     (case value of
        None \<Rightarrow> None
      | Some raw \<Rightarrow>
          let v = js_trim raw in
          if digits_between 1 9 v then Some (Inr (int (nat_of_digits v) * 1000))
          else if re_test HTTP_DATE v then map_option Inl (date_parse v)
          else None)"

definition RETRY_AFTER_KINDS :: "provider_error_kind list" where
  "RETRY_AFTER_KINDS = [quota_exhausted, risk_control]"

subsection \<open>Classification\<close>

definition js_trim_start :: "string \<Rightarrow> string" where
  "js_trim_start s = dropWhile js_space s"

text \<open>\<open>lookup\<close>: the entry and, for Z.ai, the message its reset time is read from. The
  typographic apostrophe Kimi's messages are folded from lies outside the string fragment.\<close>

definition plan_lookup ::
  "plan_dialect \<Rightarrow> nat \<Rightarrow> json \<Rightarrow> (plan_entry \<times> string option) option" where
  "plan_lookup dialect status envelope =
     (case dialect of
        zai \<Rightarrow>
          (case errorCodeString envelope of
             None \<Rightarrow> None
           | Some code \<Rightarrow>
               map_option (\<lambda>entry. (entry, envelopeMessage envelope)) (map_of ZAI_CODES code))
      | minimax \<Rightarrow>
          (case minimaxCode envelope of
             None \<Rightarrow> None
           | Some code \<Rightarrow> map_option (\<lambda>entry. (entry, None)) (map_of MINIMAX_CODES code))
      | kimi \<Rightarrow>
          (case envelopeMessage envelope of
             None \<Rightarrow> None
           | Some raw \<Rightarrow>
               let message = js_trim_start raw in
               map_option (\<lambda>(prefix, st, entry). (entry, None))
                 (find (\<lambda>(prefix, st, entry). st = status \<and> starts_with prefix message)
                    KIMI_MESSAGES)))"

definition classifyPlanError ::
  "(string \<Rightarrow> int option) \<Rightarrow> plan_dialect \<Rightarrow> nat \<Rightarrow> json \<Rightarrow> string option
     \<Rightarrow> plan_classification option" where
  "classifyPlanError date_parse dialect status envelope retryAfter =
     (if status = 401 then None
      else (case plan_lookup dialect status envelope of
        None \<Rightarrow> None
      | Some (entry, message) \<Rightarrow>
          let reset1 =
                (if entry_kind entry = quota_exhausted \<and> dialect = zai then
                   map_option Inl (parseZaiResetTime date_parse message ZAI_FLUSH_TIME_ZONE)
                 else None);
              reset =
                (if reset1 = None \<and> entry_kind entry \<in> set RETRY_AFTER_KINDS
                 then parseRetryAfter date_parse retryAfter else reset1)
          in Some \<lparr>resetAt = (case reset of Some (Inl t) \<Rightarrow> Some t | _ \<Rightarrow> None),
                   retryAfterMs = (case reset of Some (Inr d) \<Rightarrow> Some d | _ \<Rightarrow> None),
                   window = entry_window entry,
                   plan_kind = entry_kind entry\<rparr>))"

section \<open>Facts\<close>

lemma all_kinds [simp]: "k \<in> set PROVIDER_ERROR_KINDS"
  by (cases k) (simp_all add: PROVIDER_ERROR_KINDS_def)

lemmas plan_table_defs =
  ZAI_CODES_def MINIMAX_CODES_def KIMI_MESSAGES_def Q_SHORT_def Q_LONG_def plain_entry_def
  RISK_def INACTIVE_def ENTITLEMENT_def RATE_def UNAVAILABLE_def

text \<open>What a dialect may say: the kinds of its table.\<close>

definition dialect_kinds :: "provider_error_kind list" where
  "dialect_kinds =
     [quota_exhausted, risk_control, plan_inactive, plan_entitlement, rate_limit, unavailable,
      unknown_model]"

lemma plan_lookup_kind:
  "plan_lookup d st env = Some (entry, m) \<Longrightarrow> entry_kind entry \<in> set dialect_kinds"
  by (auto simp: plan_lookup_def Let_def plan_table_defs dialect_kinds_def
      split: plan_dialect.splits option.splits if_splits dest!: find_SomeD)

lemma plan_lookup_window:
  "plan_lookup d st env = Some (entry, m) \<Longrightarrow>
   (entry_window entry \<noteq> None) = (entry_kind entry = quota_exhausted)"
  by (auto simp: plan_lookup_def Let_def plan_table_defs dialect_kinds_def
      split: plan_dialect.splits option.splits if_splits dest!: find_SomeD)

end
