(* ===== verification/ProviderErrors.thy ===== *)
theory ProviderErrors
  imports PlanErrors
begin

text \<open>
  \<open>providers/errors.ts\<close>: from an upstream's response to a typed error, and from its body to
  what may be stored. Classification maps the status (after the plan dialect had its say) to a
  kind; the scrubber redacts credentials; the capture policy withholds or scrubs the provider's
  message; the three retention gates decide which classification values survive.
\<close>

section \<open>Scrubbing\<close>

definition MAX_MESSAGE_LEN :: nat where "MAX_MESSAGE_LEN = 300"
definition REDACTED :: string where "REDACTED = ''[redacted]''"
definition VALIDATION_WITHHELD :: string where
  "VALIDATION_WITHHELD = ''[validation message withheld]''"
definition POLICY_WITHHELD :: string where
  "POLICY_WITHHELD = ''[content-policy message withheld]''"
definition FUNDS_WITHHELD :: string where
  "FUNDS_WITHHELD = ''[insufficient-funds message withheld]''"
definition PERMISSION_WITHHELD :: string where
  "PERMISSION_WITHHELD = ''[permission message withheld]''"

definition alnum :: "char \<Rightarrow> bool" where
  "alnum c = (char_range CHR ''A'' CHR ''Z'' c \<or> char_range CHR ''a'' CHR ''z'' c \<or> is_digit c)"

definition hex_digit :: "char \<Rightarrow> bool" where
  "hex_digit c = (char_range CHR ''A'' CHR ''F'' c \<or> char_range CHR ''a'' CHR ''f'' c \<or> is_digit c)"

text \<open>The stripped controls within the string fragment are 00-1F and 7F; then percent escapes
  are put in upper case.\<close>

definition normalizeForScrub :: "string \<Rightarrow> string" where
  "normalizeForScrub text =
     re_replace (RSeq [rlit ''%'', rclass hex_digit, rclass hex_digit]) (\<lambda>m _. js_upper_ascii m)
       (filter (\<lambda>c. \<not> (char_range CHR 0x00 CHR 0x1F c \<or> c = CHR 0x7F)) text)"

definition token_char :: "char \<Rightarrow> bool" where  \<comment> \<open>\<open>[A-Za-z0-9_-]\<close>\<close>
  "token_char c = (alnum c \<or> one_of ''_-'' c)"

definition cred_char :: "char \<Rightarrow> bool" where  \<comment> \<open>\<open>[A-Za-z0-9+/=._-]\<close>\<close>
  "cred_char c = (alnum c \<or> one_of ''+/=._-'' c)"

definition quote_char :: "char \<Rightarrow> bool" where
  "quote_char c = (c = CHR 0x22 \<or> c = CHR 0x27)"

text \<open>The heuristic shapes, in order. The flag says whether the first group is kept in front of
  the replacement.\<close>

definition HEURISTICS :: "(regex \<times> bool) list" where
  "HEURISTICS =
     [(RSeq [RBoundary, RAlt [rlit ''sk'', rlit ''pk''], rlit ''-'', ratleast 8 (rclass token_char)], False),
      (RSeq [RBoundary, rlit ''poly_'', ratleast 8 (rclass token_char)], False),
      (RSeq [RBoundary, RAlt [rlit_ci ''Bearer'', rlit_ci ''Basic''], rplus rspace,
             ratleast 6 (rclass cred_char)], False),
      (RSeq [RGroup 1 (RSeq
               [RAlt [rlit_ci ''x-api-key'',
                      RSeq [rlit_ci ''api'', ropt (rclass (one_of ''_-'')), rlit_ci ''key''],
                      RSeq [rlit_ci ''access'', ropt (rclass (one_of ''_-'')), rlit_ci ''token''],
                      RSeq [rlit_ci ''client'', ropt (rclass (one_of ''_-'')), rlit_ci ''secret''],
                      rlit_ci ''secret'', rlit_ci ''token'', rlit_ci ''key''],
                ropt (rclass quote_char), rstar rspace, rclass (one_of '':=''), rstar rspace,
                ropt (rclass quote_char)]),
             ratleast 6 (rclass cred_char)], True),
      (RSeq [RBoundary, RGroup 1 (RSeq [ropt (rlit_ci ''set-''), rlit_ci ''cookie'', rstar rspace,
                rclass (one_of '':=''), rstar rspace]),
             rplus (rclass (\<lambda>c. \<not> js_space c))], True),
      (RSeq [RBoundary, rlit ''eyJ'', ratleast 4 (rclass token_char), rlit ''.'',
             ratleast 4 (rclass token_char), rlit ''.'', ratleast 4 (rclass token_char), RBoundary], False),
      (RSeq [RBoundary, ratleast 32 (rclass hex_digit), RBoundary], False),
      (RSeq [RBoundary, ratleast 32 (rclass (\<lambda>c. alnum c \<or> one_of ''+/'' c)),
             rbetween 0 2 (rlit ''=''), RBoundary], False)]"

text \<open>UTF-8, base64 and \<open>encodeURIComponent\<close>, as the runtime's buffers have them.\<close>

definition utf8_bytes :: "string \<Rightarrow> nat list" where
  "utf8_bytes s = concat (map (\<lambda>c. let n = (of_char c :: nat) in
     if n < 128 then [n] else [192 + n div 64, 128 + n mod 64]) s)"

definition base64_char :: "nat \<Rightarrow> char" where
  "base64_char n =
     (if n < 26 then char_of (65 + n) else if n < 52 then char_of (71 + n)
      else if n < 62 then char_of (n - 4) else if n = 62 then CHR ''+'' else CHR ''/'')"

fun base64 :: "nat list \<Rightarrow> string" where
  "base64 [] = []"
| "base64 [a] = [base64_char (a div 4), base64_char (16 * (a mod 4)), CHR ''='', CHR ''='']"
| "base64 [a, b] =
     [base64_char (a div 4), base64_char (16 * (a mod 4) + b div 16),
      base64_char (4 * (b mod 16)), CHR ''='']"
| "base64 (a # b # c # bs) =
     [base64_char (a div 4), base64_char (16 * (a mod 4) + b div 16),
      base64_char (4 * (b mod 16) + c div 64), base64_char (c mod 64)] @ base64 bs"

definition hex_upper :: "nat \<Rightarrow> char" where
  "hex_upper n = (if n < 10 then char_of (48 + n) else char_of (55 + n))"

definition encodeURIComponent :: "string \<Rightarrow> string" where
  "encodeURIComponent s = concat (map (\<lambda>c.
     if alnum c \<or> one_of ''-_.!~*()'' c \<or> c = CHR 0x27 then [c]
     else concat (map (\<lambda>b. [CHR ''%'', hex_upper (b div 16), hex_upper (b mod 16)]) (utf8_bytes [c]))) s)"

definition strip_padding :: "string \<Rightarrow> string" where
  "strip_padding s = rev (dropWhile (\<lambda>c. c = CHR ''='') (rev s))"

definition secretVariants :: "string \<Rightarrow> string list" where
  "secretVariants secret =
     (let std = base64 (utf8_bytes secret);
          urlSafe = map (\<lambda>c. if c = CHR ''+'' then CHR ''-'' else if c = CHR ''/'' then CHR ''_'' else c) std
      in [secret, encodeURIComponent secret, std, strip_padding std, urlSafe, strip_padding urlSafe])"

text \<open>\<open>out.split(v).join(r)\<close> for a non-empty \<open>v\<close>.\<close>

fun split_join :: "string \<Rightarrow> string \<Rightarrow> string \<Rightarrow> string" where
  "split_join v r [] = []"
| "split_join v r (c # s) =
     (if v \<noteq> [] \<and> starts_with v (c # s)
      then r @ split_join v r (drop (length v) (c # s))
      else c # split_join v r s)"

definition longest_first :: "string \<Rightarrow> string \<Rightarrow> int" where
  "longest_first a b = int (length b) - int (length a)"

interpretation longest: consistent_cmp longest_first
  by unfold_locales (auto simp: longest_first_def)

definition scrub_secret :: "string \<Rightarrow> string \<Rightarrow> string" where
  "scrub_secret secret out =
     (if secret = [] then out
      else foldl (\<lambda>o1 variant. split_join variant REDACTED o1) out
             (js_sort longest_first (rev (remdups (rev (secretVariants secret))))))"

definition scrubSecrets :: "string \<Rightarrow> string list \<Rightarrow> string" where
  "scrubSecrets text secrets =
     (let out = foldl (\<lambda>o1 secret. scrub_secret secret o1) (normalizeForScrub text) secrets
      in foldl (\<lambda>o1 (re, keep).
           re_replace re (\<lambda>_ m. if keep then grp 1 m @ REDACTED else REDACTED) o1) out HEURISTICS)"

text \<open>Strict allowlist for upstream request ids.\<close>

definition request_id_char :: "char \<Rightarrow> bool" where
  "request_id_char c = (alnum c \<or> one_of ''._-'' c)"

definition sanitizeRequestId :: "string option \<Rightarrow> string option" where
  "sanitizeRequestId i =
     (case i of
        None \<Rightarrow> None
      | Some s \<Rightarrow> if 1 \<le> length s \<and> length s \<le> 128 \<and> list_all request_id_char s then Some s else None)"

section \<open>Envelopes and markers\<close>

definition POLICY_MARKER :: regex where
  "POLICY_MARKER = RAlt
     [RSeq [rlit_ci ''content'', ropt (rclass (one_of ''_-'')), rlit_ci ''filter''],
      RSeq [rlit_ci ''content'', ropt (rclass (one_of ''_-'')), rlit_ci ''policy''],
      rlit_ci ''moderation'']"

definition RETENTION_METADATA_KEYS :: "string list" where
  "RETENTION_METADATA_KEYS = [''error_type'', ''type'', ''code'', ''reason'']"

definition marker_char :: "char \<Rightarrow> bool" where
  "marker_char c = (alnum c \<or> one_of ''_.:-'' c)"

definition MARKER_SHAPE :: "string \<Rightarrow> bool" where
  "MARKER_SHAPE s = (1 \<le> length s \<and> length s \<le> 64 \<and> list_all marker_char s)"

definition MAX_RETAINED_MARKERS :: nat where "MAX_RETAINED_MARKERS = 8"
definition MAX_RETAINED_MARKER_BYTES :: nat where "MAX_RETAINED_MARKER_BYTES = 256"

definition namedMetadataValues :: "json option \<Rightarrow> string list" where
  "namedMetadataValues metadata =
     (case metadata of
        None \<Rightarrow> []
      | Some v \<Rightarrow> List.map_filter (\<lambda>key. str_prop key v) RETENTION_METADATA_KEYS)"

definition json_strings :: "json \<Rightarrow> string list" where
  "json_strings v = (case v of JStr s \<Rightarrow> [s] | _ \<Rightarrow> [])"

definition metadataMarkers :: "json option \<Rightarrow> string list" where
  "metadataMarkers metadata =
     (let values = (case metadata of
                      Some (JObj kvs) \<Rightarrow> map snd kvs
                    | Some (JArr vs) \<Rightarrow> vs
                    | _ \<Rightarrow> [])
      in concat (map (\<lambda>v. case v of
            JStr s \<Rightarrow> [s]
          | JArr items \<Rightarrow> concat (map json_strings items)
          | _ \<Rightarrow> []) values))"

record walked =
  w_message :: "string option"
  w_markers :: "string list"
  w_retention :: "string list"

definition own_markers :: "json \<Rightarrow> string list" where
  "own_markers v =
     (case str_prop ''type'' v of Some s \<Rightarrow> [s] | None \<Rightarrow> []) @
     (case str_prop ''code'' v of Some s \<Rightarrow> [s] | None \<Rightarrow> [])"

fun walk_from :: "nat \<Rightarrow> json option \<Rightarrow> walked \<Rightarrow> walked" where
  "walk_from 0 node w = w"
| "walk_from (Suc n) node w =
     (case node of
        None \<Rightarrow> w
      | Some v \<Rightarrow>
          if \<not> is_object v then w
          else walk_from n (obj_prop ''error'' v)
            \<lparr>w_message = (case w_message w of Some m \<Rightarrow> Some m | None \<Rightarrow> str_prop ''message'' v),
             w_markers = w_markers w @ own_markers v @ metadataMarkers (obj_prop ''metadata'' v),
             w_retention = w_retention w @ own_markers v @ namedMetadataValues (obj_prop ''metadata'' v)\<rparr>)"

definition walkEnvelope :: "json \<Rightarrow> walked" where
  "walkEnvelope envelope =
     walk_from 4 (Some envelope) \<lparr>w_message = None, w_markers = [], w_retention = []\<rparr>"

definition hasContentPolicyMarker :: "json \<Rightarrow> bool" where
  "hasContentPolicyMarker envelope =
     list_ex (re_test POLICY_MARKER) (w_markers (walkEnvelope envelope))"

text \<open>Gates 1 and 2: scrub each candidate alone, test its shape, drop it whole past a bound.\<close>

fun retain_loop :: "string list \<Rightarrow> string list \<Rightarrow> nat \<Rightarrow> string list \<Rightarrow> string list" where
  "retain_loop secrets kept bytes [] = kept"
| "retain_loop secrets kept bytes (raw # candidates) =
     (if length kept \<ge> MAX_RETAINED_MARKERS then kept
      else
        let scrubbed = scrubSecrets raw secrets; size = length (utf8_bytes scrubbed) in
        if \<not> MARKER_SHAPE scrubbed then retain_loop secrets kept bytes candidates
        else if scrubbed \<in> set kept then retain_loop secrets kept bytes candidates
        else if bytes + size > MAX_RETAINED_MARKER_BYTES then retain_loop secrets kept bytes candidates
        else retain_loop secrets (kept @ [scrubbed]) (bytes + size) candidates)"

text \<open>Gate 3: the seamless join of every suffix must survive the scrubber unchanged.\<close>

definition joins_clean :: "string list \<Rightarrow> string list \<Rightarrow> bool" where
  "joins_clean secrets kept =
     list_all (\<lambda>i. let joined = concat (drop i kept) in scrubSecrets joined secrets = joined)
       [0..<length kept]"

definition retainMarkers :: "string list \<Rightarrow> string list \<Rightarrow> string list" where
  "retainMarkers candidates secrets =
     (let kept = retain_loop secrets [] 0 candidates
      in if joins_clean secrets kept then kept else [])"

section \<open>Streams\<close>

definition classifyStreamError :: "string \<Rightarrow> provider_error_kind" where
  "classifyStreamError rawType =
     (let t = js_lower rawType in
      if js_includes ''overload'' t \<or> js_includes ''server'' t \<or> js_includes ''api_error'' t
           \<or> js_includes ''timeout'' t then unavailable
      else if js_includes ''rate'' t \<or> js_includes ''quota'' t then rate_limit
      else if re_test POLICY_MARKER t then content_policy
      else if js_includes ''credit'' t \<or> js_includes ''billing'' t \<or> js_includes ''payment'' t
        then insufficient_funds
      else if js_includes ''permission'' t \<or> js_includes ''forbidden'' t then permission
      else if js_includes ''auth'' t then auth
      else if js_includes ''not_found'' t \<or> js_includes ''not found'' t then unknown_model
      else if js_includes ''invalid_request'' t \<or> js_includes ''invalid'' t then bad_request
      else unavailable)"

section \<open>Capture\<close>

datatype capture_input =
    ParsedEnvelope json
  | StreamWire (sw_message: "string option") (sw_type: "string option") (sw_code: "string option")

definition captureProviderMessage ::
  "capture_input \<Rightarrow> provider_error_kind \<Rightarrow> string list \<Rightarrow> string option" where
  "captureProviderMessage input kind secrets =
     (let (message, markers) =
            (case input of
               ParsedEnvelope env \<Rightarrow> (w_message (walkEnvelope env), w_markers (walkEnvelope env))
             | StreamWire msg ty code \<Rightarrow> (msg, List.map_filter (\<lambda>x. x) [ty, code]))
      in
      if kind = content_policy \<or> kind = policy_block then Some POLICY_WITHHELD
      else if list_ex (re_test POLICY_MARKER) markers then Some POLICY_WITHHELD
      else if kind = insufficient_funds then Some FUNDS_WITHHELD
      else if kind = permission then Some PERMISSION_WITHHELD
      else if kind = bad_request \<or> kind = upstream_rejected
                \<or> list_ex (\<lambda>m. classifyStreamError m = bad_request) markers
        then Some VALIDATION_WITHHELD
      else (case message of
              None \<Rightarrow> None
            | Some msg \<Rightarrow>
                if msg = [] then None
                else let scrubbed = take MAX_MESSAGE_LEN (scrubSecrets msg secrets)
                     in if scrubbed = [] then None else Some scrubbed))"

section \<open>Classification\<close>

record provider_error =
  pe_kind :: provider_error_kind
  pe_message :: string
  pe_status :: "nat option"
  pe_requestId :: "string option"
  pe_providerMessage :: "string option"
  pe_markers :: "string list option"
  pe_planReset :: "plan_reset option"

text \<open>The constructor: empty marker lists are not stored.\<close>

definition ProviderError ::
  "provider_error_kind \<Rightarrow> string \<Rightarrow> nat option \<Rightarrow> string option \<Rightarrow> string option
     \<Rightarrow> string list option \<Rightarrow> plan_reset option \<Rightarrow> provider_error" where
  "ProviderError kind message status requestId providerMessage markers planReset =
     \<lparr>pe_kind = kind, pe_message = message, pe_status = status, pe_requestId = requestId,
      pe_providerMessage = providerMessage,
      pe_markers = (case markers of Some (m # ms) \<Rightarrow> Some (m # ms) | _ \<Rightarrow> None),
      pe_planReset = planReset\<rparr>"

definition MODEL_NOT_FOUND :: regex where "MODEL_NOT_FOUND = rlit_ci ''model''"

definition NOT_FOUND_HINT :: regex where
  "NOT_FOUND_HINT = RAlt
     [RSeq [rlit_ci ''not'', ropt (rclass (\<lambda>c. one_of ''_-'' c \<or> js_space c)), rlit_ci ''found''],
      rlit_ci ''does not exist'', rlit_ci ''unknown'', rlit_ci ''no such'', rlit_ci ''deprecat'',
      rlit_ci ''retir'']"

definition isModelNotFound :: "string \<Rightarrow> bool" where
  "isModelNotFound bodyText = (re_test MODEL_NOT_FOUND bodyText \<and> re_test NOT_FOUND_HINT bodyText)"

definition in_parens :: "string \<Rightarrow> nat \<Rightarrow> string" where
  "in_parens text status = text @ '' ('' @ show_nat status @ '')''"

definition curatedForPlan :: "provider_error_kind \<Rightarrow> nat \<Rightarrow> string" where
  "curatedForPlan kind status =
     in_parens
       (case kind of
          quota_exhausted \<Rightarrow> ''provider plan usage limit reached''
        | risk_control \<Rightarrow> ''provider throttled the account''
        | plan_inactive \<Rightarrow> ''provider plan is not active for this key''
        | plan_entitlement \<Rightarrow> ''provider plan does not include this model''
        | rate_limit \<Rightarrow> ''provider rate limited''
        | unknown_model \<Rightarrow> ''model not found''
        | _ \<Rightarrow> ''provider unavailable'') status"

text \<open>A body that is not JSON reads as \<open>null\<close>.\<close>

definition parseErrorEnvelope :: "string \<Rightarrow> json" where
  "parseErrorEnvelope bodyText = (case json_parse bodyText of Some v \<Rightarrow> v | None \<Rightarrow> JNull)"

text \<open>The generic status map.\<close>

definition classify_status :: "nat \<Rightarrow> string \<Rightarrow> json \<Rightarrow> provider_error_kind \<times> string" where
  "classify_status status bodyText envelope =
     (if status = 401 then (auth, ''provider auth failed (401)'')
      else if status = 403 then
        (if hasContentPolicyMarker envelope
         then (content_policy, ''provider refused on content policy (403)'')
         else (permission, ''provider denied permission (403)''))
      else if status = 402 then
        (insufficient_funds, ''provider account cannot pay for the request (402)'')
      else if status = 429 then (rate_limit, ''provider rate limited (429)'')
      else if status = 404 \<or> status = 410 then
        (if isModelNotFound bodyText then (unknown_model, in_parens ''model not found'' status)
         else (unavailable, in_parens ''provider endpoint not found'' status))
      else if status = 451 then (policy_block, ''provider denied for legal reasons (451)'')
      else if status = 400 \<or> status = 422 \<or> status = 413 then
        (bad_request, in_parens ''provider rejected the request'' status @ '': '' @ take 200 bodyText)
      else if status = 405 \<or> status = 415 then
        (unavailable, in_parens ''provider rejected the transport'' status)
      else if status = 408 \<or> status = 409 \<or> status \<ge> 500 then
        (unavailable, in_parens ''provider unavailable'' status)
      else if status \<ge> 400 then
        (upstream_rejected, in_parens ''provider rejected the request'' status)
      else (unavailable, in_parens ''unexpected provider status'' status))"

text \<open>\<open>meta.requestId\<close> is the only other field the callers hand over.\<close>

definition classifyResponse ::
  "(string \<Rightarrow> int option) \<Rightarrow> nat \<Rightarrow> string \<Rightarrow> string option \<Rightarrow> string option \<Rightarrow> string list
     \<Rightarrow> plan_dialect option \<Rightarrow> provider_error" where
  "classifyResponse date_parse status bodyText requestId retryAfter secrets dialect =
     (let envelope = parseErrorEnvelope bodyText;
          plan = (case dialect of
                    Some d \<Rightarrow> classifyPlanError date_parse d status envelope retryAfter
                  | None \<Rightarrow> None);
          (kind, curated) =
            (case plan of
               Some p \<Rightarrow> (plan_kind p, curatedForPlan (plan_kind p) status)
             | None \<Rightarrow> classify_status status bodyText envelope);
          providerMessage = captureProviderMessage (ParsedEnvelope envelope) kind secrets;
          markers = retainMarkers (w_retention (walkEnvelope envelope)) secrets;
          planReset =
            (case plan of
               None \<Rightarrow> None
             | Some p \<Rightarrow>
                 if resetAt p \<noteq> None \<or> retryAfterMs p \<noteq> None \<or> window p \<noteq> None
                 then Some \<lparr>resetAt = resetAt p, retryAfterMs = retryAfterMs p, window = window p\<rparr>
                 else None)
      in ProviderError kind curated (Some status) requestId providerMessage
           (if markers \<noteq> [] then Some markers else None) planReset)"

text \<open>Both branches of the network classifier give the same kind; the message differs.\<close>

definition NETWORK_UNAVAILABLE :: regex where
  "NETWORK_UNAVAILABLE = RAlt (map rlit_ci
     [''ECONNREFUSED'', ''ECONNRESET'', ''ENOTFOUND'', ''EAI_AGAIN'', ''ETIMEDOUT'', ''EPIPE'',
      ''socket hang up'', ''other side closed'', ''terminated'', ''UND_ERR''])"

definition classifyNetworkError :: "string \<Rightarrow> string \<Rightarrow> provider_error" where
  "classifyNetworkError message code =
     (if re_test NETWORK_UNAVAILABLE message \<or> re_test NETWORK_UNAVAILABLE code
      then ProviderError unavailable (''provider connection failed: '' @ message) None None None None None
      else ProviderError unavailable (''provider request failed: '' @ message) None None None None None)"

end
