(* ===== verification/ErrorFacts.thy ===== *)
theory ErrorFacts
  imports ProviderErrors
begin

text \<open>
  What the error pipeline promises: configured secrets are gone from scrubbed text, provider
  wording is stored for operational kinds only, retained markers pass all three gates, and the
  pausing kinds come out of a plan dialect alone.
\<close>

section \<open>Redaction\<close>

text \<open>\<open>redacts s out\<close>: \<open>out\<close> is \<open>s\<close> with some disjoint pieces replaced by the redaction mark.\<close>

inductive redacts :: "string \<Rightarrow> string \<Rightarrow> bool" where
  redacts_nil: "redacts [] []"
| redacts_keep: "redacts s out \<Longrightarrow> redacts (c # s) (c # out)"
| redacts_cut: "redacts s out \<Longrightarrow> redacts (m @ s) (REDACTED @ out)"

lemma redacts_refl [simp]: "redacts s s"
  by (induction s) (auto intro: redacts.intros)

lemma redacts_append_keep: "redacts s out \<Longrightarrow> redacts (p @ s) (p @ out)"
  by (induction p) (auto intro: redacts.intros)

text \<open>A text that cannot be made of the mark: no brackets, and not inside the word.\<close>

definition plain_secret :: "string \<Rightarrow> bool" where
  "plain_secret v = (v \<noteq> [] \<and> CHR ''['' \<notin> set v \<and> CHR '']'' \<notin> set v \<and> \<not> js_includes v ''redacted'')"

lemma starts_with_Cons [simp]:
  "starts_with (p # ps) (c # s) = (p = c \<and> starts_with ps s)"
  "starts_with (p # ps) [] = False" "starts_with [] s = True"
  by (auto simp: starts_with_def)

lemma REDACTED_Cons: "REDACTED = CHR ''['' # ''redacted'' @ '']''"
  by (simp add: REDACTED_def)

lemma redacts_prefix:
  assumes "redacts s out" "CHR ''['' \<notin> set v" "starts_with v out"
  shows "starts_with v s"
  using assms
proof (induction arbitrary: v)
  case (redacts_keep s out c)
  then show ?case by (cases v) auto
next
  case (redacts_cut s out m)
  then show ?case by (cases v) (auto simp: REDACTED_Cons)
qed simp

lemma js_includes_append_right: "js_includes v s \<Longrightarrow> js_includes v (m @ s)"
proof (induction m)
  case (Cons c m)
  then show ?case by simp
qed simp

lemma js_includes_Nil_pat [simp]: "js_includes [] s"
  by (cases s) auto

lemma starts_with_bracket:
  assumes "CHR '']'' \<notin> set v" "starts_with v (w @ CHR '']'' # out)"
  shows "starts_with v w"
  using assms
proof (induction w arbitrary: v)
  case Nil
  then show ?case by (cases v) auto
next
  case (Cons x w)
  then show ?case by (cases v) auto
qed

lemma js_includes_mark:
  assumes "CHR '']'' \<notin> set v" "v \<noteq> []" "\<not> js_includes v w" "js_includes v (w @ CHR '']'' # out)"
  shows "js_includes v out"
  using assms(3,4)
proof (induction w)
  case Nil
  then show ?case using assms(1,2) by (cases v) auto
next
  case (Cons x w)
  then show ?case using starts_with_bracket [OF assms(1), of "x # w" out] by auto
qed

lemma not_in_mark:
  assumes "plain_secret v" "js_includes v (REDACTED @ out)"
  shows "js_includes v out"
proof -
  from assms(1) have v: "CHR ''['' \<notin> set v" "CHR '']'' \<notin> set v" "v \<noteq> []" "\<not> js_includes v ''redacted''"
    by (simp_all add: plain_secret_def)
  define w :: string where "w = ''redacted''"
  from v(4) have "\<not> js_includes v w" unfolding w_def .
  moreover have "REDACTED @ out = CHR ''['' # w @ CHR '']'' # out"
    by (simp add: REDACTED_Cons w_def)
  moreover have "\<not> starts_with v (CHR ''['' # t)" for t using v(1,3) by (cases v) auto
  ultimately have "js_includes v (w @ CHR '']'' # out)"
    using assms(2) by (metis js_includes.simps(2))
  with \<open>\<not> js_includes v w\<close> show ?thesis by (rule js_includes_mark [OF v(2,3)])
qed

lemma redacts_absent:
  assumes "redacts s out" "plain_secret v" "\<not> js_includes v s"
  shows "\<not> js_includes v out"
  using assms(1,3)
proof (induction)
  case (redacts_keep s out c)
  have "starts_with v (c # s)" if "starts_with v (c # out)"
    using redacts_prefix [OF redacts.redacts_keep [OF redacts_keep.hyps] _ that] assms(2)
    by (simp add: plain_secret_def)
  with redacts_keep show ?case by auto
next
  case (redacts_cut s out m)
  then show ?case using not_in_mark [OF assms(2)] js_includes_append_right by blast
qed simp

lemma split_join_redacts: "redacts s (split_join v REDACTED s)"
proof (induction v REDACTED s rule: split_join.induct)
  case (2 v c s)
  show ?case
  proof (cases "v \<noteq> [] \<and> starts_with v (c # s)")
    case True
    then have "c # s = v @ drop (length v) (c # s)"
      by (auto simp: starts_with_def) (metis append_take_drop_id)
    moreover have "redacts (v @ drop (length v) (c # s)) (REDACTED @ split_join v REDACTED (drop (length v) (c # s)))"
      by (rule redacts.redacts_cut [OF 2(1)[OF True]])
    ultimately show ?thesis using True by simp
  next
    case False
    with 2(2) show ?thesis by (auto intro: redacts.intros)
  qed
qed (simp add: redacts_nil)

lemma split_join_absent:
  "plain_secret v \<Longrightarrow> \<not> js_includes v (split_join v REDACTED s)"
proof (induction v REDACTED s rule: split_join.induct)
  case (1 v)
  then show ?case by (simp add: plain_secret_def)
next
  case (2 v c s)
  show ?case
  proof (cases "v \<noteq> [] \<and> starts_with v (c # s)")
    case True
    with 2(1)[OF True 2(3)] not_in_mark [OF 2(3)] show ?thesis by auto
  next
    case False
    with 2(3) have nsw: "\<not> starts_with v (c # s)" by (simp add: plain_secret_def)
    have "\<not> starts_with v (c # split_join v REDACTED s)"
      using redacts_prefix [OF redacts.redacts_keep [OF split_join_redacts [of s v]], of v c] nsw 2(3)
      by (auto simp: plain_secret_def)
    with False 2(2)[OF False 2(3)] show ?thesis by auto
  qed
qed

lemma foldl_split_join_absent:
  assumes "plain_secret v" "v \<in> set vs \<or> \<not> js_includes v s"
  shows "\<not> js_includes v (foldl (\<lambda>o1 x. split_join x REDACTED o1) s vs)"
  using assms(2)
proof (induction vs arbitrary: s)
  case (Cons x vs)
  show ?case
  proof (cases "x = v \<or> \<not> js_includes v s")
    case True
    then have "\<not> js_includes v (split_join x REDACTED s)"
      using split_join_absent [OF assms(1)] redacts_absent [OF split_join_redacts assms(1)] by auto
    with Cons.IH show ?thesis by simp
  next
    case False
    with Cons show ?thesis by auto
  qed
qed simp

lemma scrub_secret_absent:
  assumes "plain_secret v" "secret \<noteq> [] \<and> v \<in> set (secretVariants secret) \<or> \<not> js_includes v s"
  shows "\<not> js_includes v (scrub_secret secret s)"
proof (cases "secret = []")
  case True
  with assms show ?thesis by (auto simp: scrub_secret_def)
next
  case False
  from assms(2) have "v \<in> set (js_sort longest_first (rev (remdups (rev (secretVariants secret)))))
      \<or> \<not> js_includes v s" by auto
  from foldl_split_join_absent [OF assms(1) this] False show ?thesis
    by (simp add: scrub_secret_def)
qed

lemma foldl_scrub_secret_absent:
  assumes "plain_secret v"
    "(\<exists>secret \<in> set secrets. secret \<noteq> [] \<and> v \<in> set (secretVariants secret)) \<or> \<not> js_includes v s"
  shows "\<not> js_includes v (foldl (\<lambda>o1 secret. scrub_secret secret o1) s secrets)"
  using assms(2)
proof (induction secrets arbitrary: s)
  case (Cons x secrets)
  show ?case
  proof (cases "(x \<noteq> [] \<and> v \<in> set (secretVariants x)) \<or> \<not> js_includes v s")
    case True
    then show ?thesis using Cons.IH scrub_secret_absent [OF assms(1)] by simp
  next
    case False
    with Cons show ?thesis by auto
  qed
qed simp

subsection \<open>The heuristic replacements only cut\<close>

text \<open>A replacement that writes a prefix of the match and then the mark.\<close>

definition cuts :: "regex \<Rightarrow> (string \<Rightarrow> match_state \<Rightarrow> string) \<Rightarrow> bool" where
  "cuts r out = (\<forall>b s m. match_at r b s = Some m \<longrightarrow> length (fst (snd m)) < length s \<longrightarrow>
     (\<exists>k. let t = rev (take (length s - length (fst (snd m))) (fst m))
          in out t m = take k t @ REDACTED))"

lemma match_at_text:
  assumes "match_at r b s = Some m" "length (fst (snd m)) \<le> length s"
  shows "rev (take (length s - length (fst (snd m))) (fst m)) @ fst (snd m) = s"
proof -
  from match_at_split [OF assms(1)] have eq: "rev (fst m) @ fst (snd m) = rev b @ s" .
  with assms(2) have len: "length (fst m) = length b + (length s - length (fst (snd m)))"
    by (metis add_diff_assoc length_append length_rev add_diff_cancel_right')
  have "rev (take (length s - length (fst (snd m))) (fst m)) = drop (length b) (rev (fst m))"
    by (simp add: len rev_take)
  also have "\<dots> @ fst (snd m) = drop (length b) (rev (fst m) @ fst (snd m))"
    using len by simp
  also have "\<dots> = s" by (simp add: eq)
  finally show ?thesis .
qed

lemma replace_all_redacts:
  assumes "cuts r out"
  shows "redacts s (replace_all n r out b s)"
proof (induction n arbitrary: b s)
  case (Suc n)
  show ?case
  proof (cases s)
    case Nil
    then show ?thesis by (simp add: redacts_nil)
  next
    case (Cons c s')
    have keep: "redacts s (c # replace_all n r out (c # b) s')"
      using Suc by (simp add: Cons redacts.redacts_keep)
    show ?thesis
    proof (cases "match_at r b s")
      case None
      with keep show ?thesis by (simp add: Cons)
    next
      case (Some m)
      obtain b' rest g where m: "m = (b', rest, g)" by (cases m)
      show ?thesis
      proof (cases "length rest < length s")
        case True
        let ?t = "rev (take (length s - length rest) b')"
        obtain k where k: "out ?t m = take k ?t @ REDACTED"
          using assms Some True unfolding cuts_def m Let_def by fastforce
        have t: "?t @ rest = s" using match_at_text [OF Some] True by (simp add: m)
        have "redacts (take k ?t @ drop k ?t @ rest) (take k ?t @ REDACTED @ replace_all n r out b' rest)"
          by (intro redacts_append_keep redacts.redacts_cut Suc)
        also have "take k ?t @ drop k ?t @ rest = s" using t by (metis append_assoc append_take_drop_id)
        finally show ?thesis using Some True k by (simp add: Cons m)
      next
        case False
        with keep Some show ?thesis by (simp add: Cons m)
      qed
    qed
  qed
qed simp

lemma re_replace_redacts: "cuts r out \<Longrightarrow> redacts s (re_replace r out s)"
  unfolding re_replace_def by (rule replace_all_redacts)

lemma cuts_plain: "cuts r (\<lambda>_ m. REDACTED)"
  by (auto simp: cuts_def Let_def intro: exI [of _ 0])

text \<open>A first group followed by patterns without groups holds a prefix of the match.\<close>

lemma group_prefix:
  assumes m: "m \<in> set (match_seq (RGroup 1 r # rs) (b, s, g))" and rs: "list_all no_groups rs"
  shows "\<exists>k. grp 1 m = take k (rev (take (length (fst m) - length b) (fst m)))"
proof -
  from m obtain b1 s1 g1 where
    r1: "(b1, s1, g1) \<in> set (matches r (b, s, g))"
    and m1: "m \<in> set (match_seq rs (b1, s1, (1, rev (take (length b1 - length b) b1)) # g1))"
    by auto
  from no_groups_captures [OF m1 rs]
  have g: "grp 1 m = rev (take (length b1 - length b) b1)" by (simp add: grp_def group_def)
  from matches_extend [OF r1] obtain u1 where u1: "b1 = u1 @ b" by auto
  from match_seq_extend [OF m1] obtain u where u: "fst m = u @ b1" by auto
  have "rev (take (length (fst m) - length b) (fst m)) = rev u1 @ rev u"
    by (simp add: u u1)
  moreover have "grp 1 m = rev u1" using g by (simp add: u1)
  ultimately have "grp 1 m = take (length u1) (rev (take (length (fst m) - length b) (fst m)))" by simp
  then show ?thesis ..
qed

lemma match_at_length:
  assumes "match_at r b s = Some m"
  shows "length (fst m) - length b = length s - length (fst (snd m))"
proof -
  have "length (fst m) + length (fst (snd m)) = length b + length s"
    using match_at_split [OF assms] by (metis length_append length_rev)
  moreover obtain u where "fst m = u @ b"
  proof -
    from assms have "m \<in> set (matches r (b, s, []))" by (auto simp: match_at_def split: list.splits)
    with matches_extend that show ?thesis by fastforce
  qed
  ultimately show ?thesis by simp
qed

lemma cuts_group:
  assumes "list_all no_groups rs" "r = RSeq (RGroup 1 r1 # rs) \<or> r = RSeq (RBoundary # RGroup 1 r1 # rs)"
  shows "cuts r (\<lambda>_ m. grp 1 m @ REDACTED)"
  unfolding cuts_def Let_def
proof (intro allI impI)
  fix b s m
  assume m: "match_at r b s = Some m"
  then have "m \<in> set (matches r (b, s, []))" by (auto simp: match_at_def split: list.splits)
  with assms(2) have "m \<in> set (match_seq (RGroup 1 r1 # rs) (b, s, []))"
    by (auto split: if_splits)
  from group_prefix [OF this assms(1)] match_at_length [OF m]
  show "\<exists>k. grp 1 m @ REDACTED = take k (rev (take (length s - length (fst (snd m))) (fst m))) @ REDACTED"
    by simp
qed

fun group_first :: "regex \<Rightarrow> bool" where
  "group_first (RSeq (RGroup i r # rs)) = (i = 1 \<and> list_all no_groups rs)"
| "group_first (RSeq (RBoundary # RGroup i r # rs)) = (i = 1 \<and> list_all no_groups rs)"
| "group_first _ = False"

lemma group_first_cuts: "group_first r \<Longrightarrow> cuts r (\<lambda>_ m. grp 1 m @ REDACTED)"
  by (cases r rule: group_first.cases) (auto simp del: One_nat_def intro: cuts_group)

lemma heuristics_shape: "list_all (\<lambda>(re, keep). keep \<longrightarrow> group_first re) HEURISTICS"
  by code_simp

lemma heuristics_cut:
  "list_all (\<lambda>(re, keep). cuts re (\<lambda>_ m. if keep then grp 1 m @ REDACTED else REDACTED)) HEURISTICS"
  using heuristics_shape
proof (rule list.pred_mono_strong)
  fix h
  assume "case h of (re, keep) \<Rightarrow> keep \<longrightarrow> group_first re"
  then show "case h of (re, keep) \<Rightarrow> cuts re (\<lambda>_ m. if keep then grp 1 m @ REDACTED else REDACTED)"
    by (cases h; cases "snd h") (simp_all del: One_nat_def add: cuts_plain group_first_cuts)
qed

lemma heuristics_absent:
  assumes "plain_secret v"
    "list_all (\<lambda>(re, keep). cuts re (\<lambda>_ m. if keep then grp 1 m @ REDACTED else REDACTED)) hs"
    "\<not> js_includes v s"
  shows "\<not> js_includes v (foldl (\<lambda>o1 (re, keep).
           re_replace re (\<lambda>_ m. if keep then grp 1 m @ REDACTED else REDACTED) o1) s hs)"
  using assms(2,3)
proof (induction hs arbitrary: s)
  case (Cons h hs)
  obtain re keep where h: "h = (re, keep)" by (cases h)
  with Cons.prems(1) have
    "redacts s (re_replace re (\<lambda>_ m. if keep then grp 1 m @ REDACTED else REDACTED) s)"
    by (intro re_replace_redacts) simp
  from redacts_absent [OF this assms(1) Cons.prems(2)] Cons.IH Cons.prems(1)
  show ?case by (simp add: h)
qed simp

lemma scrubSecrets_absent:
  assumes "plain_secret v"
    "(\<exists>secret \<in> set secrets. secret \<noteq> [] \<and> v \<in> set (secretVariants secret))
       \<or> \<not> js_includes v (normalizeForScrub text)"
  shows "\<not> js_includes v (scrubSecrets text secrets)"
  unfolding scrubSecrets_def Let_def
  by (intro heuristics_absent heuristics_cut foldl_scrub_secret_absent assms)

subsection \<open>Normalised text\<close>

text \<open>What the normalisation leaves alone: no controls, and no percent escape in lower case.\<close>

definition upper_char :: "char \<Rightarrow> char" where
  "upper_char c = (if char_range CHR ''a'' CHR ''z'' c then char_of ((of_char c :: nat) - 32) else c)"

definition stripped :: "char \<Rightarrow> bool" where
  "stripped c = (char_range CHR 0x00 CHR 0x1F c \<or> c = CHR 0x7F)"

definition escape_ok :: "string \<Rightarrow> bool" where
  "escape_ok s =
     (case s of c # d # e # _ \<Rightarrow> c = CHR ''%'' \<and> hex_digit d \<and> hex_digit e \<longrightarrow> upper_char d = d \<and> upper_char e = e
      | _ \<Rightarrow> True)"

primrec escapes_upper :: "string \<Rightarrow> bool" where
  "escapes_upper [] = True"
| "escapes_upper (c # s) = (escape_ok (c # s) \<and> escapes_upper s)"

definition clean :: "string \<Rightarrow> bool" where
  "clean s = (list_all (\<lambda>c. \<not> stripped c) s \<and> escapes_upper s)"

fun up_escapes :: "string \<Rightarrow> string" where
  "up_escapes (c # d # e # s) =
     (if c = CHR ''%'' \<and> hex_digit d \<and> hex_digit e then c # upper_char d # upper_char e # up_escapes s
      else c # up_escapes (d # e # s))"
| "up_escapes [] = []"
| "up_escapes [c] = [c]"
| "up_escapes [c, d] = [c, d]"

lemma escape_match:
  "match_at (RSeq [rlit ''%'', rclass hex_digit, rclass hex_digit]) b s =
     (case s of
        c # d # e # r \<Rightarrow>
          if c = CHR ''%'' \<and> hex_digit d \<and> hex_digit e then Some (e # d # c # b, r, []) else None
      | _ \<Rightarrow> None)"
  by (auto simp: match_at_def rlit_def rclass_def split: list.split)

lemma upper_percent [simp]: "upper_char CHR ''%'' = CHR ''%''"
  by code_simp

lemma escape_replace:
  "length s < n \<Longrightarrow>
     replace_all n (RSeq [rlit ''%'', rclass hex_digit, rclass hex_digit]) (\<lambda>m _. js_upper_ascii m) b s = up_escapes s"
proof (induction s arbitrary: n b rule: up_escapes.induct)
  case (1 c d e s)
  then obtain k where n: "n = Suc k" by (cases n) auto
  show ?case
    using 1 by (simp add: n escape_match js_upper_ascii_def upper_char_def [symmetric] del: upper_char_def)
next
  case 2
  then show ?case by (cases n) auto
next
  case (3 c)
  then show ?case by (cases n; cases "n - 1") (auto simp: escape_match)
next
  case (4 c d)
  then show ?case by (cases n; cases "n - 1"; cases "n - 2") (auto simp: escape_match)
qed

lemma normalizeForScrub_eq: "normalizeForScrub text = up_escapes (filter (\<lambda>c. \<not> stripped c) text)"
  unfolding normalizeForScrub_def stripped_def re_replace_def by (rule escape_replace) simp

lemma hex_upper_facts:
  "hex_digit d \<Longrightarrow> hex_digit (upper_char d) \<and> upper_char (upper_char d) = upper_char d
     \<and> upper_char d \<noteq> CHR ''%'' \<and> d \<noteq> CHR ''%'' \<and> \<not> stripped (upper_char d)"
proof -
  have "list_all (\<lambda>d. hex_digit d \<longrightarrow> hex_digit (upper_char d) \<and> upper_char (upper_char d) = upper_char d
      \<and> upper_char d \<noteq> CHR ''%'' \<and> d \<noteq> CHR ''%'' \<and> \<not> stripped (upper_char d)) (Enum.enum :: char list)"
    by code_simp
  then show "hex_digit d \<Longrightarrow> ?thesis" by (simp add: list_all_iff enum_UNIV)
qed

lemma up_escapes_head: "\<exists>t. up_escapes (c # s) = c # t"
  by (cases "c # s" rule: up_escapes.cases) auto

lemma escape_ok_kept:
  assumes "\<not> (c = CHR ''%'' \<and> hex_digit d \<and> hex_digit e)"
  shows "escape_ok (c # up_escapes (d # e # s))"
proof (cases "d = CHR ''%''")
  case True
  obtain t where "up_escapes (d # e # s) = d # t" using up_escapes_head by blast
  with True show ?thesis using hex_upper_facts [of "CHR ''%''"] by (auto simp: escape_ok_def split: list.split)
next
  case False
  obtain t where "up_escapes (e # s) = e # t" using up_escapes_head by blast
  with False have "up_escapes (d # e # s) = d # e # (case s of [] \<Rightarrow> [] | _ \<Rightarrow> t)" by (cases s) auto
  with assms show ?thesis by (auto simp: escape_ok_def)
qed

lemma escapes_upper_up: "escapes_upper (up_escapes s)"
proof (induction s rule: up_escapes.induct)
  case (1 c d e s)
  show ?case
  proof (cases "c = CHR ''%'' \<and> hex_digit d \<and> hex_digit e")
    case True
    then have "escape_ok (upper_char d # upper_char e # t)" "escape_ok (upper_char e # t)"
      "escape_ok (c # upper_char d # upper_char e # t)" for t
      using hex_upper_facts [of d] hex_upper_facts [of e] by (auto simp: escape_ok_def split: list.split)
    with True 1 show ?thesis by simp
  next
    case False
    then have "up_escapes (c # d # e # s) = c # up_escapes (d # e # s)" by (simp only: up_escapes.simps if_False)
    with 1(2) [OF False] escape_ok_kept [OF False] show ?thesis by simp
  qed
qed (simp_all add: escape_ok_def)

lemma unstripped_up: "list_all (\<lambda>c. \<not> stripped c) s \<Longrightarrow> list_all (\<lambda>c. \<not> stripped c) (up_escapes s)"
proof (induction s rule: up_escapes.induct)
  case (1 c d e s)
  show ?case
  proof (cases "c = CHR ''%'' \<and> hex_digit d \<and> hex_digit e")
    case True
    with 1 hex_upper_facts [of d] hex_upper_facts [of e] show ?thesis by simp
  next
    case False
    then have "up_escapes (c # d # e # s) = c # up_escapes (d # e # s)" by (simp only: up_escapes.simps if_False)
    with 1(2) [OF False] 1(3) show ?thesis by simp
  qed
qed simp_all

lemma normalized_clean: "clean (normalizeForScrub text)"
proof -
  have "list_all (\<lambda>c. \<not> stripped c) (filter (\<lambda>c. \<not> stripped c) text)" by (simp add: list_all_iff)
  then show ?thesis
    unfolding clean_def normalizeForScrub_eq by (intro conjI unstripped_up escapes_upper_up)
qed

lemma up_escapes_id: "escapes_upper s \<Longrightarrow> up_escapes s = s"
proof (induction s rule: up_escapes.induct)
  case (1 c d e s)
  show ?case
  proof (cases "c = CHR ''%'' \<and> hex_digit d \<and> hex_digit e")
    case True
    with 1 show ?thesis by (simp add: escape_ok_def)
  next
    case False
    then have "up_escapes (c # d # e # s) = c # up_escapes (d # e # s)" by (simp only: up_escapes.simps if_False)
    with 1(2) [OF False] 1(3) show ?thesis by simp
  qed
qed simp_all

lemma clean_normalized: "clean s \<Longrightarrow> normalizeForScrub s = s"
  by (simp add: clean_def normalizeForScrub_eq up_escapes_id filter_id_conv list_all_iff)

lemma escapes_upper_prefix: "escapes_upper (u @ q) \<Longrightarrow> escapes_upper u"
proof (induction u)
  case (Cons c u)
  have "escape_ok (c # u @ q) \<Longrightarrow> escape_ok (c # u)"
    by (cases u; cases "tl u") (auto simp: escape_ok_def)
  with Cons show ?case by simp
qed simp

lemma clean_part: "js_includes u s \<Longrightarrow> clean s \<Longrightarrow> clean u"
proof (induction s)
  case Nil
  then show ?case by simp
next
  case (Cons c s)
  show ?case
  proof (cases "starts_with u (c # s)")
    case True
    then obtain q where q: "c # s = u @ q" by (metis append_take_drop_id starts_with_def)
    with Cons.prems(2) show ?thesis unfolding clean_def q by (auto intro: escapes_upper_prefix)
  next
    case False
    with Cons show ?thesis by (simp add: clean_def)
  qed
qed

section \<open>Retention\<close>

lemma retain_loop_spec:
  assumes "length kept \<le> MAX_RETAINED_MARKERS" "distinct kept" "list_all MARKER_SHAPE kept"
    "sum_list (map (\<lambda>m. length (utf8_bytes m)) kept) = bytes" "bytes \<le> MAX_RETAINED_MARKER_BYTES"
    "set kept \<subseteq> (\<lambda>c. scrubSecrets c secrets) ` C" "set candidates \<subseteq> C"
    "retain_loop secrets kept bytes candidates = ms"
  shows "length ms \<le> MAX_RETAINED_MARKERS \<and> distinct ms \<and> list_all MARKER_SHAPE ms
    \<and> sum_list (map (\<lambda>m. length (utf8_bytes m)) ms) \<le> MAX_RETAINED_MARKER_BYTES
    \<and> set ms \<subseteq> (\<lambda>c. scrubSecrets c secrets) ` C"
  using assms
proof (induction candidates arbitrary: kept bytes)
  case Nil
  then show ?case by simp
next
  case (Cons raw candidates)
  let ?s = "scrubSecrets raw secrets"
  note inv = Cons.prems(1-6)
  have sub: "set candidates \<subseteq> C" using Cons.prems(7) by simp
  show ?case
  proof (cases "length kept \<ge> MAX_RETAINED_MARKERS")
    case True
    with Cons.prems show ?thesis by simp
  next
    case small: False
    show ?thesis
    proof (cases "\<not> MARKER_SHAPE ?s \<or> ?s \<in> set kept \<or> bytes + length (utf8_bytes ?s) > MAX_RETAINED_MARKER_BYTES")
      case True
      with small Cons.prems(8) have "retain_loop secrets kept bytes candidates = ms"
        by (auto simp: Let_def split: if_splits)
      then show ?thesis by (rule Cons.IH [OF inv sub])
    next
      case False
      with small Cons.prems(8)
      have "retain_loop secrets (kept @ [?s]) (bytes + length (utf8_bytes ?s)) candidates = ms"
        by (simp add: Let_def)
      moreover have "set (kept @ [?s]) \<subseteq> (\<lambda>c. scrubSecrets c secrets) ` C" using Cons.prems(6,7) by auto
      ultimately show ?thesis
        using small False Cons.prems(2-4) by (intro Cons.IH [OF _ _ _ _ _ _ sub]) auto
    qed
  qed
qed

text \<open>Whatever the upstream sends, the markers kept for storage pass all three
  gates: at most eight, together at most 256 bytes, no duplicates, each shaped like an
  identifier and equal to a scrubbed candidate, and no suffix of them, joined seamlessly, is
  changed by the scrubber.\<close>

theorem retained_markers_gated:
  "(let ms = retainMarkers candidates secrets in
     length ms \<le> 8
     \<and> sum_list (map (\<lambda>m. length (utf8_bytes m)) ms) \<le> 256
     \<and> distinct ms
     \<and> list_all MARKER_SHAPE ms
     \<and> set ms \<subseteq> (\<lambda>c. scrubSecrets c secrets) ` set candidates
     \<and> list_all (\<lambda>i. scrubSecrets (concat (drop i ms)) secrets = concat (drop i ms)) [0..<length ms])"
  using retain_loop_spec [of "[]" 0 secrets "set candidates" candidates]
  by (auto simp: Let_def retainMarkers_def joins_clean_def MAX_RETAINED_MARKERS_def
      MAX_RETAINED_MARKER_BYTES_def)

text \<open>C14 (safety). No spelling of a configured credential that the scrubber looks for survives it: neither
  the credential as configured, nor its percent-encoded form, nor its base64 forms, padded or not, in
  either alphabet; and no text survives that the normalisation reads as one of these, with controls
  put in or the percent escapes written in another case. It holds whatever the text, the other secrets
  and the heuristics do, of every spelling without square brackets that is not a part of the word the
  scrubber itself writes. A credential that the normalisation changes, because it has a lower-case
  percent escape or a control itself, is covered in its exact spelling only.\<close>

theorem scrubbed_text_free_of_spellings:
  assumes "secret \<in> set secrets" "secret \<noteq> []"
    and "u \<in> set (secretVariants secret) \<or> normalizeForScrub u \<in> set (secretVariants secret)"
    and "u \<noteq> []" "CHR ''['' \<notin> set u" "CHR '']'' \<notin> set u" "\<not> js_includes u ''redacted''"
  shows "\<not> js_includes u (scrubSecrets text secrets)"
proof (rule scrubSecrets_absent)
  show "plain_secret u" using assms(4-7) by (simp add: plain_secret_def del: js_includes.simps)
  show "(\<exists>secret \<in> set secrets. secret \<noteq> [] \<and> u \<in> set (secretVariants secret))
      \<or> \<not> js_includes u (normalizeForScrub text)"
  proof (cases "clean u")
    case True
    with assms(1-3) show ?thesis by (auto simp: clean_normalized)
  next
    case False
    with clean_part [OF _ normalized_clean] show ?thesis by blast
  qed
qed

text \<open>A credential quoted as it is, in base64, and percent-encoded with a lower-case escape.\<close>

lemma scrubbed_text_free_of_spellings_witness:
  "scrubSecrets ''denied: a/b-7 and YS9iLTc ok a%2fb-7'' [''a/b-7'']
     = ''denied: [redacted] and [redacted] ok [redacted]''
   \<and> \<not> js_includes ''a%2fb-7'' (scrubSecrets ''denied: a/b-7 and YS9iLTc ok a%2fb-7'' [''a/b-7''])"
proof
  show "scrubSecrets ''denied: a/b-7 and YS9iLTc ok a%2fb-7'' [''a/b-7'']
     = ''denied: [redacted] and [redacted] ok [redacted]''"
    by code_simp
  have "normalizeForScrub ''a%2fb-7'' = ''a%2Fb-7''" by code_simp
  moreover have "''a%2Fb-7'' \<in> set (secretVariants ''a/b-7'')" by code_simp
  ultimately have "normalizeForScrub ''a%2fb-7'' \<in> set (secretVariants ''a/b-7'')" by simp
  then show "\<not> js_includes ''a%2fb-7'' (scrubSecrets ''denied: a/b-7 and YS9iLTc ok a%2fb-7'' [''a/b-7''])"
    by (intro scrubbed_text_free_of_spellings [of "''a/b-7''"]) (simp_all add: starts_with_def)
qed

text \<open>Two limits of the scrubber, on concrete texts. It is not idempotent when a configured
  secret is a part of the mark it writes; and a secret spelled with lower-case percent escapes
  is looked for in a text whose escapes were put in upper case, so it stays readable.\<close>

lemma scrub_not_idempotent:
  "scrubSecrets (scrubSecrets ''a red door'' [''red'']) [''red''] \<noteq> scrubSecrets ''a red door'' [''red'']"
  by code_simp

lemma scrub_misses_lower_case_escape:
  "scrubSecrets ''bad password pw%2fq'' [''pw%2fq''] = ''bad password pw%2Fq''"
  by code_simp

section \<open>Capture\<close>

definition WITHHELD :: "string list" where
  "WITHHELD = [VALIDATION_WITHHELD, POLICY_WITHHELD, FUNDS_WITHHELD, PERMISSION_WITHHELD]"

definition withholding_kinds :: "provider_error_kind list" where
  "withholding_kinds =
     [content_policy, policy_block, insufficient_funds, permission, bad_request, upstream_rejected]"

definition input_message :: "capture_input \<Rightarrow> string option" where
  "input_message input = (case input of
      ParsedEnvelope env \<Rightarrow> w_message (walkEnvelope env) | StreamWire msg ty code \<Rightarrow> msg)"

definition input_markers :: "capture_input \<Rightarrow> string list" where
  "input_markers input = (case input of
      ParsedEnvelope env \<Rightarrow> w_markers (walkEnvelope env)
    | StreamWire msg ty code \<Rightarrow> List.map_filter (\<lambda>x. x) [ty, code])"

lemma captureProviderMessage_cases:
  "captureProviderMessage input kind secrets =
     (if kind \<in> {content_policy, policy_block} \<or> list_ex (re_test POLICY_MARKER) (input_markers input)
      then Some POLICY_WITHHELD
      else if kind = insufficient_funds then Some FUNDS_WITHHELD
      else if kind = permission then Some PERMISSION_WITHHELD
      else if kind \<in> {bad_request, upstream_rejected}
                \<or> list_ex (\<lambda>m. classifyStreamError m = bad_request) (input_markers input)
      then Some VALIDATION_WITHHELD
      else (case input_message input of
              None \<Rightarrow> None
            | Some msg \<Rightarrow> if msg = [] \<or> take MAX_MESSAGE_LEN (scrubSecrets msg secrets) = [] then None
                          else Some (take MAX_MESSAGE_LEN (scrubSecrets msg secrets))))"
  by (auto simp: captureProviderMessage_def input_message_def input_markers_def Let_def
      split: capture_input.split option.split)

text \<open>Provider wording reaches storage only for an operational kind without any
  policy or validation marker, and then scrubbed first and cut to 300 characters after; in every
  other case what is stored is one of the four fixed withheld notices.\<close>

theorem captured_message_gated:
  assumes "captureProviderMessage input kind secrets = Some m"
  shows "m \<in> set WITHHELD
     \<or> (kind \<notin> set withholding_kinds
        \<and> list_all (\<lambda>x. \<not> re_test POLICY_MARKER x \<and> classifyStreamError x \<noteq> bad_request)
            (input_markers input)
        \<and> length m \<le> 300
        \<and> map_option (\<lambda>msg. take 300 (scrubSecrets msg secrets)) (input_message input) = Some m)"
  using assms
  by (auto simp: captureProviderMessage_cases WITHHELD_def withholding_kinds_def MAX_MESSAGE_LEN_def
      list_all_iff list_ex_iff split: if_splits option.splits)

lemma captured_message_gated_witness:
  "captureProviderMessage (StreamWire (Some ''upstream busy, token=abcdef99'') (Some ''overloaded'') None)
      unavailable [] = Some ''upstream busy, token=[redacted]''
   \<and> (''upstream busy, token=[redacted]'' \<in> set WITHHELD
     \<or> (unavailable \<notin> set withholding_kinds
        \<and> list_all (\<lambda>x. \<not> re_test POLICY_MARKER x \<and> classifyStreamError x \<noteq> bad_request)
            (input_markers (StreamWire (Some ''upstream busy, token=abcdef99'') (Some ''overloaded'') None))
        \<and> length ''upstream busy, token=[redacted]'' \<le> 300
        \<and> map_option (\<lambda>msg. take 300 (scrubSecrets msg []))
            (input_message (StreamWire (Some ''upstream busy, token=abcdef99'') (Some ''overloaded'') None))
          = Some ''upstream busy, token=[redacted]''))"
  (is "?c \<and> ?r")
proof
  show c: ?c by code_simp
  show ?r using captured_message_gated [OF c] .
qed

section \<open>Classification\<close>

definition plan_only_kinds :: "provider_error_kind list" where
  "plan_only_kinds = [quota_exhausted, risk_control, plan_entitlement, plan_inactive]"

lemma classify_status_generic: "fst (classify_status st body env) \<notin> set plan_only_kinds"
  by (simp add: classify_status_def plan_only_kinds_def)

lemma classifyResponse_kind:
  "pe_kind (classifyResponse dp st body rid ra secrets dialect) =
     (case (case dialect of Some d \<Rightarrow> classifyPlanError dp d st (parseErrorEnvelope body) ra | None \<Rightarrow> None) of
        Some p \<Rightarrow> plan_kind p | None \<Rightarrow> fst (classify_status st body (parseErrorEnvelope body)))"
  by (auto simp: classifyResponse_def Let_def ProviderError_def split: option.split prod.split)

lemma classifyResponse_reset:
  "pe_planReset (classifyResponse dp st body rid ra secrets dialect) =
     (case (case dialect of Some d \<Rightarrow> classifyPlanError dp d st (parseErrorEnvelope body) ra | None \<Rightarrow> None) of
        None \<Rightarrow> None
      | Some p \<Rightarrow> if resetAt p \<noteq> None \<or> retryAfterMs p \<noteq> None \<or> window p \<noteq> None
                 then Some \<lparr>resetAt = resetAt p, retryAfterMs = retryAfterMs p, window = window p\<rparr>
                 else None)"
  by (auto simp: classifyResponse_def Let_def ProviderError_def split: option.split prod.split)

lemma classifyPlanError_reset:
  assumes "classifyPlanError dp d st env ra = Some p"
  shows "resetAt p = None \<or> retryAfterMs p = None"
    "resetAt p \<noteq> None \<or> retryAfterMs p \<noteq> None \<Longrightarrow> plan_kind p \<in> {quota_exhausted, risk_control}"
    "st \<noteq> 401"
  using assms
  by (auto simp: classifyPlanError_def Let_def RETRY_AFTER_KINDS_def split: if_splits option.splits sum.splits)

text \<open>Only a plan dialect pauses: the four plan kinds and a reset time never come out
  of the generic status map or of a 401, which is \<open>auth\<close> under every dialect; the error keeps
  the status, and a stated reset belongs to an exhausted quota or a throttle and is either
  absolute or relative, never both.\<close>

theorem plan_kinds_from_dialect_only:
  "(let e = classifyResponse dp st body rid ra secrets dialect in
      pe_status e = Some st
      \<and> (st = 401 \<longrightarrow> pe_kind e = auth \<and> pe_planReset e = None)
      \<and> (dialect = None \<longrightarrow> pe_kind e \<notin> set plan_only_kinds \<and> pe_planReset e = None)
      \<and> (case pe_planReset e of
           None \<Rightarrow> True
         | Some r \<Rightarrow> (resetAt r = None \<or> retryAfterMs r = None)
             \<and> (resetAt r \<noteq> None \<or> retryAfterMs r \<noteq> None \<longrightarrow>
                  pe_kind e \<in> {quota_exhausted, risk_control})))"
proof -
  have st: "pe_status (classifyResponse dp st body rid ra secrets dialect) = Some st"
    by (auto simp: classifyResponse_def Let_def ProviderError_def split: option.split prod.split)
  have a: "st = 401 \<Longrightarrow> classifyPlanError dp d st env ra = None" for d env
    by (simp add: classifyPlanError_def)
  have a2: "fst (classify_status 401 body env) = auth" for env by (simp add: classify_status_def)
  show ?thesis
    by (auto simp: Let_def st classifyResponse_kind classifyResponse_reset a a2
        classify_status_generic split: option.split dest: classifyPlanError_reset)
qed

lemma plan_kinds_from_dialect_only_witness:
  "(let e = classifyResponse (\<lambda>_. None) 401 (quoted ''{~error~:{~code~:~1308~}}'') None None [] (Some zai)
     in pe_kind e = auth \<and> pe_planReset e = None)
   \<and> pe_planReset (classifyResponse (\<lambda>_. None) 429 (quoted ''{~error~:{~code~:~1310~}}'') None (Some ''60'') [] (Some zai))
     = Some \<lparr>resetAt = None, retryAfterMs = Some 60000, window = Some long\<rparr>"
proof
  show "let e = classifyResponse (\<lambda>_. None) 401 (quoted ''{~error~:{~code~:~1308~}}'') None None [] (Some zai)
     in pe_kind e = auth \<and> pe_planReset e = None"
    using plan_kinds_from_dialect_only [of "\<lambda>_. None" 401 "quoted ''{~error~:{~code~:~1308~}}''" None None "[]"
        "Some zai"]
    by (simp add: Let_def)
  have "json_parse (quoted ''{~error~:{~code~:~1310~}}'')
      = Some (JObj [(''error'', JObj [(''code'', JStr ''1310'')])])" by code_simp
  moreover have "classifyPlanError (\<lambda>_. None) zai 429 (JObj [(''error'', JObj [(''code'', JStr ''1310'')])])
      (Some ''60'') = Some \<lparr>resetAt = None, retryAfterMs = Some 60000, window = Some long,
         plan_kind = quota_exhausted\<rparr>" by code_simp
  ultimately show "pe_planReset (classifyResponse (\<lambda>_. None) 429 (quoted ''{~error~:{~code~:~1310~}}'') None
      (Some ''60'') [] (Some zai)) = Some \<lparr>resetAt = None, retryAfterMs = Some 60000, window = Some long\<rparr>"
    by (simp add: classifyResponse_reset parseErrorEnvelope_def)
qed

end
