(* ===== verification/Ir.thy ===== *)
theory Ir
  imports PlanErrors
begin

text \<open>
  \<open>proxy/translate/ir.ts\<close>: the protocol-neutral requests, responses and stream events every
  adapter translates from and to. Token counts are integers, a temperature is a rational, and
  what the translator carries without reading (tool parameters, cache markers, reasoning
  controls) is a JSON value.
\<close>

datatype role = RUser | RAssistant | RTool

datatype image_detail = DetailAuto | DetailLow | DetailHigh

text \<open>A tool call carries its parsed input, or the raw text that did not parse.\<close>

datatype content_block =
    TextBlock string "json option"
  | ImageData string string "image_detail option"   \<comment> \<open>data, media type\<close>
  | ImageUrl string "image_detail option"
  | ToolUse string string json "json option"   \<comment> \<open>id, name, input, cache control\<close>
  | ToolUseRaw string string string "json option"
  | ToolResult string "content_block list" "bool option" "json option"

record normalized_message =
  msg_role :: role
  msg_content :: "content_block list"

record normalized_tool =
  tool_name :: string
  tool_description :: "string option"
  tool_parameters :: json
  tool_cacheControl :: "json option"

datatype protocol = OpenAI | Anthropic

datatype reasoning_control = OpenAIEffort json | AnthropicThinking json

datatype tool_choice = ChoiceAuto | ChoiceNone | ChoiceRequired | ChoiceTool string

record normalized_params =
  maxOutputTokens :: "int option"
  temperature :: "rat option"
  topP :: "rat option"
  stopSequences :: "string list option"

record normalized_request =
  rq_model :: string
  rq_system :: "content_block list option"
  rq_messages :: "normalized_message list"
  rq_tools :: "normalized_tool list option"
  rq_toolChoice :: "tool_choice option"
  rq_allowParallelTools :: "bool option"
  rq_params :: normalized_params
  rq_responseFormat :: "json option"
  rq_reasoning :: "reasoning_control option"
  rq_outputConfig :: "json option"
  rq_stream :: "bool option"
  rq_includeUsage :: "bool option"

datatype stop_reason =
  StopStop | StopLength | StopToolUse | StopContentFilter | StopPause | StopError | StopOther

record normalized_usage =
  inputTokens :: int
  outputTokens :: int
  cacheReadTokens :: "int option"
  cacheWriteTokens :: "int option"

record partial_usage =
  p_inputTokens :: "int option"
  p_outputTokens :: "int option"
  p_cacheReadTokens :: "int option"
  p_cacheWriteTokens :: "int option"

record normalized_response =
  rs_id :: string
  rs_model :: string
  rs_created :: "int option"
  rs_content :: "content_block list"
  rs_stopReason :: stop_reason
  rs_rawStopReason :: "string option"
  rs_stopSequence :: "string option"
  rs_usage :: "normalized_usage option"

record wire_diagnostic =
  wire_message :: "string option"
  wire_type :: "string option"
  wire_code :: "string option"

record stream_diagnostic =
  diag_wire :: "wire_diagnostic option"
  diag_markers :: "string list option"
  diag_kind :: "provider_error_kind option"
  diag_providerMessage :: "string option"
  diag_requestId :: "string option"

datatype stream_event =
    MessageStart string string "partial_usage option"   \<comment> \<open>id, model\<close>
  | TextDelta nat string
  | ToolUseStart nat string string   \<comment> \<open>index, id, name\<close>
  | ToolUseDelta nat string
  | BlockStop nat "content_block option"
  | MessageDelta "stop_reason option" "string option" "string option" "partial_usage option"
  | MessageStop
  | StreamError string string "stream_diagnostic option"   \<comment> \<open>type, message\<close>

end
