(* ===== verification/Breaker.thy ===== *)
theory Breaker
  imports ProviderErrors Ir
begin

text \<open>
  \<open>providers/breaker.ts\<close> and \<open>providers/probe-patience.ts\<close>: the circuit breaker. First the
  pure transition functions, then the two stores (the in-memory maps, and the Lua scripts over
  a Redis hash with a time to live), the \<open>CircuitBreaker\<close> that admits on the primary store and
  falls back to a per-instance one, and the wrappers that settle an attempt. Times are
  milliseconds on integers. A promise is its outcome: an operation that may reject returns a
  sum, the left side being the fault, together with the state it leaves.
\<close>

section \<open>Records and transitions\<close>

datatype breaker_state = Closed | Open | Half_open
datatype breaker_outcome = Success | Trip | Neutral
datatype breaker_decision = Allow | Skip

record breaker_config =
  threshold :: int
  cooldownMs :: int
  probeLeaseMs :: int
  stateTtlMs :: int

definition DEFAULT_BREAKER_CONFIG :: breaker_config where
  "DEFAULT_BREAKER_CONFIG =
     \<lparr>threshold = 5, cooldownMs = 30000, probeLeaseMs = 10000, stateTtlMs = 300000\<rparr>"

record breaker_record =
  br_state :: breaker_state
  failures :: int
  openedAt :: int
  generation :: int
  probeExpiresAt :: int

definition INITIAL_RECORD :: breaker_record where
  "INITIAL_RECORD =
     \<lparr>br_state = Closed, failures = 0, openedAt = 0, generation = 0, probeExpiresAt = 0\<rparr>"

record admission =
  decision :: breaker_decision
  adm_generation :: int
  isProbe :: bool

definition admit_probe :: "breaker_record \<Rightarrow> int \<Rightarrow> breaker_config \<Rightarrow> breaker_record \<times> admission" where
  "admit_probe r now cfg =
     (let g = generation r + 1 in
      (\<lparr>br_state = Half_open, failures = 0, openedAt = openedAt r, generation = g,
        probeExpiresAt = now + probeLeaseMs cfg\<rparr>,
       \<lparr>decision = Allow, adm_generation = g, isProbe = True\<rparr>))"

definition decide :: "breaker_record \<Rightarrow> int \<Rightarrow> breaker_config \<Rightarrow> breaker_record \<times> admission" where
  "decide r now cfg =
     (case br_state r of
        Closed \<Rightarrow> (r, \<lparr>decision = Allow, adm_generation = generation r, isProbe = False\<rparr>)
      | Open \<Rightarrow>
          if now - openedAt r \<ge> cooldownMs cfg then admit_probe r now cfg
          else (r, \<lparr>decision = Skip, adm_generation = generation r, isProbe = False\<rparr>)
      | Half_open \<Rightarrow>
          if now \<ge> probeExpiresAt r then admit_probe r now cfg
          else (r, \<lparr>decision = Skip, adm_generation = generation r, isProbe = False\<rparr>))"

definition opened_record :: "breaker_record \<Rightarrow> int \<Rightarrow> breaker_record" where
  "opened_record r now =
     \<lparr>br_state = Open, failures = 0, openedAt = now, generation = generation r + 1, probeExpiresAt = 0\<rparr>"

definition applyComplete ::
  "breaker_record \<Rightarrow> int \<Rightarrow> breaker_outcome \<Rightarrow> int \<Rightarrow> breaker_config \<Rightarrow> breaker_record" where
  "applyComplete r tokenGeneration outcome now cfg =
     (if tokenGeneration \<noteq> generation r \<or> outcome = Neutral then r
      else if outcome = Success then
        (case br_state r of
           Half_open \<Rightarrow> \<lparr>br_state = Closed, failures = 0, openedAt = 0,
                         generation = generation r + 1, probeExpiresAt = 0\<rparr>
         | Closed \<Rightarrow> if failures r = 0 then r else r\<lparr>failures := 0\<rparr>
         | Open \<Rightarrow> r)
      else
        (case br_state r of
           Half_open \<Rightarrow> opened_record r now
         | Closed \<Rightarrow>
             if failures r + 1 \<ge> threshold cfg then opened_record r now
             else r\<lparr>failures := failures r + 1\<rparr>
         | Open \<Rightarrow> r))"

definition applyRenew :: "breaker_record \<Rightarrow> int \<Rightarrow> int \<Rightarrow> breaker_config \<Rightarrow> breaker_record" where
  "applyRenew r tokenGeneration now cfg =
     (if br_state r \<noteq> Half_open \<or> tokenGeneration \<noteq> generation r \<or> now \<ge> probeExpiresAt r then r
      else r\<lparr>probeExpiresAt := max (probeExpiresAt r) (now + probeLeaseMs cfg)\<rparr>)"

record completion =
  justOpened :: bool
  c_generation :: int
  c_openedAt :: int
  applied :: bool
  seq :: int

section \<open>The store interface\<close>

text \<open>\<open>BreakerStore\<close> as the four operations on a store state; \<open>now\<close> is the caller's clock.\<close>

type_synonym fault = string

record 's store_ops =
  op_decide :: "string \<Rightarrow> int \<Rightarrow> breaker_config \<Rightarrow> 's \<Rightarrow> (fault + admission) \<times> 's"
  op_complete ::
    "string \<Rightarrow> int \<Rightarrow> breaker_outcome \<Rightarrow> int \<Rightarrow> breaker_config \<Rightarrow> 's \<Rightarrow> (fault + completion) \<times> 's"
  op_renew :: "string \<Rightarrow> int \<Rightarrow> int \<Rightarrow> breaker_config \<Rightarrow> 's \<Rightarrow> (fault + unit) \<times> 's"
  op_reset :: "string \<Rightarrow> int \<Rightarrow> 's \<Rightarrow> (fault + unit) \<times> 's"

section \<open>The in-memory store\<close>

record mem_store =
  m_records :: "string \<rightharpoonup> breaker_record"
  m_lastSeq :: "string \<rightharpoonup> int"

definition empty_mem :: mem_store where
  "empty_mem = \<lparr>m_records = Map.empty, m_lastSeq = Map.empty\<rparr>"

definition seeded :: "breaker_record option \<Rightarrow> int \<Rightarrow> breaker_record" where
  "seeded entry now = (case entry of Some r \<Rightarrow> r | None \<Rightarrow> INITIAL_RECORD\<lparr>generation := now\<rparr>)"

definition recordFor :: "mem_store \<Rightarrow> string \<Rightarrow> int \<Rightarrow> breaker_record" where
  "recordFor s providerId now = seeded (m_records s providerId) now"

definition put_record :: "string \<Rightarrow> breaker_record \<Rightarrow> mem_store \<Rightarrow> mem_store" where
  "put_record providerId r s = s\<lparr>m_records := (m_records s)(providerId \<mapsto> r)\<rparr>"

definition mem_decide :: "string \<Rightarrow> int \<Rightarrow> breaker_config \<Rightarrow> mem_store \<Rightarrow> admission \<times> mem_store" where
  "mem_decide providerId now cfg s =
     (let (next, a) = decide (recordFor s providerId now) now cfg
      in (a, put_record providerId next s))"

definition lastSeq_of :: "mem_store \<Rightarrow> string \<Rightarrow> int" where
  "lastSeq_of s providerId = (case m_lastSeq s providerId of Some q \<Rightarrow> q | None \<Rightarrow> 0)"

definition mem_complete ::
  "string \<Rightarrow> int \<Rightarrow> breaker_outcome \<Rightarrow> int \<Rightarrow> breaker_config \<Rightarrow> mem_store \<Rightarrow> completion \<times> mem_store" where
  "mem_complete providerId gen outcome now cfg s =
     (let existed = m_records s providerId \<noteq> None;
          r = recordFor s providerId now;
          next = applyComplete r gen outcome now cfg;
          isApplied = (gen = generation r \<and> outcome \<noteq> Neutral);
          s1 = (if existed \<or> isApplied then put_record providerId next s else s);
          sq = (if isApplied then max (now * 1000) (lastSeq_of s providerId + 1) else 0);
          s2 = (if isApplied then s1\<lparr>m_lastSeq := (m_lastSeq s1)(providerId \<mapsto> sq)\<rparr> else s1)
      in (\<lparr>justOpened = (br_state r \<noteq> Open \<and> br_state next = Open), c_generation = generation next,
           c_openedAt = openedAt next, applied = isApplied, seq = sq\<rparr>, s2))"

definition mem_renew :: "string \<Rightarrow> int \<Rightarrow> int \<Rightarrow> breaker_config \<Rightarrow> mem_store \<Rightarrow> mem_store" where
  "mem_renew providerId gen now cfg s =
     (case m_records s providerId of
        Some r \<Rightarrow> put_record providerId (applyRenew r gen now cfg) s
      | None \<Rightarrow> s)"

definition mem_reset :: "string \<Rightarrow> int \<Rightarrow> mem_store \<Rightarrow> mem_store" where
  "mem_reset providerId now s =
     (let g0 = (case m_records s providerId of Some r \<Rightarrow> generation r | None \<Rightarrow> 0)
      in put_record providerId (INITIAL_RECORD\<lparr>generation := max (g0 + 1) now\<rparr>) s)"

definition mem_ops :: "mem_store store_ops" where
  "mem_ops =
     \<lparr>op_decide = (\<lambda>p now cfg s. map_prod Inr id (mem_decide p now cfg s)),
      op_complete = (\<lambda>p g out now cfg s. map_prod Inr id (mem_complete p g out now cfg s)),
      op_renew = (\<lambda>p g now cfg s. (Inr (), mem_renew p g now cfg s)),
      op_reset = (\<lambda>p now s. (Inr (), mem_reset p now s))\<rparr>"

section \<open>The Redis store\<close>

text \<open>A key holds a hash, each field present or absent, and the instant it expires at. The
  database's clock is part of its state: the scripts read it and ignore the caller's.\<close>

record redis_hash =
  h_state :: "breaker_state option"
  h_failures :: "int option"
  h_openedAt :: "int option"
  h_generation :: "int option"
  h_probeExpiresAt :: "int option"
  h_lastSeq :: "int option"

definition empty_hash :: redis_hash where
  "empty_hash = \<lparr>h_state = None, h_failures = None, h_openedAt = None, h_generation = None,
                 h_probeExpiresAt = None, h_lastSeq = None\<rparr>"

record redis =
  db :: "string \<rightharpoonup> (redis_hash \<times> int)"
  clock_s :: int
  clock_us :: int

definition now_from_server :: "redis \<Rightarrow> int" where
  "now_from_server s = clock_s s * 1000 + clock_us s div 1000"

definition redis_key :: "string \<Rightarrow> string" where "redis_key providerId = ''cb:'' @ providerId"

text \<open>\<open>HMGET\<close> on an absent or expired key reads every field as absent.\<close>

definition hash_at :: "redis \<Rightarrow> string \<Rightarrow> redis_hash" where
  "hash_at s key =
     (case db s key of
        Some (h, expires) \<Rightarrow> if expires \<le> now_from_server s then empty_hash else h
      | None \<Rightarrow> empty_hash)"

text \<open>A write to a live key keeps its other fields; then \<open>PEXPIRE\<close> sets the time to live.\<close>

definition write_hash :: "string \<Rightarrow> (redis_hash \<Rightarrow> redis_hash) \<Rightarrow> int \<Rightarrow> redis \<Rightarrow> redis" where
  "write_hash key f ttl s = s\<lparr>db := (db s)(key \<mapsto> (f (hash_at s key), now_from_server s + ttl))\<rparr>"

definition or_else :: "'a option \<Rightarrow> 'a \<Rightarrow> 'a" where
  "or_else x d = (case x of Some v \<Rightarrow> v | None \<Rightarrow> d)"

definition redis_decide :: "string \<Rightarrow> breaker_config \<Rightarrow> redis \<Rightarrow> admission \<times> redis" where
  "redis_decide providerId cfg s =
     (let key = redis_key providerId; now = now_from_server s; h = hash_at s key;
          st = or_else (h_state h) Closed; fl = or_else (h_failures h) 0;
          oa = or_else (h_openedAt h) 0; g = or_else (h_generation h) now;
          pe = or_else (h_probeExpiresAt h) 0;
          probe = (Half_open, 0, g + 1, now + probeLeaseMs cfg, Allow, True);
          (st', fl', g', pe', dec, isP) =
            (if st = Closed then (st, fl, g, pe, Allow, False)
             else if st = Open then
               (if now - oa \<ge> cooldownMs cfg then probe else (st, fl, g, pe, Skip, False))
             else if now \<ge> pe then probe else (st, fl, g, pe, Skip, False))
      in (\<lparr>decision = dec, adm_generation = g', isProbe = isP\<rparr>,
          write_hash key (\<lambda>h. h\<lparr>h_state := Some st', h_failures := Some fl', h_openedAt := Some oa,
                                h_generation := Some g', h_probeExpiresAt := Some pe'\<rparr>)
            (stateTtlMs cfg) s))"

definition redis_complete ::
  "string \<Rightarrow> int \<Rightarrow> breaker_outcome \<Rightarrow> breaker_config \<Rightarrow> redis \<Rightarrow> completion \<times> redis" where
  "redis_complete providerId tokenGen outcome cfg s =
     (let key = redis_key providerId; now = now_from_server s; h = hash_at s key;
          st = or_else (h_state h) Closed; fl = or_else (h_failures h) 0;
          oa = or_else (h_openedAt h) 0; g = or_else (h_generation h) now;
          pe = or_else (h_probeExpiresAt h) 0; last = or_else (h_lastSeq h) 0;
          stale = \<lparr>justOpened = False, c_generation = g, c_openedAt = oa, applied = False, seq = 0\<rparr>
      in
      if tokenGen \<noteq> g then (stale, s)
      else if outcome = Neutral then (stale, s)
      else
        let sq = max (now * 1000) (last + 1);
            (st', fl', oa', g', pe') =
              (if outcome = Success then
                 (if st = Half_open then (Closed, 0, 0, g + 1, 0)
                  else if st = Closed then (st, 0, oa, g, pe)
                  else (st, fl, oa, g, pe))
               else
                 (if st = Half_open then (Open, 0, now, g + 1, 0)
                  else if st = Closed then
                    (if fl + 1 \<ge> threshold cfg then (Open, 0, now, g + 1, 0)
                     else (st, fl + 1, oa, g, pe))
                  else (st, fl, oa, g, pe)))
        in (\<lparr>justOpened = (st \<noteq> Open \<and> st' = Open), c_generation = g', c_openedAt = oa',
             applied = True, seq = sq\<rparr>,
            write_hash key (\<lambda>h. h\<lparr>h_state := Some st', h_failures := Some fl', h_openedAt := Some oa',
                                  h_generation := Some g', h_probeExpiresAt := Some pe',
                                  h_lastSeq := Some sq\<rparr>)
              (stateTtlMs cfg) s))"

definition redis_renew :: "string \<Rightarrow> int \<Rightarrow> breaker_config \<Rightarrow> redis \<Rightarrow> redis" where
  "redis_renew providerId tokenGen cfg s =
     (let key = redis_key providerId; now = now_from_server s; h = hash_at s key;
          st = or_else (h_state h) Closed; g = or_else (h_generation h) 0;
          pe = or_else (h_probeExpiresAt h) 0
      in if st = Half_open \<and> tokenGen = g \<and> now < pe
         then write_hash key (\<lambda>h. h\<lparr>h_probeExpiresAt := Some (max pe (now + probeLeaseMs cfg))\<rparr>)
                (stateTtlMs cfg) s
         else s)"

definition redis_reset :: "string \<Rightarrow> redis \<Rightarrow> redis" where
  "redis_reset providerId s =
     (let key = redis_key providerId; now = now_from_server s; h = hash_at s key;
          g = max (or_else (h_generation h) 0 + 1) now
      in write_hash key (\<lambda>h. h\<lparr>h_state := Some Closed, h_failures := Some 0, h_openedAt := Some 0,
                               h_generation := Some g, h_probeExpiresAt := Some 0\<rparr>) 86400000 s)"

definition redis_ops :: "redis store_ops" where
  "redis_ops =
     \<lparr>op_decide = (\<lambda>p now cfg s. map_prod Inr id (redis_decide p cfg s)),
      op_complete = (\<lambda>p g out now cfg s. map_prod Inr id (redis_complete p g out cfg s)),
      op_renew = (\<lambda>p g now cfg s. (Inr (), redis_renew p g cfg s)),
      op_reset = (\<lambda>p now s. (Inr (), redis_reset p s))\<rparr>"

section \<open>Probe patience\<close>

definition PROBE_PATIENCE_MULTIPLIER :: int where "PROBE_PATIENCE_MULTIPLIER = 2"
definition PROBE_BOUND_CEILING_MS :: int where "PROBE_BOUND_CEILING_MS = 3600000"
definition PROBE_SETTLE_HEADROOM_MS :: int where "PROBE_SETTLE_HEADROOM_MS = 5000"
definition PROBE_RECORD_TTL_HEADROOM_MS :: int where "PROBE_RECORD_TTL_HEADROOM_MS = 60000"

record probe_patience =
  pp_firstByteTimeoutMs :: int
  pp_idleTimeoutMs :: int
  pp_firstEventTimeoutMs :: int
  pp_leaseMs :: int

definition widen :: "int \<Rightarrow> int" where
  "widen ms = min (ms * PROBE_PATIENCE_MULTIPLIER) PROBE_BOUND_CEILING_MS"

definition probePatienceOf :: "int \<Rightarrow> int \<Rightarrow> int \<Rightarrow> probe_patience" where
  "probePatienceOf firstByteTimeoutMs idleTimeoutMs eventMarginMs =
     (let fb = widen firstByteTimeoutMs; idle = widen idleTimeoutMs; ev = fb + eventMarginMs
      in \<lparr>pp_firstByteTimeoutMs = fb, pp_idleTimeoutMs = idle, pp_firstEventTimeoutMs = ev,
          pp_leaseMs = max ev idle + PROBE_SETTLE_HEADROOM_MS\<rparr>)"

section \<open>The breaker\<close>

text \<open>Which store admitted a call is the token's \<open>isPrimary\<close>; the state below holds both.\<close>

record token =
  t_providerId :: string
  t_generation :: int
  t_isProbe :: bool
  t_isPrimary :: bool
  t_leaseMs :: int

datatype completion_source = FromPrimary | FromFallback | FromFault

record settlement = completion +
  source :: completion_source

record 'p cb_state =
  cb_primary :: 'p
  cb_fallback :: mem_store
  cb_now :: int
  cb_errors :: "fault list"

definition cfgForLease :: "breaker_config \<Rightarrow> int \<Rightarrow> breaker_config" where
  "cfgForLease cfg leaseMs =
     (if leaseMs \<le> probeLeaseMs cfg then cfg
      else cfg\<lparr>probeLeaseMs := leaseMs,
               stateTtlMs := max (stateTtlMs cfg) (leaseMs + PROBE_RECORD_TTL_HEADROOM_MS)\<rparr>)"

definition before ::
  "'p store_ops \<Rightarrow> breaker_config \<Rightarrow> string \<Rightarrow> int option \<Rightarrow> 'p cb_state
     \<Rightarrow> (breaker_decision \<times> token) \<times> 'p cb_state" where
  "before primary cfg providerId minProbeLeaseMs st =
     (let now = cb_now st;
          leaseMs = max (probeLeaseMs cfg) (or_else minProbeLeaseMs 0);
          c = cfgForLease cfg leaseMs
      in case op_decide primary providerId now c (cb_primary st) of
           (Inr a, p') \<Rightarrow>
             ((decision a,
               \<lparr>t_providerId = providerId, t_generation = adm_generation a, t_isProbe = isProbe a,
                t_isPrimary = True, t_leaseMs = leaseMs\<rparr>),
              st\<lparr>cb_primary := p'\<rparr>)
         | (Inl err, p') \<Rightarrow>
             (case mem_decide providerId now c (cb_fallback st) of
                (a, f') \<Rightarrow>
                  ((decision a,
                    \<lparr>t_providerId = providerId, t_generation = adm_generation a,
                     t_isProbe = isProbe a, t_isPrimary = False, t_leaseMs = leaseMs\<rparr>),
                   st\<lparr>cb_primary := p', cb_fallback := f', cb_errors := cb_errors st @ [err]\<rparr>)))"

definition settlement_of :: "completion \<Rightarrow> completion_source \<Rightarrow> bool \<Rightarrow> settlement" where
  "settlement_of c src jo =
     \<lparr>justOpened = jo, c_generation = c_generation c, c_openedAt = c_openedAt c,
      applied = applied c, seq = seq c, source = src\<rparr>"

definition complete ::
  "'p store_ops \<Rightarrow> breaker_config \<Rightarrow> token \<Rightarrow> breaker_outcome \<Rightarrow> 'p cb_state
     \<Rightarrow> settlement \<times> 'p cb_state" where
  "complete primary cfg tok outcome st =
     (if t_isPrimary tok then
        (case op_complete primary (t_providerId tok) (t_generation tok) outcome (cb_now st) cfg
                (cb_primary st) of
           (Inr c, p') \<Rightarrow> (settlement_of c FromPrimary (justOpened c), st\<lparr>cb_primary := p'\<rparr>)
         | (Inl err, p') \<Rightarrow>
             (\<lparr>justOpened = False, c_generation = t_generation tok, c_openedAt = 0,
               applied = False, seq = 0, source = FromFault\<rparr>,
              st\<lparr>cb_primary := p', cb_errors := cb_errors st @ [err]\<rparr>))
      else
        (case mem_complete (t_providerId tok) (t_generation tok) outcome (cb_now st) cfg
                (cb_fallback st) of
           (c, f') \<Rightarrow> (settlement_of c FromFallback False, st\<lparr>cb_fallback := f'\<rparr>)))"

definition renewProbe ::
  "'p store_ops \<Rightarrow> breaker_config \<Rightarrow> token \<Rightarrow> 'p cb_state \<Rightarrow> 'p cb_state" where
  "renewProbe primary cfg tok st =
     (if \<not> t_isProbe tok then st
      else let c = cfgForLease cfg (t_leaseMs tok) in
        if t_isPrimary tok then
          (case op_renew primary (t_providerId tok) (t_generation tok) (cb_now st) c (cb_primary st) of
             (Inr _, p') \<Rightarrow> st\<lparr>cb_primary := p'\<rparr>
           | (Inl err, p') \<Rightarrow> st\<lparr>cb_primary := p', cb_errors := cb_errors st @ [err]\<rparr>)
        else st\<lparr>cb_fallback :=
                 mem_renew (t_providerId tok) (t_generation tok) (cb_now st) c (cb_fallback st)\<rparr>)"

section \<open>Settling an attempt\<close>

text \<open>What an attempt can throw.\<close>

datatype raw_error =
    Cancelled   \<comment> \<open>CallCancelledError\<close>
  | AbortError
  | CircuitOpen string   \<comment> \<open>ProviderCircuitOpenError\<close>
  | SsrfBlocked
  | Provider provider_error
  | Untyped string

definition outcomeForKind :: "provider_error_kind \<Rightarrow> breaker_outcome" where
  "outcomeForKind kind =
     (if kind = credential \<or> kind = quota_exhausted \<or> kind = risk_control \<or> kind = plan_inactive
          \<or> kind = upstream_rejected \<or> kind = oversized_response
      then Neutral
      else if breakerImpact kind then Trip else Success)"

definition outcomeForError :: "raw_error \<Rightarrow> breaker_outcome" where
  "outcomeForError err =
     (case err of Cancelled \<Rightarrow> Neutral | Provider e \<Rightarrow> outcomeForKind (pe_kind e) | _ \<Rightarrow> Trip)"

definition isCancellation :: "raw_error \<Rightarrow> bool" where
  "isCancellation err = (err = Cancelled \<or> err = AbortError)"

definition kindOf :: "raw_error \<Rightarrow> provider_error_kind" where
  "kindOf err = (case err of Provider e \<Rightarrow> pe_kind e | _ \<Rightarrow> unavailable)"

text \<open>The hooks an attempt is run with, as events: the breaker notifies them, best-effort.\<close>

datatype hook_event =
    OnOpen string int int
  | OnState string breaker_state
  | OnSettle breaker_outcome "provider_error_kind option" bool bool int

record hooks =
  has_onOpen :: bool
  has_onState :: bool
  has_onSettle :: bool

record 'p world = "'p cb_state" +
  events :: "hook_event list"

definition emit :: "bool \<Rightarrow> hook_event \<Rightarrow> ('p, 'x) world_scheme \<Rightarrow> ('p, 'x) world_scheme" where
  "emit b e w = (if b then w\<lparr>events := events w @ [e]\<rparr> else w)"

definition cb_of :: "('p, 'x) world_scheme \<Rightarrow> 'p cb_state" where
  "cb_of w = \<lparr>cb_primary = cb_primary w, cb_fallback = cb_fallback w, cb_now = cb_now w,
              cb_errors = cb_errors w\<rparr>"

definition with_cb :: "'p cb_state \<Rightarrow> ('p, 'x) world_scheme \<Rightarrow> ('p, 'x) world_scheme" where
  "with_cb st w = w\<lparr>cb_primary := cb_primary st, cb_fallback := cb_fallback st, cb_now := cb_now st,
                    cb_errors := cb_errors st\<rparr>"

definition notifyState ::
  "hooks \<Rightarrow> string \<Rightarrow> breaker_decision \<Rightarrow> bool \<Rightarrow> ('p, 'x) world_scheme \<Rightarrow> ('p, 'x) world_scheme" where
  "notifyState hk providerId dec probe w =
     emit (has_onState hk)
       (OnState providerId (if dec = Skip then Open else if probe then Half_open else Closed)) w"

definition completeAndNotify ::
  "'p store_ops \<Rightarrow> breaker_config \<Rightarrow> hooks \<Rightarrow> token \<Rightarrow> breaker_outcome
     \<Rightarrow> provider_error_kind option \<Rightarrow> ('p, 'x) world_scheme \<Rightarrow> ('p, 'x) world_scheme" where
  "completeAndNotify primary cfg hk tok outcome kind w =
     (let (res, st') = complete primary cfg tok outcome (cb_of w); w1 = with_cb st' w;
          w2 = emit (justOpened res \<and> has_onOpen hk)
                 (OnOpen (t_providerId tok) (c_generation res) (c_openedAt res)) w1
      in emit (has_onSettle hk \<and> source res = FromPrimary)
           (OnSettle outcome kind (justOpened res) (applied res) (seq res)) w2)"

text \<open>The throttle of the lease renewals: an activity at time \<open>t\<close> renews when a third of the
  granted lease has passed since the last renewal, or when the clock went back.\<close>

definition renewEveryMs :: "token \<Rightarrow> int" where
  "renewEveryMs tok = max 1 (t_leaseMs tok div 3)"

definition renewOnActivity ::
  "'p store_ops \<Rightarrow> breaker_config \<Rightarrow> token \<Rightarrow> bool \<Rightarrow> int \<Rightarrow> 'p cb_state \<Rightarrow> int \<times> 'p cb_state" where
  "renewOnActivity primary cfg tok settled lastRenewAt st =
     (if \<not> t_isProbe tok \<or> settled then (lastRenewAt, st)
      else let t = cb_now st in
        if t - lastRenewAt \<ge> renewEveryMs tok \<or> t < lastRenewAt
        then (t, renewProbe primary cfg tok st) else (lastRenewAt, st))"

text \<open>\<open>withBreaker\<close>: the call \<open>fn\<close> runs between admission and settlement and may change the
  world in any way, since other requests run meanwhile.\<close>

definition withBreaker ::
  "'p store_ops \<Rightarrow> breaker_config \<Rightarrow> hooks \<Rightarrow> string
     \<Rightarrow> (bool \<Rightarrow> ('p, 'x) world_scheme \<Rightarrow> (raw_error + 'r) \<times> ('p, 'x) world_scheme)
     \<Rightarrow> (('p, 'x) world_scheme \<Rightarrow> bool) \<Rightarrow> int option
     \<Rightarrow> ('p, 'x) world_scheme \<Rightarrow> (raw_error + 'r) \<times> ('p, 'x) world_scheme" where
  "withBreaker primary cfg hk providerId fn isCallerAbort minProbeLeaseMs w =
     (let ((dec, tok), st1) = before primary cfg providerId minProbeLeaseMs (cb_of w);
          w1 = notifyState hk providerId dec (t_isProbe tok) (with_cb st1 w)
      in
      if dec = Skip then (Inl (CircuitOpen providerId), w1)
      else
        case fn (t_isProbe tok) w1 of
          (Inr result, w2) \<Rightarrow>
            (Inr result, completeAndNotify primary cfg hk tok Success None w2)
        | (Inl err, w2) \<Rightarrow>
            (let outcome = (if isCallerAbort w2 then Neutral else outcomeForError err)
             in (Inl err, completeAndNotify primary cfg hk tok outcome (Some (kindOf err)) w2)))"

section \<open>Streams\<close>

text \<open>\<open>withBreakerStream\<close> as a run over what upstream does: each event comes with the effect the
  rest of the process had while it was awaited, and the generator then ends or throws. The
  consumer leaves after the given number of further events, or reads to the end.\<close>

datatype gen_end = GenDone | GenThrow raw_error
datatype stream_end = StreamDone | StreamThrew raw_error | StreamLeft

record loop_state =
  ls_settled :: bool
  ls_terminal :: bool
  ls_error :: bool
  ls_lastRenew :: int

definition settle_once ::
  "'p store_ops \<Rightarrow> breaker_config \<Rightarrow> hooks \<Rightarrow> token \<Rightarrow> breaker_outcome
     \<Rightarrow> provider_error_kind option \<Rightarrow> loop_state \<times> ('p, 'x) world_scheme
     \<Rightarrow> loop_state \<times> ('p, 'x) world_scheme" where
  "settle_once primary cfg hk tok outcome kind lw =
     (if ls_settled (fst lw) then lw
      else (fst lw\<lparr>ls_settled := True\<rparr>,
            completeAndNotify primary cfg hk tok outcome kind (snd lw)))"

definition event_kind :: "string \<Rightarrow> stream_diagnostic option \<Rightarrow> provider_error_kind" where
  "event_kind ty diag =
     (case diag of
        Some d \<Rightarrow> (case diag_kind d of Some k \<Rightarrow> k | None \<Rightarrow> classifyStreamError ty)
      | None \<Rightarrow> classifyStreamError ty)"

definition on_event ::
  "'p store_ops \<Rightarrow> breaker_config \<Rightarrow> hooks \<Rightarrow> token \<Rightarrow> stream_event
     \<Rightarrow> loop_state \<times> ('p, 'x) world_scheme \<Rightarrow> loop_state \<times> ('p, 'x) world_scheme" where
  "on_event primary cfg hk tok ev lw =
     (let lw1 = (case ev of
                   MessageDelta (Some sr) raw sq us \<Rightarrow> (fst lw\<lparr>ls_terminal := True\<rparr>, snd lw)
                 | StreamError ty m diag \<Rightarrow>
                     settle_once primary cfg hk tok (outcomeForKind (event_kind ty diag))
                       (Some (event_kind ty diag)) (fst lw\<lparr>ls_error := True\<rparr>, snd lw)
                 | _ \<Rightarrow> lw);
          (t, st) = renewOnActivity primary cfg tok (ls_settled (fst lw1)) (ls_lastRenew (fst lw1))
                      (cb_of (snd lw1))
      in (fst lw1\<lparr>ls_lastRenew := t\<rparr>, with_cb st (snd lw1)))"

definition on_end ::
  "'p store_ops \<Rightarrow> breaker_config \<Rightarrow> hooks \<Rightarrow> token \<Rightarrow> gen_end
     \<Rightarrow> (('p, 'x) world_scheme \<Rightarrow> bool) option
     \<Rightarrow> loop_state \<times> ('p, 'x) world_scheme \<Rightarrow> loop_state \<times> ('p, 'x) world_scheme" where
  "on_end primary cfg hk tok fin isCallerAbort lw =
     (let settle = (\<lambda>outcome kind. settle_once primary cfg hk tok outcome kind lw) in
      case fin of
        GenDone \<Rightarrow>
          if ls_error (fst lw) then lw
          else if ls_terminal (fst lw) then settle Success None
          else settle Trip (Some unavailable)
      | GenThrow err \<Rightarrow>
          let callerGone = (case isCallerAbort of Some f \<Rightarrow> f (snd lw) | None \<Rightarrow> isCancellation err) in
          if callerGone then settle Neutral (Some (kindOf err))
          else if isCancellation err then settle Trip (Some unavailable)
          else settle (outcomeForError err) (Some (kindOf err)))"

fun stream_loop ::
  "'p store_ops \<Rightarrow> breaker_config \<Rightarrow> hooks \<Rightarrow> token \<Rightarrow> (('p, 'x) world_scheme \<Rightarrow> bool) option
     \<Rightarrow> (stream_event \<times> (('p, 'x) world_scheme \<Rightarrow> ('p, 'x) world_scheme)) list
     \<Rightarrow> gen_end \<times> (('p, 'x) world_scheme \<Rightarrow> ('p, 'x) world_scheme) \<Rightarrow> nat option
     \<Rightarrow> loop_state \<times> ('p, 'x) world_scheme
     \<Rightarrow> stream_event list \<times> stream_end \<times> loop_state \<times> ('p, 'x) world_scheme" where
  "stream_loop primary cfg hk tok abort [] (fin, env) leave (ls, w) =
     ([], (case fin of GenDone \<Rightarrow> StreamDone | GenThrow err \<Rightarrow> StreamThrew err),
      settle_once primary cfg hk tok Neutral None
        (on_end primary cfg hk tok fin abort (ls, env w)))"
| "stream_loop primary cfg hk tok abort ((ev, env) # rest) fin leave (ls, w) =
     (let lw = on_event primary cfg hk tok ev (ls, env w) in
      if leave = Some 0
      then ([ev], StreamLeft, settle_once primary cfg hk tok Neutral None lw)
      else (case stream_loop primary cfg hk tok abort rest fin (map_option (\<lambda>n. n - 1) leave) lw of
              (evs, e, lw') \<Rightarrow> (ev # evs, e, lw')))"

definition withBreakerStream ::
  "'p store_ops \<Rightarrow> breaker_config \<Rightarrow> hooks \<Rightarrow> string \<Rightarrow> (('p, 'x) world_scheme \<Rightarrow> bool) option
     \<Rightarrow> int option
     \<Rightarrow> (bool \<Rightarrow> (stream_event \<times> (('p, 'x) world_scheme \<Rightarrow> ('p, 'x) world_scheme)) list
            \<times> gen_end \<times> (('p, 'x) world_scheme \<Rightarrow> ('p, 'x) world_scheme))
     \<Rightarrow> nat option \<Rightarrow> ('p, 'x) world_scheme
     \<Rightarrow> stream_event list \<times> stream_end \<times> ('p, 'x) world_scheme" where
  "withBreakerStream primary cfg hk providerId isCallerAbort minProbeLeaseMs gen leave w =
     (let ((dec, tok), st1) = before primary cfg providerId minProbeLeaseMs (cb_of w);
          w1 = notifyState hk providerId dec (t_isProbe tok) (with_cb st1 w)
      in
      if dec = Skip then ([], StreamThrew (CircuitOpen providerId), w1)
      else
        let (evs, fin) = gen (t_isProbe tok);
            ls = \<lparr>ls_settled = False, ls_terminal = False, ls_error = False, ls_lastRenew = cb_now w1\<rparr>
        in case stream_loop primary cfg hk tok isCallerAbort evs fin leave (ls, w1) of
             (out, e, ls', w') \<Rightarrow> (out, e, w'))"

end
