(* ===== verification/BreakerFacts.thy ===== *)
theory BreakerFacts
  imports Breaker
begin

text \<open>
  The breaker's laws: the Lua scripts refine the in-memory store, both satisfy one store
  contract, probes are single, a settled probe makes every earlier token stale, the record
  outlives the lease, and every attempt settles once.
\<close>

section \<open>The Redis store refines the in-memory one\<close>

text \<open>A key the scripts wrote has its five fields.\<close>

definition full_hash :: "redis_hash \<Rightarrow> bool" where
  "full_hash h = (h_state h \<noteq> None \<and> h_failures h \<noteq> None \<and> h_openedAt h \<noteq> None
     \<and> h_generation h \<noteq> None \<and> h_probeExpiresAt h \<noteq> None)"

definition wf_redis :: "redis \<Rightarrow> bool" where
  "wf_redis s = (\<forall>p h e. db s (redis_key p) = Some (h, e) \<longrightarrow> full_hash h)"

definition record_of :: "redis_hash \<Rightarrow> breaker_record" where
  "record_of h = \<lparr>br_state = the (h_state h), failures = the (h_failures h),
     openedAt = the (h_openedAt h), generation = the (h_generation h),
     probeExpiresAt = the (h_probeExpiresAt h)\<rparr>"

definition live_hash :: "redis \<Rightarrow> string \<Rightarrow> redis_hash option" where
  "live_hash s p = (case db s (redis_key p) of
      Some (h, e) \<Rightarrow> if e \<le> now_from_server s then None else Some h | None \<Rightarrow> None)"

text \<open>The abstraction: live keys as records; an expired key is no record.\<close>

definition mem_of :: "redis \<Rightarrow> mem_store" where
  "mem_of s = \<lparr>m_records = (\<lambda>p. map_option record_of (live_hash s p)),
               m_lastSeq = (\<lambda>p. Option.bind (live_hash s p) h_lastSeq)\<rparr>"

lemma redis_key_inj [simp]: "redis_key p = redis_key q \<longleftrightarrow> p = q"
  by (simp add: redis_key_def)

lemma hash_at_live: "hash_at s (redis_key p) = or_else (live_hash s p) empty_hash"
  by (auto simp: hash_at_def live_hash_def or_else_def split: option.split)

lemma now_write [simp]: "now_from_server (write_hash k f ttl s) = now_from_server s"
  by (simp add: write_hash_def now_from_server_def)

lemma live_hash_write:
  "0 < ttl \<Longrightarrow> live_hash (write_hash (redis_key p) f ttl s) q =
     (if q = p then Some (f (hash_at s (redis_key p))) else live_hash s q)"
  by (auto simp: live_hash_def write_hash_def now_from_server_def split: option.split)

lemma live_hash_full: "wf_redis s \<Longrightarrow> live_hash s p = Some h \<Longrightarrow> full_hash h"
  by (fastforce simp: wf_redis_def live_hash_def split: option.splits if_splits)

lemma wf_write:
  "wf_redis s \<Longrightarrow> full_hash (f (hash_at s (redis_key p))) \<Longrightarrow> wf_redis (write_hash (redis_key p) f ttl s)"
  by (auto simp: wf_redis_def write_hash_def split: if_splits)

lemma mem_of_write:
  "0 < ttl \<Longrightarrow> mem_of (write_hash (redis_key p) f ttl s) =
     (let h = f (hash_at s (redis_key p)) in
      \<lparr>m_records = (m_records (mem_of s))(p \<mapsto> record_of h),
       m_lastSeq = (m_lastSeq (mem_of s))(p := h_lastSeq h)\<rparr>)"
  by (auto simp: mem_of_def Let_def fun_eq_iff live_hash_write)

text \<open>The fields a script reads are those of the seeded record.\<close>

lemma script_fields:
  assumes "wf_redis s"
  shows "or_else (h_state (hash_at s (redis_key p))) Closed
      = br_state (recordFor (mem_of s) p (now_from_server s))"
    "or_else (h_failures (hash_at s (redis_key p))) 0
      = failures (recordFor (mem_of s) p (now_from_server s))"
    "or_else (h_openedAt (hash_at s (redis_key p))) 0
      = openedAt (recordFor (mem_of s) p (now_from_server s))"
    "or_else (h_generation (hash_at s (redis_key p))) (now_from_server s)
      = generation (recordFor (mem_of s) p (now_from_server s))"
    "or_else (h_probeExpiresAt (hash_at s (redis_key p))) 0
      = probeExpiresAt (recordFor (mem_of s) p (now_from_server s))"
    "or_else (h_lastSeq (hash_at s (redis_key p))) 0 = lastSeq_of (mem_of s) p"
  using live_hash_full [OF assms, of p]
  by (auto simp: hash_at_live or_else_def recordFor_def seeded_def mem_of_def record_of_def
      full_hash_def empty_hash_def INITIAL_RECORD_def lastSeq_of_def split: option.splits)

lemma h_lastSeq_at: "h_lastSeq (hash_at s (redis_key p)) = m_lastSeq (mem_of s) p"
  by (auto simp: hash_at_live or_else_def mem_of_def empty_hash_def split: option.split)

lemma redis_decide_refines:
  assumes "wf_redis s" "0 < stateTtlMs cfg"
  shows "map_prod id mem_of (redis_decide p cfg s) = mem_decide p (now_from_server s) cfg (mem_of s)"
proof -
  let ?t = "now_from_server s" and ?h = "hash_at s (redis_key p)"
  obtain recs sq where m: "mem_of s = \<lparr>m_records = recs, m_lastSeq = sq\<rparr>" by (cases "mem_of s")
  obtain st fl oa g pe where r0: "recordFor (mem_of s) p ?t
      = \<lparr>br_state = st, failures = fl, openedAt = oa, generation = g, probeExpiresAt = pe\<rparr>"
    by (cases "recordFor (mem_of s) p ?t")
  have f: "or_else (h_state ?h) Closed = st" "or_else (h_failures ?h) 0 = fl"
    "or_else (h_openedAt ?h) 0 = oa" "or_else (h_generation ?h) ?t = g"
    "or_else (h_probeExpiresAt ?h) 0 = pe"
    by (simp_all only: script_fields [OF assms(1)] r0 breaker_record.simps)
  have q: "lastSeq_of \<lparr>m_records = recs, m_lastSeq = sq\<rparr> p = or_else (sq p) 0" "h_lastSeq ?h = sq p"
    by (simp_all add: h_lastSeq_at m lastSeq_of_def or_else_def)
  note r = r0 [unfolded m]
  show ?thesis
    using assms(2)
    by (cases st)
      (simp_all add: redis_decide_def mem_decide_def decide_def admit_probe_def Let_def f q r
        mem_of_write put_record_def record_of_def m)
qed

lemma redis_complete_refines:
  assumes "wf_redis s" "0 < stateTtlMs cfg"
  shows "map_prod id mem_of (redis_complete p g0 out cfg s)
    = mem_complete p g0 out (now_from_server s) cfg (mem_of s)"
proof -
  let ?t = "now_from_server s" and ?h = "hash_at s (redis_key p)"
  obtain recs sq where m: "mem_of s = \<lparr>m_records = recs, m_lastSeq = sq\<rparr>" by (cases "mem_of s")
  obtain st fl oa g pe where r0: "recordFor (mem_of s) p ?t
      = \<lparr>br_state = st, failures = fl, openedAt = oa, generation = g, probeExpiresAt = pe\<rparr>"
    by (cases "recordFor (mem_of s) p ?t")
  have f: "or_else (h_state ?h) Closed = st" "or_else (h_failures ?h) 0 = fl"
    "or_else (h_openedAt ?h) 0 = oa" "or_else (h_generation ?h) ?t = g"
    "or_else (h_probeExpiresAt ?h) 0 = pe"
    by (simp_all only: script_fields [OF assms(1)] r0 breaker_record.simps)
  have q: "lastSeq_of \<lparr>m_records = recs, m_lastSeq = sq\<rparr> p = or_else (sq p) 0" "h_lastSeq ?h = sq p"
    by (simp_all add: h_lastSeq_at m lastSeq_of_def or_else_def)
  note r = r0 [unfolded m]
  have same: "recs(p \<mapsto> \<lparr>br_state = st, failures = fl, openedAt = oa, generation = g, probeExpiresAt = pe\<rparr>) = recs"
    if "recs p = Some x" for x
    using that r by (auto simp: recordFor_def seeded_def fun_upd_idem)
  show ?thesis
  proof (cases "g0 = g \<and> out \<noteq> Neutral")
    case False
    then have c: "redis_complete p g0 out cfg s
        = (\<lparr>justOpened = False, c_generation = g, c_openedAt = oa, applied = False, seq = 0\<rparr>, s)"
      by (auto simp: redis_complete_def Let_def f)
    have "applyComplete (recordFor (mem_of s) p ?t) g0 out ?t cfg = recordFor (mem_of s) p ?t"
      using False by (auto simp: applyComplete_def r0)
    then show ?thesis
      using False by (auto simp: c mem_complete_def Let_def r m put_record_def same)
  next
    case True
    then show ?thesis
      using assms(2)
      by (cases st; cases out)
        (simp_all add: redis_complete_def mem_complete_def applyComplete_def opened_record_def Let_def f q r
          mem_of_write put_record_def record_of_def m)
  qed
qed

lemma redis_renew_refines:
  assumes "wf_redis s" "0 < stateTtlMs cfg"
  shows "mem_of (redis_renew p g0 cfg s) = mem_renew p g0 (now_from_server s) cfg (mem_of s)"
proof (cases "live_hash s p")
  case None
  then have "hash_at s (redis_key p) = empty_hash" by (simp add: hash_at_live or_else_def)
  then show ?thesis
    by (simp add: redis_renew_def Let_def or_else_def empty_hash_def mem_renew_def mem_of_def None)
next
  case (Some h)
  then have h: "hash_at s (redis_key p) = h" by (simp add: hash_at_live or_else_def)
  have full: "full_hash h" using live_hash_full [OF assms(1) Some] .
  have r: "m_records (mem_of s) p = Some (record_of h)" by (simp add: mem_of_def Some)
  have q: "m_lastSeq (mem_of s) p = h_lastSeq h" by (simp add: mem_of_def Some)
  have upd: "(m_records (mem_of s))(p \<mapsto> record_of h) = m_records (mem_of s)" using r by auto
  show ?thesis
    using full assms(2) upd q
    by (auto simp: redis_renew_def Let_def or_else_def h mem_renew_def r applyRenew_def put_record_def
        mem_of_write full_hash_def record_of_def fun_upd_idem)
qed

lemma redis_reset_refines:
  assumes "wf_redis s"
  shows "mem_of (redis_reset p s) = mem_reset p (now_from_server s) (mem_of s)"
proof -
  obtain recs sq where m: "mem_of s = \<lparr>m_records = recs, m_lastSeq = sq\<rparr>" by (cases "mem_of s")
  have "or_else (h_generation (hash_at s (redis_key p))) 0
      = (case m_records (mem_of s) p of Some r \<Rightarrow> generation r | None \<Rightarrow> 0)"
    using live_hash_full [OF assms, of p]
    by (auto simp: hash_at_live or_else_def mem_of_def record_of_def full_hash_def empty_hash_def
        split: option.splits)
  then show ?thesis using h_lastSeq_at [of s p]
    by (simp add: redis_reset_def mem_reset_def Let_def mem_of_write put_record_def record_of_def
        INITIAL_RECORD_def m)
qed

lemma redis_ops_wf:
  assumes "wf_redis s"
  shows "wf_redis (snd (redis_decide p cfg s))" "wf_redis (snd (redis_complete p g out cfg s))"
    "wf_redis (redis_reset p s)" "wf_redis (redis_renew p g cfg s)"
proof -
  show "wf_redis (snd (redis_decide p cfg s))"
    by (auto simp: redis_decide_def Let_def full_hash_def split: prod.split intro!: wf_write assms)
  show "wf_redis (snd (redis_complete p g out cfg s))"
    by (auto simp: redis_complete_def Let_def full_hash_def assms split: prod.split intro!: wf_write)
  show "wf_redis (redis_reset p s)"
    by (auto simp: redis_reset_def Let_def full_hash_def intro!: wf_write assms)
  show "wf_redis (redis_renew p g cfg s)"
  proof (cases "live_hash s p")
    case None
    then show ?thesis
      using assms by (simp add: redis_renew_def Let_def hash_at_live or_else_def empty_hash_def)
  next
    case (Some h)
    then show ?thesis
      using assms live_hash_full [OF assms Some]
      by (auto simp: redis_renew_def Let_def hash_at_live or_else_def full_hash_def intro!: wf_write)
  qed
qed

section \<open>One contract for both stores\<close>

text \<open>What the breaker relies on, over the records visible at the store's clock: every operation
  is the pure transition on the provider's seeded record, leaves the other providers alone and
  keeps the store's invariant; nothing faults.\<close>

locale breaker_store =
  fixes ops :: "'s store_ops"
    and now_of :: "int \<Rightarrow> 's \<Rightarrow> int"
    and view :: "'s \<Rightarrow> mem_store"
    and inv :: "'s \<Rightarrow> bool"
  assumes decide_law: "inv s \<Longrightarrow> 0 < stateTtlMs cfg \<Longrightarrow>
      map_prod id view (op_decide ops p now cfg s)
        = map_prod Inr id (mem_decide p (now_of now s) cfg (view s)) \<and> inv (snd (op_decide ops p now cfg s))"
    and complete_law: "inv s \<Longrightarrow> 0 < stateTtlMs cfg \<Longrightarrow>
      map_prod id view (op_complete ops p g out now cfg s)
        = map_prod Inr id (mem_complete p g out (now_of now s) cfg (view s))
      \<and> inv (snd (op_complete ops p g out now cfg s))"
    and renew_law: "inv s \<Longrightarrow> 0 < stateTtlMs cfg \<Longrightarrow>
      map_prod id view (op_renew ops p g now cfg s) = (Inr (), mem_renew p g (now_of now s) cfg (view s))
      \<and> inv (snd (op_renew ops p g now cfg s))"
    and reset_law: "inv s \<Longrightarrow>
      map_prod id view (op_reset ops p now s) = (Inr (), mem_reset p (now_of now s) (view s))
      \<and> inv (snd (op_reset ops p now s))"
begin

text \<open>A stale or neutral completion changes nothing and is reported as not applied.\<close>

lemma stale_completion:
  assumes "inv s" "0 < stateTtlMs cfg"
    "g \<noteq> generation (recordFor (view s) p (now_of now s)) \<or> out = Neutral"
  shows "view (snd (op_complete ops p g out now cfg s)) = view s
    \<and> (case fst (op_complete ops p g out now cfg s) of
         Inr c \<Rightarrow> \<not> applied c \<and> \<not> justOpened c \<and> seq c = 0 | Inl _ \<Rightarrow> False)"
proof -
  let ?r = "recordFor (view s) p (now_of now s)"
  from assms(3) have same: "applyComplete ?r g out (now_of now s) cfg = ?r"
    by (auto simp: applyComplete_def)
  have put: "m_records (view s) p = Some r \<Longrightarrow> put_record p ?r (view s) = view s" for r
    by (simp add: put_record_def recordFor_def seeded_def fun_upd_idem)
  have "snd (mem_complete p g out (now_of now s) cfg (view s)) = view s
    \<and> \<not> applied (fst (mem_complete p g out (now_of now s) cfg (view s)))
    \<and> \<not> justOpened (fst (mem_complete p g out (now_of now s) cfg (view s)))
    \<and> seq (fst (mem_complete p g out (now_of now s) cfg (view s))) = 0"
    using assms(3) same by (auto simp: mem_complete_def Let_def put)
  with complete_law [OF assms(1,2), of p g out now] show ?thesis
    by (cases "op_complete ops p g out now cfg s"; cases "mem_complete p g out (now_of now s) cfg (view s)")
      (auto split: sum.split)
qed

text \<open>An applied completion's sequence number is above every earlier one of the record.\<close>

lemma applied_seq_increases:
  assumes "inv s" "0 < stateTtlMs cfg"
  shows "case fst (op_complete ops p g out now cfg s) of
      Inr c \<Rightarrow> applied c \<longrightarrow> lastSeq_of (view s) p < seq c
        \<and> lastSeq_of (view (snd (op_complete ops p g out now cfg s))) p = seq c
    | Inl _ \<Rightarrow> False"
proof -
  have "case mem_complete p g out (now_of now s) cfg (view s) of (c, s') \<Rightarrow>
      applied c \<longrightarrow> lastSeq_of (view s) p < seq c \<and> lastSeq_of s' p = seq c"
    by (auto simp: mem_complete_def Let_def lastSeq_of_def put_record_def)
  with complete_law [OF assms, of p g out now] show ?thesis
    by (cases "op_complete ops p g out now cfg s"; cases "mem_complete p g out (now_of now s) cfg (view s)")
      (auto split: sum.split)
qed

end

interpretation memory: breaker_store mem_ops "\<lambda>now s. now" id "\<lambda>s. True"
  by unfold_locales (simp_all add: mem_ops_def prod.map_id0)

interpretation shared: breaker_store redis_ops "\<lambda>now s. now_from_server s" mem_of wf_redis
proof unfold_locales
  fix s :: redis and cfg :: breaker_config and p now
  assume s: "wf_redis s"
  show "map_prod id mem_of (op_reset redis_ops p now s) = (Inr (), mem_reset p (now_from_server s) (mem_of s))
    \<and> wf_redis (snd (op_reset redis_ops p now s))"
    using s by (simp add: redis_ops_def redis_reset_refines redis_ops_wf)
  assume c: "0 < stateTtlMs cfg"
  show "map_prod id mem_of (op_decide redis_ops p now cfg s)
      = map_prod Inr id (mem_decide p (now_from_server s) cfg (mem_of s))
    \<and> wf_redis (snd (op_decide redis_ops p now cfg s))"
    using redis_ops_wf [OF s]
    by (simp add: redis_ops_def redis_decide_refines [OF s c, symmetric] prod.map_comp o_def)
  fix g out
  show "map_prod id mem_of (op_complete redis_ops p g out now cfg s)
      = map_prod Inr id (mem_complete p g out (now_from_server s) cfg (mem_of s))
    \<and> wf_redis (snd (op_complete redis_ops p g out now cfg s))"
    using redis_ops_wf [OF s]
    by (simp add: redis_ops_def redis_complete_refines [OF s c, symmetric] prod.map_comp o_def)
  show "map_prod id mem_of (op_renew redis_ops p g now cfg s)
      = (Inr (), mem_renew p g (now_from_server s) cfg (mem_of s))
    \<and> wf_redis (snd (op_renew redis_ops p g now cfg s))"
    using s c by (simp add: redis_ops_def redis_renew_refines redis_ops_wf)
qed

text \<open>C1 (refinement). The Lua scripts implement the in-memory store: on a database the scripts
  wrote, under a positive time to live, every operation gives the result the in-memory store
  gives on the live records at the server's clock, and leaves the corresponding records and
  event sequence; the caller's clock plays no part.\<close>

theorem redis_refines_memory:
  assumes "wf_redis s" "0 < stateTtlMs cfg"
  shows "map_prod id mem_of (redis_decide p cfg s) = mem_decide p (now_from_server s) cfg (mem_of s)
    \<and> map_prod id mem_of (redis_complete p g out cfg s)
        = mem_complete p g out (now_from_server s) cfg (mem_of s)
    \<and> mem_of (redis_renew p g cfg s) = mem_renew p g (now_from_server s) cfg (mem_of s)
    \<and> mem_of (redis_reset p s) = mem_reset p (now_from_server s) (mem_of s)"
  using assms redis_decide_refines redis_complete_refines redis_renew_refines redis_reset_refines
  by blast

section \<open>One provider's record over time\<close>

text \<open>The shared record of one provider with the tokens issued for it, as a state machine: time
  passes, an unwritten record expires, calls are admitted under a configuration or a lease
  widened from it, settle and renew with any token issued so far, and a reauthorization resets.
  \<open>touched\<close> is the last write, and expiry needs the time to live to have passed since.\<close>

record bsys =
  bs_now :: int
  bs_rec :: "breaker_record option"
  bs_touched :: int
  bs_tokens :: "(int \<times> bool) list"
  bs_resets :: int

inductive breaker_reach :: "breaker_config \<Rightarrow> bsys \<Rightarrow> bool" for cfg where
  start: "0 \<le> t \<Longrightarrow> breaker_reach cfg
     \<lparr>bs_now = t, bs_rec = None, bs_touched = t, bs_tokens = [], bs_resets = 0\<rparr>"
| tick: "breaker_reach cfg s \<Longrightarrow> bs_now s \<le> t \<Longrightarrow> breaker_reach cfg (s\<lparr>bs_now := t\<rparr>)"
| expire: "breaker_reach cfg s \<Longrightarrow> bs_touched s + stateTtlMs cfg \<le> bs_now s \<Longrightarrow>
     breaker_reach cfg (s\<lparr>bs_rec := None\<rparr>)"
| admit: "breaker_reach cfg s \<Longrightarrow>
     decide (seeded (bs_rec s) (bs_now s)) (bs_now s) (cfgForLease cfg lease) = (r', a) \<Longrightarrow>
     breaker_reach cfg (s\<lparr>bs_rec := Some r', bs_touched := bs_now s,
       bs_tokens := (if decision a = Allow then (adm_generation a, isProbe a) # bs_tokens s
                     else bs_tokens s)\<rparr>)"
| settle: "breaker_reach cfg s \<Longrightarrow> (g, pr) \<in> set (bs_tokens s) \<Longrightarrow>
     r = seeded (bs_rec s) (bs_now s) \<Longrightarrow> g = generation r \<Longrightarrow> out \<noteq> Neutral \<Longrightarrow>
     breaker_reach cfg (s\<lparr>bs_rec := Some (applyComplete r g out (bs_now s) cfg), bs_touched := bs_now s\<rparr>)"
| settle_stale: "breaker_reach cfg s \<Longrightarrow> (g, pr) \<in> set (bs_tokens s) \<Longrightarrow>
     g \<noteq> generation (seeded (bs_rec s) (bs_now s)) \<or> out = Neutral \<Longrightarrow> breaker_reach cfg s"
| renew: "breaker_reach cfg s \<Longrightarrow> (g, pr) \<in> set (bs_tokens s) \<Longrightarrow> bs_rec s = Some r \<Longrightarrow>
     applyRenew r g (bs_now s) (cfgForLease cfg lease) \<noteq> r \<Longrightarrow>
     breaker_reach cfg (s\<lparr>bs_rec := Some (applyRenew r g (bs_now s) (cfgForLease cfg lease)),
       bs_touched := bs_now s\<rparr>)"
| reset: "breaker_reach cfg s \<Longrightarrow>
     breaker_reach cfg (s\<lparr>bs_rec := Some (INITIAL_RECORD\<lparr>generation :=
         max ((case bs_rec s of Some r \<Rightarrow> generation r | None \<Rightarrow> 0) + 1) (bs_now s)\<rparr>),
       bs_touched := bs_now s, bs_resets := bs_resets s + 1\<rparr>)"

text \<open>How far a generation may run ahead of the clock: the three transitions of a cycle fit in
  a cooldown of three milliseconds, and every reset adds two.\<close>

definition gen_bound :: "int \<Rightarrow> int \<Rightarrow> breaker_record \<Rightarrow> bool" where
  "gen_bound touched resets r = (case br_state r of
       Closed \<Rightarrow> generation r \<le> touched + 2 * resets
     | Open \<Rightarrow> generation r \<le> openedAt r + 2 * resets + 1 \<and> openedAt r \<le> touched
     | Half_open \<Rightarrow> generation r \<le> touched + 2 * resets - 1 \<and> touched < probeExpiresAt r)"

definition probes :: "bsys \<Rightarrow> int list" where
  "probes s = map fst (filter snd (bs_tokens s))"

text \<open>The token part: generations issued so far stay at or below the record's, an expired
  record's below the clock; no settled record carries a probe's generation; probes differ.\<close>

definition tokens_below :: "bsys \<Rightarrow> breaker_record \<Rightarrow> bool" where
  "tokens_below s r = (list_all (\<lambda>tok. fst tok \<le> generation r) (bs_tokens s)
     \<and> (br_state r \<noteq> Half_open \<longrightarrow> generation r \<notin> set (probes s)))"

definition tokens_ok :: "bsys \<Rightarrow> bool" where
  "tokens_ok s = (distinct (probes s) \<and>
     (case bs_rec s of
        None \<Rightarrow> list_all (\<lambda>tok. fst tok < bs_now s) (bs_tokens s)
      | Some r \<Rightarrow> tokens_below s r))"

definition bs_inv :: "breaker_config \<Rightarrow> bsys \<Rightarrow> bool" where
  "bs_inv cfg s = (bs_touched s \<le> bs_now s \<and> 0 \<le> bs_now s \<and> 0 \<le> bs_resets s
     \<and> (case bs_rec s of None \<Rightarrow> True | Some r \<Rightarrow> gen_bound (bs_touched s) (bs_resets s) r)
     \<and> (2 * bs_resets s + 1 < stateTtlMs cfg \<longrightarrow> tokens_ok s))"

lemma cfgForLease_simps [simp]:
  "cooldownMs (cfgForLease cfg l) = cooldownMs cfg" "threshold (cfgForLease cfg l) = threshold cfg"
  "probeLeaseMs cfg \<le> probeLeaseMs (cfgForLease cfg l)" "stateTtlMs cfg \<le> stateTtlMs (cfgForLease cfg l)"
  by (auto simp: cfgForLease_def)

lemma probes_upd [simp]:
  "probes (s\<lparr>bs_rec := x\<rparr>) = probes s" "probes (s\<lparr>bs_now := t\<rparr>) = probes s"
  "probes (s\<lparr>bs_touched := t\<rparr>) = probes s" "probes (s\<lparr>bs_resets := t\<rparr>) = probes s"
  "probes (s\<lparr>bs_tokens := (g, pr) # ts\<rparr>) = (if pr then g # probes (s\<lparr>bs_tokens := ts\<rparr>) else probes (s\<lparr>bs_tokens := ts\<rparr>))"
  by (simp_all add: probes_def)

lemma probes_le: "list_all (\<lambda>tok. fst tok \<le> b) (bs_tokens s) \<Longrightarrow> g \<in> set (probes s) \<Longrightarrow> g \<le> b"
  by (auto simp: probes_def list_all_iff)

lemma probes_less: "list_all (\<lambda>tok. fst tok < b) (bs_tokens s) \<Longrightarrow> g \<in> set (probes s) \<Longrightarrow> g < b"
  by (auto simp: probes_def list_all_iff)

lemma tokens_ok_seeded:
  assumes "tokens_ok s"
  shows "tokens_below s (seeded (bs_rec s) (bs_now s))"
  using assms
  by (auto simp: tokens_ok_def tokens_below_def seeded_def INITIAL_RECORD_def list_all_iff
      split: option.splits dest: probes_less [of _ s, unfolded list_all_iff])

text \<open>Moving to a higher generation leaves every issued token behind.\<close>

lemma tokens_below_next:
  assumes "tokens_below s r" "generation r < generation r'"
  shows "list_all (\<lambda>tok. fst tok < generation r') (bs_tokens s)" "generation r' \<notin> set (probes s)"
  using assms probes_le [of "generation r" s "generation r'"]
  by (auto simp: tokens_below_def list_all_iff)

lemma seeded_bound:
  assumes "bs_inv cfg s"
  shows "gen_bound (case bs_rec s of None \<Rightarrow> bs_now s | Some _ \<Rightarrow> bs_touched s) (bs_resets s)
    (seeded (bs_rec s) (bs_now s))"
  using assms by (auto simp: seeded_def bs_inv_def gen_bound_def INITIAL_RECORD_def split: option.splits)

lemma bs_inv_admit:
  assumes inv: "bs_inv cfg s" and cfg: "3 \<le> cooldownMs cfg" "1 \<le> probeLeaseMs cfg"
    and d: "decide (seeded (bs_rec s) (bs_now s)) (bs_now s) (cfgForLease cfg lease) = (r', a)"
  shows "bs_inv cfg (s\<lparr>bs_rec := Some r', bs_touched := bs_now s,
      bs_tokens := (if decision a = Allow then (adm_generation a, isProbe a) # bs_tokens s
                    else bs_tokens s)\<rparr>)" (is "bs_inv cfg ?s'")
proof -
  let ?r = "seeded (bs_rec s) (bs_now s)"
  have t: "bs_touched s \<le> bs_now s" "0 \<le> bs_resets s" using inv by (simp_all add: bs_inv_def)
  have lease: "1 \<le> probeLeaseMs (cfgForLease cfg lease)"
    using cfg(2) cfgForLease_simps(3) [of cfg lease] by linarith
  have b: "gen_bound (case bs_rec s of None \<Rightarrow> bs_now s | Some _ \<Rightarrow> bs_touched s) (bs_resets s) ?r"
    by (rule seeded_bound [OF inv])
  have bound: "gen_bound (bs_now s) (bs_resets s) r'"
    using b d t cfg lease
    by (cases "br_state ?r"; cases "bs_rec s")
      (auto simp: decide_def admit_probe_def Let_def gen_bound_def split: if_splits)
  have "tokens_ok ?s'" if "tokens_ok s"
  proof -
    note tb = tokens_ok_seeded [OF that]
    show ?thesis
    proof (cases "isProbe a")
      case False
      then have r': "r' = ?r" "decision a = Allow \<Longrightarrow> adm_generation a = generation ?r"
        using d by (auto simp: decide_def admit_probe_def Let_def split: breaker_state.splits if_splits)
      then show ?thesis using tb that False
        by (auto simp: tokens_ok_def tokens_below_def probes_def)
    next
      case True
      then have r': "generation r' = generation ?r + 1" "br_state r' = Half_open" "decision a = Allow"
        "adm_generation a = generation r'"
        using d by (auto simp: decide_def admit_probe_def Let_def split: breaker_state.splits if_splits)
      with tokens_below_next [OF tb, of r'] that True show ?thesis
        by (auto simp: tokens_ok_def tokens_below_def probes_def list_all_iff)
    qed
  qed
  with inv t bound show ?thesis by (simp add: bs_inv_def)
qed

lemma bs_inv_settle:
  assumes inv: "bs_inv cfg s" and g: "(g, pr) \<in> set (bs_tokens s)" "g = generation r"
    and r: "r = seeded (bs_rec s) (bs_now s)" and out: "out \<noteq> Neutral"
  shows "bs_inv cfg (s\<lparr>bs_rec := Some (applyComplete r g out (bs_now s) cfg), bs_touched := bs_now s\<rparr>)"
    (is "bs_inv cfg ?s'")
proof -
  let ?r' = "applyComplete r g out (bs_now s) cfg"
  have t: "bs_touched s \<le> bs_now s" "0 \<le> bs_resets s" using inv by (simp_all add: bs_inv_def)
  have b: "gen_bound (case bs_rec s of None \<Rightarrow> bs_now s | Some _ \<Rightarrow> bs_touched s) (bs_resets s) r"
    using seeded_bound [OF inv] by (simp add: r)
  have bound: "gen_bound (bs_now s) (bs_resets s) ?r'"
    using b t g(2) out
    by (cases "br_state r"; cases out; cases "bs_rec s")
      (auto simp: applyComplete_def opened_record_def gen_bound_def)
  have step: "generation ?r' = generation r \<and> br_state ?r' = br_state r \<and> br_state r \<noteq> Half_open
      \<or> generation r < generation ?r' \<and> br_state ?r' \<noteq> Half_open"
    using g(2) out by (cases "br_state r"; cases out) (auto simp: applyComplete_def opened_record_def)
  have "tokens_ok ?s'" if "tokens_ok s"
    using step tokens_below_next [OF tokens_ok_seeded [OF that, folded r], of ?r']
      tokens_ok_seeded [OF that, folded r] that
    by (auto simp: tokens_ok_def tokens_below_def list_all_iff)
  with inv t bound show ?thesis by (simp add: bs_inv_def)
qed

lemma bs_inv_reach:
  assumes cfg: "3 \<le> cooldownMs cfg" "1 \<le> probeLeaseMs cfg"
  shows "breaker_reach cfg s \<Longrightarrow> bs_inv cfg s"
proof (induction rule: breaker_reach.induct)
  case (start t)
  then show ?case by (simp add: bs_inv_def tokens_ok_def probes_def)
next
  case (tick s t)
  then show ?case
    by (auto simp: bs_inv_def gen_bound_def tokens_ok_def tokens_below_def probes_def list_all_iff
        split: option.splits breaker_state.splits)
next
  case (expire s)
  have "tokens_ok (s\<lparr>bs_rec := None\<rparr>)" if guard: "2 * bs_resets s + 1 < stateTtlMs cfg"
  proof (cases "bs_rec s")
    case None
    then show ?thesis using expire.IH guard by (simp add: bs_inv_def tokens_ok_def)
  next
    case (Some r)
    with expire.IH have "generation r \<le> bs_touched s + 2 * bs_resets s + 1"
      by (auto simp: bs_inv_def gen_bound_def split: breaker_state.splits)
    with expire.hyps(2) guard have "generation r < bs_now s" by linarith
    with expire.IH guard Some show ?thesis
      by (auto simp: bs_inv_def tokens_ok_def tokens_below_def probes_def list_all_iff)
  qed
  with expire.IH show ?case by (simp add: bs_inv_def)
next
  case (admit s lease r' a)
  from bs_inv_admit [OF admit.IH cfg admit.hyps(2)] show ?case .
next
  case (settle s g pr r out)
  from bs_inv_settle [OF settle.IH settle.hyps(2) settle.hyps(4) settle.hyps(3) settle.hyps(5)]
  show ?case .
next
  case (settle_stale s g pr out)
  then show ?case by simp
next
  case (renew s g pr r lease)
  then have "br_state r = Half_open" "bs_now s < probeExpiresAt r"
    by (auto simp: applyRenew_def split: if_splits)
  with renew show ?case
    by (auto simp: bs_inv_def applyRenew_def gen_bound_def tokens_ok_def tokens_below_def probes_def)
next
  case (reset s)
  let ?g = "max ((case bs_rec s of Some r \<Rightarrow> generation r | None \<Rightarrow> 0) + 1) (bs_now s)"
  let ?r' = "INITIAL_RECORD\<lparr>generation := ?g\<rparr>"
  have b: "?g \<le> bs_now s + 2 * (bs_resets s + 1)" if "bs_rec s = Some r" for r
    using reset.IH that by (auto simp: bs_inv_def gen_bound_def split: breaker_state.splits)
  have "tokens_ok (s\<lparr>bs_rec := Some ?r', bs_touched := bs_now s, bs_resets := bs_resets s + 1\<rparr>)"
    if "2 * bs_resets s + 1 < stateTtlMs cfg"
  proof (cases "bs_rec s")
    case None
    with reset.IH that have "list_all (\<lambda>tok. fst tok < bs_now s) (bs_tokens s)" "distinct (probes s)"
      by (auto simp: bs_inv_def tokens_ok_def)
    with probes_less [of "bs_now s" s ?g] None show ?thesis
      by (auto simp: tokens_ok_def tokens_below_def INITIAL_RECORD_def probes_def list_all_iff)
  next
    case (Some r)
    with reset.IH that have tb: "tokens_below s r" "distinct (probes s)"
      by (auto simp: bs_inv_def tokens_ok_def)
    with tokens_below_next [OF tb(1), of ?r'] Some show ?thesis
      by (auto simp: tokens_ok_def tokens_below_def INITIAL_RECORD_def probes_def list_all_iff)
  qed
  with reset.IH b show ?case
    by (cases "bs_rec s") (auto simp: bs_inv_def gen_bound_def INITIAL_RECORD_def)
qed

text \<open>C11 (invariant). One probe at a time: on every history of the shared record, however
  admissions, settlements, renewals, expiries and resets interleave, no two probe tokens ever
  share a generation, no issued token is ahead of the record, a record that is not half-open
  belongs to no probe, and once a record has expired every issued token is behind the clock the
  next record is seeded from. The time to live has to exceed twice the number of resets.\<close>

theorem probes_are_single:
  assumes "breaker_reach cfg s" "3 \<le> cooldownMs cfg" "1 \<le> probeLeaseMs cfg"
    "2 * bs_resets s + 1 < stateTtlMs cfg"
  shows "distinct (probes s)
    \<and> (case bs_rec s of
         None \<Rightarrow> list_all (\<lambda>tok. fst tok < bs_now s) (bs_tokens s)
       | Some r \<Rightarrow> list_all (\<lambda>tok. fst tok \<le> generation r) (bs_tokens s)
           \<and> (br_state r \<noteq> Half_open \<longrightarrow> generation r \<notin> set (probes s)))"
  using bs_inv_reach [OF assms(2,3,1)] assms(4)
  by (auto simp: bs_inv_def tokens_ok_def tokens_below_def split: option.splits)

text \<open>A breaker that trips at once, admitted, tripped, cooled down and probed.\<close>

definition demo_cfg :: breaker_config where
  "demo_cfg = DEFAULT_BREAKER_CONFIG\<lparr>threshold := 1\<rparr>"

definition demo_sys :: bsys where
  "demo_sys = \<lparr>bs_now = 31000,
     bs_rec = Some \<lparr>br_state = Half_open, failures = 0, openedAt = 1000, generation = 1002,
                    probeExpiresAt = 41000\<rparr>,
     bs_touched = 31000, bs_tokens = [(1002, True), (1000, False)], bs_resets = 0\<rparr>"

lemma demo_reach: "breaker_reach demo_cfg demo_sys"
proof -
  let ?s0 = "\<lparr>bs_now = 1000, bs_rec = None, bs_touched = 1000, bs_tokens = [], bs_resets = 0\<rparr>"
  have "breaker_reach demo_cfg ?s0" by (rule breaker_reach.start) simp
  from breaker_reach.admit [OF this, of 0] have
    "breaker_reach demo_cfg \<lparr>bs_now = 1000, bs_rec = Some \<lparr>br_state = Closed, failures = 0, openedAt = 0,
        generation = 1000, probeExpiresAt = 0\<rparr>, bs_touched = 1000, bs_tokens = [(1000, False)],
        bs_resets = 0\<rparr>" (is "breaker_reach _ ?s1")
    by (simp add: decide_def seeded_def INITIAL_RECORD_def)
  from breaker_reach.settle [OF this _ refl, where g = 1000 and pr = False and out = Trip] have
    "breaker_reach demo_cfg \<lparr>bs_now = 1000, bs_rec = Some \<lparr>br_state = Open, failures = 0, openedAt = 1000,
        generation = 1001, probeExpiresAt = 0\<rparr>, bs_touched = 1000, bs_tokens = [(1000, False)],
        bs_resets = 0\<rparr>"
    by (simp add: applyComplete_def opened_record_def seeded_def demo_cfg_def DEFAULT_BREAKER_CONFIG_def)
  from breaker_reach.tick [OF this, of 31000] have
    "breaker_reach demo_cfg \<lparr>bs_now = 31000, bs_rec = Some \<lparr>br_state = Open, failures = 0, openedAt = 1000,
        generation = 1001, probeExpiresAt = 0\<rparr>, bs_touched = 1000, bs_tokens = [(1000, False)],
        bs_resets = 0\<rparr>" by simp
  from breaker_reach.admit [OF this, of 0] show ?thesis
    by (simp add: decide_def admit_probe_def seeded_def demo_cfg_def DEFAULT_BREAKER_CONFIG_def
        cfgForLease_def demo_sys_def)
qed

lemma probes_are_single_witness:
  "distinct (probes demo_sys)
    \<and> (case bs_rec demo_sys of
         None \<Rightarrow> list_all (\<lambda>tok. fst tok < bs_now demo_sys) (bs_tokens demo_sys)
       | Some r \<Rightarrow> list_all (\<lambda>tok. fst tok \<le> generation r) (bs_tokens demo_sys)
           \<and> (br_state r \<noteq> Half_open \<longrightarrow> generation r \<notin> set (probes demo_sys)))"
  by (rule probes_are_single [OF demo_reach])
    (simp_all add: demo_cfg_def demo_sys_def DEFAULT_BREAKER_CONFIG_def)

text \<open>When the live probe settles as a success or a trip, every token issued before,
  the probe's own included, is stale: no slow call admitted in an older state can move the
  record again.\<close>

theorem settled_probe_outdates_tokens:
  assumes "breaker_reach cfg s" "3 \<le> cooldownMs cfg" "1 \<le> probeLeaseMs cfg"
    "2 * bs_resets s + 1 < stateTtlMs cfg"
    "bs_rec s = Some r" "br_state r = Half_open" "out \<noteq> Neutral"
  shows "let r' = applyComplete r (generation r) out (bs_now s) cfg in
     br_state r' = (if out = Success then Closed else Open)
     \<and> list_all (\<lambda>tok. applyComplete r' (fst tok) out' now' cfg = r') (bs_tokens s)"
proof -
  let ?r' = "applyComplete r (generation r) out (bs_now s) cfg"
  have "tokens_below s r"
    using bs_inv_reach [OF assms(2,3,1)] assms(4,5) by (simp add: bs_inv_def tokens_ok_def)
  moreover have "generation r < generation ?r'" "br_state ?r' = (if out = Success then Closed else Open)"
    using assms(6,7) by (simp_all add: applyComplete_def opened_record_def)
  ultimately show ?thesis
    using tokens_below_next(1) [of s r ?r'] by (auto simp: Let_def list_all_iff applyComplete_def [of ?r'])
qed

lemma settled_probe_outdates_tokens_witness:
  "let r = the (bs_rec demo_sys); r' = applyComplete r (generation r) Success 31000 demo_cfg in
     br_state r' = (if Success = Success then Closed else Open)
     \<and> list_all (\<lambda>tok. applyComplete r' (fst tok) Trip 31500 demo_cfg = r') (bs_tokens demo_sys)"
  using settled_probe_outdates_tokens [OF demo_reach, of "the (bs_rec demo_sys)" Success Trip 31500]
  by (simp add: demo_sys_def demo_cfg_def DEFAULT_BREAKER_CONFIG_def)

section \<open>Opening\<close>

text \<open>Trips of one generation, at the given times.\<close>

definition trips :: "breaker_record \<Rightarrow> int list \<Rightarrow> breaker_config \<Rightarrow> breaker_record" where
  "trips r ts cfg = foldl (\<lambda>r' t. applyComplete r' (generation r) Trip t cfg) r ts"

lemma trips_open:
  "br_state r = Open \<Longrightarrow> foldl (\<lambda>r' t. applyComplete r' g Trip t cfg) r ts = r"
  by (induction ts) (auto simp: applyComplete_def)

text \<open>The breaker opens at the threshold and not before: a closed record takes
  trips of its own generation until its failures reach the threshold, opens at the time of the
  trip that reached it, under the next generation, and further trips change nothing.\<close>

theorem opens_at_threshold:
  assumes "br_state r = Closed" "0 \<le> failures r" "failures r < threshold cfg"
  shows "trips r ts cfg =
     (let k = nat (threshold cfg - failures r) in
      if length ts < k then r\<lparr>failures := failures r + int (length ts)\<rparr>
      else opened_record r (ts ! (k - 1)))"
  using assms(1,3)
  unfolding trips_def Let_def
proof (induction ts arbitrary: r)
  case Nil
  then show ?case by simp
next
  case (Cons t ts)
  show ?case
  proof (cases "failures r + 1 \<ge> threshold cfg")
    case True
    with Cons.prems have "threshold cfg - failures r = 1" by simp
    moreover have "applyComplete r (generation r) Trip t cfg = opened_record r t"
      using True Cons.prems(1) by (simp add: applyComplete_def)
    moreover have "br_state (opened_record r t) = Open" by (simp add: opened_record_def)
    ultimately show ?thesis by (simp add: trips_open)
  next
    case False
    let ?r1 = "r\<lparr>failures := failures r + 1\<rparr>"
    from False have k: "nat (threshold cfg - failures r) = Suc (nat (threshold cfg - failures ?r1))" by simp
    have "0 < nat (threshold cfg - failures ?r1)" using False by simp
    then have nth: "(t # ts) ! (nat (threshold cfg - failures r) - 1)
        = ts ! (nat (threshold cfg - failures ?r1) - 1)" by (simp add: k)
    from Cons.IH [of ?r1] Cons.prems False
    have "foldl (\<lambda>r' t. applyComplete r' (generation r) Trip t cfg) ?r1 ts =
      (if length ts < nat (threshold cfg - failures ?r1) then ?r1\<lparr>failures := failures ?r1 + int (length ts)\<rparr>
       else opened_record ?r1 (ts ! (nat (threshold cfg - failures ?r1) - 1)))" by simp
    moreover have "applyComplete r (generation r) Trip t cfg = ?r1"
      using Cons.prems(1) False by (simp add: applyComplete_def)
    then have "foldl (\<lambda>r' t. applyComplete r' (generation r) Trip t cfg) r (t # ts)
      = foldl (\<lambda>r' t. applyComplete r' (generation r) Trip t cfg) ?r1 ts" by simp
    ultimately show ?thesis
      unfolding nth using k by (simp add: opened_record_def)
  qed
qed

lemma opens_at_threshold_witness:
  "trips INITIAL_RECORD [10, 20, 30, 40, 50, 60] DEFAULT_BREAKER_CONFIG
     = \<lparr>br_state = Open, failures = 0, openedAt = 50, generation = 1, probeExpiresAt = 0\<rparr>"
  using opens_at_threshold [of INITIAL_RECORD DEFAULT_BREAKER_CONFIG "[10, 20, 30, 40, 50, 60]"]
  by (simp add: INITIAL_RECORD_def DEFAULT_BREAKER_CONFIG_def opened_record_def Let_def)

section \<open>The record outlives the probe's lease\<close>

text \<open>A half-open key expires after the lease it records, and no lease reaches further than one
  granted now.\<close>

definition lease_inside :: "int \<Rightarrow> string \<Rightarrow> redis \<Rightarrow> bool" where
  "lease_inside lease p s =
     (case db s (redis_key p) of
        None \<Rightarrow> True
      | Some (h, e) \<Rightarrow> h_state h = Some Half_open \<longrightarrow>
          the (h_probeExpiresAt h) < e \<and> the (h_probeExpiresAt h) \<le> now_from_server s + lease)"

definition at_clock :: "int \<Rightarrow> int \<Rightarrow> redis \<Rightarrow> redis" where
  "at_clock sec us s = s\<lparr>clock_s := sec, clock_us := us\<rparr>"

lemma db_write: "db (write_hash k f ttl s) = (db s)(k \<mapsto> (f (hash_at s k), now_from_server s + ttl))"
  by (simp add: write_hash_def)

lemma lease_inside_write:
  "lease_inside lease p (write_hash (redis_key p) f ttl s) =
     (h_state (f (hash_at s (redis_key p))) = Some Half_open \<longrightarrow>
        the (h_probeExpiresAt (f (hash_at s (redis_key p)))) < now_from_server s + ttl
        \<and> the (h_probeExpiresAt (f (hash_at s (redis_key p)))) \<le> now_from_server s + lease)"
  by (simp add: lease_inside_def db_write)

lemma lease_at:
  assumes "lease_inside lease p s" "h_state (hash_at s (redis_key p)) = Some Half_open"
  shows "the (h_probeExpiresAt (hash_at s (redis_key p))) \<le> now_from_server s + lease"
  using assms by (auto simp: lease_inside_def hash_at_def empty_hash_def split: option.splits if_splits)

text \<open>The record outlives the probe's lease: when a provider's calls are admitted
  and renewed under one granted lease, no script and no advance of the clock ever leaves a
  half-open key that expires before its lease does; so until the lease ends, every other caller
  is skipped.\<close>

theorem record_outlives_lease:
  assumes "lease_inside lease p s" "wf_redis s"
    "probeLeaseMs cfg \<le> lease" "0 \<le> probeLeaseMs cfg" "probeLeaseMs cfg < stateTtlMs cfg"
  shows "lease_inside lease p (snd (redis_decide p (cfgForLease cfg lease) s))
    \<and> lease_inside lease p (snd (redis_complete p g out cfg s))
    \<and> lease_inside lease p (redis_renew p g (cfgForLease cfg lease) s)
    \<and> lease_inside lease p (redis_reset p s)
    \<and> (now_from_server s \<le> now_from_server (at_clock sec us s) \<longrightarrow>
         lease_inside lease p (at_clock sec us s))
    \<and> (case db s (redis_key p) of
         Some (h, e) \<Rightarrow> h_state h = Some Half_open \<longrightarrow> now_from_server s < the (h_probeExpiresAt h) \<longrightarrow>
           decision (fst (redis_decide p c2 s)) = Skip
       | None \<Rightarrow> True)"
proof -
  let ?c = "cfgForLease cfg lease" and ?h = "hash_at s (redis_key p)" and ?t = "now_from_server s"
  have c: "probeLeaseMs ?c = lease" "lease < stateTtlMs ?c" "0 \<le> lease"
    using assms(3-5) by (auto simp: cfgForLease_def PROBE_RECORD_TTL_HEADROOM_MS_def)
  have pe: "the (h_probeExpiresAt ?h) \<le> ?t + lease" if "h_state ?h = Some Half_open"
    by (rule lease_at [OF assms(1) that])
  have full: "h_state ?h = Some st \<Longrightarrow> h_probeExpiresAt ?h \<noteq> None" for st
    using live_hash_full [OF assms(2), of p]
    by (auto simp: hash_at_live or_else_def full_hash_def empty_hash_def split: option.splits)
  have 1: "lease_inside lease p (snd (redis_decide p ?c s))"
    using c pe full
    by (auto simp: redis_decide_def Let_def lease_inside_write or_else_def split: prod.split option.splits)
  have 2: "lease_inside lease p (snd (redis_complete p g out cfg s))"
    using assms(1)
    by (auto simp: redis_complete_def Let_def lease_inside_write split: prod.split)
  have 3: "lease_inside lease p (redis_renew p g ?c s)"
    using assms(1) c pe full
    by (auto simp: redis_renew_def Let_def lease_inside_write or_else_def split: option.splits)
  have 4: "lease_inside lease p (redis_reset p s)"
    by (simp add: redis_reset_def Let_def lease_inside_write)
  have 5: "?t \<le> now_from_server (at_clock sec us s) \<Longrightarrow> lease_inside lease p (at_clock sec us s)"
    using assms(1) by (auto simp: lease_inside_def at_clock_def split: option.splits)
  have 6: "decision (fst (redis_decide p c2 s)) = Skip"
    if k: "db s (redis_key p) = Some (h, e)" "h_state h = Some Half_open" "?t < the (h_probeExpiresAt h)" for h e
  proof -
    from assms(1) k have "?t < e" by (auto simp: lease_inside_def)
    with k(1) have "?h = h" by (simp add: hash_at_def)
    moreover from this full k(2) have "h_probeExpiresAt h \<noteq> None" by auto
    ultimately show ?thesis using k(2,3) by (auto simp: redis_decide_def Let_def or_else_def)
  qed
  from 1 2 3 4 5 6 show ?thesis by (auto split: option.split)
qed

text \<open>A probe with a two-minute lease, and another caller of the same provider.\<close>

definition demo_probe :: redis where
  "demo_probe = \<lparr>db = [redis_key ''p'' \<mapsto> (\<lparr>h_state = Some Half_open, h_failures = Some 0,
       h_openedAt = Some 0, h_generation = Some 7, h_probeExpiresAt = Some 720000, h_lastSeq = None\<rparr>, 900000)],
     clock_s = 600, clock_us = 0\<rparr>"

lemma demo_probe_ok: "lease_inside 120000 ''p'' demo_probe" "wf_redis demo_probe"
  by (auto simp: demo_probe_def lease_inside_def wf_redis_def full_hash_def now_from_server_def
      split: if_splits)

lemma record_outlives_lease_witness:
  "lease_inside 120000 ''p'' (snd (redis_decide ''p'' (cfgForLease DEFAULT_BREAKER_CONFIG 120000) demo_probe))
   \<and> decision (fst (redis_decide ''p'' DEFAULT_BREAKER_CONFIG demo_probe)) = Skip"
  using record_outlives_lease [OF demo_probe_ok, of DEFAULT_BREAKER_CONFIG 0 Neutral 0 0 DEFAULT_BREAKER_CONFIG]
  by (simp add: DEFAULT_BREAKER_CONFIG_def demo_probe_def now_from_server_def)

lemma redis_refines_memory_witness:
  "map_prod id mem_of (redis_decide ''p'' DEFAULT_BREAKER_CONFIG demo_probe)
     = mem_decide ''p'' 600000 DEFAULT_BREAKER_CONFIG (mem_of demo_probe)
   \<and> mem_of (redis_reset ''p'' demo_probe) = mem_reset ''p'' 600000 (mem_of demo_probe)"
  using redis_refines_memory [OF demo_probe_ok(2), of DEFAULT_BREAKER_CONFIG "''p''"]
  by (simp add: DEFAULT_BREAKER_CONFIG_def demo_probe_def now_from_server_def)

text \<open>Without one lease for all callers the record can vanish under a live probe: a caller with
  the default lease is skipped, but its admission shortens the key's time to live, and once that
  has passed the next caller reads no record and is let through as in the closed state, although
  the probe's lease (here an hour) is still running.\<close>

definition hour_probe :: redis where
  "hour_probe = demo_probe\<lparr>db := [redis_key ''p'' \<mapsto> (\<lparr>h_state = Some Half_open, h_failures = Some 0,
       h_openedAt = Some 0, h_generation = Some 7, h_probeExpiresAt = Some 4200000, h_lastSeq = None\<rparr>, 4260000)]\<rparr>"

lemma narrow_caller_evicts_probe:
  "fst (redis_decide ''p'' DEFAULT_BREAKER_CONFIG hour_probe)
     = \<lparr>decision = Skip, adm_generation = 7, isProbe = False\<rparr>"
  "fst (redis_decide ''p'' DEFAULT_BREAKER_CONFIG
      (at_clock 900 0 (snd (redis_decide ''p'' DEFAULT_BREAKER_CONFIG hour_probe))))
     = \<lparr>decision = Allow, adm_generation = 900000, isProbe = False\<rparr>"
  by (simp_all add: hour_probe_def demo_probe_def redis_decide_def Let_def hash_at_def now_from_server_def
      or_else_def write_hash_def at_clock_def empty_hash_def DEFAULT_BREAKER_CONFIG_def)

section \<open>Settlement\<close>

text \<open>Alerts are raised for the shared incident only: a completion reports
  \<open>justOpened\<close> only when it settled on the primary store and that store's own completion opened
  the record; a token admitted by the fallback settles there and leaves the primary store alone,
  and a primary token leaves the fallback alone.\<close>

theorem just_opened_primary_only:
  "(case complete primary cfg tok out st of (res, st') \<Rightarrow>
      (justOpened res \<longrightarrow> t_isPrimary tok \<and> source res = FromPrimary
        \<and> (\<exists>c p'. op_complete primary (t_providerId tok) (t_generation tok) out (cb_now st) cfg (cb_primary st)
              = (Inr c, p') \<and> justOpened c))
      \<and> (if t_isPrimary tok then cb_fallback st' = cb_fallback st else cb_primary st' = cb_primary st)
      \<and> (source res = FromFault \<longrightarrow> \<not> applied res \<and> seq res = 0))"
  by (auto simp: complete_def settlement_of_def split: prod.splits sum.splits)

text \<open>The settle events of a log.\<close>

definition settles :: "hook_event list \<Rightarrow> nat" where
  "settles es = length (filter (\<lambda>e. case e of OnSettle _ _ _ _ _ \<Rightarrow> True | _ \<Rightarrow> False) es)"

lemma settles_emit:
  "settles (events (emit b e w)) = settles (events w) +
     (if b then (case e of OnSettle _ _ _ _ _ \<Rightarrow> 1 | _ \<Rightarrow> 0) else 0)"
  by (simp add: emit_def settles_def split: hook_event.split)

lemma events_with_cb [simp]: "events (with_cb st w) = events w"
  by (simp add: with_cb_def)

lemma settles_completeAndNotify:
  "settles (events (completeAndNotify primary cfg hk tok out kind w)) \<le> settles (events w) + 1"
  "settles (events w) \<le> settles (events (completeAndNotify primary cfg hk tok out kind w))"
  by (auto simp: completeAndNotify_def Let_def settles_emit split: prod.split)

text \<open>The worlds one attempt passes through: steps of the rest of the process, drawn from \<open>E\<close>, lease
  renewals, and completions of the attempt's own token. The index counts the completions.\<close>

inductive attempt_path ::
  "'p store_ops \<Rightarrow> breaker_config \<Rightarrow> hooks \<Rightarrow> token
     \<Rightarrow> (('p, 'x) world_scheme \<Rightarrow> ('p, 'x) world_scheme) set
     \<Rightarrow> nat \<Rightarrow> ('p, 'x) world_scheme \<Rightarrow> ('p, 'x) world_scheme \<Rightarrow> bool"
  for primary cfg hk tok E where
  path_start: "attempt_path primary cfg hk tok E 0 w w"
| path_other: "attempt_path primary cfg hk tok E n w v \<Longrightarrow> env \<in> E \<Longrightarrow> attempt_path primary cfg hk tok E n w (env v)"
| path_renew: "attempt_path primary cfg hk tok E n w v
    \<Longrightarrow> attempt_path primary cfg hk tok E n w
          (with_cb (snd (renewOnActivity primary cfg tok settled t (cb_of v))) v)"
| path_settle: "attempt_path primary cfg hk tok E n w v
    \<Longrightarrow> attempt_path primary cfg hk tok E (Suc n) w (completeAndNotify primary cfg hk tok out kind v)"

text \<open>A store whose completions never throw.\<close>

definition answers_completions :: "'p store_ops \<Rightarrow> bool" where
  "answers_completions primary = (\<forall>pid g out t cfg p. \<not> isl (fst (op_complete primary pid g out t cfg p)))"

lemma settles_completeAndNotify_eq:
  assumes "answers_completions primary" "has_onSettle hk" "t_isPrimary tok"
  shows "settles (events (completeAndNotify primary cfg hk tok out kind w)) = settles (events w) + 1"
proof -
  let ?r = "op_complete primary (t_providerId tok) (t_generation tok) out (cb_now (cb_of w)) cfg
    (cb_primary (cb_of w))"
  have "\<not> isl (fst ?r)" using assms(1) unfolding answers_completions_def by blast
  then obtain c p' where "?r = (Inr c, p')" by (cases ?r; cases "fst ?r") auto
  with assms(2,3) show ?thesis
    by (simp add: completeAndNotify_def complete_def settles_emit settlement_of_def)
qed

lemma path_settles:
  assumes "attempt_path primary cfg hk tok E n w w'"
    and "\<And>env v. env \<in> E \<Longrightarrow> events (env v) = events v"
  shows "settles (events w') \<le> settles (events w) + n
    \<and> (answers_completions primary \<and> has_onSettle hk \<and> t_isPrimary tok
        \<longrightarrow> settles (events w') = settles (events w) + n)"
  using assms
proof (induction rule: attempt_path.induct)
  case (path_settle n w v out kind)
  with settles_completeAndNotify(1) [of primary cfg hk tok out kind v]
    settles_completeAndNotify_eq [of primary hk tok cfg out kind v]
  show ?case by force
qed simp_all

text \<open>Where a run stands: one completion behind it when it is settled, none before.\<close>

definition settled_path ::
  "'p store_ops \<Rightarrow> breaker_config \<Rightarrow> hooks \<Rightarrow> token
     \<Rightarrow> (('p, 'x) world_scheme \<Rightarrow> ('p, 'x) world_scheme) set \<Rightarrow> ('p, 'x) world_scheme
     \<Rightarrow> loop_state \<times> ('p, 'x) world_scheme \<Rightarrow> bool" where
  "settled_path primary cfg hk tok E w lw =
     attempt_path primary cfg hk tok E (if ls_settled (fst lw) then 1 else 0) w (snd lw)"

lemma settle_once_path:
  assumes "settled_path primary cfg hk tok E w lw"
  shows "settled_path primary cfg hk tok E w (settle_once primary cfg hk tok out kind lw)"
    "ls_settled (fst (settle_once primary cfg hk tok out kind lw))"
proof -
  have "attempt_path primary cfg hk tok E (Suc 0) w (completeAndNotify primary cfg hk tok out kind (snd lw))"
    if "attempt_path primary cfg hk tok E 0 w (snd lw)"
    using that by (rule path_settle)
  with assms show "settled_path primary cfg hk tok E w (settle_once primary cfg hk tok out kind lw)"
    by (cases "ls_settled (fst lw)") (simp_all add: settle_once_def settled_path_def)
  show "ls_settled (fst (settle_once primary cfg hk tok out kind lw))"
    by (simp add: settle_once_def)
qed

lemma settled_path_upd [simp]:
  "settled_path primary cfg hk tok E w (ls\<lparr>ls_terminal := b\<rparr>, v) = settled_path primary cfg hk tok E w (ls, v)"
  "settled_path primary cfg hk tok E w (ls\<lparr>ls_error := b\<rparr>, v) = settled_path primary cfg hk tok E w (ls, v)"
  by (simp_all add: settled_path_def)

lemma on_event_path:
  assumes "settled_path primary cfg hk tok E w (ls, v)"
  shows "settled_path primary cfg hk tok E w (on_event primary cfg hk tok ev (ls, v))"
proof -
  define lw1 where "lw1 = (case ev of
      MessageDelta (Some sr) raw sq us \<Rightarrow> (fst (ls, v)\<lparr>ls_terminal := True\<rparr>, snd (ls, v))
    | StreamError ty m diag \<Rightarrow>
        settle_once primary cfg hk tok (outcomeForKind (event_kind ty diag))
          (Some (event_kind ty diag)) (fst (ls, v)\<lparr>ls_error := True\<rparr>, snd (ls, v))
    | _ \<Rightarrow> (ls, v))"
  have "settled_path primary cfg hk tok E w lw1"
    using assms unfolding lw1_def
    by (cases ev) (simp_all add: settle_once_path(1) split: option.split)
  then have "attempt_path primary cfg hk tok E (if ls_settled (fst lw1) then 1 else 0) w
      (with_cb (snd (renewOnActivity primary cfg tok (ls_settled (fst lw1)) (ls_lastRenew (fst lw1))
        (cb_of (snd lw1)))) (snd lw1))"
    unfolding settled_path_def by (rule path_renew)
  then show ?thesis
    unfolding on_event_def lw1_def [symmetric] Let_def settled_path_def
    by (simp add: split_beta)
qed

lemma on_end_path:
  "settled_path primary cfg hk tok E w lw \<Longrightarrow> settled_path primary cfg hk tok E w (on_end primary cfg hk tok fin ab lw)"
  by (auto simp: on_end_def Let_def settle_once_path(1) split: gen_end.split option.split)

lemma settled_path_env:
  "settled_path primary cfg hk tok E w (ls, v) \<Longrightarrow> env \<in> E \<Longrightarrow> settled_path primary cfg hk tok E w (ls, env v)"
  by (simp add: settled_path_def path_other)

lemma stream_loop_path:
  assumes "stream_loop primary cfg hk tok ab evs fin leave (ls, v) = (out, e, lw')"
    and "settled_path primary cfg hk tok E w (ls, v)"
    and "insert (snd fin) (snd ` set evs) \<subseteq> E"
  shows "ls_settled (fst lw') \<and> settled_path primary cfg hk tok E w lw'"
  using assms
proof (induction evs arbitrary: ls v leave out)
  case Nil
  obtain f env where fin: "fin = (f, env)" by (cases fin)
  from Nil.prems(2,3) have "settled_path primary cfg hk tok E w (ls, env v)"
    by (simp add: settled_path_env fin)
  from settle_once_path [OF on_end_path [OF this]] Nil.prems(1) show ?case
    by (auto simp: fin)
next
  case (Cons x evs)
  obtain ev env where x: "x = (ev, env)" by (cases x)
  from Cons.prems(2,3) have "settled_path primary cfg hk tok E w (ls, env v)"
    by (simp add: settled_path_env x)
  from on_event_path [OF this] have step:
    "settled_path primary cfg hk tok E w (on_event primary cfg hk tok ev (ls, env v))" .
  show ?case
  proof (cases "leave = Some 0")
    case True
    with Cons.prems(1) have "lw' = settle_once primary cfg hk tok Neutral None
        (on_event primary cfg hk tok ev (ls, env v))"
      by (simp add: x Let_def)
    with settle_once_path [OF step, of Neutral None] show ?thesis by simp
  next
    case False
    obtain ls1 v1 where lw: "on_event primary cfg hk tok ev (ls, env v) = (ls1, v1)" by fastforce
    obtain out1 where "stream_loop primary cfg hk tok ab evs fin (map_option (\<lambda>n. n - 1) leave) (ls1, v1)
        = (out1, e, lw')"
      using Cons.prems(1) False by (auto simp: x Let_def lw split: prod.splits)
    with Cons.IH step Cons.prems(3) show ?thesis by (simp add: lw)
  qed
qed

text \<open>C29 (safety). A streamed attempt settles exactly once: however upstream's events, errors, the
  end of the stream, a throw or the consumer's leaving fall together and whatever the rest of the
  process does in between, the run ends settled and its token was completed exactly once on the way,
  neither not at all nor twice. While the rest of the process leaves the log alone, the log holds at
  most one settle event more than before, and exactly one more when the token is a primary one, its
  store answers and the settle hook is installed.\<close>

theorem stream_settles_once:
  assumes "stream_loop primary cfg hk tok ab evs fin leave (ls, w) = (out, e, ls', w')"
    and "\<not> ls_settled ls"
  shows "ls_settled ls'
    \<and> attempt_path primary cfg hk tok (insert (snd fin) (snd ` set evs)) 1 w w'
    \<and> ((\<forall>env \<in> insert (snd fin) (snd ` set evs). \<forall>v. events (env v) = events v)
        \<longrightarrow> settles (events w') \<le> settles (events w) + 1
          \<and> (answers_completions primary \<and> has_onSettle hk \<and> t_isPrimary tok
              \<longrightarrow> settles (events w') = settles (events w) + 1))"
proof -
  let ?E = "insert (snd fin) (snd ` set evs)"
  have "settled_path primary cfg hk tok ?E w (ls, w)"
    using assms(2) by (simp add: settled_path_def path_start)
  from stream_loop_path [OF assms(1) this subset_refl]
  have s: "ls_settled ls'" and p: "attempt_path primary cfg hk tok ?E 1 w w'"
    by (auto simp: settled_path_def)
  from path_settles [OF p] s p show ?thesis by blast
qed

text \<open>A stream that starts and is then cut off before its terminal stop, on the Redis store.\<close>

definition demo_world :: "redis world" where
  "demo_world = \<lparr>cb_primary = \<lparr>db = Map.empty, clock_s = 600, clock_us = 0\<rparr>, cb_fallback = empty_mem,
     cb_now = 600000, cb_errors = [], events = []\<rparr>"

definition demo_token :: token where
  "demo_token = \<lparr>t_providerId = ''p'', t_generation = 600000, t_isProbe = False, t_isPrimary = True,
     t_leaseMs = 10000\<rparr>"

definition demo_hooks :: hooks where
  "demo_hooks = \<lparr>has_onOpen = True, has_onState = True, has_onSettle = True\<rparr>"

definition demo_ls :: loop_state where
  "demo_ls = \<lparr>ls_settled = False, ls_terminal = False, ls_error = False, ls_lastRenew = 600000\<rparr>"

lemma stream_settles_once_witness:
  "case stream_loop redis_ops demo_cfg demo_hooks demo_token None [(TextDelta 0 ''hi'', id)] (GenDone, id) None
      (demo_ls, demo_world) of
     (out, e, ls', w') \<Rightarrow> e = StreamDone
       \<and> events w' = [OnOpen ''p'' 600001 600000, OnSettle Trip (Some unavailable) True True 600000000]
       \<and> ls_settled ls' \<and> settles (events w') = settles (events demo_world) + 1
       \<and> attempt_path redis_ops demo_cfg demo_hooks demo_token {id} 1 demo_world w'"
proof -
  obtain out e ls' w' where r: "stream_loop redis_ops demo_cfg demo_hooks demo_token None
      [(TextDelta 0 ''hi'', id)] (GenDone, id) None (demo_ls, demo_world) = (out, e, ls', w')"
    by (cases "stream_loop redis_ops demo_cfg demo_hooks demo_token None
      [(TextDelta 0 ''hi'', id)] (GenDone, id) None (demo_ls, demo_world)")
  have "answers_completions redis_ops"
    by (simp add: answers_completions_def redis_ops_def split_beta)
  moreover have "\<not> ls_settled demo_ls" "has_onSettle demo_hooks" "t_isPrimary demo_token"
    by (simp_all add: demo_ls_def demo_hooks_def demo_token_def)
  ultimately have "ls_settled ls' \<and> settles (events w') = settles (events demo_world) + 1
      \<and> attempt_path redis_ops demo_cfg demo_hooks demo_token {id} 1 demo_world w'"
    using stream_settles_once [OF r] by simp
  moreover have "e = StreamDone
      \<and> events w' = [OnOpen ''p'' 600001 600000, OnSettle Trip (Some unavailable) True True 600000000]"
    using r by (auto simp: demo_ls_def demo_world_def demo_token_def demo_hooks_def on_event_def on_end_def
        Let_def renewOnActivity_def settle_once_def completeAndNotify_def complete_def redis_ops_def
        redis_complete_def hash_at_def now_from_server_def or_else_def empty_hash_def demo_cfg_def
        DEFAULT_BREAKER_CONFIG_def settlement_of_def emit_def with_cb_def cb_of_def write_hash_def)
  ultimately show ?thesis unfolding r by simp
qed

lemma just_opened_primary_only_witness:
  "justOpened (fst (complete redis_ops demo_cfg demo_token Trip (cb_of demo_world)))
   \<and> t_isPrimary demo_token
   \<and> source (fst (complete redis_ops demo_cfg demo_token Trip (cb_of demo_world))) = FromPrimary
   \<and> cb_fallback (snd (complete redis_ops demo_cfg demo_token Trip (cb_of demo_world))) = empty_mem"
proof -
  obtain res st' where r: "complete redis_ops demo_cfg demo_token Trip (cb_of demo_world) = (res, st')"
    by fastforce
  then have "justOpened res"
    by (auto simp: demo_world_def demo_token_def complete_def redis_ops_def redis_complete_def hash_at_def
        now_from_server_def or_else_def empty_hash_def demo_cfg_def DEFAULT_BREAKER_CONFIG_def
        settlement_of_def cb_of_def)
  with just_opened_primary_only [where primary = redis_ops and cfg = demo_cfg and tok = demo_token
      and out = Trip and st = "cb_of demo_world"]
  show ?thesis unfolding r by (auto simp: cb_of_def demo_world_def demo_token_def)
qed

end
