(* ===== verification/JsonText.thy ===== *)
theory JsonText
  imports Json
begin

text \<open>
  \<open>JSON.stringify\<close>, the inverse side of theory Json: a value is printed without spaces, its
  properties in order, and reading the text back gives the value, in front of any rest that does
  not continue a number. Numbers are printed as exact decimals, which is the text of a double
  read from a literal of at most fifteen digits; the exponent notation of very large and very
  small numbers is not modelled.
\<close>

section \<open>Numbers\<close>

definition is_whole :: "rat \<Rightarrow> bool" where
  "is_whole q = (snd (quotient_of q) = 1)"

text \<open>The least number of decimals that renders \<open>q\<close> exactly, up to twenty.\<close>

definition decimals :: "rat \<Rightarrow> nat option" where
  "decimals q = find (\<lambda>k. is_whole (q * 10 ^ k)) [0..<20]"

definition pad_zeros :: "nat \<Rightarrow> string \<Rightarrow> string" where
  "pad_zeros k s = replicate (k - length s) CHR ''0'' @ s"

definition abs_text :: "nat \<Rightarrow> nat \<Rightarrow> string" where
  "abs_text k n =
     (if k = 0 then show_nat n
      else show_nat (n div 10 ^ k) @ CHR ''.'' # pad_zeros k (show_nat (n mod 10 ^ k)))"

definition json_number :: "rat \<Rightarrow> string" where
  "json_number q =
     (let k = (case decimals q of Some k \<Rightarrow> k | None \<Rightarrow> 20); n = nat \<lfloor>\<bar>q\<bar> * 10 ^ k\<rfloor>
      in (if q < 0 then CHR ''-'' # abs_text k n else abs_text k n))"

section \<open>Strings and values\<close>

definition hex_digit :: "nat \<Rightarrow> char" where
  "hex_digit n = char_of (if n < 10 then 48 + n else 87 + n)"

definition escape_char :: "char \<Rightarrow> string" where
  "escape_char c =
     (if c = CHR 0x22 then [CHR 0x5C, CHR 0x22]
      else if c = CHR 0x5C then [CHR 0x5C, CHR 0x5C]
      else if c = CHR 0x08 then [CHR 0x5C, CHR ''b'']
      else if c = CHR 0x0C then [CHR 0x5C, CHR ''f'']
      else if c = CHR 0x0A then [CHR 0x5C, CHR ''n'']
      else if c = CHR 0x0D then [CHR 0x5C, CHR ''r'']
      else if c = CHR 0x09 then [CHR 0x5C, CHR ''t'']
      else if char_range CHR 0x00 CHR 0x1F c
      then CHR 0x5C # ''u00'' @ [hex_digit (of_char c div 16), hex_digit (of_char c mod 16)]
      else [c])"

definition json_string :: "string \<Rightarrow> string" where
  "json_string s = CHR 0x22 # concat (map escape_char s) @ [CHR 0x22]"

primrec json_text :: "json \<Rightarrow> string" where
  "json_text JNull = ''null''"
| "json_text (JBool b) = (if b then ''true'' else ''false'')"
| "json_text (JNum q) = json_number q"
| "json_text (JStr s) = json_string s"
| "json_text (JArr vs) = CHR ''['' # js_join '','' (map json_text vs) @ '']''"
| "json_text (JObj kvs) =
     CHR 0x7B # js_join '','' (map (\<lambda>(k, t). json_string k @ CHR '':'' # t) (map (map_prod id json_text) kvs))
       @ [CHR 0x7D]"

lemma json_text_demo:
  "json_text (JObj [(''a'', JArr [JNum (- 3 / 20), JNull]), (''b'', JStr [CHR 0x0A, CHR 0x01])])
     = quoted ''{~a~:[-0.15,null],~b~:~^n^u0001~}''"
  by code_simp

section \<open>Reading digits back\<close>

lemma of_char_digit: "d < 10 \<Longrightarrow> of_char (digit_char d) = 48 + d"
  by (simp add: digit_char_def)

lemma is_digit_digit_char [simp]: "d < 10 \<Longrightarrow> is_digit (digit_char d)"
  by (simp add: is_digit_def char_range_def of_char_digit)

lemma show_nat_digits: "list_all is_digit (show_nat n)"
  by (induction n rule: show_nat.induct) (subst show_nat.simps, simp)

lemma foldl_digits:
  "foldl (\<lambda>n c. 10 * n + (of_char c - 48)) a s = a * 10 ^ length s + nat_of_digits s"
proof (induction s rule: rev_induct)
  case (snoc c s)
  then show ?case by (simp add: algebra_simps)
qed simp

lemma nat_of_digits_append: "nat_of_digits (s @ t) = nat_of_digits s * 10 ^ length t + nat_of_digits t"
  using foldl_digits [of "nat_of_digits s" t] by simp

declare nat_of_digits.simps [simp del]

lemma nat_of_digits_single [simp]: "d < 10 \<Longrightarrow> nat_of_digits [digit_char d] = d"
  by (simp add: nat_of_digits.simps of_char_digit)

lemma nat_of_digits_show [simp]: "nat_of_digits (show_nat n) = n"
proof (induction n rule: show_nat.induct)
  case (1 n)
  then show ?case
    by (subst show_nat.simps) (auto simp: nat_of_digits_append)
qed

lemma nat_of_digits_zeros: "nat_of_digits (replicate k CHR ''0'' @ s) = nat_of_digits s"
  by (induction k) (simp_all add: nat_of_digits.simps)

lemma digits_split:
  assumes "list_all is_digit s" "case r of [] \<Rightarrow> True | c # _ \<Rightarrow> \<not> is_digit c"
  shows "takeWhile is_digit (s @ r) = s" "dropWhile is_digit (s @ r) = r"
proof -
  have "takeWhile is_digit r = []" "dropWhile is_digit r = r" using assms(2) by (cases r; simp)+
  with assms(1) show "takeWhile is_digit (s @ r) = s" "dropWhile is_digit (s @ r) = r"
    by (simp_all add: list_all_iff)
qed

lemma digit_char_0: "d < 10 \<Longrightarrow> digit_char d = CHR ''0'' \<longleftrightarrow> d = 0"
proof -
  assume d: "d < 10"
  have "digit_char d = CHR ''0'' \<longleftrightarrow> (of_char (digit_char d) :: nat) = of_char CHR ''0''"
    by (simp only: of_char_eq_iff)
  with d show ?thesis by (simp add: of_char_digit)
qed

lemma hd_show_nat: "n \<noteq> 0 \<Longrightarrow> hd (show_nat n) \<noteq> CHR ''0''"
proof (induction n rule: show_nat.induct)
  case (1 n)
  then show ?case by (subst show_nat.simps) (auto simp: digit_char_0)
qed

lemma parse_int_part_show:
  assumes "case r of [] \<Rightarrow> True | c # _ \<Rightarrow> \<not> is_digit c"
  shows "parse_int_part (show_nat n @ r) = Some (n, r)"
proof (cases "n = 0")
  case True
  then have "show_nat n = ''0''" by (subst show_nat.simps) (simp add: digit_char_0)
  with True show ?thesis by (simp add: parse_int_part_def)
next
  case False
  obtain c s where s: "show_nat n = c # s" by (cases "show_nat n") auto
  with False hd_show_nat [of n] have "c \<noteq> CHR ''0''" by simp
  moreover have "is_digit c" using show_nat_digits [of n] s by simp
  ultimately show ?thesis
    using digits_split [OF show_nat_digits [of n] assms] nat_of_digits_show [of n]
    by (simp add: parse_int_part_def s)
qed

text \<open>What may follow a number: nothing the number could go on with.\<close>

definition num_end :: "string \<Rightarrow> bool" where
  "num_end r = (case r of [] \<Rightarrow> True
     | c # _ \<Rightarrow> \<not> is_digit c \<and> c \<noteq> CHR ''.'' \<and> c \<noteq> CHR ''e'' \<and> c \<noteq> CHR ''E'')"

lemma num_endD: "num_end r \<Longrightarrow> case r of [] \<Rightarrow> True | c # _ \<Rightarrow> \<not> is_digit c"
  by (auto simp: num_end_def split: list.splits)

lemma parse_frac_end: "num_end r \<Longrightarrow> parse_frac r = Some (0, r)"
  by (auto simp: num_end_def parse_frac_def split: list.splits)

lemma parse_exp_end: "num_end r \<Longrightarrow> parse_exp r = Some (False, 0, r)"
  by (auto simp: num_end_def parse_exp_def split: list.splits)

lemma length_show_nat: "m < 10 ^ k \<Longrightarrow> 0 < k \<Longrightarrow> length (show_nat m) \<le> k"
proof (induction k arbitrary: m)
  case (Suc k)
  show ?case
  proof (cases "m < 10")
    case True
    then show ?thesis by (subst show_nat.simps) simp
  next
    case False
    with Suc.prems have "m div 10 < 10 ^ k" "0 < k" by (auto simp: less_mult_imp_div_less intro: Suc_lessI ccontr)
    with Suc.IH have "length (show_nat (m div 10)) \<le> k" by blast
    with False show ?thesis by (subst show_nat.simps) simp
  qed
qed simp

lemma pad_zeros_props:
  assumes "m < 10 ^ k" "0 < k"
  shows "length (pad_zeros k (show_nat m)) = k" "nat_of_digits (pad_zeros k (show_nat m)) = m"
    "list_all is_digit (pad_zeros k (show_nat m))"
  using length_show_nat [OF assms] show_nat_digits [of m]
  by (auto simp: pad_zeros_def nat_of_digits_zeros list_all_iff is_digit_def char_range_def)

lemma abs_text_hd: "case abs_text k n of [] \<Rightarrow> False | c # _ \<Rightarrow> is_digit c"
  using show_nat_digits [of n] show_nat_digits [of "n div 10 ^ k"]
  by (cases "show_nat n"; cases "show_nat (n div 10 ^ k)") (auto simp: abs_text_def)

lemma parse_abs_text:
  assumes "num_end r"
  obtains i s1 f where "parse_int_part (abs_text k n @ r) = Some (i, s1)" "parse_frac s1 = Some (f, r)"
    "of_nat i + f = (of_nat n / 10 ^ k :: rat)"
proof (cases "k = 0")
  case True
  with that [of n r 0] show ?thesis
    by (simp add: abs_text_def parse_int_part_show num_endD assms parse_frac_end)
next
  case False
  define d where "d = pad_zeros k (show_nat (n mod 10 ^ k))"
  have d: "length d = k" "nat_of_digits d = n mod 10 ^ k" "list_all is_digit d"
    using False pad_zeros_props [of "n mod 10 ^ k" k] by (simp_all add: d_def)
  have i: "parse_int_part (abs_text k n @ r) = Some (n div 10 ^ k, CHR ''.'' # d @ r)"
    using False parse_int_part_show [of "CHR ''.'' # d @ r" "n div 10 ^ k"]
    by (simp add: abs_text_def d_def is_digit_def char_range_def)
  have "d \<noteq> []" using d(1) False by auto
  then have f: "parse_frac (CHR ''.'' # d @ r) = Some (of_nat (n mod 10 ^ k) / 10 ^ k, r)"
    using digits_split [OF d(3) num_endD [OF assms]] d(1,2) by (simp add: parse_frac_def)
  have "(of_nat (10 ^ k * (n div 10 ^ k) + n mod 10 ^ k) :: rat) = of_nat n" by simp
  then have "10 ^ k * of_nat (n div 10 ^ k) + of_nat (n mod 10 ^ k) = (of_nat n :: rat)"
    by (simp only: of_nat_add of_nat_mult of_nat_power of_nat_numeral)
  then have "of_nat (n div 10 ^ k) + of_nat (n mod 10 ^ k) / 10 ^ k = (of_nat n / 10 ^ k :: rat)"
    by (simp add: field_simps del: mult_div_mod_eq)
  with that [OF i f] show ?thesis by simp
qed

section \<open>Reading a value back\<close>

text \<open>Printable values: numbers of at most nineteen decimals, and every name of an object once.\<close>

primrec json_ok :: "json \<Rightarrow> bool" where
  "json_ok JNull = True"
| "json_ok (JBool b) = True"
| "json_ok (JNum q) = (decimals q \<noteq> None)"
| "json_ok (JStr s) = True"
| "json_ok (JArr vs) = list_all id (map json_ok vs)"
| "json_ok (JObj kvs) = (distinct (map fst kvs) \<and> list_all snd (map (map_prod id json_ok) kvs))"

lemma is_wholeD: "is_whole q \<Longrightarrow> \<exists>z. q = of_int z"
proof -
  assume "is_whole q"
  then obtain n where "quotient_of q = (n, 1)" by (cases "quotient_of q") (auto simp: is_whole_def)
  from quotient_of_div [OF this] have "q = of_int n" by simp
  then show ?thesis ..
qed

lemma is_whole_of_int [simp]: "is_whole (of_int z)"
  by (simp add: is_whole_def)

lemma decimals_of_int [simp]: "decimals (of_int z) = Some 0"
proof -
  have "[0..<20] = 0 # [1..<20]" by (simp add: upt_rec)
  then show ?thesis by (simp add: decimals_def)
qed

lemma parse_json_number:
  assumes "decimals q \<noteq> None" "num_end r"
  shows "parse_number (json_number q @ r) = Some (q, r)"
proof -
  from assms(1) obtain k where k: "decimals q = Some k" by auto
  then have "is_whole (q * 10 ^ k)" by (auto simp: decimals_def dest: find_SomeD)
  then obtain z where z: "q * 10 ^ k = of_int z" by (blast dest: is_wholeD)
  define n where "n = nat \<bar>z\<bar>"
  have "\<bar>q\<bar> * 10 ^ k = \<bar>q * 10 ^ k\<bar>" by (simp add: abs_mult)
  then have a: "\<bar>q\<bar> * 10 ^ k = of_nat n" by (simp add: z n_def)
  then have q: "\<bar>q\<bar> = of_nat n / 10 ^ k" by (simp add: field_simps)
  have n: "nat \<lfloor>\<bar>q\<bar> * 10 ^ k\<rfloor> = n" by (simp add: a)
  obtain i s1 f where p: "parse_int_part (abs_text k n @ r) = Some (i, s1)" "parse_frac s1 = Some (f, r)"
    "of_nat i + f = (of_nat n / 10 ^ k :: rat)"
    using parse_abs_text [OF assms(2)] .
  have f: "parse_exp r = Some (False, 0, r)" by (rule parse_exp_end [OF assms(2)])
  have e: "json_number q = (if q < 0 then CHR ''-'' # abs_text k n else abs_text k n)"
    unfolding json_number_def k option.case Let_def n ..
  show ?thesis
  proof (cases "q < 0")
    case True
    with q have "- (of_nat n / 10 ^ k) = q" by simp
    with True show ?thesis by (simp add: e parse_number_def p f)
  next
    case False
    obtain c s where c: "abs_text k n = c # s" "is_digit c"
      using abs_text_hd [of k n] by (auto split: list.splits)
    then have "c \<noteq> CHR ''-''" by (auto simp: is_digit_def char_range_def)
    moreover have "json_number q = c # s" using e False c(1) by simp
    moreover have "of_nat i + f = q" using False q p(3) by simp
    ultimately show ?thesis using p(1,2) f c(1) by (simp add: parse_number_def)
  qed
qed

lemma hex_val_hex_digit: "n < 16 \<Longrightarrow> hex_val (hex_digit n) = Some n"
  by (auto simp: hex_val_def hex_digit_def Let_def)

lemma char_of_of_char_split: "char_of (16 * (of_char c div 16) + of_char c mod 16 :: nat) = (c :: char)"
  by simp

lemma parse_chars_escape:
  "parse_chars (concat (map escape_char s) @ CHR 0x22 # r) = Some (s, r)"
proof (induction s)
  case (Cons c s)
  show ?case
  proof (cases "c \<in> {CHR 0x22, CHR 0x5C, CHR 0x08, CHR 0x0C, CHR 0x0A, CHR 0x0D, CHR 0x09}")
    case True
    with Cons show ?thesis
      by (auto simp: escape_char_def char_range_def Let_def)
  next
    case False
    show ?thesis
    proof (cases "char_range CHR 0x00 CHR 0x1F c")
      case True
      then have "(of_char c :: nat) < 32" by (simp add: char_range_def)
      then have "hex_val (hex_digit (of_char c div 16)) = Some (of_char c div 16)"
        "hex_val (hex_digit (of_char c mod 16)) = Some (of_char c mod 16)"
        by (simp_all add: hex_val_hex_digit)
      moreover have "hex_val CHR ''0'' = Some 0" by (simp add: hex_val_def)
      ultimately show ?thesis
        using False True Cons
        by (simp add: escape_char_def Let_def char_range_def)
    next
      case nr: False
      with False Cons show ?thesis by (simp add: escape_char_def)
    qed
  qed
qed simp

definition member_text :: "string \<times> json \<Rightarrow> string" where
  "member_text m = json_string (fst m) @ CHR '':'' # json_text (snd m)"

lemma json_text_JObj:
  "json_text (JObj kvs) = CHR 0x7B # js_join '','' (map member_text kvs) @ [CHR 0x7D]"
  by (simp add: member_text_def [abs_def] comp_def case_prod_unfold)

lemma skip_ws_stop: "\<not> json_ws c \<Longrightarrow> skip_ws (c # s) = c # s"
  by (simp add: skip_ws_def)

lemma json_ws_plain [simp]:
  "\<not> json_ws CHR 0x22" "\<not> json_ws CHR ''[''" "\<not> json_ws CHR '']''" "\<not> json_ws CHR 0x7B"
  "\<not> json_ws CHR 0x7D" "\<not> json_ws CHR '',''" "\<not> json_ws CHR '':''" "\<not> json_ws CHR ''n''"
  "\<not> json_ws CHR ''t''" "\<not> json_ws CHR ''f''"
  by (simp_all add: json_ws_def one_of_def)

lemma num_end_punct [simp]: "num_end []" "num_end (CHR '','' # r)" "num_end (CHR '']'' # r)"
  "num_end (CHR 0x7D # r)"
  by (simp_all add: num_end_def is_digit_def char_range_def)

lemma json_number_hd:
  obtains c s where "json_number q = c # s" "c = CHR ''-'' \<or> is_digit c"
proof -
  obtain k n where "json_number q = CHR ''-'' # abs_text k n \<or> json_number q = abs_text k n"
    by (simp add: json_number_def Let_def) metis
  with that abs_text_hd [of k n] show thesis by (auto split: list.splits)
qed

lemma parse_value_number:
  assumes "decimals q \<noteq> None" "num_end r"
  shows "parse_value (Suc n) (json_number q @ r) = Some (JNum q, r)"
proof -
  obtain c s where c: "json_number q = c # s" "c = CHR ''-'' \<or> is_digit c" by (rule json_number_hd)
  then have "\<not> json_ws c" "c \<noteq> CHR 0x22" "c \<noteq> CHR ''[''" "c \<noteq> CHR 0x7B" "c \<noteq> CHR ''n''"
    "c \<noteq> CHR ''t''" "c \<noteq> CHR ''f''"
    by (auto simp: is_digit_def char_range_def json_ws_def one_of_def)
  with parse_json_number [OF assms] c(1) show ?thesis
    by (simp add: skip_ws_stop strip_prefix_def starts_with_def)
qed

lemma json_text_hd:
  obtains c s where "json_text v = c # s" "\<not> json_ws c" "c \<noteq> CHR '']''"
proof (cases v)
  case (JNum q)
  obtain c s where c: "json_number q = c # s" "c = CHR ''-'' \<or> is_digit c" by (rule json_number_hd)
  then have "\<not> json_ws c" "c \<noteq> CHR '']''"
    by (auto simp: is_digit_def char_range_def json_ws_def one_of_def)
  with that JNum c(1) show thesis by simp
next
  case (JBool b)
  with that show thesis by (cases b) auto
qed (use that in \<open>auto simp: json_string_def\<close>)

lemma js_join_Cons: "js_join sep (x # y # xs) @ r = x @ sep @ js_join sep (y # xs) @ r"
  by simp

lemma parse_items_text:
  assumes "\<And>v r n. v \<in> set vs \<Longrightarrow> num_end r \<Longrightarrow> 2 * length (json_text v @ r) + 2 \<le> n \<Longrightarrow>
      parse_value n (json_text v @ r) = Some (v, r)"
    and "vs \<noteq> []" "2 * length (js_join '','' (map json_text vs) @ CHR '']'' # r) + 3 \<le> n"
  shows "parse_items n (js_join '','' (map json_text vs) @ CHR '']'' # r) = Some (vs, r)"
  using assms
proof (induction vs arbitrary: n)
  case (Cons v vs)
  from Cons.prems(3) obtain m where n: "n = Suc m" by (cases n) auto
  show ?case
  proof (cases vs)
    case Nil
    with Cons.prems(1) [of v "CHR '']'' # r" m] Cons.prems(3) show ?thesis
      by (simp add: n skip_ws_stop)
  next
    case (Cons w ws)
    let ?t = "js_join '','' (map json_text vs) @ CHR '']'' # r"
    have t: "js_join '','' (map json_text (v # vs)) @ CHR '']'' # r = json_text v @ CHR '','' # ?t"
      by (simp add: Cons)
    have "parse_value m (json_text v @ CHR '','' # ?t) = Some (v, CHR '','' # ?t)"
      using Cons.prems(3) by (intro Cons.prems(1)) (simp_all add: t [unfolded Cons] n Cons)
    moreover have "parse_items m ?t = Some (vs, r)"
      using Cons.prems(1,3) by (intro Cons.IH) (simp_all add: n Cons)
    ultimately show ?thesis by (simp only: t n parse_items.simps) (simp add: skip_ws_stop)
  qed
qed simp

lemma obj_put_new: "k \<notin> set (map fst acc) \<Longrightarrow> obj_put k v acc = acc @ [(k, v)]"
  by (induction acc) auto

lemma parse_member_head:
  "skip_ws (member_text (k, v) @ s) = CHR 0x22 # concat (map escape_char k) @ CHR 0x22 # CHR '':'' # json_text v @ s"
  by (simp add: member_text_def json_string_def skip_ws_stop)

lemma parse_members_text:
  assumes "\<And>k v r n. (k, v) \<in> set kvs \<Longrightarrow> num_end r \<Longrightarrow> 2 * length (json_text v @ r) + 2 \<le> n \<Longrightarrow>
      parse_value n (json_text v @ r) = Some (v, r)"
    and "kvs \<noteq> []" "distinct (map fst (acc @ kvs))"
    and "2 * length (js_join '','' (map member_text kvs) @ CHR 0x7D # r) + 3 \<le> n"
  shows "parse_members n acc (js_join '','' (map member_text kvs) @ CHR 0x7D # r) = Some (acc @ kvs, r)"
  using assms
proof (induction kvs arbitrary: n acc)
  case (Cons kv kvs)
  obtain k v where kv: "kv = (k, v)" by (cases kv)
  from Cons.prems(4) obtain m where n: "n = Suc m" by (cases n) auto
  from Cons.prems(3) have k: "obj_put k v acc = acc @ [(k, v)]" by (intro obj_put_new) (auto simp: kv)
  have head: "parse_members n acc (member_text kv @ x # s) =
      (if x = CHR 0x7D then Some (acc @ [(k, v)], s)
       else if x = CHR '','' then parse_members m (acc @ [(k, v)]) s else None)"
    if "num_end (x # s)" "\<not> json_ws x" "2 * length (json_text v @ x # s) + 2 \<le> m" for x s
    unfolding n kv parse_members.simps parse_member_head
    using that Cons.prems(1) [of k v "x # s" m]
    by (simp add: kv parse_chars_escape skip_ws_stop k)
  show ?case
  proof (cases kvs)
    case Nil
    with Cons.prems(4) head [of "CHR 0x7D" r] show ?thesis
      by (simp add: n kv member_text_def)
  next
    case (Cons w ws)
    let ?t = "js_join '','' (map member_text kvs) @ CHR 0x7D # r"
    have t: "js_join '','' (map member_text (kv # kvs)) @ CHR 0x7D # r = member_text kv @ CHR '','' # ?t"
      by (simp add: Cons)
    have "length (json_text v) < length (member_text (k, v))" by (simp add: member_text_def)
    then have "2 * length (json_text v @ CHR '','' # ?t) + 2 \<le> m"
      using Cons.prems(4) by (simp add: Cons n kv)
    then have "parse_members n acc (member_text kv @ CHR '','' # ?t) = parse_members m (acc @ [(k, v)]) ?t"
      by (subst head) simp_all
    moreover have "parse_members m (acc @ [(k, v)]) ?t = Some ((acc @ [(k, v)]) @ kvs, r)"
      using Cons.prems by (intro Cons.IH) (auto simp: n Cons kv)
    ultimately show ?thesis by (simp only: t) (simp add: kv)
  qed
qed simp

lemma parse_value_text:
  "json_ok v \<Longrightarrow> num_end r \<Longrightarrow> 2 * length (json_text v @ r) + 2 \<le> n \<Longrightarrow>
   parse_value n (json_text v @ r) = Some (v, r)"
proof (induction v arbitrary: n r)
  case (JNum q)
  then show ?case using parse_value_number [of q r "n - 1"] by simp
next
  case (JStr s)
  then obtain m where "n = Suc m" by (cases n) auto
  with JStr show ?case by (simp add: json_string_def skip_ws_stop parse_chars_escape)
next
  case (JArr vs)
  then obtain m where n: "n = Suc m" by (cases n) auto
  show ?case
  proof (cases vs)
    case Nil
    then show ?thesis by (simp add: n skip_ws_stop)
  next
    case (Cons w ws)
    let ?t = "js_join '','' (map json_text vs) @ CHR '']'' # r"
    have items: "parse_items m ?t = Some (vs, r)"
      using JArr.prems(1,3) by (intro parse_items_text JArr.IH) (auto simp: n Cons list_all_iff)
    obtain c s where c: "json_text w = c # s" "\<not> json_ws c" "c \<noteq> CHR '']''" by (rule json_text_hd)
    then obtain s' where "?t = c # s'" by (cases ws) (auto simp: Cons)
    with c items show ?thesis by (simp add: n skip_ws_stop)
  qed
next
  case (JObj kvs)
  then obtain m where n: "n = Suc m" by (cases n) auto
  show ?case
  proof (cases kvs)
    case Nil
    then show ?thesis by (simp add: n skip_ws_stop)
  next
    case (Cons w ws)
    let ?t = "js_join '','' (map member_text kvs) @ CHR 0x7D # r"
    have tx: "json_text (JObj kvs) @ r = CHR 0x7B # ?t" by (simp only: json_text_JObj) simp
    have len: "2 * length ?t + 3 \<le> m" using JObj.prems(3) unfolding tx by (simp add: n)
    have ok: "json_ok v" if "(k, v) \<in> set kvs" for k v
      using JObj.prems(1) that by (auto simp: list_all_iff)
    have members: "parse_members m [] ?t = Some ([] @ kvs, r)"
      using JObj.prems(1) len by (intro parse_members_text JObj.IH) (auto simp: Cons ok snds.simps)
    obtain s' where s': "?t = CHR 0x22 # s'"
      by (cases ws) (auto simp: Cons member_text_def json_string_def)
    have "parse_value (Suc m) (CHR 0x7B # ?t) = Some (JObj kvs, r)"
      using members unfolding s' by (simp add: skip_ws_stop)
    then show ?thesis unfolding tx n .
  qed
qed (auto simp: skip_ws_stop strip_prefix_def starts_with_def gr0_conv_Suc dest!: Suc_le_D)

lemma json_parse_text [simp]: "json_ok v \<Longrightarrow> json_parse (json_text v) = Some v"
  using parse_value_text [of v "[]" "2 * length (json_text v) + 2"]
  by (simp add: json_parse_def skip_ws_def)

lemma json_number_int [simp]: "decimals q = Some 0 \<Longrightarrow> q = of_int z \<Longrightarrow> json_number q = show_int z"
  by (auto simp: json_number_def abs_text_def show_int_def)

end
