(* ===== verification/PlanCooldown.thy ===== *)
theory PlanCooldown
  imports Breaker JsonText
begin

text \<open>
  \<open>providers/plan-cooldown.ts\<close>: the pause of a provider whose plan cannot answer. The pure
  computation of a pause's end, the per-instance store, the Redis store with its Lua script over
  JSON text, the failover composite, and the breaker's own calls into them. Instants and
  durations are rationals where the code computes with numbers it was given; a non-finite number
  is \<open>None\<close>. \<open>cjson.decode\<close> of the script is read as \<open>JSON.parse\<close>.
\<close>

section \<open>Pauses\<close>

definition PLAN_COOLDOWN_KINDS :: "provider_error_kind list" where
  "PLAN_COOLDOWN_KINDS = [quota_exhausted, risk_control, plan_inactive]"

definition isPlanCooldownKind :: "provider_error_kind \<Rightarrow> bool" where
  "isPlanCooldownKind kind = (kind \<in> set PLAN_COOLDOWN_KINDS)"

datatype cooldown_source = ByProvider | ByDefault

record plan_cooldown =
  pc_kind :: provider_error_kind
  pc_until :: rat
  pc_source :: cooldown_source

record plan_config =
  minMs :: int
  maxMs :: int
  quotaShortMs :: int
  quotaLongMs :: int
  riskControlMs :: int
  planInactiveMs :: int

definition DEFAULT_PLAN_COOLDOWN_CONFIG :: plan_config where
  "DEFAULT_PLAN_COOLDOWN_CONFIG =
     \<lparr>minMs = 60000, maxMs = 7 * 24 * 60 * 60 * 1000, quotaShortMs = 15 * 60000,
      quotaLongMs = 60 * 60000, riskControlMs = 30 * 60000, planInactiveMs = 60 * 60000\<rparr>"

text \<open>\<open>None\<close> for a kind outside the three the parameter type admits.\<close>

definition planDefaultMs :: "provider_error_kind \<Rightarrow> plan_window option \<Rightarrow> plan_config \<Rightarrow> int option" where
  "planDefaultMs kind win cfg =
     (case kind of
        quota_exhausted \<Rightarrow> Some (if win = Some long then quotaLongMs cfg else quotaShortMs cfg)
      | risk_control \<Rightarrow> Some (riskControlMs cfg)
      | plan_inactive \<Rightarrow> Some (planInactiveMs cfg)
      | _ \<Rightarrow> None)"

datatype end_mode = AbsEnd | RelEnd | DefaultEnd

record plan_input =
  in_kind :: provider_error_kind
  in_mode :: end_mode
  in_value :: "rat option"

definition assertValid :: "plan_input \<Rightarrow> fault option" where
  "assertValid input =
     (if \<not> isPlanCooldownKind (in_kind input) then Some ''plan cooldown: not a pausing kind''
      else case in_value input of
        None \<Rightarrow> Some ''plan cooldown: non-finite input''
      | Some v \<Rightarrow> if in_mode input = DefaultEnd \<and> v \<le> 0 then Some ''plan cooldown: default must be > 0''
                  else None)"

definition js_floor :: "rat \<Rightarrow> rat" where
  "js_floor q = of_int \<lfloor>q\<rfloor>"

definition computeUntil ::
  "int \<Rightarrow> plan_input \<Rightarrow> plan_config \<Rightarrow> fault + (rat \<times> cooldown_source)" where
  "computeUntil now input cfg =
     (case assertValid input of
        Some e \<Rightarrow> Inl e
      | None \<Rightarrow>
          (let value = or_else (in_value input) 0 in
           if in_mode input = DefaultEnd then Inr (js_floor (of_int now + value), ByDefault)
           else
             let raw = (if in_mode input = AbsEnd then value else of_int now + value);
                 u = min (max raw (of_int (now + minMs cfg))) (of_int (now + maxMs cfg))
             in Inr (js_floor u, ByProvider)))"

section \<open>The store interface\<close>

record 's plan_ops =
  po_check :: "string \<Rightarrow> 's \<Rightarrow> (fault + plan_cooldown option) \<times> 's"
  po_checkMany :: "string list \<Rightarrow> 's \<Rightarrow> (fault + (string \<times> plan_cooldown option) list) \<times> 's"
  po_record :: "string \<Rightarrow> plan_input \<Rightarrow> 's \<Rightarrow> (fault + plan_cooldown) \<times> 's"
  po_lift :: "string \<Rightarrow> 's \<Rightarrow> (fault + unit) \<times> 's"

section \<open>The in-memory store\<close>

record plan_mem =
  pm_records :: "string \<rightharpoonup> plan_cooldown"
  pm_now :: int

text \<open>Reading drops an expired record.\<close>

definition pm_live :: "string \<Rightarrow> plan_mem \<Rightarrow> plan_cooldown option \<times> plan_mem" where
  "pm_live providerId s =
     (case pm_records s providerId of
        None \<Rightarrow> (None, s)
      | Some r \<Rightarrow>
          if pc_until r \<le> of_int (pm_now s)
          then (None, s\<lparr>pm_records := (pm_records s)(providerId := None)\<rparr>)
          else (Some r, s))"

text \<open>\<open>new Map\<close> of the pairs: an id keeps its first place; its value is read again.\<close>

fun pm_checkMany :: "string list \<Rightarrow> plan_mem \<Rightarrow> (string \<times> plan_cooldown option) list \<times> plan_mem" where
  "pm_checkMany [] s = ([], s)"
| "pm_checkMany (i # ids) s =
     (let (r, s1) = pm_live i s; (rest, s2) = pm_checkMany ids s1
      in ((i, r) # filter (\<lambda>(j, _). j \<noteq> i) rest, s2))"

definition pm_record ::
  "plan_config \<Rightarrow> string \<Rightarrow> plan_input \<Rightarrow> plan_mem \<Rightarrow> (fault + plan_cooldown) \<times> plan_mem" where
  "pm_record cfg providerId input s =
     (case computeUntil (pm_now s) input cfg of
        Inl e \<Rightarrow> (Inl e, s)
      | Inr (u, src) \<Rightarrow>
          (let (cur, s1) = pm_live providerId s;
               next = \<lparr>pc_kind = in_kind input, pc_until = u, pc_source = src\<rparr>;
               put = (Inr next, s1\<lparr>pm_records := (pm_records s1)(providerId \<mapsto> next)\<rparr>)
           in case cur of
                Some c \<Rightarrow> if u \<le> pc_until c then (Inr c, s1) else put
              | None \<Rightarrow> put))"

definition pm_lift :: "string \<Rightarrow> plan_mem \<Rightarrow> plan_mem" where
  "pm_lift providerId s = s\<lparr>pm_records := (pm_records s)(providerId := None)\<rparr>"

definition pm_ops :: "plan_config \<Rightarrow> plan_mem plan_ops" where
  "pm_ops cfg =
     \<lparr>po_check = (\<lambda>p s. map_prod Inr id (pm_live p s)),
      po_checkMany = (\<lambda>ps s. map_prod Inr id (pm_checkMany ps s)),
      po_record = pm_record cfg,
      po_lift = (\<lambda>p s. (Inr (), pm_lift p s))\<rparr>"

section \<open>The Redis store\<close>

text \<open>A key holds JSON text and the instant it expires at. From that instant on it reads as gone; the server
  drops it one millisecond later, when the record it still answers with is a pause that has ended.\<close>

record plan_redis =
  pr_db :: "string \<rightharpoonup> (string \<times> rat)"
  pr_now :: int

definition pr_get :: "string \<Rightarrow> plan_redis \<Rightarrow> string option" where
  "pr_get key s =
     (case pr_db s key of
        None \<Rightarrow> None
      | Some (v, e) \<Rightarrow> if e \<le> of_int (pr_now s) then None else Some v)"

definition pcd_key :: "string \<Rightarrow> string" where "pcd_key providerId = ''pcd:'' @ providerId"

definition kind_text :: "provider_error_kind \<Rightarrow> string" where
  "kind_text k =
     (case k of quota_exhausted \<Rightarrow> ''quota_exhausted'' | risk_control \<Rightarrow> ''risk_control''
      | plan_inactive \<Rightarrow> ''plan_inactive'' | _ \<Rightarrow> [])"

definition plan_kind_of_text :: "string \<Rightarrow> provider_error_kind option" where
  "plan_kind_of_text s = find (\<lambda>k. kind_text k = s) PLAN_COOLDOWN_KINDS"

definition source_text :: "cooldown_source \<Rightarrow> string" where
  "source_text src = (case src of ByProvider \<Rightarrow> ''provider'' | ByDefault \<Rightarrow> ''default'')"

text \<open>The script's \<open>string.format\<close>; \<open>%.0f\<close> of a whole number is its decimal.\<close>

definition encode_pause :: "provider_error_kind \<Rightarrow> rat \<Rightarrow> cooldown_source \<Rightarrow> string" where
  "encode_pause kind u src =
     quoted ''{~kind~:~'' @ kind_text kind @ quoted ''~,~until~:'' @ show_int \<lfloor>u\<rfloor>
       @ quoted '',~source~:~'' @ source_text src @ quoted ''~}''"

text \<open>\<open>parseRecord\<close>: anything malformed reads as no pause.\<close>

definition parse_record_json :: "json \<Rightarrow> plan_cooldown option" where
  "parse_record_json v =
     (case (str_prop ''kind'' v, obj_prop ''until'' v, str_prop ''source'' v) of
        (Some k, Some (JNum u), Some src) \<Rightarrow>
          (case plan_kind_of_text k of
             None \<Rightarrow> None
           | Some kind \<Rightarrow>
               if src = ''provider'' then Some \<lparr>pc_kind = kind, pc_until = u, pc_source = ByProvider\<rparr>
               else if src = ''default'' then Some \<lparr>pc_kind = kind, pc_until = u, pc_source = ByDefault\<rparr>
               else None)
      | _ \<Rightarrow> None)"

definition parseRecord :: "string option \<Rightarrow> plan_cooldown option" where
  "parseRecord raw =
     (case raw of None \<Rightarrow> None | Some text \<Rightarrow> Option.bind (json_parse text) parse_record_json)"

text \<open>\<open>RECORD_LUA\<close>: the end on the server's clock, then extend-only against the stored text.\<close>

definition record_script ::
  "string \<Rightarrow> end_mode \<Rightarrow> rat \<Rightarrow> provider_error_kind \<Rightarrow> int \<Rightarrow> int \<Rightarrow> plan_redis \<Rightarrow> string \<times> plan_redis" where
  "record_script key mode v kind mn mx s =
     (let now = of_int (pr_now s);
          u0 = (if mode = AbsEnd then v else now + v);
          u1 = (if mode \<noteq> DefaultEnd then min (max u0 (now + of_int mn)) (now + of_int mx) else u0);
          u = js_floor u1;
          src = (if mode = DefaultEnd then ByDefault else ByProvider);
          val = encode_pause kind u src;
          put = (val, s\<lparr>pr_db := (pr_db s)(key \<mapsto> (val, u))\<rparr>)
      in case pr_get key s of
           None \<Rightarrow> put
         | Some cur \<Rightarrow>
             (case Option.bind (json_parse cur) (obj_prop ''until'') of
                Some (JNum c) \<Rightarrow> if c \<ge> u then (cur, s) else put
              | _ \<Rightarrow> put))"

definition redis_check :: "string \<Rightarrow> plan_redis \<Rightarrow> plan_cooldown option" where
  "redis_check providerId s = parseRecord (pr_get (pcd_key providerId) s)"

definition CHECK_MANY_CHUNK :: nat where "CHECK_MANY_CHUNK = 500"

text \<open>\<open>[...new Set(providerIds)]\<close> in chunks, each one \<open>MGET\<close>.\<close>

definition js_set :: "'a list \<Rightarrow> 'a list" where
  "js_set xs = rev (remdups (rev xs))"

function chunks_of :: "nat \<Rightarrow> 'a list \<Rightarrow> 'a list list" where
  "chunks_of n xs = (if n = 0 \<or> xs = [] then [] else take n xs # chunks_of n (drop n xs))"
  by pat_completeness auto
termination by (relation "measure (\<lambda>(n, xs). length xs)") (auto simp: neq_Nil_conv)

declare chunks_of.simps [simp del]

definition redis_checkMany :: "string list \<Rightarrow> plan_redis \<Rightarrow> (string \<times> plan_cooldown option) list" where
  "redis_checkMany providerIds s =
     concat (map (\<lambda>chunk.
         let rows = map (\<lambda>i. pr_get (pcd_key i) s) chunk
         in map (\<lambda>(i, row). (i, parseRecord row)) (zip chunk rows))
       (chunks_of CHECK_MANY_CHUNK (js_set providerIds)))"

definition redis_record ::
  "plan_config \<Rightarrow> string \<Rightarrow> plan_input \<Rightarrow> plan_redis \<Rightarrow> (fault + plan_cooldown) \<times> plan_redis" where
  "redis_record cfg providerId input s =
     (case assertValid input of
        Some e \<Rightarrow> (Inl e, s)
      | None \<Rightarrow>
          (case record_script (pcd_key providerId) (in_mode input) (or_else (in_value input) 0)
                  (in_kind input) (minMs cfg) (maxMs cfg) s of
             (raw, s') \<Rightarrow>
               (case parseRecord (Some raw) of
                  None \<Rightarrow> (Inl ''plan cooldown: store returned no record'', s')
                | Some r \<Rightarrow> (Inr r, s'))))"

definition redis_lift :: "string \<Rightarrow> plan_redis \<Rightarrow> plan_redis" where
  "redis_lift providerId s = s\<lparr>pr_db := (pr_db s)(pcd_key providerId := None)\<rparr>"

definition plan_redis_ops :: "plan_config \<Rightarrow> plan_redis plan_ops" where
  "plan_redis_ops cfg =
     \<lparr>po_check = (\<lambda>p s. (Inr (redis_check p s), s)),
      po_checkMany = (\<lambda>ps s. (Inr (redis_checkMany ps s), s)),
      po_record = redis_record cfg,
      po_lift = (\<lambda>p s. (Inr (), redis_lift p s))\<rparr>"

section \<open>Failover\<close>

text \<open>Two stores and the faults reported so far. A throwing meter is contained, so reporting
  only appends.\<close>

record ('p, 'f) failover =
  fo_primary :: 'p
  fo_fallback :: 'f
  fo_reported :: "fault list"

definition report :: "fault \<Rightarrow> ('p, 'f) failover \<Rightarrow> ('p, 'f) failover" where
  "report e s = s\<lparr>fo_reported := fo_reported s @ [e]\<rparr>"

definition fo_try ::
  "('p \<Rightarrow> (fault + 'r) \<times> 'p) \<Rightarrow> ('f \<Rightarrow> (fault + 'r) \<times> 'f)
     \<Rightarrow> ('p, 'f) failover \<Rightarrow> (fault + 'r) \<times> ('p, 'f) failover" where
  "fo_try primary fallback s =
     (case primary (fo_primary s) of
        (Inr r, p') \<Rightarrow> (Inr r, s\<lparr>fo_primary := p'\<rparr>)
      | (Inl e, p') \<Rightarrow>
          (case fallback (fo_fallback s) of
             (r, f') \<Rightarrow> (r, report e (s\<lparr>fo_primary := p', fo_fallback := f'\<rparr>))))"

definition fo_record ::
  "'p plan_ops \<Rightarrow> 'f plan_ops \<Rightarrow> string \<Rightarrow> plan_input \<Rightarrow> ('p, 'f) failover
     \<Rightarrow> (fault + plan_cooldown) \<times> ('p, 'f) failover" where
  "fo_record primary fallback providerId input s =
     (case assertValid input of
        Some e \<Rightarrow> (Inl e, s)
      | None \<Rightarrow> fo_try (po_record primary providerId input) (po_record fallback providerId input) s)"

text \<open>\<open>lift\<close> clears the fallback whatever the primary did, then rethrows the primary's fault.\<close>

definition fo_lift ::
  "'p plan_ops \<Rightarrow> 'f plan_ops \<Rightarrow> string \<Rightarrow> ('p, 'f) failover \<Rightarrow> (fault + unit) \<times> ('p, 'f) failover" where
  "fo_lift primary fallback providerId s =
     (case po_lift primary providerId (fo_primary s) of
        (pr, p') \<Rightarrow>
          let s1 = (case pr of Inl e \<Rightarrow> report e (s\<lparr>fo_primary := p'\<rparr>) | Inr _ \<Rightarrow> s\<lparr>fo_primary := p'\<rparr>)
          in case po_lift fallback providerId (fo_fallback s1) of
               (fr, f') \<Rightarrow>
                 let s2 = s1\<lparr>fo_fallback := f'\<rparr>
                 in (case fr of Inl e \<Rightarrow> (Inl e, s2) | Inr _ \<Rightarrow> (pr, s2)))"

definition failover_ops :: "'p plan_ops \<Rightarrow> 'f plan_ops \<Rightarrow> ('p, 'f) failover plan_ops" where
  "failover_ops primary fallback =
     \<lparr>po_check = (\<lambda>i. fo_try (po_check primary i) (po_check fallback i)),
      po_checkMany = (\<lambda>is. fo_try (po_checkMany primary is) (po_checkMany fallback is)),
      po_record = fo_record primary fallback,
      po_lift = fo_lift primary fallback\<rparr>"

section \<open>The breaker's use of the store\<close>

text \<open>Both contain every fault: it is reported and reads as no pause.\<close>

definition planCooldownFor ::
  "'s plan_ops \<Rightarrow> string \<Rightarrow> 's \<times> fault list \<Rightarrow> plan_cooldown option \<times> ('s \<times> fault list)" where
  "planCooldownFor ops providerId st =
     (case po_check ops providerId (fst st) of
        (Inr r, s') \<Rightarrow> (r, (s', snd st))
      | (Inl e, s') \<Rightarrow> (None, (s', snd st @ [e])))"

definition planInputFor :: "plan_config \<Rightarrow> provider_error \<Rightarrow> plan_input" where
  "planInputFor cfg err =
     (let kind = pe_kind err;
          dflt = (\<lambda>w. \<lparr>in_kind = kind, in_mode = DefaultEnd,
                     in_value = map_option of_int (planDefaultMs kind w cfg)\<rparr>)
      in case pe_planReset err of
           None \<Rightarrow> dflt None
         | Some reset \<Rightarrow>
             (case resetAt reset of
                Some t \<Rightarrow> \<lparr>in_kind = kind, in_mode = AbsEnd, in_value = Some (of_int t)\<rparr>
              | None \<Rightarrow>
                  (case retryAfterMs reset of
                     Some d \<Rightarrow> \<lparr>in_kind = kind, in_mode = RelEnd, in_value = Some (of_int d)\<rparr>
                   | None \<Rightarrow> dflt (window reset))))"

definition recordPlanCooldown ::
  "'s plan_ops \<Rightarrow> plan_config \<Rightarrow> string \<Rightarrow> provider_error \<Rightarrow> 's \<times> fault list \<Rightarrow> 's \<times> fault list" where
  "recordPlanCooldown ops cfg providerId err st =
     (if \<not> isPlanCooldownKind (pe_kind err) \<or> pe_status err = None then st
      else (case po_record ops providerId (planInputFor cfg err) (fst st) of
              (Inr _, s') \<Rightarrow> (s', snd st)
            | (Inl e, s') \<Rightarrow> (s', snd st @ [e])))"

end
