(* ===== verification/PlanCooldownFacts.thy ===== *)
theory PlanCooldownFacts
  imports PlanCooldown
begin

text \<open>
  The plan cooldown store. Both stores, the in-memory map and the Redis script over JSON text,
  refine one specification on the live pauses, stated as the locale \<open>plan_store\<close> and
  interpreted on each; so they answer every sequence of commands alike. A pause only ever grows
  under recording, a provider's statement is held inside the configured bounds, and the failover
  composite reports a lift only when it happened on both sides.
\<close>

section \<open>The specification\<close>

type_synonym plan_view = "string \<Rightarrow> plan_cooldown option"

definition live_at :: "int \<Rightarrow> plan_cooldown \<Rightarrow> plan_cooldown option" where
  "live_at t r = (if pc_until r \<le> of_int t then None else Some r)"

lemma live_at_later: "Option.bind (live_at t r) (live_at (t + int d)) = live_at (t + int d) r"
  by (auto simp: live_at_def)

definition record_spec ::
  "plan_config \<Rightarrow> string \<Rightarrow> plan_input \<Rightarrow> int \<times> plan_view \<Rightarrow> (fault + plan_cooldown) \<times> plan_view" where
  "record_spec cfg p input tv =
     (case computeUntil (fst tv) input cfg of
        Inl e \<Rightarrow> (Inl e, snd tv)
      | Inr (u, src) \<Rightarrow>
          (let next = \<lparr>pc_kind = in_kind input, pc_until = u, pc_source = src\<rparr>;
               put = (Inr next, (snd tv)(p := live_at (fst tv) next))
           in case snd tv p of
                Some c \<Rightarrow> if u \<le> pc_until c then (Inr c, snd tv) else put
              | None \<Rightarrow> put))"

datatype plan_cmd =
    CmdCheck string | CmdCheckMany "string list" | CmdRecord string plan_input | CmdLift string
  | CmdWait nat

datatype plan_answer =
    Pause "plan_cooldown option" | Pauses "(string \<times> plan_cooldown option) list"
  | Recorded plan_cooldown | Done

primrec spec_do :: "plan_config \<Rightarrow> plan_cmd \<Rightarrow> int \<times> plan_view \<Rightarrow> (fault + plan_answer) \<times> int \<times> plan_view" where
  "spec_do cfg (CmdCheck p) tv = (Inr (Pause (snd tv p)), tv)"
| "spec_do cfg (CmdCheckMany ps) tv = (Inr (Pauses (map (\<lambda>i. (i, snd tv i)) (js_set ps))), tv)"
| "spec_do cfg (CmdRecord p input) tv =
     map_prod (map_sum id Recorded) (Pair (fst tv)) (record_spec cfg p input tv)"
| "spec_do cfg (CmdLift p) tv = (Inr Done, (fst tv, (snd tv)(p := None)))"
| "spec_do cfg (CmdWait d) tv =
     (Inr Done, (fst tv + int d, \<lambda>p. Option.bind (snd tv p) (live_at (fst tv + int d))))"

primrec plan_do ::
  "'s plan_ops \<Rightarrow> (int \<Rightarrow> 's \<Rightarrow> 's) \<Rightarrow> plan_cmd \<Rightarrow> 's \<Rightarrow> (fault + plan_answer) \<times> 's" where
  "plan_do ops wait (CmdCheck p) s = map_prod (map_sum id Pause) id (po_check ops p s)"
| "plan_do ops wait (CmdCheckMany ps) s = map_prod (map_sum id Pauses) id (po_checkMany ops ps s)"
| "plan_do ops wait (CmdRecord p input) s = map_prod (map_sum id Recorded) id (po_record ops p input s)"
| "plan_do ops wait (CmdLift p) s = map_prod (map_sum id (\<lambda>_. Done)) id (po_lift ops p s)"
| "plan_do ops wait (CmdWait d) s = (Inr Done, wait (int d) s)"

primrec run_all :: "(plan_cmd \<Rightarrow> 's \<Rightarrow> 'o \<times> 's) \<Rightarrow> plan_cmd list \<Rightarrow> 's \<Rightarrow> 'o list \<times> 's" where
  "run_all do [] s = ([], s)"
| "run_all do (c # cs) s =
     (case do c s of (out, s1) \<Rightarrow> (case run_all do cs s1 of (outs, s2) \<Rightarrow> (out # outs, s2)))"

text \<open>What every plan store promises, over what its state shows at its own clock.\<close>

locale plan_store =
  fixes ops :: "'s plan_ops" and cfg :: plan_config and wait :: "int \<Rightarrow> 's \<Rightarrow> 's"
    and view :: "'s \<Rightarrow> plan_view" and now :: "'s \<Rightarrow> int" and ok :: "'s \<Rightarrow> bool"
  assumes view_law: "ok s \<Longrightarrow> view s p = Some c \<Longrightarrow> of_int (now s) < pc_until c"
    and check_law: "ok s \<Longrightarrow> po_check ops p s = (r, s') \<Longrightarrow>
      ok s' \<and> now s' = now s \<and> view s' = view s \<and> r = Inr (view s p)"
    and many_law: "ok s \<Longrightarrow> po_checkMany ops ps s = (rs, s') \<Longrightarrow>
      ok s' \<and> now s' = now s \<and> view s' = view s \<and> rs = Inr (map (\<lambda>i. (i, view s i)) (js_set ps))"
    and record_law: "ok s \<Longrightarrow> po_record ops p input s = (rc, s') \<Longrightarrow>
      ok s' \<and> now s' = now s \<and> record_spec cfg p input (now s, view s) = (rc, view s')"
    and lift_law: "ok s \<Longrightarrow> po_lift ops p s = (l, s') \<Longrightarrow>
      ok s' \<and> now s' = now s \<and> view s' = (view s)(p := None) \<and> l = Inr ()"
    and wait_law: "ok s \<Longrightarrow> ok (wait (int d) s) \<and> now (wait (int d) s) = now s + int d \<and>
      view (wait (int d) s) = (\<lambda>p. Option.bind (view s p) (live_at (now s + int d)))"
begin

lemma do_refines:
  assumes "ok s" "plan_do ops wait c s = (out, s')"
  shows "ok s' \<and> spec_do cfg c (now s, view s) = (out, (now s', view s'))"
proof (cases c)
  case (CmdRecord p input)
  obtain rc s1 where r: "po_record ops p input s = (rc, s1)" by fastforce
  with record_law [OF assms(1) this] assms(2) CmdRecord show ?thesis by auto
next
  case (CmdCheck p)
  obtain rc s1 where r: "po_check ops p s = (rc, s1)" by fastforce
  with check_law [OF assms(1) this] assms(2) CmdCheck show ?thesis by auto
next
  case (CmdCheckMany ps)
  obtain rc s1 where r: "po_checkMany ops ps s = (rc, s1)" by fastforce
  with many_law [OF assms(1) this] assms(2) CmdCheckMany show ?thesis by auto
next
  case (CmdLift p)
  obtain rc s1 where r: "po_lift ops p s = (rc, s1)" by fastforce
  with lift_law [OF assms(1) this] assms(2) CmdLift show ?thesis by auto
next
  case (CmdWait d)
  with wait_law [OF assms(1), of d] assms(2) show ?thesis by auto
qed

lemma run_refines:
  "ok s \<Longrightarrow> run_all (plan_do ops wait) cs s = (outs, s') \<Longrightarrow>
   ok s' \<and> run_all (spec_do cfg) cs (now s, view s) = (outs, (now s', view s'))"
proof (induction cs arbitrary: s outs)
  case (Cons c cs)
  obtain out s1 where c: "plan_do ops wait c s = (out, s1)" by fastforce
  obtain os s2 where r: "run_all (plan_do ops wait) cs s1 = (os, s2)" by fastforce
  from c r Cons.prems(2) have "outs = out # os" "s' = s2" by auto
  with do_refines [OF Cons.prems(1) c] Cons.IH [of s1 os] r show ?case by auto
qed simp

text \<open>Recording never brings the end of a live pause forward, and leaves other providers alone.\<close>

lemma record_extends:
  assumes "ok s" "po_record ops p input s = (rc, s')" "view s p = Some c"
  shows "\<exists>c'. view s' p = Some c' \<and> pc_until c \<le> pc_until c'"
proof -
  from record_law [OF assms(1,2)] have "view s' = snd (record_spec cfg p input (now s, view s))" by simp
  with view_law [OF assms(1,3)] assms(3) show ?thesis
    by (auto simp: record_spec_def Let_def live_at_def split: sum.splits prod.splits)
qed

lemma record_other:
  assumes "ok s" "po_record ops p input s = (rc, s')" "q \<noteq> p"
  shows "view s' q = view s q"
proof -
  from record_law [OF assms(1,2)] have "view s' = snd (record_spec cfg p input (now s, view s))" by simp
  with assms(3) show ?thesis
    by (auto simp: record_spec_def Let_def split: sum.splits prod.splits option.splits)
qed

end

section \<open>The in-memory store\<close>

definition pm_view :: "plan_mem \<Rightarrow> plan_view" where
  "pm_view s p = fst (pm_live p s)"

definition pm_wait :: "int \<Rightarrow> plan_mem \<Rightarrow> plan_mem" where
  "pm_wait d s = s\<lparr>pm_now := pm_now s + d\<rparr>"

lemma pm_view_alt: "pm_view s p = Option.bind (pm_records s p) (live_at (pm_now s))"
  by (auto simp: pm_view_def pm_live_def live_at_def split: option.splits)

lemma pm_live_state:
  "pm_live p s = (r, s') \<Longrightarrow> r = pm_view s p \<and> pm_now s' = pm_now s \<and> pm_view s' = pm_view s"
  by (auto simp: pm_view_alt fun_eq_iff live_at_def pm_live_def split: option.splits if_splits)

lemma js_set_Cons: "js_set (x # xs) = x # filter (\<lambda>y. y \<noteq> x) (js_set xs)"
proof -
  have "remdups (ys @ [x]) = filter (\<lambda>y. y \<noteq> x) (remdups ys) @ [x]" for ys :: "'a list"
    by (induction ys) auto
  then show ?thesis by (simp add: js_set_def rev_filter)
qed

lemma js_set_Nil [simp]: "js_set [] = []"
  by (simp add: js_set_def)

lemma pm_checkMany_state:
  "pm_checkMany ps s = (rs, s') \<Longrightarrow>
     rs = map (\<lambda>i. (i, pm_view s i)) (js_set ps) \<and> pm_now s' = pm_now s \<and> pm_view s' = pm_view s"
proof (induction ps arbitrary: s rs s')
  case (Cons p ps)
  obtain r s1 where l: "pm_live p s = (r, s1)" by fastforce
  obtain rest s2 where m: "pm_checkMany ps s1 = (rest, s2)" by fastforce
  have f: "filter (\<lambda>(j, _). j \<noteq> p) (map (\<lambda>i. (i, g i)) xs) = map (\<lambda>i. (i, g i)) (filter (\<lambda>j. j \<noteq> p) xs)"
    for g :: "string \<Rightarrow> 'x" and xs by (induction xs) auto
  from pm_live_state [OF l] Cons.IH [OF m] Cons.prems show ?case
    by (auto simp: l m js_set_Cons f)
qed simp

lemma pm_record_law:
  assumes "pm_record cfg p input s = (rc, s')"
  shows "pm_now s' = pm_now s \<and> record_spec cfg p input (pm_now s, pm_view s) = (rc, pm_view s')"
proof (cases "computeUntil (pm_now s) input cfg")
  case (Inl e)
  with assms show ?thesis by (simp add: pm_record_def record_spec_def)
next
  case (Inr b)
  obtain u src where b: "b = (u, src)" by (cases b)
  obtain cur s1 where l: "pm_live p s = (cur, s1)" by fastforce
  have upd: "pm_view (s1\<lparr>pm_records := (pm_records s1)(p \<mapsto> n)\<rparr>) = (pm_view s)(p := live_at (pm_now s) n)" for n
    using pm_live_state [OF l] by (auto simp: pm_view_alt fun_eq_iff)
  show ?thesis
    using pm_live_state [OF l] assms Inr
    by (auto simp: pm_record_def record_spec_def b l Let_def upd split: option.splits if_splits)
qed

interpretation mem: plan_store "pm_ops cfg" cfg pm_wait pm_view pm_now "\<lambda>_. True" for cfg
proof unfold_locales
  fix s p c assume "pm_view s p = Some c"
  then show "of_int (pm_now s) < pc_until c"
    by (auto simp: pm_view_alt live_at_def bind_eq_Some_conv split: if_splits)
next
  fix s s' :: plan_mem and p r assume "po_check (pm_ops cfg) p s = (r, s')"
  then show "True \<and> pm_now s' = pm_now s \<and> pm_view s' = pm_view s \<and> r = Inr (pm_view s p)"
    using pm_live_state [of p s "fst (pm_live p s)" "snd (pm_live p s)"]
    by (auto simp: pm_ops_def map_prod_def split: prod.splits)
next
  fix s s' :: plan_mem and ps rs assume "po_checkMany (pm_ops cfg) ps s = (rs, s')"
  then show "True \<and> pm_now s' = pm_now s \<and> pm_view s' = pm_view s \<and>
      rs = Inr (map (\<lambda>i. (i, pm_view s i)) (js_set ps))"
    using pm_checkMany_state [of ps s] by (auto simp: pm_ops_def map_prod_def split: prod.splits)
next
  fix s s' :: plan_mem and p input rc assume "po_record (pm_ops cfg) p input s = (rc, s')"
  then show "True \<and> pm_now s' = pm_now s \<and>
      record_spec cfg p input (pm_now s, pm_view s) = (rc, pm_view s')"
    using pm_record_law by (simp add: pm_ops_def)
next
  fix s s' :: plan_mem and p l assume "po_lift (pm_ops cfg) p s = (l, s')"
  then show "True \<and> pm_now s' = pm_now s \<and> pm_view s' = (pm_view s)(p := None) \<and> l = Inr ()"
    by (auto simp: pm_ops_def pm_lift_def pm_view_alt fun_eq_iff)
next
  fix s d
  show "True \<and> pm_now (pm_wait (int d) s) = pm_now s + int d \<and>
      pm_view (pm_wait (int d) s) = (\<lambda>p. Option.bind (pm_view s p) (live_at (pm_now s + int d)))"
    by (simp add: pm_wait_def pm_view_alt fun_eq_iff live_at_later)
qed

section \<open>The Redis store\<close>

text \<open>The stored text is the printed form of a record, so reading it back gives the record.\<close>

definition pause_json :: "provider_error_kind \<Rightarrow> int \<Rightarrow> cooldown_source \<Rightarrow> json" where
  "pause_json k z src =
     JObj [(''kind'', JStr (kind_text k)), (''until'', JNum (of_int z)), (''source'', JStr (source_text src))]"

lemma json_string_plain:
  "list_all (\<lambda>c. escape_char c = [c]) s \<Longrightarrow> json_string s = CHR 0x22 # s @ [CHR 0x22]"
proof -
  assume "list_all (\<lambda>c. escape_char c = [c]) s"
  then have "concat (map escape_char s) = s" by (induction s) auto
  then show ?thesis by (simp add: json_string_def)
qed

lemma kind_text_plain: "list_all (\<lambda>c. escape_char c = [c]) (kind_text k)"
  by (cases k) (simp_all add: kind_text_def escape_char_def char_range_def)

lemma source_text_plain: "list_all (\<lambda>c. escape_char c = [c]) (source_text src)"
  by (cases src) (simp_all add: source_text_def escape_char_def char_range_def)

lemma encode_pause_json: "encode_pause k (of_int z) src = json_text (pause_json k z src)"
proof -
  have names: "json_string ''kind'' = quoted ''~kind~''" "json_string ''until'' = quoted ''~until~''"
    "json_string ''source'' = quoted ''~source~''"
    by (simp_all add: json_string_def escape_char_def char_range_def quoted_def)
  show ?thesis
    by (simp add: encode_pause_def pause_json_def json_string_plain kind_text_plain source_text_plain
        names) (simp add: quoted_def)
qed

lemma json_parse_pause: "json_parse (encode_pause k (of_int z) src) = Some (pause_json k z src)"
  unfolding encode_pause_json by (rule json_parse_text) (simp add: pause_json_def)

lemma plan_kind_of_text [simp]: "isPlanCooldownKind k \<Longrightarrow> plan_kind_of_text (kind_text k) = Some k"
  by (auto simp: isPlanCooldownKind_def PLAN_COOLDOWN_KINDS_def plan_kind_of_text_def kind_text_def)

lemma parse_encoded_pause:
  "isPlanCooldownKind k \<Longrightarrow>
   parseRecord (Some (encode_pause k (of_int z) src)) = Some \<lparr>pc_kind = k, pc_until = of_int z, pc_source = src\<rparr>"
  by (cases src)
    (simp_all add: parseRecord_def json_parse_pause, simp_all add: pause_json_def parse_record_json_def
      str_prop_def obj_prop_def source_text_def)

text \<open>Every key of the store holds an encoded pause that expires at its own end.\<close>

definition plan_redis_ok :: "plan_redis \<Rightarrow> bool" where
  "plan_redis_ok s \<longleftrightarrow> (\<forall>p v e. pr_db s (pcd_key p) = Some (v, e) \<longrightarrow>
     (\<exists>k z src. isPlanCooldownKind k \<and> v = encode_pause k (of_int z) src \<and> e = of_int z))"

definition redis_view :: "plan_redis \<Rightarrow> plan_view" where
  "redis_view s p = redis_check p s"

definition redis_wait :: "int \<Rightarrow> plan_redis \<Rightarrow> plan_redis" where
  "redis_wait d s = s\<lparr>pr_now := pr_now s + d\<rparr>"

lemma redis_view_entry:
  "redis_view s p = (case pr_db s (pcd_key p) of None \<Rightarrow> None
     | Some (v, e) \<Rightarrow> if e \<le> of_int (pr_now s) then None else parseRecord (Some v))"
  by (auto simp: redis_view_def redis_check_def pr_get_def parseRecord_def split: option.splits)

lemma pcd_key_inj [simp]: "pcd_key p = pcd_key q \<longleftrightarrow> p = q"
  by (simp add: pcd_key_def)

lemma redis_view_cases:
  assumes "plan_redis_ok s"
  obtains "pr_db s (pcd_key p) = None" "redis_view s p = None"
  | k z src where "pr_db s (pcd_key p) = Some (encode_pause k (of_int z) src, of_int z)"
      "isPlanCooldownKind k"
      "redis_view s p = live_at (pr_now s) \<lparr>pc_kind = k, pc_until = of_int z, pc_source = src\<rparr>"
      "pr_get (pcd_key p) s = (if z \<le> pr_now s then None else Some (encode_pause k (of_int z) src))"
proof (cases "pr_db s (pcd_key p)")
  case None
  then show ?thesis by (intro that(1)) (simp_all add: redis_view_entry)
next
  case (Some ve)
  then obtain k z src where "isPlanCooldownKind k" "pr_db s (pcd_key p) = Some (encode_pause k (of_int z) src, of_int z)"
    using assms unfolding plan_redis_ok_def by (metis surj_pair)
  then show ?thesis
    by (intro that(2)) (simp_all add: redis_view_entry parse_encoded_pause live_at_def pr_get_def)
qed

lemma redis_put:
  fixes p :: string and z :: int and src :: cooldown_source
  assumes "plan_redis_ok s" "isPlanCooldownKind k"
  defines "s' \<equiv> s\<lparr>pr_db := (pr_db s)(pcd_key p \<mapsto> (encode_pause k (of_int z) src, of_int z))\<rparr>"
  shows "plan_redis_ok s'"
    and "redis_view s' = (redis_view s)(p := live_at (pr_now s) \<lparr>pc_kind = k, pc_until = of_int z, pc_source = src\<rparr>)"
proof -
  show "plan_redis_ok s'" using assms by (auto simp: plan_redis_ok_def)
  show "redis_view s' = (redis_view s)(p := live_at (pr_now s) \<lparr>pc_kind = k, pc_until = of_int z, pc_source = src\<rparr>)"
    using parse_encoded_pause [OF assms(2)]
    by (simp add: s'_def redis_view_entry fun_eq_iff live_at_def cong: case_congs)
qed

lemma redis_lift_law:
  "plan_redis_ok s \<Longrightarrow> plan_redis_ok (redis_lift p s) \<and> redis_view (redis_lift p s) = (redis_view s)(p := None)"
  by (simp add: plan_redis_ok_def redis_lift_def redis_view_entry fun_eq_iff cong: case_congs)

lemma concat_chunks: "0 < n \<Longrightarrow> concat (chunks_of n xs) = xs"
proof (induction n xs rule: chunks_of.induct)
  case (1 n xs)
  then show ?case by (subst chunks_of.simps) auto
qed

lemma zip_map_self: "zip xs (map f xs) = map (\<lambda>x. (x, f x)) xs"
  by (induction xs) auto

lemma redis_checkMany_map: "redis_checkMany ps s = map (\<lambda>i. (i, redis_view s i)) (js_set ps)"
proof -
  have "redis_checkMany ps s =
      concat (map (map (\<lambda>i. (i, redis_view s i))) (chunks_of CHECK_MANY_CHUNK (js_set ps)))"
    by (simp add: redis_checkMany_def Let_def zip_map_self redis_view_def redis_check_def comp_def)
  also have "\<dots> = map (\<lambda>i. (i, redis_view s i)) (concat (chunks_of CHECK_MANY_CHUNK (js_set ps)))"
    by (simp add: map_concat)
  finally show ?thesis by (simp add: concat_chunks CHECK_MANY_CHUNK_def)
qed

text \<open>The script computes the end and keeps the later of the two, as the specification does.\<close>

lemma computeUntil_floor: "computeUntil t input cfg = Inr (u, src) \<Longrightarrow> \<exists>z. u = of_int z"
  by (rule exI [of _ "\<lfloor>u\<rfloor>"])
    (auto simp: computeUntil_def js_floor_def Let_def split: option.splits if_splits)

lemma computeUntil_kind: "computeUntil t input cfg = Inr b \<Longrightarrow> isPlanCooldownKind (in_kind input)"
  by (auto simp: computeUntil_def assertValid_def split: option.splits if_splits)

lemma record_script_end:
  assumes "computeUntil (pr_now s) input cfg = Inr (u, src)"
  shows "record_script key (in_mode input) (or_else (in_value input) 0) (in_kind input) (minMs cfg) (maxMs cfg) s =
    (let val = encode_pause (in_kind input) u src; put = (val, s\<lparr>pr_db := (pr_db s)(key \<mapsto> (val, u))\<rparr>)
     in case pr_get key s of None \<Rightarrow> put
        | Some cur \<Rightarrow> (case Option.bind (json_parse cur) (obj_prop ''until'') of
             Some (JNum c) \<Rightarrow> if c \<ge> u then (cur, s) else put | _ \<Rightarrow> put))"
  using assms
  by (cases "in_mode input")
    (auto simp: record_script_def computeUntil_def Let_def split: option.splits if_splits)

lemma redis_record_law:
  assumes "plan_redis_ok s" "redis_record cfg p input s = (rc, s')"
  shows "plan_redis_ok s' \<and> pr_now s' = pr_now s \<and>
    record_spec cfg p input (pr_now s, redis_view s) = (rc, redis_view s')"
proof (cases "computeUntil (pr_now s) input cfg")
  case (Inl e)
  then have "assertValid input = Some e"
    by (auto simp: computeUntil_def Let_def split: option.splits if_splits)
  with assms Inl show ?thesis by (simp add: redis_record_def record_spec_def)
next
  case (Inr b)
  obtain u src where b: "b = (u, src)" by (cases b)
  note c = Inr [unfolded b]
  obtain z where z: "u = of_int z" using computeUntil_floor [OF c] by blast
  have k: "isPlanCooldownKind (in_kind input)" by (rule computeUntil_kind [OF c])
  have valid: "assertValid input = None" using c by (auto simp: computeUntil_def split: option.splits)
  note put = redis_put [OF assms(1) k, of p z src]
  note rec_simps = redis_record_def valid record_script_end [OF c] Let_def record_spec_def c
  show ?thesis
  proof (rule redis_view_cases [OF assms(1), of p])
    assume "pr_db s (pcd_key p) = None" "redis_view s p = None"
    then show ?thesis using assms(2) put k by (auto simp: rec_simps pr_get_def z parse_encoded_pause)
  next
    fix k' z' src'
    assume e: "isPlanCooldownKind k'"
      "redis_view s p = live_at (pr_now s) \<lparr>pc_kind = k', pc_until = of_int z', pc_source = src'\<rparr>"
      "pr_get (pcd_key p) s = (if z' \<le> pr_now s then None else Some (encode_pause k' (of_int z') src'))"
    have "obj_prop ''until'' (pause_json k' z' src') = Some (JNum (of_int z'))"
      by (simp add: pause_json_def obj_prop_def)
    then show ?thesis
      using assms e k put
      by (auto simp: rec_simps z live_at_def parse_encoded_pause json_parse_pause split: if_splits)
  qed
qed

interpretation shared_plan: plan_store "plan_redis_ops cfg" cfg redis_wait redis_view pr_now plan_redis_ok
  for cfg
proof unfold_locales
  fix s p c assume ok: "plan_redis_ok s" and v: "redis_view s p = Some c"
  show "of_int (pr_now s) < pc_until c"
    by (rule redis_view_cases [OF ok, of p]) (use v in \<open>auto simp: live_at_def split: if_splits\<close>)
next
  fix s s' p r assume "plan_redis_ok s" "po_check (plan_redis_ops cfg) p s = (r, s')"
  then show "plan_redis_ok s' \<and> pr_now s' = pr_now s \<and> redis_view s' = redis_view s \<and> r = Inr (redis_view s p)"
    by (auto simp: plan_redis_ops_def redis_view_def)
next
  fix s s' ps rs assume "plan_redis_ok s" "po_checkMany (plan_redis_ops cfg) ps s = (rs, s')"
  then show "plan_redis_ok s' \<and> pr_now s' = pr_now s \<and> redis_view s' = redis_view s \<and>
      rs = Inr (map (\<lambda>i. (i, redis_view s i)) (js_set ps))"
    by (auto simp: plan_redis_ops_def redis_checkMany_map)
next
  fix s s' p input rc assume "plan_redis_ok s" "po_record (plan_redis_ops cfg) p input s = (rc, s')"
  then show "plan_redis_ok s' \<and> pr_now s' = pr_now s \<and>
      record_spec cfg p input (pr_now s, redis_view s) = (rc, redis_view s')"
    by (intro redis_record_law) (simp_all add: plan_redis_ops_def)
next
  fix s s' p l assume "plan_redis_ok s" "po_lift (plan_redis_ops cfg) p s = (l, s')"
  then show "plan_redis_ok s' \<and> pr_now s' = pr_now s \<and> redis_view s' = (redis_view s)(p := None) \<and> l = Inr ()"
    using redis_lift_law [of s p] by (auto simp: plan_redis_ops_def redis_lift_def)
next
  fix s d assume ok: "plan_redis_ok s"
  have "redis_view (redis_wait (int d) s) p = Option.bind (redis_view s p) (live_at (pr_now s + int d))" for p
    by (rule redis_view_cases [OF ok, of p])
      (simp_all add: redis_view_entry redis_wait_def parse_encoded_pause live_at_def)
  with ok show "plan_redis_ok (redis_wait (int d) s) \<and> pr_now (redis_wait (int d) s) = pr_now s + int d \<and>
      redis_view (redis_wait (int d) s) = (\<lambda>p. Option.bind (redis_view s p) (live_at (pr_now s + int d)))"
    by (auto simp: plan_redis_ok_def redis_wait_def)
qed

section \<open>Properties\<close>

text \<open>C21 (refinement). The Redis store (a Lua script that writes JSON text and compares the ends of
  pauses, keys that expire by themselves, \<open>MGET\<close> in chunks) answers every sequence of commands,
  with time passing in between, exactly as the in-memory store does, starting from stores that
  show the same pauses at the same time.\<close>

theorem redis_plan_refines_memory:
  assumes "plan_redis_ok r" "redis_view r = pm_view m" "pr_now r = pm_now m"
  shows "fst (run_all (plan_do (plan_redis_ops cfg) redis_wait) cmds r) =
         fst (run_all (plan_do (pm_ops cfg) pm_wait) cmds m)"
proof -
  obtain outs r' where r: "run_all (plan_do (plan_redis_ops cfg) redis_wait) cmds r = (outs, r')" by fastforce
  obtain outs' m' where m: "run_all (plan_do (pm_ops cfg) pm_wait) cmds m = (outs', m')" by fastforce
  from shared_plan.run_refines [OF assms(1) r] mem.run_refines [OF _ m] assms(2,3)
  have "outs = outs'" by auto
  then show ?thesis by (simp add: r m)
qed

definition demo_plan_redis :: plan_redis where
  "demo_plan_redis = \<lparr>pr_db = Map.empty, pr_now = 1000\<rparr>"

definition demo_plan_mem :: plan_mem where
  "demo_plan_mem = \<lparr>pm_records = Map.empty, pm_now = 1000\<rparr>"

definition demo_input :: plan_input where
  "demo_input = \<lparr>in_kind = quota_exhausted, in_mode = RelEnd, in_value = Some 5\<rparr>"

lemma demo_plan_ok: "plan_redis_ok demo_plan_redis" "redis_view demo_plan_redis = pm_view demo_plan_mem"
  "pr_now demo_plan_redis = pm_now demo_plan_mem"
  by (simp_all add: demo_plan_redis_def demo_plan_mem_def plan_redis_ok_def fun_eq_iff pm_view_alt
      redis_view_entry)

lemma redis_plan_refines_memory_witness:
  "fst (run_all (plan_do (plan_redis_ops DEFAULT_PLAN_COOLDOWN_CONFIG) redis_wait)
      [CmdRecord ''p'' demo_input, CmdWait 60000, CmdCheck ''p''] demo_plan_redis) =
   [Inr (Recorded \<lparr>pc_kind = quota_exhausted, pc_until = 61000, pc_source = ByProvider\<rparr>),
    Inr Done, Inr (Pause None)]"
  unfolding redis_plan_refines_memory [OF demo_plan_ok]
  by (simp add: pm_ops_def pm_record_def demo_input_def demo_plan_mem_def computeUntil_def pm_live_def
      assertValid_def isPlanCooldownKind_def PLAN_COOLDOWN_KINDS_def DEFAULT_PLAN_COOLDOWN_CONFIG_def
      or_else_def js_floor_def pm_wait_def Let_def)

lemma clamp_floor:
  "a \<le> b \<Longrightarrow> of_int a \<le> js_floor (min (max x (of_int a)) (of_int b)) \<and>
     js_floor (min (max x (of_int a)) (of_int b)) \<le> of_int b"
  by (auto simp: js_floor_def min_def max_def le_floor_iff floor_le_iff)

text \<open>C30 (bounds). A pause whose end the provider stated (an instant or a delay) ends inside the
  configured bounds, at least \<open>minMs\<close> and at most \<open>maxMs\<close> from now whatever was stated; one
  with a default length ends after now.\<close>

theorem pause_end_bounds:
  assumes "minMs cfg \<le> maxMs cfg"
  shows "case computeUntil now input cfg of
      Inl e \<Rightarrow> assertValid input = Some e
    | Inr (u, ByProvider) \<Rightarrow> of_int (now + minMs cfg) \<le> u \<and> u \<le> of_int (now + maxMs cfg)
    | Inr (u, ByDefault) \<Rightarrow> of_int now \<le> u"
proof -
  have default: "(of_int now :: rat) \<le> js_floor (of_int now + v)" if "0 < v" for v :: rat
    using that by (simp add: js_floor_def)
  show ?thesis
    using clamp_floor [of "now + minMs cfg" "now + maxMs cfg"] assms
    by (auto simp: computeUntil_def Let_def assertValid_def or_else_def default
        split: option.splits if_splits cooldown_source.splits)
qed

lemma pause_end_bounds_witness:
  "case computeUntil 1000 demo_input DEFAULT_PLAN_COOLDOWN_CONFIG of
      Inl e \<Rightarrow> assertValid demo_input = Some e
    | Inr (u, ByProvider) \<Rightarrow> of_int (1000 + minMs DEFAULT_PLAN_COOLDOWN_CONFIG) \<le> u
        \<and> u \<le> of_int (1000 + maxMs DEFAULT_PLAN_COOLDOWN_CONFIG)
    | Inr (u, ByDefault) \<Rightarrow> of_int 1000 \<le> u"
  by (rule pause_end_bounds) (simp add: DEFAULT_PLAN_COOLDOWN_CONFIG_def)

text \<open>Recording only ever extends: a live pause in the shared store keeps or
  postpones its end under any further record of the same provider, valid or not, and no other
  provider's pause changes.\<close>

theorem pause_only_extends:
  assumes "plan_redis_ok s" "redis_record cfg p input s = (rc, s')" "redis_view s p = Some c"
  shows "(case redis_view s' p of Some c' \<Rightarrow> pc_until c \<le> pc_until c' | None \<Rightarrow> False) \<and>
    (q = p \<or> redis_view s' q = redis_view s q)"
proof -
  from assms(2) have r: "po_record (plan_redis_ops cfg) p input s = (rc, s')" by (simp add: plan_redis_ops_def)
  show ?thesis
    using shared_plan.record_extends [OF assms(1) r assms(3)] shared_plan.record_other [OF assms(1) r]
    by fastforce
qed

definition paused_redis :: plan_redis where
  "paused_redis = \<lparr>pr_db = [pcd_key ''p'' \<mapsto> (encode_pause risk_control (of_int 90000) ByDefault, of_int 90000)],
     pr_now = 1000\<rparr>"

lemma paused_redis_ok: "plan_redis_ok paused_redis"
  "redis_view paused_redis ''p'' = Some \<lparr>pc_kind = risk_control, pc_until = of_int 90000, pc_source = ByDefault\<rparr>"
  using parse_encoded_pause [of risk_control 90000 ByDefault]
  by (auto simp: plan_redis_ok_def paused_redis_def redis_view_entry
      isPlanCooldownKind_def PLAN_COOLDOWN_KINDS_def)

lemma pause_only_extends_witness:
  "(case redis_view (snd (redis_record DEFAULT_PLAN_COOLDOWN_CONFIG ''p'' demo_input paused_redis)) ''p'' of
      Some c' \<Rightarrow> of_int 90000 \<le> pc_until c' | None \<Rightarrow> False)"
  using pause_only_extends [OF paused_redis_ok(1) surjective_pairing paused_redis_ok(2),
      of DEFAULT_PLAN_COOLDOWN_CONFIG demo_input "''p''"]
  unfolding plan_cooldown.simps by (rule conjunct1)

text \<open>A shared store behind a connection: while the flag is set every operation is refused and
  the store is left as it is.\<close>

definition outage :: "'s plan_ops \<Rightarrow> (bool \<times> 's) plan_ops" where
  "outage ops =
     \<lparr>po_check = (\<lambda>p bs. if fst bs then (Inl ''unreachable'', bs) else map_prod id (Pair False) (po_check ops p (snd bs))),
      po_checkMany = (\<lambda>ps bs. if fst bs then (Inl ''unreachable'', bs)
             else map_prod id (Pair False) (po_checkMany ops ps (snd bs))),
      po_record = (\<lambda>p i bs. if fst bs then (Inl ''unreachable'', bs)
             else map_prod id (Pair False) (po_record ops p i (snd bs))),
      po_lift = (\<lambda>p bs. if fst bs then (Inl ''unreachable'', bs)
             else map_prod id (Pair False) (po_lift ops p (snd bs)))\<rparr>"

text \<open>What an instance runs: the shared store in front, its own map behind.\<close>

definition deployed :: "plan_config \<Rightarrow> (bool \<times> plan_redis, plan_mem) failover plan_ops" where
  "deployed cfg = failover_ops (outage (plan_redis_ops cfg)) (pm_ops cfg)"

text \<open>C31 (error). A lift through the failover composite succeeds exactly when the shared store was
  reachable; the local store is cleared either way, so after a successful lift no side shows the
  pause, whether or not the shared store answers the next check, and a failed one is reported.\<close>

theorem lift_is_honest:
  assumes "plan_redis_ok (snd (fo_primary s))"
  shows "case po_lift (deployed cfg) p s of
      (Inr _, s') \<Rightarrow> \<not> fst (fo_primary s) \<and>
        (\<forall>down. fst (po_check (deployed cfg) p (s'\<lparr>fo_primary := (down, snd (fo_primary s'))\<rparr>)) = Inr None)
    | (Inl e, s') \<Rightarrow> fst (fo_primary s) \<and> fo_reported s' = fo_reported s @ [e] \<and>
        fst (po_check (deployed cfg) p s') = Inr None"
  using redis_lift_law [OF assms(1), of p]
  by (cases "fst (fo_primary s)")
    (auto simp: deployed_def failover_ops_def outage_def fo_lift_def fo_try_def plan_redis_ops_def
      pm_ops_def report_def Let_def redis_view_def fun_eq_iff pm_lift_def pm_live_def)

lemma lift_is_honest_witness:
  "case po_lift (deployed DEFAULT_PLAN_COOLDOWN_CONFIG) ''p''
        \<lparr>fo_primary = (True, paused_redis), fo_fallback = demo_plan_mem, fo_reported = []\<rparr> of
      (Inr _, s') \<Rightarrow> False
    | (Inl e, s') \<Rightarrow> fo_reported s' = [e]"
  using lift_is_honest [of "\<lparr>fo_primary = (True, paused_redis), fo_fallback = demo_plan_mem, fo_reported = []\<rparr>"
      DEFAULT_PLAN_COOLDOWN_CONFIG "''p''"]
  by (auto simp: paused_redis_ok split: sum.splits prod.splits)

end
