(* ===== verification/Usage.thy ===== *)
theory Usage
  imports Complex_Main Ir
begin

text \<open>
  \<open>translate/usage.ts\<close>, \<open>translate/stop-reason.ts\<close> and \<open>recording/cost.ts\<close>: token usage in
  uncached components and what it costs, and the canonical stop reasons. Anthropic counts input
  without the cached tokens, OpenAI with them, so a conversion is a formula and not a copy.
  Prices are exact rationals.
\<close>

section \<open>Stop reasons\<close>

definition stopReasonFromOpenai :: "string option \<Rightarrow> stop_reason" where
  "stopReasonFromOpenai finishReason =
     (case finishReason of
        None \<Rightarrow> StopOther
      | Some r \<Rightarrow>
          if r = ''stop'' then StopStop
          else if r = ''length'' then StopLength
          else if r = ''tool_calls'' \<or> r = ''function_call'' then StopToolUse
          else if r = ''content_filter'' then StopContentFilter
          else StopOther)"

definition stopReasonFromAnthropic :: "string option \<Rightarrow> stop_reason" where
  "stopReasonFromAnthropic stopReason =
     (case stopReason of
        None \<Rightarrow> StopOther
      | Some r \<Rightarrow>
          if r = ''end_turn'' \<or> r = ''stop_sequence'' then StopStop
          else if r = ''max_tokens'' \<or> r = ''model_context_window_exceeded'' then StopLength
          else if r = ''tool_use'' then StopToolUse
          else if r = ''refusal'' then StopContentFilter
          else if r = ''pause_turn'' then StopPause
          else StopOther)"

definition stopReasonToOpenai :: "stop_reason \<Rightarrow> string option \<Rightarrow> string option" where
  "stopReasonToOpenai reason raw =
     (let known = [''stop'', ''length'', ''tool_calls'', ''function_call'', ''content_filter''] in
      if (case raw of Some r \<Rightarrow> r \<in> set known | None \<Rightarrow> False) then raw
      else case reason of
        StopStop \<Rightarrow> Some ''stop''
      | StopLength \<Rightarrow> Some ''length''
      | StopToolUse \<Rightarrow> Some ''tool_calls''
      | StopContentFilter \<Rightarrow> Some ''content_filter''
      | StopPause \<Rightarrow> Some ''stop''
      | StopError \<Rightarrow> None
      | StopOther \<Rightarrow> Some ''stop'')"

definition stopReasonToAnthropic :: "stop_reason \<Rightarrow> string option \<Rightarrow> string option" where
  "stopReasonToAnthropic reason raw =
     (let known = [''end_turn'', ''stop_sequence'', ''max_tokens'', ''tool_use'', ''refusal'', ''pause_turn'',
                   ''model_context_window_exceeded''] in
      if (case raw of Some r \<Rightarrow> r \<in> set known | None \<Rightarrow> False) then raw
      else case reason of
        StopStop \<Rightarrow> Some ''end_turn''
      | StopLength \<Rightarrow> Some ''max_tokens''
      | StopToolUse \<Rightarrow> Some ''tool_use''
      | StopContentFilter \<Rightarrow> Some ''refusal''
      | StopPause \<Rightarrow> Some ''pause_turn''
      | StopError \<Rightarrow> None
      | StopOther \<Rightarrow> Some ''end_turn'')"

section \<open>Usage\<close>

record ant_usage =
  input_tokens :: int
  output_tokens :: int
  cache_creation_input_tokens :: "int option"
  cache_read_input_tokens :: "int option"

text \<open>\<open>prompt_tokens_details\<close> may be absent, and its \<open>cached_tokens\<close> too.\<close>

record oai_usage =
  prompt_tokens :: int
  completion_tokens :: int
  total_tokens :: "int option"
  prompt_tokens_details :: "int option option"

definition usageFromAnthropic :: "ant_usage option \<Rightarrow> normalized_usage option" where
  "usageFromAnthropic u =
     map_option (\<lambda>u. \<lparr>inputTokens = input_tokens u, outputTokens = output_tokens u,
                     cacheReadTokens = cache_read_input_tokens u,
                     cacheWriteTokens = cache_creation_input_tokens u\<rparr>) u"

definition usageToAnthropic :: "normalized_usage \<Rightarrow> ant_usage" where
  "usageToAnthropic u =
     \<lparr>input_tokens = inputTokens u, output_tokens = outputTokens u,
      cache_creation_input_tokens = cacheWriteTokens u, cache_read_input_tokens = cacheReadTokens u\<rparr>"

definition opt0 :: "int option \<Rightarrow> int" where
  "opt0 x = (case x of Some v \<Rightarrow> v | None \<Rightarrow> 0)"

definition usageFromOpenai :: "oai_usage option \<Rightarrow> normalized_usage option" where
  "usageFromOpenai u =
     map_option (\<lambda>u. let cached = Option.bind (prompt_tokens_details u) id; cacheRead = opt0 cached in
       \<lparr>inputTokens = prompt_tokens u - cacheRead, outputTokens = completion_tokens u,
        cacheReadTokens = cached, cacheWriteTokens = None\<rparr>) u"

definition usageToOpenai :: "normalized_usage \<Rightarrow> oai_usage" where
  "usageToOpenai u =
     (let cacheRead = opt0 (cacheReadTokens u); cacheWrite = opt0 (cacheWriteTokens u);
          promptTokens = inputTokens u + cacheRead + cacheWrite
      in \<lparr>prompt_tokens = promptTokens, completion_tokens = outputTokens u,
          total_tokens = Some (promptTokens + outputTokens u),
          prompt_tokens_details = map_option Some (cacheReadTokens u)\<rparr>)"

definition empty_usage :: partial_usage where
  "empty_usage = \<lparr>p_inputTokens = None, p_outputTokens = None, p_cacheReadTokens = None,
                  p_cacheWriteTokens = None\<rparr>"

definition later :: "'a option \<Rightarrow> 'a option \<Rightarrow> 'a option" where
  "later old new = (case new of Some v \<Rightarrow> Some v | None \<Rightarrow> old)"

definition merge_one :: "partial_usage \<Rightarrow> partial_usage option \<Rightarrow> partial_usage" where
  "merge_one out part =
     (case part of
        None \<Rightarrow> out
      | Some p \<Rightarrow>
          \<lparr>p_inputTokens = later (p_inputTokens out) (p_inputTokens p),
           p_outputTokens = later (p_outputTokens out) (p_outputTokens p),
           p_cacheReadTokens = later (p_cacheReadTokens out) (p_cacheReadTokens p),
           p_cacheWriteTokens = later (p_cacheWriteTokens out) (p_cacheWriteTokens p)\<rparr>)"

definition mergePartialUsage :: "partial_usage option list \<Rightarrow> partial_usage" where
  "mergePartialUsage parts = foldl merge_one empty_usage parts"

definition partialToNormalized :: "partial_usage \<Rightarrow> normalized_usage option" where
  "partialToNormalized p =
     (case (p_inputTokens p, p_outputTokens p) of
        (Some i, Some out) \<Rightarrow>
          Some \<lparr>inputTokens = i, outputTokens = out, cacheReadTokens = p_cacheReadTokens p,
                cacheWriteTokens = p_cacheWriteTokens p\<rparr>
      | _ \<Rightarrow> None)"

text \<open>The usage object of a stream event, each field present or absent.\<close>

record ant_partial_usage =
  a_input_tokens :: "int option"
  a_output_tokens :: "int option"
  a_cache_creation_input_tokens :: "int option"
  a_cache_read_input_tokens :: "int option"

definition partialUsageFromAnthropicStart :: "ant_partial_usage option \<Rightarrow> partial_usage" where
  "partialUsageFromAnthropicStart u =
     (case u of
        None \<Rightarrow> empty_usage
      | Some u \<Rightarrow>
          \<lparr>p_inputTokens = a_input_tokens u, p_outputTokens = a_output_tokens u,
           p_cacheReadTokens = a_cache_read_input_tokens u,
           p_cacheWriteTokens = a_cache_creation_input_tokens u\<rparr>)"

definition partial_of :: "normalized_usage \<Rightarrow> partial_usage" where
  "partial_of u = \<lparr>p_inputTokens = Some (inputTokens u), p_outputTokens = Some (outputTokens u),
                   p_cacheReadTokens = cacheReadTokens u, p_cacheWriteTokens = cacheWriteTokens u\<rparr>"

definition partialUsageFromOpenai :: "oai_usage \<Rightarrow> partial_usage" where
  "partialUsageFromOpenai u =
     (case usageFromOpenai (Some u) of Some n \<Rightarrow> partial_of n | None \<Rightarrow> empty_usage)"

section \<open>Cost\<close>

record resolved_usage =
  ru_inputTokens :: int
  ru_outputTokens :: int
  ru_cacheReadTokens :: "int option"
  ru_cacheWriteTokens :: "int option"
  estimated :: bool

datatype price_source = PsModel | PsLocal | PsBundled | PsRefresh | PsManual | PsNativeFamily | PsListed

datatype price_mode = PriceSync | PriceBatch

text \<open>A resolved unit price with its provenance; a date is epoch milliseconds.\<close>

record price_snapshot =
  ps_priceVersionId :: "string option"
  ps_modelKey :: "string option"
  inputPricePer1m :: rat
  outputPricePer1m :: rat
  cacheReadPricePer1m :: "rat option"
  cacheWritePricePer1m :: "rat option"
  isFree :: bool
  ps_source :: price_source
  ps_validFrom :: "int option"
  ps_mode :: price_mode

definition computeCost :: "resolved_usage \<Rightarrow> price_snapshot option \<Rightarrow> rat option" where
  "computeCost usage price =
     (case price of
        None \<Rightarrow> None
      | Some pr \<Rightarrow>
          if isFree pr then Some 0
          else
            let cacheRead = opt0 (ru_cacheReadTokens usage);
                cacheWrite = opt0 (ru_cacheWriteTokens usage)
            in
            if cacheRead > 0 \<and> cacheReadPricePer1m pr = None then None
            else if cacheWrite > 0 \<and> cacheWritePricePer1m pr = None then None
            else
              let cost = of_int (ru_inputTokens usage) / 1000000 * inputPricePer1m pr
                         + of_int (ru_outputTokens usage) / 1000000 * outputPricePer1m pr;
                  cost1 = (if cacheRead > 0
                    then cost + of_int cacheRead / 1000000 * (case cacheReadPricePer1m pr of Some q \<Rightarrow> q | None \<Rightarrow> 0)
                    else cost)
              in Some (if cacheWrite > 0
                    then cost1 + of_int cacheWrite / 1000000 * (case cacheWritePricePer1m pr of Some q \<Rightarrow> q | None \<Rightarrow> 0)
                    else cost1))"

definition estimateTokens :: "int \<Rightarrow> int" where
  "estimateTokens chars = (max 0 chars + 3) div 4"

definition resolveUsage :: "partial_usage option \<Rightarrow> int \<Rightarrow> int \<Rightarrow> resolved_usage" where
  "resolveUsage providerUsage requestChars outputChars =
     (let u = (case providerUsage of Some p \<Rightarrow> p | None \<Rightarrow> empty_usage);
          cacheRead = p_cacheReadTokens u; cacheWrite = p_cacheWriteTokens u
      in case (p_inputTokens u, p_outputTokens u) of
           (Some i, Some out) \<Rightarrow>
             \<lparr>ru_inputTokens = i, ru_outputTokens = out, ru_cacheReadTokens = cacheRead,
              ru_cacheWriteTokens = cacheWrite, estimated = False\<rparr>
         | (i, out) \<Rightarrow>
             (let knownCache = opt0 cacheRead + opt0 cacheWrite in
              \<lparr>ru_inputTokens = (case i of Some v \<Rightarrow> v
                 | None \<Rightarrow> max 0 (estimateTokens requestChars - knownCache)),
               ru_outputTokens = (case out of Some v \<Rightarrow> v | None \<Rightarrow> estimateTokens outputChars),
               ru_cacheReadTokens = cacheRead, ru_cacheWriteTokens = cacheWrite, estimated = True\<rparr>))"

end
