(* ===== verification/ChainWalk.thy ===== *)
theory ChainWalk
  imports PlanCooldown Usage
begin

text \<open>
  \<open>proxy/core.ts\<close>: walking the fallback chain. The buffered walk and the streamed walk with its
  commit boundary, the frames of a committed stream and the outcome they settle, the billing
  evidence of a walk (with \<open>recording/billing.ts\<close>), and the watchdog that waits for the next
  event. The world is the breaker's world with the plan store beside it; a provider is what it
  does to the world while it is called, so other requests may run meanwhile.
\<close>

section \<open>The world and the members of a chain\<close>

record ('p, 'q) cworld = "'p world" +
  cw_plan :: 'q
  cw_planFaults :: "fault list"

text \<open>A streamed call: the events with the effect the rest of the process had while each was
  awaited, how the generator ends, and whether that end was our own watchdog aborting it.\<close>

record 'w gen_run =
  gr_events :: "(stream_event \<times> ('w \<Rightarrow> 'w)) list"
  gr_end :: gen_end
  gr_env :: "'w \<Rightarrow> 'w"
  gr_timedOut :: bool

record 'w provider_adapter =
  pa_chat :: "normalized_request \<Rightarrow> 'w \<Rightarrow> (raw_error + normalized_response) \<times> 'w"
  pa_chatStream :: "normalized_request \<Rightarrow> int \<Rightarrow> 'w gen_run"

record 'w chain_attempt =
  at_providerId :: string
  at_externalModelId :: string
  at_buildAdapter :: "bool \<Rightarrow> 'w \<Rightarrow> (raw_error + 'w provider_adapter) \<times> 'w"
  at_firstEventTimeoutMs :: "int option"
  at_probeFirstEventTimeoutMs :: "int option"
  at_probeLeaseMs :: "int option"
  at_maxOutputTokens :: "int option"
  at_hasOnSettle :: bool
  at_planCooldown :: bool

text \<open>What both walkers are given: the breaker's store and configuration, the plan store, the
  hooks, the two abort signals, the client's serializer and the default watchdog bound.\<close>

record ('w, 'p, 'q, 'wire) chain_env =
  ce_store :: "'p store_ops"
  ce_cfg :: breaker_config
  ce_plan :: "'q plan_ops"
  ce_planCfg :: plan_config
  ce_hasOnOpen :: bool
  ce_hasOnState :: bool
  ce_aborted :: "'w \<Rightarrow> bool"
  ce_callerAbort :: "'w \<Rightarrow> bool"
  ce_responseOut :: "normalized_response \<Rightarrow> raw_error + 'wire"
  ce_firstEventTimeoutMs :: int

definition hooks_for :: "('w, 'p, 'q, 'wire) chain_env \<Rightarrow> 'v chain_attempt \<Rightarrow> hooks" where
  "hooks_for env att =
     \<lparr>has_onOpen = ce_hasOnOpen env, has_onState = ce_hasOnState env, has_onSettle = at_hasOnSettle att\<rparr>"

section \<open>Errors of an attempt\<close>

definition plain_error :: "provider_error_kind \<Rightarrow> string \<Rightarrow> provider_error" where
  "plain_error kind message = ProviderError kind message None None None None None"

definition toProviderError :: "raw_error \<Rightarrow> provider_error" where
  "toProviderError err =
     (case err of Provider e \<Rightarrow> e | _ \<Rightarrow> plain_error unavailable ''upstream request failed'')"

text \<open>An error event of the stream, from the diagnostic the adapter kept.\<close>

definition fromErrorEvent :: "string \<Rightarrow> stream_diagnostic option \<Rightarrow> provider_error" where
  "fromErrorEvent ty diag =
     ProviderError (event_kind ty diag) ''upstream stream error'' None
       (Option.bind diag diag_requestId) (Option.bind diag diag_providerMessage)
       (Option.bind diag diag_markers) None"

datatype attempt_billing = NotSent | Rejected | Uncertain

definition attemptBilling :: "raw_error \<Rightarrow> provider_error \<Rightarrow> attempt_billing" where
  "attemptBilling rawErr mapped =
     (if (case rawErr of CircuitOpen _ \<Rightarrow> True | SsrfBlocked \<Rightarrow> True | _ \<Rightarrow> False)
         \<or> pe_kind mapped = credential
      then NotSent
      else if rawErr = Cancelled then Uncertain
      else if pe_status mapped \<noteq> None then Rejected
      else Uncertain)"

record attempt_failure =
  af_index :: nat
  af_error :: provider_error
  af_dispatched :: "bool option"
  af_billing :: "attempt_billing option"
  af_skip :: bool   \<comment> \<open>set for a plan-cooldown skip\<close>

definition chainBillingEvidence ::
  "attempt_failure list \<Rightarrow> attempt_billing option \<Rightarrow> attempt_billing list" where
  "chainBillingEvidence fails terminalBilling =
     map (\<lambda>f. or_else (af_billing f) Uncertain) fails
       @ (case terminalBilling of Some b \<Rightarrow> [b] | None \<Rightarrow> [])"

definition walkUnbilled :: "attempt_billing list option \<Rightarrow> bool" where
  "walkUnbilled classes =
     (case classes of
        None \<Rightarrow> False
      | Some cs \<Rightarrow> cs \<noteq> [] \<and> list_all (\<lambda>c. c = NotSent \<or> c = Rejected) cs)"

definition attemptRequest :: "normalized_request \<Rightarrow> 'w chain_attempt \<Rightarrow> normalized_request" where
  "attemptRequest request att =
     (let base = request\<lparr>rq_model := at_externalModelId att\<rparr> in
      case at_maxOutputTokens att of
        None \<Rightarrow> base
      | Some n \<Rightarrow> base\<lparr>rq_params := (rq_params base)\<lparr>maxOutputTokens := Some n\<rparr>\<rparr>)"

definition planPauseFailure :: "nat \<Rightarrow> provider_error_kind \<Rightarrow> attempt_failure" where
  "planPauseFailure index kind =
     \<lparr>af_index = index, af_error = plain_error kind ''provider paused by a plan cooldown'',
      af_dispatched = Some False, af_billing = Some NotSent, af_skip = True\<rparr>"

text \<open>\<open>Untyped\<close> stands for every thrown value of no class the code names; the SSRF refusal is one.\<close>

definition fallbackEligible :: "raw_error \<Rightarrow> bool" where
  "fallbackEligible err =
     (case err of
        Cancelled \<Rightarrow> False
      | AbortError \<Rightarrow> False
      | CircuitOpen _ \<Rightarrow> True
      | Provider e \<Rightarrow> shouldFallback (pe_kind e)
      | _ \<Rightarrow> False)"

definition dispatched_failure :: "nat \<Rightarrow> raw_error \<Rightarrow> attempt_failure" where
  "dispatched_failure i err =
     (let mapped = toProviderError err in
      \<lparr>af_index = i, af_error = mapped,
       af_dispatched = Some (case err of CircuitOpen _ \<Rightarrow> False | _ \<Rightarrow> True),
       af_billing = Some (attemptBilling err mapped), af_skip = False\<rparr>)"

section \<open>The plan cooldown around an attempt\<close>

definition pausedBy ::
  "(('p, 'q) cworld, 'p, 'q, 'wire) chain_env \<Rightarrow> ('p, 'q) cworld chain_attempt \<Rightarrow> ('p, 'q) cworld
     \<Rightarrow> plan_cooldown option \<times> ('p, 'q) cworld" where
  "pausedBy env att w =
     (if \<not> at_planCooldown att then (None, w)
      else case planCooldownFor (ce_plan env) (at_providerId att) (cw_plan w, cw_planFaults w) of
             (r, (q, fs)) \<Rightarrow> (r, w\<lparr>cw_plan := q, cw_planFaults := fs\<rparr>))"

definition recordPause ::
  "(('p, 'q) cworld, 'p, 'q, 'wire) chain_env \<Rightarrow> ('p, 'q) cworld chain_attempt \<Rightarrow> provider_error
     \<Rightarrow> ('p, 'q) cworld \<Rightarrow> ('p, 'q) cworld" where
  "recordPause env att mapped w =
     (if \<not> at_planCooldown att then w
      else case recordPlanCooldown (ce_plan env) (ce_planCfg env) (at_providerId att) mapped
                  (cw_plan w, cw_planFaults w) of
             (q, fs) \<Rightarrow> w\<lparr>cw_plan := q, cw_planFaults := fs\<rparr>)"

section \<open>The buffered walk\<close>

datatype 'wire buffered_result =
    BufferedOk 'wire normalized_response nat "attempt_failure list"
  | BufferedError provider_error "attempt_failure list" bool "attempt_billing option"

definition callMember ::
  "(('p, 'q) cworld, 'p, 'q, 'wire) chain_env \<Rightarrow> ('p, 'q) cworld chain_attempt \<Rightarrow> normalized_request
     \<Rightarrow> ('p, 'q) cworld \<Rightarrow> (raw_error + normalized_response) \<times> ('p, 'q) cworld" where
  "callMember env att req w =
     withBreaker (ce_store env) (ce_cfg env) (hooks_for env att) (at_providerId att)
       (\<lambda>probe w. case at_buildAdapter att probe w of
            (Inl err, w') \<Rightarrow> (Inl err, w')
          | (Inr ad, w') \<Rightarrow> pa_chat ad req w')
       (ce_callerAbort env) (at_probeLeaseMs att) w"

text \<open>Serializing the answer happens inside the same \<open>try\<close>: its throw is caught like the call's.\<close>

definition serveMember ::
  "(('p, 'q) cworld, 'p, 'q, 'wire) chain_env \<Rightarrow> ('p, 'q) cworld chain_attempt \<Rightarrow> normalized_request
     \<Rightarrow> ('p, 'q) cworld \<Rightarrow> (raw_error + 'wire \<times> normalized_response) \<times> ('p, 'q) cworld" where
  "serveMember env att req w =
     (case callMember env att req w of
        (Inl err, w') \<Rightarrow> (Inl err, w')
      | (Inr response, w') \<Rightarrow>
          ((case ce_responseOut env response of
              Inl err \<Rightarrow> Inl err
            | Inr wire \<Rightarrow> Inr (wire, response)), w'))"

primrec buffered_from ::
  "(('p, 'q) cworld, 'p, 'q, 'wire) chain_env \<Rightarrow> normalized_request \<Rightarrow> ('p, 'q) cworld chain_attempt list
     \<Rightarrow> nat \<Rightarrow> attempt_failure list \<Rightarrow> provider_error \<Rightarrow> ('p, 'q) cworld
     \<Rightarrow> 'wire buffered_result \<times> ('p, 'q) cworld" where
  "buffered_from env request [] i fails lastError w =
     (BufferedError lastError fails (ce_callerAbort env w) (if i = 0 then Some NotSent else None), w)"
| "buffered_from env request (att # rest) i fails lastError w =
     (if ce_aborted env w
      then (BufferedError (plain_error unavailable ''cancelled'') fails (ce_callerAbort env w) (Some NotSent), w)
      else
        case pausedBy env att w of
          (Some pause, w1) \<Rightarrow>
            (let skipped = planPauseFailure i (pc_kind pause) in
             buffered_from env request rest (Suc i) (fails @ [skipped]) (af_error skipped) w1)
        | (None, w1) \<Rightarrow>
            (case serveMember env att (attemptRequest request att) w1 of
               (Inr (wire, response), w2) \<Rightarrow> (BufferedOk wire response i fails, w2)
             | (Inl err, w2) \<Rightarrow>
                 (let mapped = toProviderError err; w3 = recordPause env att mapped w2 in
                  if \<not> fallbackEligible err
                  then (BufferedError mapped fails (ce_callerAbort env w3) (Some (attemptBilling err mapped)), w3)
                  else buffered_from env request rest (Suc i) (fails @ [dispatched_failure i err]) mapped w3)))"

definition runBufferedChain ::
  "(('p, 'q) cworld, 'p, 'q, 'wire) chain_env \<Rightarrow> ('p, 'q) cworld chain_attempt list \<Rightarrow> normalized_request
     \<Rightarrow> ('p, 'q) cworld \<Rightarrow> 'wire buffered_result \<times> ('p, 'q) cworld" where
  "runBufferedChain env attempts request w =
     buffered_from env request attempts 0 [] (plain_error unavailable ''no chain members'') w"

section \<open>Opening a stream\<close>

text \<open>A committed stream: its first event is in hand, the rest is still to be pulled.\<close>

record 'w committed =
  co_first :: stream_event
  co_run :: "'w gen_run"
  co_token :: token
  co_loop :: loop_state

definition memberBound :: "('w, 'p, 'q, 'wire) chain_env \<Rightarrow> 'v chain_attempt \<Rightarrow> bool \<Rightarrow> int" where
  "memberBound env att probe =
     (let own = or_else (at_firstEventTimeoutMs att) (ce_firstEventTimeoutMs env) in
      case at_probeFirstEventTimeoutMs att of
        Some p \<Rightarrow> if probe then max own p else own
      | None \<Rightarrow> own)"

text \<open>The adapter is built inside the generator, after admission; a throwing build ends it.\<close>

definition buildThenStream ::
  "'w chain_attempt \<Rightarrow> normalized_request \<Rightarrow> int \<Rightarrow> bool \<Rightarrow> 'w \<Rightarrow> 'w gen_run \<times> 'w" where
  "buildThenStream att req bound probe w =
     (case at_buildAdapter att probe w of
        (Inl err, w') \<Rightarrow> (\<lparr>gr_events = [], gr_end = GenThrow err, gr_env = id, gr_timedOut = False\<rparr>, w')
      | (Inr ad, w') \<Rightarrow> (pa_chatStream ad req bound, w'))"

definition pull_error :: "'w gen_run \<Rightarrow> raw_error" where
  "pull_error run =
     (if gr_timedOut run then Provider (plain_error unavailable ''upstream event timeout'')
      else case gr_end run of
        GenDone \<Rightarrow> Provider (plain_error unavailable ''upstream produced no output'')
      | GenThrow err \<Rightarrow> err)"

definition openAttemptStream ::
  "(('p, 'q) cworld, 'p, 'q, 'wire) chain_env \<Rightarrow> ('p, 'q) cworld chain_attempt \<Rightarrow> normalized_request
     \<Rightarrow> ('p, 'q) cworld \<Rightarrow> (raw_error + ('p, 'q) cworld committed) \<times> ('p, 'q) cworld" where
  "openAttemptStream env att req w =
     (let providerId = at_providerId att; hk = hooks_for env att;
          ((dec, tok), st1) = before (ce_store env) (ce_cfg env) providerId (at_probeLeaseMs att) (cb_of w);
          w1 = notifyState hk providerId dec (t_isProbe tok) (with_cb st1 w)
      in
      if dec = Skip then (Inl (CircuitOpen providerId), w1)
      else
        let (run, w2) = buildThenStream att req (memberBound env att (t_isProbe tok)) (t_isProbe tok) w1;
            ls = \<lparr>ls_settled = False, ls_terminal = False, ls_error = False, ls_lastRenew = cb_now w1\<rparr>;
            leave = settle_once (ce_store env) (ce_cfg env) hk tok Neutral None
        in case gr_events run of
             [] \<Rightarrow>
               (Inl (pull_error run),
                snd (leave (on_end (ce_store env) (ce_cfg env) hk tok (gr_end run) (Some (ce_callerAbort env))
                              (ls, gr_env run w2))))
           | (ev, eff) # rest \<Rightarrow>
               (let lw = on_event (ce_store env) (ce_cfg env) hk tok ev (ls, eff w2) in
                case ev of
                  StreamError ty msg diag \<Rightarrow> (Inl (Provider (fromErrorEvent ty diag)), snd (leave lw))
                | _ \<Rightarrow> (Inr \<lparr>co_first = ev, co_run = run\<lparr>gr_events := rest\<rparr>, co_token = tok, co_loop = fst lw\<rparr>,
                        snd lw)))"

datatype 'w stream_chain_result =
    StreamOpened "'w committed" nat "attempt_failure list"
  | StreamChainError provider_error "attempt_failure list" bool "attempt_billing option"

primrec stream_from ::
  "(('p, 'q) cworld, 'p, 'q, 'wire) chain_env \<Rightarrow> normalized_request \<Rightarrow> ('p, 'q) cworld chain_attempt list
     \<Rightarrow> nat \<Rightarrow> attempt_failure list \<Rightarrow> provider_error \<Rightarrow> ('p, 'q) cworld
     \<Rightarrow> ('p, 'q) cworld stream_chain_result \<times> ('p, 'q) cworld" where
  "stream_from env request [] i fails lastError w =
     (StreamChainError lastError fails (ce_callerAbort env w) (if i = 0 then Some NotSent else None), w)"
| "stream_from env request (att # rest) i fails lastError w =
     (if ce_aborted env w
      then (StreamChainError (plain_error unavailable ''cancelled'') fails (ce_callerAbort env w) (Some NotSent), w)
      else
        case pausedBy env att w of
          (Some pause, w1) \<Rightarrow>
            (let skipped = planPauseFailure i (pc_kind pause) in
             stream_from env request rest (Suc i) (fails @ [skipped]) (af_error skipped) w1)
        | (None, w1) \<Rightarrow>
            (case openAttemptStream env att (attemptRequest request att) w1 of
               (Inr co, w2) \<Rightarrow> (StreamOpened co i fails, w2)
             | (Inl err, w2) \<Rightarrow>
                 (let mapped = toProviderError err; w3 = recordPause env att mapped w2 in
                  if \<not> fallbackEligible err
                  then (StreamChainError mapped fails (ce_callerAbort env w3) (Some (attemptBilling err mapped)), w3)
                  else stream_from env request rest (Suc i) (fails @ [dispatched_failure i err]) mapped w3)))"

definition openStreamChain ::
  "(('p, 'q) cworld, 'p, 'q, 'wire) chain_env \<Rightarrow> ('p, 'q) cworld chain_attempt list \<Rightarrow> normalized_request
     \<Rightarrow> ('p, 'q) cworld \<Rightarrow> ('p, 'q) cworld stream_chain_result \<times> ('p, 'q) cworld" where
  "openStreamChain env attempts request w =
     stream_from env request attempts 0 [] (plain_error unavailable ''no chain members'') w"

section \<open>The frames of a committed stream\<close>

record accumulator =
  acc_usage :: partial_usage
  acc_outputChars :: nat

definition accumulate :: "accumulator \<Rightarrow> stream_event \<Rightarrow> accumulator" where
  "accumulate acc ev =
     (case ev of
        MessageStart i m (Some us) \<Rightarrow> acc\<lparr>acc_usage := mergePartialUsage [Some (acc_usage acc), Some us]\<rparr>
      | MessageDelta sr raw sq (Some us) \<Rightarrow> acc\<lparr>acc_usage := mergePartialUsage [Some (acc_usage acc), Some us]\<rparr>
      | TextDelta i text \<Rightarrow> acc\<lparr>acc_outputChars := acc_outputChars acc + length text\<rparr>
      | ToolUseStart i tid name \<Rightarrow> acc\<lparr>acc_outputChars := acc_outputChars acc + length name\<rparr>
      | ToolUseDelta i part \<Rightarrow> acc\<lparr>acc_outputChars := acc_outputChars acc + length part\<rparr>
      | _ \<Rightarrow> acc)"

record stream_outcome =
  so_success :: bool
  so_callerAborted :: bool
  so_usage :: partial_usage
  so_outputChars :: nat
  so_error :: "provider_error option"

definition outcome_of :: "accumulator \<Rightarrow> bool \<Rightarrow> bool \<Rightarrow> provider_error option \<Rightarrow> stream_outcome" where
  "outcome_of acc ok callerAborted err =
     \<lparr>so_success = ok, so_callerAborted = callerAborted, so_usage = acc_usage acc,
      so_outputChars = acc_outputChars acc, so_error = err\<rparr>"

text \<open>The teardown of the error path: why the stream failed is read once, before anything else runs.\<close>

definition failed_outcome ::
  "('w, 'p, 'q, 'wire) chain_env \<Rightarrow> accumulator \<Rightarrow> raw_error \<Rightarrow> 'w \<Rightarrow> stream_outcome" where
  "failed_outcome env acc err w =
     (let gone = ce_callerAbort env w in
      outcome_of acc False gone (if gone then None else Some (toProviderError err)))"

text \<open>The consumer reads to the end, or leaves after the given number of further events.\<close>

primrec drain ::
  "(('p, 'q) cworld, 'p, 'q, 'wire) chain_env \<Rightarrow> hooks \<Rightarrow> token \<Rightarrow> ('p, 'q) cworld gen_run
     \<Rightarrow> (stream_event \<times> (('p, 'q) cworld \<Rightarrow> ('p, 'q) cworld)) list \<Rightarrow> nat option \<Rightarrow> accumulator
     \<Rightarrow> loop_state \<times> ('p, 'q) cworld \<Rightarrow> stream_event list \<times> stream_outcome \<times> ('p, 'q) cworld" where
  "drain env hk tok run [] leave acc lw =
     (let stop = (\<lambda>lw. snd (settle_once (ce_store env) (ce_cfg env) hk tok Neutral None lw)) in
      if leave = Some 0 then ([], outcome_of acc False True None, stop lw)
      else
        let w1 = stop (on_end (ce_store env) (ce_cfg env) hk tok (gr_end run) (Some (ce_callerAbort env))
                         (fst lw, gr_env run (snd lw)))
        in ([], (if gr_end run = GenDone \<and> \<not> gr_timedOut run then outcome_of acc True False None
                 else failed_outcome env acc (pull_error run) w1), w1))"
| "drain env hk tok run (e # rest) leave acc lw =
     (let stop = (\<lambda>lw. snd (settle_once (ce_store env) (ce_cfg env) hk tok Neutral None lw)) in
      if leave = Some 0 then ([], outcome_of acc False True None, stop lw)
      else
        let lw1 = on_event (ce_store env) (ce_cfg env) hk tok (fst e) (fst lw, snd e (snd lw)) in
        case fst e of
          StreamError ty msg diag \<Rightarrow>
            ([], failed_outcome env acc (Provider (fromErrorEvent ty diag)) (snd lw1), stop lw1)
        | ev \<Rightarrow>
            (case drain env hk tok run rest (map_option (\<lambda>n. n - 1) leave) (accumulate acc ev) lw1 of
               (evs, out, w') \<Rightarrow> (ev # evs, out, w')))"

definition runFrames ::
  "(('p, 'q) cworld, 'p, 'q, 'wire) chain_env \<Rightarrow> hooks \<Rightarrow> ('p, 'q) cworld committed \<Rightarrow> nat option
     \<Rightarrow> ('p, 'q) cworld \<Rightarrow> stream_event list \<times> stream_outcome \<times> ('p, 'q) cworld" where
  "runFrames env hk co leave w =
     (case drain env hk (co_token co) (co_run co) (gr_events (co_run co)) leave
             (accumulate \<lparr>acc_usage = empty_usage, acc_outputChars = 0\<rparr> (co_first co)) (co_loop co, w) of
        (evs, out, w') \<Rightarrow> (co_first co # evs, out, w'))"

end
