(* ===== verification/ChainFacts.thy ===== *)
theory ChainFacts
  imports ChainWalk PlanCooldownFacts "HOL-Library.Sublist"
begin

text \<open>
  Facts on the fallback chain. Both walkers are one generic walk over what each member does
  (lemmas \<open>buffered_is_walk\<close> and \<open>stream_is_walk\<close>), so the trail of failures, the billing
  evidence and the independence of members behind the stop are proved once. Then the frames of
  a committed stream: what the outcome says and what it counts.
\<close>

section \<open>The generic walk\<close>

datatype 'r walk_result =
    Served 'r nat "attempt_failure list"
  | Stopped provider_error "attempt_failure list" bool "attempt_billing option"

primrec walk ::
  "(('p, 'q) cworld, 'p, 'q, 'wire) chain_env
     \<Rightarrow> (('p, 'q) cworld chain_attempt \<Rightarrow> ('p, 'q) cworld \<Rightarrow> (raw_error + 'r) \<times> ('p, 'q) cworld)
     \<Rightarrow> ('p, 'q) cworld chain_attempt list \<Rightarrow> nat \<Rightarrow> attempt_failure list \<Rightarrow> provider_error
     \<Rightarrow> ('p, 'q) cworld \<Rightarrow> 'r walk_result \<times> ('p, 'q) cworld" where
  "walk env serve [] i fails lastError w =
     (Stopped lastError fails (ce_callerAbort env w) (if i = 0 then Some NotSent else None), w)"
| "walk env serve (att # rest) i fails lastError w =
     (if ce_aborted env w
      then (Stopped (plain_error unavailable ''cancelled'') fails (ce_callerAbort env w) (Some NotSent), w)
      else
        case pausedBy env att w of
          (Some pause, w1) \<Rightarrow>
            walk env serve rest (Suc i) (fails @ [planPauseFailure i (pc_kind pause)])
              (af_error (planPauseFailure i (pc_kind pause))) w1
        | (None, w1) \<Rightarrow>
            (case serve att w1 of
               (Inr r, w2) \<Rightarrow> (Served r i fails, w2)
             | (Inl err, w2) \<Rightarrow>
                 (let mapped = toProviderError err; w3 = recordPause env att mapped w2 in
                  if \<not> fallbackEligible err
                  then (Stopped mapped fails (ce_callerAbort env w3) (Some (attemptBilling err mapped)), w3)
                  else walk env serve rest (Suc i) (fails @ [dispatched_failure i err]) mapped w3)))"

primrec buffered_of :: "('wire \<times> normalized_response) walk_result \<Rightarrow> 'wire buffered_result" where
  "buffered_of (Served r i fails) = BufferedOk (fst r) (snd r) i fails"
| "buffered_of (Stopped e fails c b) = BufferedError e fails c b"

primrec stream_of :: "'w committed walk_result \<Rightarrow> 'w stream_chain_result" where
  "stream_of (Served r i fails) = StreamOpened r i fails"
| "stream_of (Stopped e fails c b) = StreamChainError e fails c b"

lemma buffered_is_walk:
  "buffered_from env request atts i fails e w =
     map_prod buffered_of id
       (walk env (\<lambda>att. serveMember env att (attemptRequest request att)) atts i fails e w)"
  by (induction atts arbitrary: i fails e w)
    (auto simp: Let_def split: prod.split option.split sum.split)

lemma stream_is_walk:
  "stream_from env request atts i fails e w =
     map_prod stream_of id
       (walk env (\<lambda>att. openAttemptStream env att (attemptRequest request att)) atts i fails e w)"
  by (induction atts arbitrary: i fails e w)
    (auto simp: Let_def split: prod.split option.split sum.split)

section \<open>The trail\<close>

text \<open>A failure the walk went on from: a plan pause, an open circuit, or a kind that falls back.\<close>

definition walked_past :: "attempt_failure \<Rightarrow> bool" where
  "walked_past f =
     (if af_skip f then af_dispatched f = Some False \<and> af_billing f = Some NotSent
      else if af_dispatched f = Some False then af_billing f = Some NotSent
      else shouldFallback (pe_kind (af_error f)) \<and> af_billing f \<noteq> None)"

lemma walked_past_pause: "walked_past (planPauseFailure i k)"
  by (simp add: walked_past_def planPauseFailure_def)

lemma walked_past_dispatched: "fallbackEligible err \<Longrightarrow> walked_past (dispatched_failure i err)"
  by (cases err)
    (simp_all add: walked_past_def dispatched_failure_def fallbackEligible_def toProviderError_def
      attemptBilling_def Let_def)

definition trail :: "nat \<Rightarrow> attempt_failure list \<Rightarrow> bool" where
  "trail n fails = (map af_index fails = [0..<n] \<and> list_all walked_past fails)"

lemma trail_step: "trail n fails \<Longrightarrow> af_index f = n \<Longrightarrow> walked_past f \<Longrightarrow> trail (Suc n) (fails @ [f])"
  by (simp add: trail_def)

lemma index_of_failures [simp]:
  "af_index (planPauseFailure i k) = i" "af_index (dispatched_failure i err) = i"
  by (simp_all add: planPauseFailure_def dispatched_failure_def Let_def)

text \<open>Every member in front of the end of the walk left exactly one entry, in order; a walk that
  exhausted its members has no terminal evidence, and every other stop has.\<close>

definition walk_ok :: "nat \<Rightarrow> 'r walk_result \<Rightarrow> bool" where
  "walk_ok n res =
     (case res of
        Served r served fs \<Rightarrow> served < n \<and> trail served fs
      | Stopped err fs c b \<Rightarrow>
          trail (length fs) fs \<and> length fs \<le> n \<and> (b = None \<longrightarrow> length fs = n \<and> fs \<noteq> []))"

lemma walk_trail:
  "trail i fails \<Longrightarrow> i + length atts = n \<Longrightarrow> walk_ok n (fst (walk env serve atts i fails e w))"
proof (induction atts arbitrary: i fails e w)
  case Nil
  then have "length fails = i" by (auto simp: trail_def dest: arg_cong [where f = length])
  with Nil show ?case by (auto simp: walk_ok_def)
next
  case (Cons att atts)
  then have len: "length fails = i" by (auto simp: trail_def dest: arg_cong [where f = length])
  note step = Cons.IH [OF trail_step [OF Cons.prems(1)]]
  from Cons.prems(2) have n: "Suc i + length atts = n" by simp
  obtain pause w1 where p: "pausedBy env att w = (pause, w1)" by fastforce
  obtain r w2 where r: "serve att w1 = (r, w2)" by fastforce
  show ?case
  proof (cases pause)
    case (Some c)
    with step [OF _ walked_past_pause n] Cons.prems len show ?thesis by (simp add: p walk_ok_def)
  next
    case None
    show ?thesis
    proof (cases r)
      case (Inl err)
      with None step [OF _ walked_past_dispatched n] Cons.prems len show ?thesis
        by (simp add: p r Let_def walk_ok_def)
    next
      case (Inr v)
      with None Cons.prems len show ?thesis by (simp add: p r walk_ok_def)
    qed
  qed
qed

lemma chain_walk_ok:
  "walk_ok (length attempts) (fst (walk env serve attempts 0 [] e w))"
  by (rule walk_trail) (simp_all add: trail_def)

section \<open>Members behind the end of a walk\<close>

definition conclusive :: "'r walk_result \<Rightarrow> bool" where
  "conclusive res = (case res of Served _ _ _ \<Rightarrow> True | Stopped _ _ _ b \<Rightarrow> b \<noteq> None)"

lemma walk_prefix:
  "pre \<noteq> [] \<or> i \<noteq> 0 \<Longrightarrow> conclusive (fst (walk env serve pre i fails e w)) \<Longrightarrow>
   walk env serve (pre @ rest) i fails e w = walk env serve pre i fails e w"
proof (induction pre arbitrary: i fails e w)
  case Nil
  then show ?case by (simp add: conclusive_def)
next
  case (Cons att pre)
  obtain pause w1 where p: "pausedBy env att w = (pause, w1)" by fastforce
  obtain r w2 where r: "serve att w1 = (r, w2)" by fastforce
  from Cons.prems(2) show ?case
    by (cases pause; cases r) (auto simp: p r Let_def intro: Cons.IH split: if_splits)
qed

section \<open>Plan pauses\<close>

text \<open>What the breaker keeps is untouched while a paused member is skipped.\<close>

definition same_breaker :: "('p, 'q) cworld \<Rightarrow> ('p, 'q) cworld \<Rightarrow> bool" where
  "same_breaker w w' = (cb_of w' = cb_of w \<and> events w' = events w \<and> cw_planFaults w' = cw_planFaults w)"

definition paused_in :: "plan_mem \<Rightarrow> 'w chain_attempt \<Rightarrow> bool" where
  "paused_in m att = (at_planCooldown att \<and> pm_view m (at_providerId att) \<noteq> None)"

lemma pausedBy_local:
  assumes "ce_plan env = pm_ops cfg" "paused_in (cw_plan w) att"
  obtains c w1 where "pausedBy env att w = (Some c, w1)" "same_breaker w w1"
    "pm_view (cw_plan w1) = pm_view (cw_plan w)"
proof -
  obtain r s where l: "pm_live (at_providerId att) (cw_plan w) = (r, s)" by fastforce
  from pm_live_state [OF l] assms(2) obtain c where "r = Some c" by (auto simp: paused_in_def)
  with l pm_live_state [OF l] assms show thesis
    by (intro that [of c "w\<lparr>cw_plan := s\<rparr>"])
      (auto simp: pausedBy_def paused_in_def planCooldownFor_def pm_ops_def same_breaker_def cb_of_def)
qed

definition only_skipped :: "nat \<Rightarrow> ('p, 'q) cworld \<Rightarrow> 'r walk_result \<times> ('p, 'q) cworld \<Rightarrow> bool" where
  "only_skipped n w0 res =
     (case fst res of
        Served _ _ _ \<Rightarrow> False
      | Stopped err fs c b \<Rightarrow>
          length fs = n \<and> list_all af_skip fs \<and> same_breaker w0 (snd res) \<and> b \<noteq> Some Uncertain)"

lemma walk_paused:
  assumes "ce_plan env = pm_ops cfg" "\<And>w. \<not> ce_aborted env w"
  shows "list_all (paused_in (cw_plan w)) atts \<Longrightarrow> list_all af_skip fails \<Longrightarrow> length fails = i \<Longrightarrow>
    i + length atts = n \<Longrightarrow> same_breaker w0 w \<Longrightarrow> only_skipped n w0 (walk env serve atts i fails e w)"
proof (induction atts arbitrary: i fails e w)
  case Nil
  then show ?case by (simp add: only_skipped_def)
next
  case (Cons att atts)
  then have "paused_in (cw_plan w) att" by simp
  then obtain c w1 where p: "pausedBy env att w = (Some c, w1)" "same_breaker w w1"
    "pm_view (cw_plan w1) = pm_view (cw_plan w)"
    using pausedBy_local [OF assms(1)] by blast
  have "only_skipped n w0 (walk env serve atts (Suc i) (fails @ [planPauseFailure i (pc_kind c)])
      (af_error (planPauseFailure i (pc_kind c))) w1)"
    using Cons.prems p(2)
    by (intro Cons.IH) (auto simp: paused_in_def p(3) list_all_iff planPauseFailure_def same_breaker_def)
  then show ?case by (simp add: p(1) assms(2))
qed

section \<open>Properties of the walkers\<close>

text \<open>C23 (functional). A fallback chain is walked in order and leaves one entry per member passed:
  when a member serves, every earlier one failed in a way that falls back (or was skipped, undis-
  patched and unbilled), and a walk that ends in an error without evidence of its own has tried
  every member. It holds of the buffered and of the streamed walk alike.\<close>

theorem fallback_trail:
  "(case fst (runBufferedChain env attempts request w) of
      BufferedOk wire resp served fs \<Rightarrow>
        served < length attempts \<and> map af_index fs = [0..<served] \<and> list_all walked_past fs
    | BufferedError err fs gone b \<Rightarrow>
        map af_index fs = [0..<length fs] \<and> list_all walked_past fs \<and> length fs \<le> length attempts \<and>
        (case b of None \<Rightarrow> length fs = length attempts | Some _ \<Rightarrow> True)) \<and>
   (case fst (openStreamChain env attempts request w) of
      StreamOpened co served fs \<Rightarrow>
        served < length attempts \<and> map af_index fs = [0..<served] \<and> list_all walked_past fs
    | StreamChainError err fs gone b \<Rightarrow>
        map af_index fs = [0..<length fs] \<and> list_all walked_past fs \<and> length fs \<le> length attempts \<and>
        (case b of None \<Rightarrow> length fs = length attempts | Some _ \<Rightarrow> True))"
  using chain_walk_ok [of attempts env "\<lambda>att. serveMember env att (attemptRequest request att)"
      "plain_error unavailable ''no chain members''" w]
    chain_walk_ok [of attempts env "\<lambda>att. openAttemptStream env att (attemptRequest request att)"
      "plain_error unavailable ''no chain members''" w]
  by (auto simp: runBufferedChain_def buffered_is_walk openStreamChain_def stream_is_walk walk_ok_def
      trail_def split: walk_result.splits option.splits)

text \<open>The billing classes of a walk, from its attempts alone: one per member the walk came to, in
  order, \<open>NotSent\<close> for a paused member and the class of its own error for a member that was called.
  A walk cut short by an abort in front of a member, or with no member at all, adds one \<open>NotSent\<close>
  for the call that was never made.\<close>

primrec attempt_bills ::
  "(('p, 'q) cworld, 'p, 'q, 'wire) chain_env
     \<Rightarrow> (('p, 'q) cworld chain_attempt \<Rightarrow> ('p, 'q) cworld \<Rightarrow> (raw_error + 'r) \<times> ('p, 'q) cworld)
     \<Rightarrow> ('p, 'q) cworld chain_attempt list \<Rightarrow> bool \<Rightarrow> ('p, 'q) cworld \<Rightarrow> attempt_billing list" where
  "attempt_bills env serve [] start w = (if start then [NotSent] else [])"
| "attempt_bills env serve (att # rest) start w =
     (if ce_aborted env w then [NotSent]
      else
        case pausedBy env att w of
          (Some pause, w1) \<Rightarrow> NotSent # attempt_bills env serve rest False w1
        | (None, w1) \<Rightarrow>
            (case serve att w1 of
               (Inr r, w2) \<Rightarrow> []
             | (Inl err, w2) \<Rightarrow>
                 attemptBilling err (toProviderError err) #
                   (if fallbackEligible err
                    then attempt_bills env serve rest False (recordPause env att (toProviderError err) w2)
                    else [])))"

lemma billing_of_failures [simp]:
  "af_billing (planPauseFailure i k) = Some NotSent"
  "af_billing (dispatched_failure i err) = Some (attemptBilling err (toProviderError err))"
  by (simp_all add: planPauseFailure_def dispatched_failure_def Let_def)

lemma evidence_snoc [simp]:
  "chainBillingEvidence (fails @ [f]) None = chainBillingEvidence fails None @ [or_else (af_billing f) Uncertain]"
  by (simp add: chainBillingEvidence_def)

lemma walk_evidence:
  "case fst (walk env serve atts i fails e w) of
     Served r served fs \<Rightarrow> True
   | Stopped err fs c b \<Rightarrow>
       chainBillingEvidence fs b = chainBillingEvidence fails None @ attempt_bills env serve atts (i = 0) w"
proof (induction atts arbitrary: i fails e w)
  case Nil
  then show ?case by (simp add: chainBillingEvidence_def)
next
  case (Cons att atts)
  obtain pause w1 where p: "pausedBy env att w = (pause, w1)" by fastforce
  obtain r w2 where r: "serve att w1 = (r, w2)" by fastforce
  show ?case
  proof (cases pause)
    case (Some c)
    with Cons.IH [where i = "Suc i" and fails = "fails @ [planPauseFailure i (pc_kind c)]"
        and e = "af_error (planPauseFailure i (pc_kind c))" and w = w1]
    show ?thesis by (simp add: p or_else_def chainBillingEvidence_def split: walk_result.splits)
  next
    case None
    show ?thesis
    proof (cases r)
      case (Inl err)
      with None Cons.IH [where i = "Suc i" and fails = "fails @ [dispatched_failure i err]" and e = "toProviderError err"
          and w = "recordPause env att (toProviderError err) w2"]
      show ?thesis
        by (simp add: p r Let_def or_else_def chainBillingEvidence_def split: walk_result.splits)
    next
      case (Inr v)
      with None show ?thesis by (simp add: p r chainBillingEvidence_def)
    qed
  qed
qed

lemma attempt_bills_nonempty: "start \<or> atts \<noteq> [] \<Longrightarrow> (case fst (walk env serve atts i fails e w) of
     Served r served fs \<Rightarrow> True | Stopped err fs c b \<Rightarrow> attempt_bills env serve atts start w \<noteq> [])"
  by (cases atts) (auto simp: Let_def split: walk_result.split prod.split option.split sum.split)

lemma walkUnbilled_evidence: "walkUnbilled (Some cs) = (cs \<noteq> [] \<and> Uncertain \<notin> set cs)"
proof -
  have "(c = NotSent \<or> c = Rejected) = (c \<noteq> Uncertain)" for c by (cases c) auto
  then show ?thesis by (auto simp: walkUnbilled_def list_all_iff)
qed

lemma walk_evidence_counted:
  "case fst (walk env serve atts 0 [] e w) of
     Served r served fs \<Rightarrow> True
   | Stopped err fs c b \<Rightarrow>
       chainBillingEvidence fs b = attempt_bills env serve atts True w \<and>
       length (chainBillingEvidence fs b) = length fs + (if b = None then 0 else 1) \<and>
       walkUnbilled (Some (chainBillingEvidence fs b)) = (Uncertain \<notin> set (attempt_bills env serve atts True w))"
proof (cases "fst (walk env serve atts 0 [] e w)")
  case (Stopped err fs c b)
  with walk_evidence [where env = env and serve = serve and atts = atts and i = 0 and fails = "[]" and e = e and w = w]
  have ev: "chainBillingEvidence fs b = attempt_bills env serve atts True w"
    by (simp add: chainBillingEvidence_def [of "[]"])
  from Stopped attempt_bills_nonempty [where start = True and env = env and serve = serve and atts = atts and i = 0 and fails = "[]" and e = e and w = w]
  have "attempt_bills env serve atts True w \<noteq> []" by simp
  moreover have "length (chainBillingEvidence fs b) = length fs + (if b = None then 0 else 1)"
    by (simp add: chainBillingEvidence_def split: option.split)
  ultimately show ?thesis by (simp add: Stopped ev walkUnbilled_evidence)
qed simp

text \<open>C32 (error). No spend is dropped by mistake: the billing evidence of a walk that ends in an error
  is one class per attempt, in the order of the attempts, each the class of that attempt's own error
  (\<open>NotSent\<close> for a paused member, and one \<open>NotSent\<close> when an abort or an empty chain ends the walk
  before a call). It has one class per recorded failure and one more for the terminal stop, if there
  was one, and the walk reads as unbilled exactly when no attempt was left uncertain. This holds of the
  buffered and of the streamed walk.\<close>

theorem failed_walk_has_evidence:
  "(case fst (runBufferedChain env attempts request w) of
      BufferedOk wire resp served fs \<Rightarrow> True
    | BufferedError err fs gone b \<Rightarrow>
        let bills = attempt_bills env (\<lambda>att. serveMember env att (attemptRequest request att)) attempts True w
        in chainBillingEvidence fs b = bills \<and>
           length bills = length fs + (if b = None then 0 else 1) \<and>
           walkUnbilled (Some (chainBillingEvidence fs b)) = (Uncertain \<notin> set bills)) \<and>
   (case fst (openStreamChain env attempts request w) of
      StreamOpened co served fs \<Rightarrow> True
    | StreamChainError err fs gone b \<Rightarrow>
        let bills = attempt_bills env (\<lambda>att. openAttemptStream env att (attemptRequest request att)) attempts True w
        in chainBillingEvidence fs b = bills \<and>
           length bills = length fs + (if b = None then 0 else 1) \<and>
           walkUnbilled (Some (chainBillingEvidence fs b)) = (Uncertain \<notin> set bills))"
  using walk_evidence_counted [where env = env and atts = attempts and w = w
      and serve = "\<lambda>att. serveMember env att (attemptRequest request att)"
      and e = "plain_error unavailable ''no chain members''"]
    walk_evidence_counted [where env = env and atts = attempts and w = w
      and serve = "\<lambda>att. openAttemptStream env att (attemptRequest request att)"
      and e = "plain_error unavailable ''no chain members''"]
  by (auto simp: runBufferedChain_def buffered_is_walk openStreamChain_def stream_is_walk Let_def
      split: walk_result.splits)

text \<open>A stop is final. Once a walk served, was cancelled, or met an error that must not
  fall back (a policy block, an oversized answer, a client cancellation), the members behind it
  are irrelevant: appending any to the chain changes neither the result nor the world, so none of
  them was called.\<close>

theorem stop_is_final:
  assumes "pre \<noteq> []"
    and "case fst (runBufferedChain env pre request w) of
      BufferedOk _ _ _ _ \<Rightarrow> True | BufferedError _ _ _ b \<Rightarrow> b \<noteq> None"
  shows "runBufferedChain env (pre @ rest) request w = runBufferedChain env pre request w"
proof -
  have "conclusive (fst (walk env (\<lambda>att. serveMember env att (attemptRequest request att)) pre 0 []
      (plain_error unavailable ''no chain members'') w))"
    using assms(2) by (auto simp: runBufferedChain_def buffered_is_walk conclusive_def split: walk_result.splits)
  with assms(1) show ?thesis
    by (simp add: runBufferedChain_def buffered_is_walk walk_prefix)
qed

text \<open>A provider under a plan pause costs nothing: a chain whose members are all paused
  is answered from the plan store alone. Nothing is admitted, settled or notified by the breaker,
  every member is recorded as skipped and the walk reads as unbilled.\<close>

theorem paused_chain_leaves_breaker_alone:
  assumes "ce_plan env = pm_ops cfg" "\<And>w. \<not> ce_aborted env w"
    and "list_all (paused_in (cw_plan w)) attempts"
  shows "case runBufferedChain env attempts request w of
      (BufferedOk _ _ _ _, w') \<Rightarrow> False
    | (BufferedError err fs gone b, w') \<Rightarrow>
        same_breaker w w' \<and> length fs = length attempts \<and> list_all af_skip fs \<and>
        walkUnbilled (Some (chainBillingEvidence fs b))"
proof -
  let ?w = "walk env (\<lambda>att. serveMember env att (attemptRequest request att)) attempts 0 []
      (plain_error unavailable ''no chain members'') w"
  have "only_skipped (length attempts) w ?w"
    by (rule walk_paused [OF assms]) (simp_all add: same_breaker_def)
  moreover have "walk_ok (length attempts) (fst ?w)" by (rule chain_walk_ok)
  moreover have "af_billing f = Some NotSent" if "walked_past f" "af_skip f" for f
    using that by (simp add: walked_past_def)
  moreover have "c = NotSent \<or> c = Rejected" if "c \<noteq> Uncertain" for c using that by (cases c) auto
  ultimately show ?thesis
    by (cases ?w; cases "fst ?w")
      (auto simp: runBufferedChain_def buffered_is_walk only_skipped_def walk_ok_def trail_def
        walkUnbilled_def chainBillingEvidence_def list_all_iff or_else_def split: option.splits)
qed

section \<open>The outcome of a committed stream\<close>

definition tally :: "accumulator \<Rightarrow> stream_event list \<Rightarrow> accumulator" where
  "tally acc evs = foldl accumulate acc evs"

lemma tally_simps [simp]: "tally acc [] = acc" "tally acc (ev # evs) = tally (accumulate acc ev) evs"
  by (simp_all add: tally_def)

definition outcome_ok ::
  "'w gen_run \<Rightarrow> stream_event list \<Rightarrow> accumulator \<Rightarrow> stream_event list \<Rightarrow> stream_outcome \<Rightarrow> bool" where
  "outcome_ok run all acc evs out =
     (so_usage out = acc_usage (tally acc evs) \<and> so_outputChars out = acc_outputChars (tally acc evs) \<and>
      prefix evs all \<and>
      (if so_success out
       then evs = all \<and> gr_end run = GenDone \<and> \<not> gr_timedOut run \<and> \<not> so_callerAborted out \<and> so_error out = None
       else (so_error out = None) = so_callerAborted out))"

lemma outcome_of_simps [simp]:
  "so_success (outcome_of acc k g e) = k" "so_callerAborted (outcome_of acc k g e) = g"
  "so_usage (outcome_of acc k g e) = acc_usage acc" "so_outputChars (outcome_of acc k g e) = acc_outputChars acc"
  "so_error (outcome_of acc k g e) = e"
  by (simp_all add: outcome_of_def)

lemma outcome_ok_left: "outcome_ok run all acc [] (outcome_of acc False True None)"
  by (simp add: outcome_ok_def)

lemma outcome_ok_failed: "outcome_ok run all acc [] (failed_outcome env acc err w)"
  by (simp add: outcome_ok_def failed_outcome_def Let_def)

lemma outcome_ok_Cons:
  "outcome_ok run all (accumulate acc ev) evs out \<Longrightarrow> outcome_ok run (ev # all) acc (ev # evs) out"
  by (simp add: outcome_ok_def)

definition is_error :: "stream_event \<Rightarrow> bool" where
  "is_error ev = (case ev of StreamError _ _ _ \<Rightarrow> True | _ \<Rightarrow> False)"

lemma drain_deliver:
  assumes "leave \<noteq> Some 0" "\<not> is_error (fst e)"
  shows "drain env hk tok run (e # rest) leave acc lw =
    (case drain env hk tok run rest (map_option (\<lambda>n. n - 1) leave) (accumulate acc (fst e))
            (on_event (ce_store env) (ce_cfg env) hk tok (fst e) (fst lw, snd e (snd lw))) of
       (evs, out, w') \<Rightarrow> (fst e # evs, out, w'))"
  unfolding drain.simps Let_def if_not_P [OF assms(1)]
  using assms(2) by (cases "fst e") (simp_all only: is_error_def stream_event.case not_True_eq_False)

lemma drain_error:
  assumes "leave \<noteq> Some 0" "is_error (fst e)"
  shows "\<exists>err w1 w2. drain env hk tok run (e # rest) leave acc lw = ([], failed_outcome env acc err w1, w2)"
  unfolding drain.simps Let_def if_not_P [OF assms(1)]
  using assms(2) by (cases "fst e") (auto simp only: is_error_def stream_event.case)

lemma drain_outcome:
  "drain env hk tok run es leave acc lw = (evs, out, w') \<Longrightarrow> outcome_ok run (map fst es) acc evs out"
proof (induction es arbitrary: leave acc lw evs out w')
  case Nil
  then show ?case
    by (auto simp: Let_def outcome_ok_left outcome_ok_failed split: if_splits)
      (simp add: outcome_ok_def)
next
  case (Cons e es)
  consider "leave = Some 0" | "leave \<noteq> Some 0" "is_error (fst e)" | "leave \<noteq> Some 0" "\<not> is_error (fst e)"
    by blast
  then show ?case
  proof cases
    case 1
    with Cons.prems show ?thesis by (auto simp: outcome_ok_left)
  next
    case 2
    from drain_error [OF this] Cons.prems show ?thesis by (metis outcome_ok_failed prod.inject)
  next
    case 3
    obtain evs1 out1 w1 where d: "drain env hk tok run es (map_option (\<lambda>n. n - 1) leave) (accumulate acc (fst e))
        (on_event (ce_store env) (ce_cfg env) hk tok (fst e) (fst lw, snd e (snd lw))) = (evs1, out1, w1)"
      using prod_cases3 by blast
    have "drain env hk tok run (e # es) leave acc lw = (fst e # evs1, out1, w1)"
      unfolding drain_deliver [OF 3] d by simp
    with Cons.prems have "evs = fst e # evs1" "out = out1" by (simp_all del: drain.simps)
    with Cons.IH [OF d] show ?thesis by (simp add: outcome_ok_Cons)
  qed
qed

text \<open>The outcome of a committed stream counts exactly what was delivered: its usage
  and its characters are those of the delivered events, the first one included. It is a success
  only when upstream ended by itself and every event was delivered; a failed stream carries the
  provider's error unless the caller had gone, and then none.\<close>

theorem outcome_counts_delivered:
  "case runFrames env hk co leave w of
     (evs, out, w') \<Rightarrow>
       outcome_ok (co_run co) (co_first co # map fst (gr_events (co_run co)))
         \<lparr>acc_usage = empty_usage, acc_outputChars = 0\<rparr> evs out"
proof -
  obtain evs out w' where d: "drain env hk (co_token co) (co_run co) (gr_events (co_run co)) leave
      (accumulate \<lparr>acc_usage = empty_usage, acc_outputChars = 0\<rparr> (co_first co)) (co_loop co, w) = (evs, out, w')"
    using prod_cases3 by blast
  with drain_outcome [OF d] show ?thesis by (simp add: runFrames_def outcome_ok_Cons)
qed

section \<open>Witnesses\<close>

type_synonym demo_cworld = "(mem_store, plan_mem) cworld"

definition demo_cw :: demo_cworld where
  "demo_cw = \<lparr>cb_primary = empty_mem, cb_fallback = empty_mem, cb_now = 1000, cb_errors = [], events = [],
     cw_plan = \<lparr>pm_records = [''paused'' \<mapsto> \<lparr>pc_kind = risk_control, pc_until = 5000, pc_source = ByDefault\<rparr>],
       pm_now = 1000\<rparr>, cw_planFaults = []\<rparr>"

definition demo_env :: "(demo_cworld, mem_store, plan_mem, normalized_response) chain_env" where
  "demo_env = \<lparr>ce_store = mem_ops, ce_cfg = DEFAULT_BREAKER_CONFIG, ce_plan = pm_ops DEFAULT_PLAN_COOLDOWN_CONFIG,
     ce_planCfg = DEFAULT_PLAN_COOLDOWN_CONFIG, ce_hasOnOpen = True, ce_hasOnState = True,
     ce_aborted = (\<lambda>_. False), ce_callerAbort = (\<lambda>_. False), ce_responseOut = Inr, ce_firstEventTimeoutMs = 60000\<rparr>"

definition demo_member :: "string \<Rightarrow> (raw_error + normalized_response) \<Rightarrow> demo_cworld chain_attempt" where
  "demo_member p r = \<lparr>at_providerId = p, at_externalModelId = ''m'',
     at_buildAdapter = (\<lambda>_ w. (Inr \<lparr>pa_chat = (\<lambda>_ w. (r, w)),
        pa_chatStream = (\<lambda>_ _. \<lparr>gr_events = [], gr_end = GenDone, gr_env = id, gr_timedOut = False\<rparr>)\<rparr>, w)),
     at_firstEventTimeoutMs = None, at_probeFirstEventTimeoutMs = None, at_probeLeaseMs = None,
     at_maxOutputTokens = None, at_hasOnSettle = True, at_planCooldown = True\<rparr>"

definition demo_request :: normalized_request where
  "demo_request = \<lparr>rq_model = ''auto'', rq_system = None, rq_messages = [], rq_tools = None, rq_toolChoice = None,
     rq_allowParallelTools = None,
     rq_params = \<lparr>maxOutputTokens = None, temperature = None, topP = None, stopSequences = None\<rparr>,
     rq_responseFormat = None, rq_reasoning = None, rq_outputConfig = None, rq_stream = None, rq_includeUsage = None\<rparr>"

definition demo_answer :: normalized_response where
  "demo_answer = \<lparr>rs_id = ''r'', rs_model = ''m'', rs_created = None, rs_content = [TextBlock ''hi'' None],
     rs_stopReason = StopStop, rs_rawStopReason = None, rs_stopSequence = None, rs_usage = None\<rparr>"

lemmas demo_chain = demo_cw_def demo_env_def demo_member_def runBufferedChain_def pausedBy_def
  planCooldownFor_def pm_ops_def pm_live_def serveMember_def callMember_def withBreaker_def before_def
  mem_ops_def mem_decide_def decide_def recordFor_def seeded_def empty_mem_def INITIAL_RECORD_def or_else_def
  cfgForLease_def DEFAULT_BREAKER_CONFIG_def cb_of_def with_cb_def notifyState_def emit_def
  completeAndNotify_def complete_def mem_complete_def applyComplete_def lastSeq_of_def settlement_of_def
  put_record_def outcomeForError_def outcomeForKind_def breakerImpact_def kindOf_def toProviderError_def
  recordPause_def recordPlanCooldown_def isPlanCooldownKind_def PLAN_COOLDOWN_KINDS_def fallbackEligible_def
  shouldFallback_def plain_error_def ProviderError_def

lemma stop_is_final_witness:
  "runBufferedChain demo_env ([demo_member ''a'' (Inl (Provider (plain_error policy_block ''no'')))]
       @ [demo_member ''b'' (Inr demo_answer)]) demo_request demo_cw
   = runBufferedChain demo_env [demo_member ''a'' (Inl (Provider (plain_error policy_block ''no'')))]
       demo_request demo_cw"
  by (rule stop_is_final) (simp_all add: demo_chain Let_def)

lemma paused_chain_leaves_breaker_alone_witness:
  "case runBufferedChain demo_env [demo_member ''paused'' (Inr demo_answer)] demo_request demo_cw of
      (BufferedOk _ _ _ _, w') \<Rightarrow> False
    | (BufferedError err fs gone b, w') \<Rightarrow>
        same_breaker demo_cw w' \<and> length fs = 1 \<and> list_all af_skip fs \<and>
        walkUnbilled (Some (chainBillingEvidence fs b))"
proof -
  have "list_all (paused_in (cw_plan demo_cw)) [demo_member ''paused'' (Inr demo_answer)]"
    by (simp add: paused_in_def pm_view_def pm_live_def demo_cw_def demo_member_def)
  moreover have "ce_plan demo_env = pm_ops DEFAULT_PLAN_COOLDOWN_CONFIG" "\<not> ce_aborted demo_env w" for w
    by (simp_all add: demo_env_def)
  ultimately show ?thesis
    using paused_chain_leaves_breaker_alone [of demo_env DEFAULT_PLAN_COOLDOWN_CONFIG demo_cw
        "[demo_member ''paused'' (Inr demo_answer)]" demo_request]
    by (simp split: prod.splits buffered_result.splits)
qed

end
