(* ===== verification/Watchdog.thy ===== *)
theory Watchdog
  imports Main
begin

text \<open>
  The watchdog of \<open>proxy/core.ts\<close>, \<open>nextWithTimeout\<close>: waiting for the next upstream event under a
  deadline that every byte re-arms. The environment is given as data: the instant the awaited
  event settles, if it does, the instants bytes arrive at, and the value of the mutable bound at
  every instant. The loop runs on a bound of iterations, since a stream kept alive by bytes for
  ever never ends; lemma \<open>silence_trips\<close> says how many are enough once the bytes stop.
\<close>

datatype watch_result = Settled int | TimedOut int

definition last_byte :: "int list \<Rightarrow> int \<Rightarrow> int" where
  "last_byte bytes t = foldl max 0 (filter (\<lambda>b. b \<le> t) bytes)"

text \<open>A timer of less than a millisecond is one of a millisecond. An event that settles at the
  instant the timer fires wins the race.\<close>

primrec nextWithTimeout ::
  "nat \<Rightarrow> int option \<Rightarrow> int list \<Rightarrow> (int \<Rightarrow> int) \<Rightarrow> int \<Rightarrow> int \<Rightarrow> watch_result option" where
  "nextWithTimeout 0 settles bytes bound armedAt now = None"
| "nextWithTimeout (Suc n) settles bytes bound armedAt now =
     (let fire = now + max 1 (bound now - (now - armedAt)) in
      if (case settles of Some s \<Rightarrow> s \<le> fire | None \<Rightarrow> False) then map_option Settled settles
      else if armedAt + bound fire > fire then nextWithTimeout n settles bytes bound armedAt fire
      else let lastByteAt = last_byte bytes fire in
        if lastByteAt > armedAt \<and> lastByteAt + bound fire > fire
        then nextWithTimeout n settles bytes bound lastByteAt fire
        else Some (TimedOut fire))"

lemma foldl_max: "foldl max a xs = fold max xs (a :: int)"
  by (induction xs arbitrary: a) (simp_all add: max.commute)

lemma foldl_max_ge: "(a :: int) \<le> foldl max a xs" "x \<in> set xs \<Longrightarrow> x \<le> foldl max a xs"
proof -
  show "(a :: int) \<le> foldl max a xs"
    by (induction xs rule: rev_induct) auto
  show "x \<in> set xs \<Longrightarrow> x \<le> foldl max a xs"
    by (induction xs rule: rev_induct) auto
qed

lemma foldl_max_le: "(a :: int) \<le> c \<Longrightarrow> (\<And>x. x \<in> set xs \<Longrightarrow> x \<le> c) \<Longrightarrow> foldl max a xs \<le> c"
  by (induction xs rule: rev_induct) auto

lemma last_byte_ge: "b \<in> set bytes \<Longrightarrow> b \<le> t \<Longrightarrow> b \<le> last_byte bytes t"
  by (simp add: last_byte_def foldl_max_ge)

section \<open>The stream is only given up after true silence\<close>

lemma timeout_silent:
  "nextWithTimeout n settles bytes bound armedAt now = Some (TimedOut t) \<Longrightarrow> a0 \<le> armedAt \<Longrightarrow>
     a0 + bound t \<le> t \<and> last_byte bytes t + bound t \<le> t \<and>
     (case settles of Some s \<Rightarrow> t < s | None \<Rightarrow> True)"
proof (induction n arbitrary: armedAt now)
  case (Suc n)
  define fire where "fire = now + max 1 (bound now - (now - armedAt))"
  define lb where "lb = last_byte bytes fire"
  note body = Suc.prems(1) [unfolded nextWithTimeout.simps Let_def, folded fire_def lb_def]
  consider "case settles of Some s \<Rightarrow> s \<le> fire | None \<Rightarrow> False"
    | "\<not> (case settles of Some s \<Rightarrow> s \<le> fire | None \<Rightarrow> False)" "armedAt + bound fire > fire"
    | "\<not> (case settles of Some s \<Rightarrow> s \<le> fire | None \<Rightarrow> False)" "\<not> armedAt + bound fire > fire"
      "lb > armedAt \<and> lb + bound fire > fire"
    | "\<not> (case settles of Some s \<Rightarrow> s \<le> fire | None \<Rightarrow> False)" "\<not> armedAt + bound fire > fire"
      "\<not> (lb > armedAt \<and> lb + bound fire > fire)"
    by blast
  then show ?case
  proof cases
    case 1
    with body show ?thesis by (auto split: option.splits)
  next
    case 2
    with body have "nextWithTimeout n settles bytes bound armedAt fire = Some (TimedOut t)" by simp
    with Suc.prems(2) show ?thesis by (intro Suc.IH)
  next
    case 3
    with body have "nextWithTimeout n settles bytes bound lb fire = Some (TimedOut t)" by simp
    moreover have "a0 \<le> lb" using 3 Suc.prems(2) by simp
    ultimately show ?thesis by (rule Suc.IH)
  next
    case 4
    with body have "t = fire" by simp
    with 4 Suc.prems(2) show ?thesis by (auto simp: lb_def split: option.splits)
  qed
qed simp

text \<open>C33 (safety). The watchdog never gives up on a stream that is alive: when it aborts at an instant,
  the event had not settled, and a full bound (at its value of that instant, so a bound widened
  while waiting counts) has passed since the wait began and since every byte that arrived.\<close>

theorem timeout_only_after_silence:
  assumes "nextWithTimeout n settles bytes bound armedAt armedAt = Some (TimedOut t)"
  shows "armedAt + bound t \<le> t \<and> list_all (\<lambda>b. t < b \<or> b + bound t \<le> t) bytes \<and>
    (case settles of Some s \<Rightarrow> t < s | None \<Rightarrow> True)"
proof -
  note silent = timeout_silent [OF assms order_refl]
  have "b + bound t \<le> t" if "b \<in> set bytes" "b \<le> t" for b
    using last_byte_ge [OF that] silent by linarith
  then have "list_all (\<lambda>b. t < b \<or> b + bound t \<le> t) bytes" unfolding list_all_iff by (metis not_le)
  with silent show ?thesis by blast
qed

lemma timeout_only_after_silence_witness:
  "nextWithTimeout 3 (Some 400) [150, 190] (\<lambda>_. 100) 100 100 = Some (TimedOut 290) \<and>
   100 + 100 \<le> (290 :: int) \<and> list_all (\<lambda>b. 290 < b \<or> b + 100 \<le> (290 :: int)) [150, 190]"
proof -
  have r: "nextWithTimeout 3 (Some 400) [150, 190] (\<lambda>_. 100) 100 100 = Some (TimedOut 290)"
    by (simp add: numeral_3_eq_3 last_byte_def)
  with timeout_only_after_silence [OF r] show ?thesis by simp
qed

section \<open>True silence is given up exactly at the bound\<close>

text \<open>Bytes arriving in order, each less than the bound behind the one before.\<close>

fun kept_alive :: "int \<Rightarrow> int \<Rightarrow> int list \<Rightarrow> bool" where
  "kept_alive B a [] = True"
| "kept_alive B a (b # bs) = (a < b \<and> b < a + B \<and> kept_alive B b bs)"

lemma kept_alive_append:
  "kept_alive B a (xs @ ys) \<longleftrightarrow> kept_alive B a xs \<and> kept_alive B (last (a # xs)) ys"
  by (induction xs arbitrary: a) auto

lemma kept_alive_last: "kept_alive B a xs \<Longrightarrow> x \<in> set (a # xs) \<Longrightarrow> x \<le> last (a # xs)"
proof (induction xs arbitrary: a x)
  case (Cons b xs)
  from Cons.IH [of b b] Cons.IH [of b x] Cons.prems show ?case by fastforce
qed simp

lemma kept_alive_sorted: "kept_alive B a xs \<Longrightarrow> list_all (\<lambda>x. a < x) xs"
  by (induction xs arbitrary: a) (fastforce simp: list_all_iff)+

lemma split_at:
  assumes "kept_alive B a suf" "0 < B"
  shows "filter (\<lambda>b. b \<le> t) suf = takeWhile (\<lambda>b. b \<le> t) suf"
  using assms(1)
proof (induction suf arbitrary: a)
  case (Cons b suf)
  then show ?case using kept_alive_sorted [of B b suf] by (auto simp: list_all_iff filter_empty_conv)
qed simp

lemma silence_trips:
  assumes "1 \<le> B"
  shows "kept_alive B a suf \<Longrightarrow> 0 \<le> a \<Longrightarrow> (\<And>b. b \<in> set pre \<Longrightarrow> b \<le> a) \<Longrightarrow> a \<le> now \<Longrightarrow> now < a + B \<Longrightarrow>
    length suf < n \<Longrightarrow>
    nextWithTimeout n None (pre @ suf) (\<lambda>_. B) a now = Some (TimedOut (last (a # suf) + B))"
proof (induction "length suf" arbitrary: suf pre a now n rule: less_induct)
  case less
  obtain m where n: "n = Suc m" using less.prems(6) by (cases n) auto
  have fire: "now + max 1 (B - (now - a)) = a + B" using less.prems(4,5) by simp
  define s1 where "s1 = takeWhile (\<lambda>b. b \<le> a + B) suf"
  define s2 where "s2 = dropWhile (\<lambda>b. b \<le> a + B) suf"
  have suf: "suf = s1 @ s2" by (simp add: s1_def s2_def)
  have seen: "filter (\<lambda>b. b \<le> a + B) (pre @ suf) = pre @ s1"
    using less.prems(3) assms split_at [OF less.prems(1), of "a + B"]
    by (fastforce simp: s1_def intro: filter_True)
  have alive: "kept_alive B a s1" "kept_alive B (last (a # s1)) s2"
    using less.prems(1) by (simp_all add: suf kept_alive_append)
  have lb: "last_byte (pre @ suf) (a + B) = (if s1 = [] then foldl max 0 pre else last s1)"
  proof (cases "s1 = []")
    case True
    then show ?thesis unfolding last_byte_def seen by simp
  next
    case False
    have "foldl max 0 (pre @ s1) \<le> last (a # s1)"
      using less.prems(2,3) kept_alive_last [OF alive(1)]
      by (intro foldl_max_le) (fastforce intro: order_trans)+
    moreover have "last s1 \<le> foldl max 0 (pre @ s1)" using False by (intro foldl_max_ge(2)) auto
    ultimately show ?thesis using False unfolding last_byte_def seen by simp
  qed
  show ?case
  proof (cases suf)
    case Nil
    then have "foldl max 0 pre \<le> a" using less.prems(2,3) by (intro foldl_max_le) auto
    with Nil lb show ?thesis unfolding n nextWithTimeout.simps Let_def fire by (simp add: s1_def)
  next
    case (Cons b bs)
    with less.prems(1) have "s1 \<noteq> []" by (simp add: s1_def)
    then have "last s1 \<in> set s1" by simp
    then have l: "a < last s1" "last s1 \<le> a + B"
      using kept_alive_sorted [OF alive(1)] set_takeWhileD [of "last s1" "\<lambda>b. b \<le> a + B" suf]
      by (auto simp: list_all_iff s1_def)
    have "nextWithTimeout m None ((pre @ s1) @ s2) (\<lambda>_. B) (last s1) (a + B) =
        Some (TimedOut (last (last s1 # s2) + B))"
    proof (rule less.hyps)
      show "length s2 < length suf" using \<open>s1 \<noteq> []\<close> by (simp add: suf)
      show "kept_alive B (last s1) s2" using alive(2) \<open>s1 \<noteq> []\<close> by simp
      show "c \<le> last s1" if "c \<in> set (pre @ s1)" for c
        using that less.prems(3) l(1) kept_alive_last [OF alive(1), of c] \<open>s1 \<noteq> []\<close> by fastforce
      show "length s2 < m" using less.prems(6) \<open>s1 \<noteq> []\<close> n by (simp add: suf) (cases s1, auto)
    qed (use l less.prems(2) in auto)
    moreover have "last (a # suf) = last (last s1 # s2)"
      using \<open>s1 \<noteq> []\<close> by (simp add: suf)
    ultimately show ?thesis
      unfolding n nextWithTimeout.simps Let_def fire using l lb \<open>s1 \<noteq> []\<close> assms by (simp add: suf)
  qed
qed

text \<open>C34 (liveness). True silence always trips, and exactly at the bound: if bytes keep the stream alive
  and then stop, and the event never settles, the wait ends one bound after the last byte (or
  after it began, when none came), within one iteration per byte and one more.\<close>

theorem silence_trips_at_bound:
  assumes "1 \<le> B" "0 \<le> armedAt" "kept_alive B armedAt bytes"
  shows "nextWithTimeout (Suc (length bytes)) None bytes (\<lambda>_. B) armedAt armedAt =
    Some (TimedOut (last (armedAt # bytes) + B))"
  using silence_trips [OF assms(1,3,2), of "[]" armedAt "Suc (length bytes)"] assms(1) by simp

lemma silence_trips_at_bound_witness:
  "nextWithTimeout 4 None [1050, 1140, 1200] (\<lambda>_. 100) 1000 1000 = Some (TimedOut 1300)"
  using silence_trips_at_bound [of 100 1000 "[1050, 1140, 1200]"] by (simp add: eval_nat_numeral)

end
