(* ===== verification/OutputCaps.thy ===== *)
theory OutputCaps
  imports Ir Prelude
begin

text \<open>
  \<open>proxy/output-caps.ts\<close>: the deliverability plan over a walked chain. Members known to be short
  on a demanded capability, then on output capacity, are deferred behind the others, in one
  stable ordering; a member short on capacity is clamped to its own cap. Caps and the ask are
  integers here: a fraction or a non-number does not take part in the source, and is \<open>None\<close>.
\<close>

section \<open>The plan\<close>

record 'm cap_input =
  ci_member :: 'm
  ci_cap :: "int option"
  ci_label :: string
  ci_capabilityShort :: "string list"

record 'm cap_member =
  cm_member :: 'm
  cm_label :: string
  cm_clampTo :: "int option"

record 'm cap_plan =
  planned :: bool
  plan_members :: "'m cap_member list"
  deferred :: "(string \<times> int) list"
  capabilityDeferred :: "(string \<times> string list) list"

definition knownCap :: "int option \<Rightarrow> int option" where
  "knownCap cap = (case cap of Some c \<Rightarrow> if c > 0 then Some c else None | None \<Rightarrow> None)"

definition participatingAsk :: "int option \<Rightarrow> int option" where
  "participatingAsk ask = (case ask of Some a \<Rightarrow> if a > 0 then Some a else None | None \<Rightarrow> None)"

record 'm cap_row =
  row_index :: nat
  row_member :: 'm
  row_label :: string
  row_cap :: "int option"
  row_capShort :: bool
  row_missing :: "string list"
  row_capabilityShort :: bool

definition cap_row_of :: "int option \<Rightarrow> nat \<Rightarrow> 'm cap_input \<Rightarrow> 'm cap_row" where
  "cap_row_of wanted index m =
     (let cap = knownCap (ci_cap m); missing = ci_capabilityShort m in
      \<lparr>row_index = index, row_member = ci_member m, row_label = ci_label m, row_cap = cap,
       row_capShort = (case (wanted, cap) of (Some w, Some c) \<Rightarrow> c < w | _ \<Rightarrow> False),
       row_missing = missing, row_capabilityShort = (missing \<noteq> [])\<rparr>)"

definition cap_rows :: "int option \<Rightarrow> 'm cap_input list \<Rightarrow> 'm cap_row list" where
  "cap_rows wanted members = map (\<lambda>(i, m). cap_row_of wanted i m) (zip [0..<length members] members)"

definition cap_group :: "'m cap_row \<Rightarrow> int" where
  "cap_group r = (if row_capabilityShort r then 2 else 0) + (if row_capShort r then 1 else 0)"

definition cap_order :: "'m cap_row \<Rightarrow> 'm cap_row \<Rightarrow> int" where
  "cap_order a b =
     (if cap_group a - cap_group b \<noteq> 0 then cap_group a - cap_group b
      else int (row_index a) - int (row_index b))"

interpretation cap_order: consistent_cmp cap_order
  by unfold_locales (auto simp: cap_order_def split: if_splits)

definition planDeliverability :: "'m cap_input list \<Rightarrow> int option \<Rightarrow> 'm cap_plan" where
  "planDeliverability members ask =
     (let wanted = participatingAsk ask; rows = cap_rows wanted members in
      if wanted = None \<and> \<not> list_ex row_capabilityShort rows
      then \<lparr>planned = False,
            plan_members = map (\<lambda>m. \<lparr>cm_member = ci_member m, cm_label = ci_label m, cm_clampTo = None\<rparr>) members,
            deferred = [], capabilityDeferred = []\<rparr>
      else
        \<lparr>planned = True,
         plan_members = map (\<lambda>r. \<lparr>cm_member = row_member r, cm_label = row_label r,
             cm_clampTo = (if row_capShort r then row_cap r else None)\<rparr>) (js_sort cap_order rows),
         deferred = (if list_ex (\<lambda>r. \<not> row_capShort r) rows
           then map (\<lambda>r. (row_label r, case row_cap r of Some c \<Rightarrow> c | None \<Rightarrow> 0)) (filter row_capShort rows)
           else []),
         capabilityDeferred = (if list_ex (\<lambda>r. \<not> row_capabilityShort r) rows
           then map (\<lambda>r. (row_label r, row_missing r)) (filter row_capabilityShort rows) else [])\<rparr>)"

definition planOutputCaps :: "'m cap_input list \<Rightarrow> int option \<Rightarrow> 'm cap_plan" where
  "planOutputCaps members ask =
     planDeliverability (map (\<lambda>m. m\<lparr>ci_capabilityShort := []\<rparr>) members) ask"

section \<open>The capabilities a request demands\<close>

text \<open>The depth is bounded: below the fourth level of nesting nothing is looked at.\<close>

fun containsImage :: "nat \<Rightarrow> content_block list \<Rightarrow> bool" where
  "containsImage 0 blocks = False"
| "containsImage (Suc depth) blocks =
     list_ex (\<lambda>b. case b of
        ImageData _ _ _ \<Rightarrow> True
      | ImageUrl _ _ \<Rightarrow> True
      | ToolResult _ content _ _ \<Rightarrow> containsImage depth content
      | _ \<Rightarrow> False) blocks"

definition capabilityDemandOf :: "normalized_request \<Rightarrow> string list" where
  "capabilityDemandOf ir =
     (let tools = (case rq_tools ir of Some ts \<Rightarrow> ts | None \<Rightarrow> []);
          blocks = (case rq_system ir of Some bs \<Rightarrow> bs | None \<Rightarrow> []) @ concat (map msg_content (rq_messages ir))
      in (if tools \<noteq> [] then [''tools''] else []) @ (if containsImage 5 blocks then [''vision''] else []))"

section \<open>The ordering\<close>

lemma cap_rows_length [simp]: "length (cap_rows wanted members) = length members"
  by (simp add: cap_rows_def)

lemma cap_rows_nth: "i < length members \<Longrightarrow> cap_rows wanted members ! i = cap_row_of wanted i (members ! i)"
  by (simp add: cap_rows_def)

lemma cap_rows_map:
  "(\<And>i m. f (cap_row_of wanted i m) = g m) \<Longrightarrow> map f (cap_rows wanted members) = map g members"
  by (auto simp: cap_rows_def intro: nth_equalityI)

lemma cap_rows_indices: "sorted_wrt (\<lambda>a b. row_index a < row_index b) (cap_rows wanted members)"
  by (auto simp: sorted_wrt_iff_nth_less cap_rows_nth cap_row_of_def Let_def)

text \<open>The stable sort on the group is the concatenation of the four groups in configured order.\<close>

definition by_group :: "'m cap_row list \<Rightarrow> 'm cap_row list" where
  "by_group rows = concat (map (\<lambda>g. filter (\<lambda>r. cap_group r = g) rows) [0, 1, 2, 3])"

lemma cap_group_cases: "cap_group r = 0 \<or> cap_group r = 1 \<or> cap_group r = 2 \<or> cap_group r = 3"
  by (simp add: cap_group_def)

lemma by_group_sorted:
  "sorted_wrt (\<lambda>a b. row_index a < row_index b) rows \<Longrightarrow>
     sorted_wrt (\<lambda>a b. cap_order a b \<le> 0) (by_group rows)"
proof -
  assume s: "sorted_wrt (\<lambda>a b. row_index a < row_index b) rows"
  have part: "sorted_wrt (\<lambda>a b. cap_order a b \<le> 0) (filter (\<lambda>r. cap_group r = g) rows)" for g
  proof -
    have "sorted_wrt (\<lambda>a b. row_index a < row_index b) (filter (\<lambda>r. cap_group r = g) rows)"
      by (rule sorted_wrt_filter [OF s])
    then show ?thesis
      by (rule sorted_wrt_mono_rel [rotated]) (auto simp: cap_order_def)
  qed
  show ?thesis
    by (auto simp: by_group_def sorted_wrt_append part) (auto simp: cap_order_def)
qed

lemma mset_by_group: "mset (by_group rows) = mset rows"
proof (induction rows)
  case (Cons r rows)
  then show ?case using cap_group_cases [of r] by (auto simp: by_group_def)
qed (simp add: by_group_def)

lemma sort_is_groups: "js_sort cap_order (cap_rows wanted members) = by_group (cap_rows wanted members)"
proof (rule cap_order.sorted_unique)
  show "mset (js_sort cap_order (cap_rows wanted members)) = mset (by_group (cap_rows wanted members))"
    by (simp add: mset_by_group)
  show "sorted_wrt (\<lambda>a b. cap_order a b \<le> 0) (by_group (cap_rows wanted members))"
    by (rule by_group_sorted [OF cap_rows_indices])
  fix a b assume "a \<in> set (js_sort cap_order (cap_rows wanted members))"
    "b \<in> set (js_sort cap_order (cap_rows wanted members))" "cap_order a b \<le> 0" "cap_order b a \<le> 0"
  then have "row_index a = row_index b" "a \<in> set (cap_rows wanted members)" "b \<in> set (cap_rows wanted members)"
    by (auto simp: cap_order_def split: if_splits)
  then show "a = b"
    by (metis in_set_conv_nth cap_rows_length cap_rows_nth cap_row_of_def cap_row.select_convs(1))
qed (rule cap_order.sorted_sort)

section \<open>What the plan is\<close>

text \<open>The group and the clamp of a member, read off the input alone.\<close>

definition short_of :: "int option \<Rightarrow> 'm cap_input \<Rightarrow> bool" where
  "short_of ask m =
     (case (ask, ci_cap m) of (Some a, Some c) \<Rightarrow> 0 < c \<and> c < a | _ \<Rightarrow> False)"

definition group_of :: "int option \<Rightarrow> 'm cap_input \<Rightarrow> int" where
  "group_of ask m = (if ci_capabilityShort m \<noteq> [] then 2 else 0) + (if short_of ask m then 1 else 0)"

definition four_groups :: "int option \<Rightarrow> 'm cap_input list \<Rightarrow> 'm cap_input list" where
  "four_groups ask members = concat (map (\<lambda>g. filter (\<lambda>m. group_of ask m = g) members) [0, 1, 2, 3])"

lemma row_facts:
  "row_member (cap_row_of (participatingAsk ask) i m) = ci_member m"
  "row_label (cap_row_of (participatingAsk ask) i m) = ci_label m"
  "row_capShort (cap_row_of (participatingAsk ask) i m) = short_of ask m"
  "row_capabilityShort (cap_row_of (participatingAsk ask) i m) = (ci_capabilityShort m \<noteq> [])"
  "cap_group (cap_row_of (participatingAsk ask) i m) = group_of ask m"
  "short_of ask m \<Longrightarrow> row_cap (cap_row_of (participatingAsk ask) i m) = ci_cap m"
  by (auto simp: cap_row_of_def Let_def short_of_def participatingAsk_def knownCap_def cap_group_def group_of_def
      split: option.splits)

lemma filter_rows:
  assumes "\<And>i m. P (cap_row_of w i m) = Q m" "\<And>i m. Q m \<Longrightarrow> f (cap_row_of w i m) = g m"
  shows "map f (filter P (cap_rows w members)) = map g (filter Q members)"
proof -
  have "map f (filter P (map (\<lambda>(i, m). cap_row_of w i m) (zip [k..<k + length members] members))) =
      map g (filter Q members)" for k
  proof (induction members arbitrary: k)
    case (Cons m members)
    have "[k..<k + length (m # members)] = k # [Suc k..<Suc k + length members]"
      using upt_conv_Cons [of k "k + length (m # members)"] by simp
    with Cons [of "Suc k"] show ?case by (simp add: assms del: upt_Suc)
  qed simp
  from this [of 0] show ?thesis by (simp add: cap_rows_def)
qed

text \<open>The deliverability plan is the four groups in order (able, short on output
  capacity, short on a demanded capability, short on both), each in the configured order, and a
  member is clamped exactly when its known cap is below the ask, to that cap. So no member is
  dropped or doubled, a member nothing is known against is never overtaken from behind, and with
  nothing to plan the chain keeps its order untouched.\<close>

theorem plan_is_four_groups:
  "map (\<lambda>m. (cm_member m, cm_label m, cm_clampTo m)) (plan_members (planDeliverability members ask)) =
   map (\<lambda>m. (ci_member m, ci_label m, if short_of ask m then ci_cap m else None)) (four_groups ask members)"
proof (cases "participatingAsk ask = None \<and> \<not> list_ex row_capabilityShort (cap_rows (participatingAsk ask) members)")
  case True
  have "group_of ask m = 0 \<and> \<not> short_of ask m" if "m \<in> set members" for m
  proof -
    have "\<not> short_of ask m"
      using True by (auto simp: short_of_def participatingAsk_def split: option.splits if_splits)
    moreover from that obtain i where i: "i < length members" "members ! i = m" by (auto simp: in_set_conv_nth)
    then have "cap_row_of (participatingAsk ask) i m \<in> set (cap_rows (participatingAsk ask) members)"
      by (metis cap_rows_length cap_rows_nth nth_mem)
    with True have "ci_capabilityShort m = []"
      using row_facts(4) [of ask i m] by (auto simp: list_ex_iff)
    ultimately show ?thesis by (simp add: group_of_def)
  qed
  then have "four_groups ask members = members" "\<And>m. m \<in> set members \<Longrightarrow> \<not> short_of ask m"
    by (auto simp: four_groups_def filter_empty_conv intro: filter_True)
  then show ?thesis unfolding planDeliverability_def Let_def if_P [OF True] by simp
next
  case False
  have g: "map (\<lambda>r. (row_member r, row_label r, if row_capShort r then row_cap r else None))
      (filter (\<lambda>r. cap_group r = g) (cap_rows (participatingAsk ask) members)) =
    map (\<lambda>m. (ci_member m, ci_label m, if short_of ask m then ci_cap m else None))
      (filter (\<lambda>m. group_of ask m = g) members)" for g
    by (rule filter_rows) (simp_all add: row_facts)
  from False show ?thesis
    by (auto simp: planDeliverability_def Let_def sort_is_groups by_group_def four_groups_def g comp_def)
qed

end
