(* ===== verification/Cascade.thy ===== *)
theory Cascade
  imports ChainWalk
begin

text \<open>
  \<open>proxy/cascade.ts\<close> and the replay of \<open>proxy/core.ts\<close>: the structural quality score of a buffered
  answer, its size, the stream events it is replayed as, and the replay itself, whose frames are
  all made before the first is delivered.
\<close>

section \<open>The quality gate\<close>

definition is_text :: "content_block \<Rightarrow> bool" where
  "is_text b = (case b of TextBlock _ _ \<Rightarrow> True | _ \<Rightarrow> False)"

definition text_of :: "content_block \<Rightarrow> string" where
  "text_of b = (case b of TextBlock t _ \<Rightarrow> t | _ \<Rightarrow> [])"

text \<open>The scan of the blocks, cut short (\<open>None\<close>) at a tool call whose arguments did not parse.\<close>

record quality_scan =
  qs_hasText :: bool
  qs_hasTool :: bool
  qs_text :: string

fun scan_blocks :: "content_block list \<Rightarrow> quality_scan \<Rightarrow> quality_scan option" where
  "scan_blocks [] s = Some s"
| "scan_blocks (b # bs) s =
     (case b of
        TextBlock t _ \<Rightarrow>
          scan_blocks bs (s\<lparr>qs_hasText := (qs_hasText s \<or> js_trim t \<noteq> []), qs_text := qs_text s @ t\<rparr>)
      | ToolUse _ _ _ _ \<Rightarrow> scan_blocks bs (s\<lparr>qs_hasTool := True\<rparr>)
      | ToolUseRaw _ _ _ _ \<Rightarrow> None
      | _ \<Rightarrow> scan_blocks bs s)"

definition evaluateQuality :: "normalized_response \<Rightarrow> bool \<Rightarrow> rat" where
  "evaluateQuality response structuredDemand =
     (if rs_stopReason response = StopError \<or> rs_stopReason response = StopContentFilter then 0
      else
        case scan_blocks (rs_content response) \<lparr>qs_hasText = False, qs_hasTool = False, qs_text = []\<rparr> of
          None \<Rightarrow> 0
        | Some s \<Rightarrow>
            if \<not> qs_hasText s \<and> \<not> qs_hasTool s then 0
            else
              let toolTurn = (qs_hasTool s \<or> rs_stopReason response = StopToolUse \<or> rs_stopReason response = StopPause)
              in
              if structuredDemand \<and> qs_hasText s \<and> \<not> toolTurn \<and> json_parse (js_trim (qs_text s)) = None then 0
              else if rs_stopReason response = StopLength then 1 / 2
              else 1)"

section \<open>The size and the events of a buffered answer\<close>

definition block_chars :: "content_block \<Rightarrow> nat" where
  "block_chars b =
     (case b of
        TextBlock t _ \<Rightarrow> length t
      | ToolUse _ name input _ \<Rightarrow> length name + length (json_text input)
      | ToolUseRaw _ name inputRaw _ \<Rightarrow> length name + length inputRaw
      | _ \<Rightarrow> 0)"

definition responseOutputChars :: "content_block list \<Rightarrow> nat" where
  "responseOutputChars content = sum_list (map block_chars content)"

text \<open>The events of one block at an index, and whether it takes the index.\<close>

definition block_events :: "nat \<Rightarrow> content_block \<Rightarrow> stream_event list" where
  "block_events index b =
     (case b of
        TextBlock t _ \<Rightarrow> [TextDelta index t, BlockStop index None]
      | ToolUse tid name input _ \<Rightarrow>
          [ToolUseStart index tid name, ToolUseDelta index (json_text input), BlockStop index (Some b)]
      | ToolUseRaw tid name inputRaw _ \<Rightarrow>
          [ToolUseStart index tid name, ToolUseDelta index inputRaw, BlockStop index (Some b)]
      | _ \<Rightarrow> [])"

primrec blocks_events :: "nat \<Rightarrow> content_block list \<Rightarrow> stream_event list" where
  "blocks_events index [] = []"
| "blocks_events index (b # bs) =
     block_events index b @ blocks_events (if block_events index b = [] then index else Suc index) bs"

definition start_usage :: "normalized_usage \<Rightarrow> partial_usage" where
  "start_usage u = \<lparr>p_inputTokens = Some (inputTokens u), p_outputTokens = None,
                    p_cacheReadTokens = cacheReadTokens u, p_cacheWriteTokens = cacheWriteTokens u\<rparr>"

definition end_usage :: "normalized_usage \<Rightarrow> partial_usage" where
  "end_usage u = empty_usage\<lparr>p_outputTokens := Some (outputTokens u)\<rparr>"

definition responseToStreamEvents :: "normalized_response \<Rightarrow> stream_event list" where
  "responseToStreamEvents response =
     [MessageStart (rs_id response) (rs_model response) (map_option start_usage (rs_usage response))]
     @ blocks_events 0 (rs_content response)
     @ [MessageDelta (Some (rs_stopReason response)) (rs_rawStopReason response) (rs_stopSequence response)
          (map_option end_usage (rs_usage response)),
        MessageStop]"

section \<open>The replay\<close>

text \<open>\<open>None\<close> when the serializer throws: nothing was committed, the caller escalates. A consumer
  that stops pulling before the end is a caller abort.\<close>

definition replayBufferedStream ::
  "(stream_event list \<Rightarrow> string list option) \<Rightarrow> normalized_response \<Rightarrow> nat option
     \<Rightarrow> (string list \<times> stream_outcome) option" where
  "replayBufferedStream serialize response leave =
     (case serialize (responseToStreamEvents response) of
        None \<Rightarrow> None
      | Some materialized \<Rightarrow>
          (let acc = \<lparr>acc_usage = (case rs_usage response of Some u \<Rightarrow> partial_of u | None \<Rightarrow> empty_usage),
                      acc_outputChars = responseOutputChars (rs_content response)\<rparr>
           in case leave of
                None \<Rightarrow> Some (materialized, outcome_of acc True False None)
              | Some n \<Rightarrow> Some (take n materialized, outcome_of acc False True None)))"

section \<open>What a replay records\<close>

lemma accumulate_simps [simp]:
  "accumulate acc (TextDelta i t) = acc\<lparr>acc_outputChars := acc_outputChars acc + length t\<rparr>"
  "accumulate acc (ToolUseStart i d n) = acc\<lparr>acc_outputChars := acc_outputChars acc + length n\<rparr>"
  "accumulate acc (ToolUseDelta i p) = acc\<lparr>acc_outputChars := acc_outputChars acc + length p\<rparr>"
  "accumulate acc (BlockStop i f) = acc" "accumulate acc MessageStop = acc"
  by (simp_all add: accumulate_def)

lemma tally_block:
  "foldl accumulate acc (block_events i b) = acc\<lparr>acc_outputChars := acc_outputChars acc + block_chars b\<rparr>"
  by (cases b) (simp_all add: block_events_def block_chars_def)

lemma tally_blocks:
  "foldl accumulate acc (blocks_events i bs) =
     acc\<lparr>acc_outputChars := acc_outputChars acc + responseOutputChars bs\<rparr>"
  by (induction bs arbitrary: i acc) (simp_all add: tally_block responseOutputChars_def add.assoc)

text \<open>C35 (equivalence). A replayed answer is recorded like a streamed one: folding the synthesized
  events as the streaming path folds upstream's gives exactly the usage of the buffered answer and
  the output characters counted on its content.\<close>

theorem replay_counts_like_stream:
  "foldl accumulate \<lparr>acc_usage = empty_usage, acc_outputChars = 0\<rparr> (responseToStreamEvents response) =
     \<lparr>acc_usage = (case rs_usage response of Some u \<Rightarrow> partial_of u | None \<Rightarrow> empty_usage),
      acc_outputChars = responseOutputChars (rs_content response)\<rparr>"
  by (cases "rs_usage response")
    (simp_all add: responseToStreamEvents_def tally_blocks accumulate_def mergePartialUsage_def
      merge_one_def later_def empty_usage_def start_usage_def end_usage_def partial_of_def split: option.splits)

text \<open>What the gate refuses, read off the answer.\<close>

definition unusable :: "normalized_response \<Rightarrow> bool \<Rightarrow> bool" where
  "unusable response structuredDemand =
     (let bs = rs_content response; stop = rs_stopReason response;
          hasText = list_ex (\<lambda>b. js_trim (text_of b) \<noteq> []) bs;
          hasTool = list_ex (\<lambda>b. case b of ToolUse _ _ _ _ \<Rightarrow> True | _ \<Rightarrow> False) bs
      in stop = StopError \<or> stop = StopContentFilter
         \<or> list_ex (\<lambda>b. case b of ToolUseRaw _ _ _ _ \<Rightarrow> True | _ \<Rightarrow> False) bs
         \<or> (\<not> hasText \<and> \<not> hasTool)
         \<or> (structuredDemand \<and> hasText \<and> \<not> hasTool \<and> stop \<noteq> StopToolUse \<and> stop \<noteq> StopPause
              \<and> json_parse (js_trim (concat (map text_of bs))) = None))"

lemma js_trim_Nil [simp]: "js_trim [] = []"
  by (simp add: js_trim_def)

lemma text_of_simps [simp]:
  "text_of (TextBlock t c) = t" "text_of (ImageData a m d) = []" "text_of (ImageUrl u d) = []"
  "text_of (ToolUse i n j c) = []" "text_of (ToolUseRaw i n w c) = []" "text_of (ToolResult i bs e c) = []"
  by (simp_all add: text_of_def)

lemma scan_blocks_spec:
  "scan_blocks bs s =
     (if list_ex (\<lambda>b. case b of ToolUseRaw _ _ _ _ \<Rightarrow> True | _ \<Rightarrow> False) bs then None
      else Some \<lparr>qs_hasText = (qs_hasText s \<or> list_ex (\<lambda>b. js_trim (text_of b) \<noteq> []) bs),
                 qs_hasTool = (qs_hasTool s \<or> list_ex (\<lambda>b. case b of ToolUse _ _ _ _ \<Rightarrow> True | _ \<Rightarrow> False) bs),
                 qs_text = qs_text s @ concat (map text_of bs)\<rparr>)"
proof (induction bs arbitrary: s)
  case (Cons b bs)
  then show ?case by (cases b) (simp_all add: disj_assoc)
qed simp

text \<open>The gate's verdict, read off the answer: it scores 0 exactly when the answer is
  unusable (a failed or filtered stop, a tool call that did not parse, nothing at all, or prose
  where JSON was demanded of a final text), 1/2 exactly when it is usable but was cut by the
  length limit, and 1 otherwise.\<close>

theorem quality_verdict:
  "evaluateQuality response structuredDemand =
     (if unusable response structuredDemand then 0
      else if rs_stopReason response = StopLength then 1 / 2 else 1)"
  by (auto simp: evaluateQuality_def unusable_def scan_blocks_spec Let_def)

end
