(* ===== verification/UsageFacts.thy ===== *)
theory UsageFacts
  imports Usage
begin

text \<open>
  Token usage and stop reasons survive their trips over the two wires, usage estimated where the
  provider reported none is never counted twice, and a cost is only ever given when every token
  that costs something has a price.
\<close>

definition totalInput :: "normalized_usage \<Rightarrow> int" where
  "totalInput u = inputTokens u + opt0 (cacheReadTokens u) + opt0 (cacheWriteTokens u)"

text \<open>Usage crosses the wires without loss of tokens: through the Anthropic shape it
  comes back as it was; through the OpenAI shape the total input, the output and the cached reads
  come back, and with no cache write the usage itself; and an OpenAI usage with its total is
  restored exactly by reading it and writing it again.\<close>

theorem usage_survives_the_wire:
  "usageFromAnthropic (Some (usageToAnthropic u)) = Some u \<and>
   (case usageFromOpenai (Some (usageToOpenai u)) of
      None \<Rightarrow> False
    | Some v \<Rightarrow> totalInput v = totalInput u \<and> outputTokens v = outputTokens u \<and>
        cacheReadTokens v = cacheReadTokens u \<and> (if cacheWriteTokens u = None then v = u else True)) \<and>
   (case usageFromOpenai (Some w) of
      None \<Rightarrow> False
    | Some v \<Rightarrow>
        prompt_tokens (usageToOpenai v) = prompt_tokens w \<and> completion_tokens (usageToOpenai v) = completion_tokens w \<and>
        total_tokens (usageToOpenai v) = Some (prompt_tokens w + completion_tokens w))"
  by (simp add: usageFromAnthropic_def usageToAnthropic_def usageFromOpenai_def usageToOpenai_def Let_def
      totalInput_def opt0_def split: option.splits)

text \<open>A canonical stop reason written to its own wire and read back is itself (the
  continuation of a paused turn only exists on the Anthropic wire, an error has no wire value), and
  a value the wire knows is kept exactly when it is carried along raw.\<close>

theorem stop_reasons_roundtrip:
  "(if r = StopOther \<or> r = StopError then True
    else stopReasonFromAnthropic (stopReasonToAnthropic r None) = r) \<and>
   (if r = StopOther \<or> r = StopError \<or> r = StopPause then True
    else stopReasonFromOpenai (stopReasonToOpenai r None) = r) \<and>
   (case stopReasonFromOpenai (Some s) of
      StopOther \<Rightarrow> stopReasonToOpenai (stopReasonFromOpenai (Some s)) (Some s) = Some ''stop''
    | _ \<Rightarrow> stopReasonToOpenai (stopReasonFromOpenai (Some s)) (Some s) = Some s) \<and>
   (case stopReasonFromAnthropic (Some s) of
      StopOther \<Rightarrow> stopReasonToAnthropic (stopReasonFromAnthropic (Some s)) (Some s) = Some ''end_turn''
    | _ \<Rightarrow> stopReasonToAnthropic (stopReasonFromAnthropic (Some s)) (Some s) = Some s)"
  by (cases r)
    (simp_all add: stopReasonFromAnthropic_def stopReasonToAnthropic_def stopReasonFromOpenai_def
      stopReasonToOpenai_def)

text \<open>The recorded usage is the provider's own whenever it reported input and output,
  and is then not an estimate. Otherwise it is flagged, keeps every component that was reported,
  and an estimated input leaves out the cached tokens: with the caches it is the estimate of the
  whole request or the caches alone, whichever is larger.\<close>

theorem resolved_usage_faithful:
  "let r = resolveUsage (Some u) requestChars outputChars; cache = opt0 (p_cacheReadTokens u) + opt0 (p_cacheWriteTokens u)
   in ru_cacheReadTokens r = p_cacheReadTokens u \<and> ru_cacheWriteTokens r = p_cacheWriteTokens u \<and>
      estimated r = (p_inputTokens u = None \<or> p_outputTokens u = None) \<and>
      (case p_inputTokens u of
         Some i \<Rightarrow> ru_inputTokens r = i
       | None \<Rightarrow> ru_inputTokens r + cache = max (estimateTokens requestChars) cache) \<and>
      (case p_outputTokens u of Some n \<Rightarrow> ru_outputTokens r = n | None \<Rightarrow> ru_outputTokens r = estimateTokens outputChars)"
  by (cases "p_inputTokens u"; cases "p_outputTokens u") (simp_all add: resolveUsage_def Let_def)

text \<open>Every component with the rate it is priced at.\<close>

definition priced_components :: "resolved_usage \<Rightarrow> price_snapshot \<Rightarrow> (int \<times> rat option) list" where
  "priced_components u p =
     [(ru_inputTokens u, Some (inputPricePer1m p)), (ru_outputTokens u, Some (outputPricePer1m p)),
      (max 0 (opt0 (ru_cacheReadTokens u)), cacheReadPricePer1m p),
      (max 0 (opt0 (ru_cacheWriteTokens u)), cacheWritePricePer1m p)]"

definition component_cost :: "int \<times> rat option \<Rightarrow> rat option" where
  "component_cost c = (if fst c = 0 then Some 0 else map_option (\<lambda>p. of_int (fst c) / 1000000 * p) (snd c))"

text \<open>A cost is the sum of its components at their own rates, and it is never
  understated: when the model is not free, one component that has tokens but no rate leaves the
  cost unknown instead of leaving the component out.\<close>

theorem cost_is_sum_of_components:
  "computeCost usage (Some price) =
     (if isFree price then Some 0
      else foldl (\<lambda>sum c. Option.bind sum (\<lambda>s. map_option (\<lambda>x. s + x) (component_cost c))) (Some 0)
        (priced_components usage price))"
  by (cases "cacheReadPricePer1m price"; cases "cacheWritePricePer1m price")
    (simp_all add: computeCost_def priced_components_def component_cost_def Let_def)

end
