(* ===== verification/Sse.thy ===== *)
theory Sse
  imports JsonText
begin

text \<open>
  \<open>translate/stream.ts\<close> and \<open>proxy/stream-error.ts\<close>: server-sent events. The parser takes the
  stream in chunks and keeps what it has not dispatched; the two writers put a JSON value in a
  frame. The facts say that the cutting into chunks is irrelevant, except where it separates the
  two characters of a line end, and that written frames are read back.
\<close>

section \<open>Parsing\<close>

record sse_frame =
  fr_event :: "string option"
  fr_data :: string

record sse_state =
  dataLines :: "string list"
  eventName :: "string option"

text \<open>\<open>replace(/\r\n/g, '\n').replace(/\r/g, '\n')\<close>.\<close>

fun normalize_newlines :: "string \<Rightarrow> string" where
  "normalize_newlines [] = []"
| "normalize_newlines [c] = [if c = CHR 0x0D then CHR 0x0A else c]"
| "normalize_newlines (c # d # s) =
     (if c = CHR 0x0D then
        (if d = CHR 0x0A then CHR 0x0A # normalize_newlines s else CHR 0x0A # normalize_newlines (d # s))
      else c # normalize_newlines (d # s))"

definition sse_flush :: "sse_state \<Rightarrow> sse_frame list \<times> sse_state" where
  "sse_flush st =
     ((if dataLines st \<noteq> [] then [\<lparr>fr_event = eventName st, fr_data = js_join [CHR 0x0A] (dataLines st)\<rparr>]
       else []),
      \<lparr>dataLines = [], eventName = None\<rparr>)"

definition sse_field :: "string \<Rightarrow> string \<times> string" where
  "sse_field line =
     (let (field, value) = (case index_of CHR '':'' line of
              None \<Rightarrow> (line, [])
            | Some colon \<Rightarrow> (take colon line, drop (Suc colon) line))
      in (field, if starts_with '' '' value then drop 1 value else value))"

definition handleLine :: "string \<Rightarrow> sse_state \<Rightarrow> sse_frame list \<times> sse_state" where
  "handleLine line st =
     (if line = [] then sse_flush st
      else if starts_with '':'' line then ([], st)
      else case sse_field line of
        (field, value) \<Rightarrow>
          if field = ''data'' then ([], st\<lparr>dataLines := dataLines st @ [value]\<rparr>)
          else if field = ''event'' then ([], st\<lparr>eventName := Some value\<rparr>)
          else ([], st))"

text \<open>The complete lines of a buffer, and what stays in it.\<close>

fun complete_lines :: "string \<Rightarrow> string list \<times> string" where
  "complete_lines [] = ([], [])"
| "complete_lines (c # s) =
     (case complete_lines s of
        (ls, rest) \<Rightarrow>
          if c = CHR 0x0A then ([] # ls, rest)
          else (case ls of [] \<Rightarrow> ([], c # rest) | l # ls' \<Rightarrow> ((c # l) # ls', rest)))"

primrec handle_lines :: "string list \<Rightarrow> sse_state \<Rightarrow> sse_frame list \<times> sse_state" where
  "handle_lines [] st = ([], st)"
| "handle_lines (l # ls) st =
     (case handleLine l st of (fs, st1) \<Rightarrow> (case handle_lines ls st1 of (gs, st2) \<Rightarrow> (fs @ gs, st2)))"

primrec sse_chunks :: "string list \<Rightarrow> string \<Rightarrow> sse_state \<Rightarrow> sse_frame list" where
  "sse_chunks [] buffer st =
     (case (if buffer \<noteq> [] then handleLine buffer st else ([], st)) of
        (fs, st1) \<Rightarrow> fs @ fst (sse_flush st1))"
| "sse_chunks (chunk # chunks) buffer st =
     (case complete_lines (buffer @ normalize_newlines chunk) of
        (ls, rest) \<Rightarrow> (case handle_lines ls st of (fs, st1) \<Rightarrow> fs @ sse_chunks chunks rest st1))"

definition sseFrames :: "string list \<Rightarrow> sse_frame list" where
  "sseFrames chunks = sse_chunks chunks [] \<lparr>dataLines = [], eventName = None\<rparr>"

section \<open>Writing\<close>

definition NL :: string where "NL = [CHR 0x0A]"

definition formatSseData :: "json \<Rightarrow> string" where
  "formatSseData obj = ''data: '' @ json_text obj @ NL @ NL"

definition formatSseEvent :: "string \<Rightarrow> json \<Rightarrow> string" where
  "formatSseEvent event obj = ''event: '' @ event @ NL @ ''data: '' @ json_text obj @ NL @ NL"

text \<open>The terminal frame of a failed stream, in the client's protocol.\<close>

definition terminalErrorFrame :: "bool \<Rightarrow> string \<Rightarrow> string" where
  "terminalErrorFrame openai message =
     (if openai then
        formatSseData (JObj [(''error'', JObj [(''message'', JStr message), (''type'', JStr ''upstream_error''),
                                               (''code'', JNull)])]) @ ''data: [DONE]'' @ NL @ NL
      else formatSseEvent ''error'' (JObj [(''type'', JStr ''error''),
             (''error'', JObj [(''type'', JStr ''api_error''), (''message'', JStr message)])]))"

section \<open>Chunks do not matter\<close>

lemma complete_lines_append:
  "complete_lines (s @ t) =
     (case complete_lines s of (ls, rest) \<Rightarrow> (case complete_lines (rest @ t) of (ms, rest') \<Rightarrow> (ls @ ms, rest')))"
proof (induction s)
  case (Cons c s)
  obtain ls rest where s: "complete_lines s = (ls, rest)" by fastforce
  obtain ms rest' where t: "complete_lines (rest @ t) = (ms, rest')" by fastforce
  show ?case
    using Cons by (cases ls) (simp_all add: s t split: list.split)
qed simp

lemma complete_lines_rest: "complete_lines s = (ls, rest) \<Longrightarrow> complete_lines rest = ([], rest)"
proof (induction s arbitrary: ls rest)
  case (Cons c s)
  obtain ms r where s: "complete_lines s = (ms, r)" by fastforce
  with Cons show ?case by (auto simp: s split: if_splits list.splits)
qed simp

lemma handle_lines_append:
  "handle_lines (ls @ ms) st =
     (case handle_lines ls st of (fs, st1) \<Rightarrow> (case handle_lines ms st1 of (gs, st2) \<Rightarrow> (fs @ gs, st2)))"
  by (induction ls arbitrary: st) (simp_all split: prod.splits)

text \<open>The frames of a whole text, however it was cut.\<close>

definition frames_of :: "string \<Rightarrow> sse_state \<Rightarrow> sse_frame list" where
  "frames_of s st =
     (case complete_lines s of
        (ls, rest) \<Rightarrow> (case handle_lines ls st of (fs, st1) \<Rightarrow> fs @ sse_chunks [] rest st1))"

lemma sse_chunks_text:
  "complete_lines buffer = ([], buffer) \<Longrightarrow>
   sse_chunks chunks buffer st = frames_of (buffer @ concat (map normalize_newlines chunks)) st"
proof (induction chunks arbitrary: buffer st)
  case Nil
  then show ?case by (simp add: frames_of_def)
next
  case (Cons chunk chunks)
  obtain ls rest where l: "complete_lines (buffer @ normalize_newlines chunk) = (ls, rest)" by fastforce
  obtain fs st1 where h: "handle_lines ls st = (fs, st1)" by fastforce
  have "complete_lines ((buffer @ normalize_newlines chunk) @ concat (map normalize_newlines chunks)) =
      (case complete_lines (rest @ concat (map normalize_newlines chunks)) of (ms, r) \<Rightarrow> (ls @ ms, r))"
    by (simp only: complete_lines_append [of "buffer @ normalize_newlines chunk"] l prod.case)
  with Cons.IH [OF complete_lines_rest [OF l]] show ?case
    by (simp add: l h frames_of_def handle_lines_append split: prod.splits)
qed

lemma normalize_append:
  "\<not> (s \<noteq> [] \<and> last s = CHR 0x0D \<and> t \<noteq> [] \<and> hd t = CHR 0x0A) \<Longrightarrow>
     normalize_newlines (s @ t) = normalize_newlines s @ normalize_newlines t"
proof (induction s rule: normalize_newlines.induct)
  case (2 c)
  then show ?case by (cases t) auto
next
  case (3 c d s)
  then show ?case by (cases s) auto
qed simp

text \<open>No chunk ends between the two characters of a \<open>CR LF\<close>.\<close>

fun crlf_whole :: "string list \<Rightarrow> bool" where
  "crlf_whole [] = True"
| "crlf_whole (c # cs) =
     (\<not> (c \<noteq> [] \<and> last c = CHR 0x0D \<and> concat cs \<noteq> [] \<and> hd (concat cs) = CHR 0x0A) \<and> crlf_whole cs)"

lemma normalize_concat: "crlf_whole cs \<Longrightarrow> concat (map normalize_newlines cs) = normalize_newlines (concat cs)"
  by (induction cs) (simp_all add: normalize_append)

lemma sseFrames_text: "crlf_whole chunks \<Longrightarrow> sseFrames chunks = frames_of (normalize_newlines (concat chunks)) \<lparr>dataLines = [], eventName = None\<rparr>"
  by (simp add: sseFrames_def sse_chunks_text normalize_concat)

lemma normalize_id: "CHR 0x0D \<notin> set s \<Longrightarrow> normalize_newlines s = s"
  by (induction s rule: normalize_newlines.induct) auto

lemma normalize_no_cr: "CHR 0x0D \<notin> set (normalize_newlines s)"
  by (induction s rule: normalize_newlines.induct) auto

lemma sseFrames_normalized: "sseFrames chunks = sseFrames [concat (map normalize_newlines chunks)]"
proof -
  have "CHR 0x0D \<notin> set (concat (map normalize_newlines chunks))"
    using normalize_no_cr by auto
  then have "normalize_newlines (concat (map normalize_newlines chunks)) = concat (map normalize_newlines chunks)"
    by (rule normalize_id)
  then show ?thesis
    unfolding sseFrames_def by (subst (1 2) sse_chunks_text) simp_all
qed

text \<open>C36 (equivalence). How the network cut the stream matters at one kind of place only. The frames
  are those of the chunks glued together after each chunk had its own line ends normalised, whatever
  the cuts; a cutting that separates no \<open>CR LF\<close> gives the frames of the bytes as one chunk, so any
  two such cuttings of the same bytes agree; and a cut between a carriage return and its line feed
  makes two line ends of the one, exactly as if two line feeds had been sent.\<close>

theorem frames_depend_on_split_crlf_only:
  "sseFrames chunks = sseFrames [concat (map normalize_newlines chunks)]
   \<and> (crlf_whole chunks \<longrightarrow> sseFrames chunks = sseFrames [concat chunks])
   \<and> sseFrames (before @ (s @ [CHR 0x0D]) # (CHR 0x0A # t) # after)
       = sseFrames (before @ s # [CHR 0x0A] # (CHR 0x0A # t) # after)"
proof -
  have "normalize_newlines (s @ [CHR 0x0D]) = normalize_newlines s @ [CHR 0x0A]"
    by (simp add: normalize_append)
  then have "sseFrames (before @ (s @ [CHR 0x0D]) # (CHR 0x0A # t) # after)
      = sseFrames (before @ s # [CHR 0x0A] # (CHR 0x0A # t) # after)"
    by (subst (1 2) sseFrames_normalized) simp
  moreover have "sseFrames chunks = sseFrames [concat chunks]" if "crlf_whole chunks"
    using sseFrames_text [OF that] sseFrames_text [of "[concat chunks]"] by simp
  ultimately show ?thesis using sseFrames_normalized by blast
qed

lemma frames_depend_on_split_crlf_only_witness:
  "crlf_whole [''da'', ''ta: x'' @ NL, NL]
   \<and> sseFrames [''da'', ''ta: x'' @ NL, NL] = sseFrames [''data: x'' @ NL @ NL]"
proof -
  have "crlf_whole [''da'', ''ta: x'' @ NL, NL]" by (simp add: NL_def)
  then show ?thesis
    using frames_depend_on_split_crlf_only [of "[''da'', ''ta: x'' @ NL, NL]"] by (auto simp: NL_def)
qed

text \<open>So the cut does matter there: inside a \<open>CR LF\<close>, a line end counts twice, the blank line
  dispatches early, and one frame of two data lines becomes two frames.\<close>

lemma crlf_cut_splits_frame:
  "map fr_data (sseFrames [''data: a'' @ [CHR 0x0D], [CHR 0x0A] @ ''data: b'' @ NL @ NL]) = [''a'', ''b'']"
  "map fr_data (sseFrames [''data: a'' @ [CHR 0x0D, CHR 0x0A] @ ''data: b'' @ NL @ NL]) = [''a'' @ NL @ ''b'']"
  by code_simp+

section \<open>Written frames are read back\<close>

definition one_line :: "string \<Rightarrow> bool" where
  "one_line s = list_all (\<lambda>c. c \<noteq> CHR 0x0A \<and> c \<noteq> CHR 0x0D) s"

lemma one_line_simps [simp]:
  "one_line []" "one_line (c # s) = (c \<noteq> CHR 0x0A \<and> c \<noteq> CHR 0x0D \<and> one_line s)"
  "one_line (s @ t) = (one_line s \<and> one_line t)"
  by (simp_all add: one_line_def)

lemma one_line_join: "one_line sep \<Longrightarrow> (\<And>x. x \<in> set xs \<Longrightarrow> one_line x) \<Longrightarrow> one_line (js_join sep xs)"
  by (induction sep xs rule: js_join.induct) auto

lemma one_line_digits: "list_all is_digit s \<Longrightarrow> one_line s"
  by (induction s) (auto simp: is_digit_def char_range_def)

lemma hex_digit_plain: "n < 16 \<Longrightarrow> hex_digit n \<noteq> CHR 0x0A \<and> hex_digit n \<noteq> CHR 0x0D"
proof -
  assume n: "n < 16"
  have "of_char (hex_digit n) = (if n < 10 then 48 + n else 87 + n)" using n by (simp add: hex_digit_def)
  then have "(of_char (hex_digit n) :: nat) \<noteq> of_char CHR 0x0A" "(of_char (hex_digit n) :: nat) \<noteq> of_char CHR 0x0D"
    by simp_all
  then show ?thesis by (simp only: of_char_eq_iff not_False_eq_True simp_thms)
qed

lemma one_line_escape: "one_line (escape_char c)"
  using hex_digit_plain [of "of_char c div 16"] hex_digit_plain [of "of_char c mod 16"]
  by (auto simp: escape_char_def char_range_def)

lemma one_line_json_string: "one_line (json_string s)"
proof -
  have "one_line (concat (map escape_char s))" by (induction s) (auto simp: one_line_escape)
  then show ?thesis by (simp add: json_string_def)
qed

lemma one_line_number: "one_line (json_number q)"
proof -
  have z: "list_all is_digit (pad_zeros k (show_nat n))" for k n
    using show_nat_digits [of n] by (auto simp: pad_zeros_def list_all_iff is_digit_def char_range_def)
  have "one_line (abs_text k n)" for k n
    using show_nat_digits z by (simp add: abs_text_def one_line_digits)
  then show ?thesis by (simp add: json_number_def Let_def)
qed

lemma one_line_json [simp]: "one_line (json_text v)"
proof (induction v)
  case (JArr vs)
  then have "one_line (js_join '','' (map json_text vs))" by (intro one_line_join) auto
  then show ?case by simp
next
  case (JObj kvs)
  have "one_line (member_text m)" if "m \<in> set kvs" for m
    using JObj [of m "snd m"] that by (auto simp: member_text_def one_line_json_string snds.simps)
  then have "one_line (js_join '','' (map member_text kvs))" by (intro one_line_join) auto
  then show ?case unfolding json_text_JObj by simp
qed (simp_all add: one_line_json_string one_line_number)

lemma complete_lines_line: "one_line l \<Longrightarrow> complete_lines (l @ CHR 0x0A # s) = (case complete_lines s of (ls, rest) \<Rightarrow> (l # ls, rest))"
  by (induction l) (auto split: prod.splits)

lemma handle_data: "handleLine (''data: '' @ t) st = ([], st\<lparr>dataLines := dataLines st @ [t]\<rparr>)"
  by (simp add: handleLine_def sse_field_def starts_with_def)

lemma handle_event: "handleLine (''event: '' @ t) st = ([], st\<lparr>eventName := Some t\<rparr>)"
  by (simp add: handleLine_def sse_field_def starts_with_def)

definition written :: "sse_frame \<Rightarrow> string" where
  "written fr =
     (case fr_event fr of
        None \<Rightarrow> ''data: '' @ fr_data fr @ NL @ NL
      | Some e \<Rightarrow> ''event: '' @ e @ NL @ ''data: '' @ fr_data fr @ NL @ NL)"

definition writable :: "sse_frame \<Rightarrow> bool" where
  "writable fr = (one_line (fr_data fr) \<and> (case fr_event fr of None \<Rightarrow> True | Some e \<Rightarrow> one_line e))"

lemma frames_of_written:
  assumes "writable fr"
  shows "frames_of (written fr @ s) \<lparr>dataLines = [], eventName = None\<rparr> =
    fr # frames_of s \<lparr>dataLines = [], eventName = None\<rparr>"
proof -
  note cl = complete_lines_line [of "''data: '' @ fr_data fr" "CHR 0x0A # s", simplified]
  show ?thesis
  proof (cases "fr_event fr")
    case None
    with assms cl handle_data [of "fr_data fr"] show ?thesis
      by (cases fr) (auto simp: written_def writable_def NL_def frames_of_def handleLine_def sse_flush_def
          split: prod.splits)
  next
    case (Some e)
    with assms cl complete_lines_line [of "''event: '' @ e" "''data: '' @ fr_data fr @ CHR 0x0A # CHR 0x0A # s"]
      handle_data [of "fr_data fr"] handle_event [of e]
    show ?thesis
      by (cases fr) (auto simp: written_def writable_def NL_def frames_of_def handleLine_def sse_flush_def
          split: prod.splits)
  qed
qed

lemma crlf_whole_plain: "CHR 0x0D \<notin> set (concat cs) \<Longrightarrow> crlf_whole cs"
  by (induction cs) (auto dest: last_in_set)

lemma one_line_no_cr: "one_line s \<Longrightarrow> CHR 0x0D \<notin> set s"
  by (induction s) auto

lemma written_plain: "writable fr \<Longrightarrow> CHR 0x0D \<notin> set (written fr)"
  by (auto simp: written_def writable_def NL_def dest: one_line_no_cr split: option.splits)

lemma frames_of_Nil: "frames_of [] \<lparr>dataLines = [], eventName = None\<rparr> = []"
  by (simp add: frames_of_def sse_flush_def)

lemma read_written:
  assumes "list_all writable frs" "concat chunks = concat (map written frs)"
  shows "sseFrames chunks = frs"
proof -
  have "CHR 0x0D \<notin> set (concat (map written frs))"
    using assms(1) by (auto simp: list_all_iff dest: written_plain)
  then have "sseFrames chunks = frames_of (concat (map written frs)) \<lparr>dataLines = [], eventName = None\<rparr>"
    by (simp add: sseFrames_text assms(2) crlf_whole_plain normalize_id flip: assms(2))
  also have "\<dots> = frs"
    using assms(1) by (induction frs) (simp_all add: frames_of_Nil frames_of_written)
  finally show ?thesis .
qed

lemma written_formats:
  "formatSseData v = written \<lparr>fr_event = None, fr_data = json_text v\<rparr>"
  "formatSseEvent e v = written \<lparr>fr_event = Some e, fr_data = json_text v\<rparr>"
  by (simp_all add: formatSseData_def formatSseEvent_def written_def)

end
