(* ===== verification/WireJson.thy ===== *)
theory WireJson
  imports Sse Cascade
begin

text \<open>
  What both protocol adapters share: reading the properties of parsed JSON the way the code does,
  and the pieces of the JSON they write.
\<close>

section \<open>Reading JSON as the code does\<close>

text \<open>\<open>v.k\<close>: the outer \<open>None\<close> is the \<open>TypeError\<close> on \<open>undefined\<close> and \<open>null\<close>, the inner one the value
  \<open>undefined\<close>. \<open>v?.k\<close> never throws. Below a property, strings and whole numbers are read as the
  interface declares them; a leaf of another type reads as absent.\<close>

definition js_prop :: "string \<Rightarrow> json option \<Rightarrow> json option option" where
  "js_prop k v =
     (case v of
        None \<Rightarrow> None
      | Some JNull \<Rightarrow> None
      | Some x \<Rightarrow> Some (obj_prop k x))"

definition opt_prop :: "string \<Rightarrow> json option \<Rightarrow> json option" where
  "opt_prop k v = (case js_prop k v of Some r \<Rightarrow> r | None \<Rightarrow> None)"

definition str_leaf :: "json option \<Rightarrow> string option" where
  "str_leaf v = (case v of Some (JStr s) \<Rightarrow> Some s | _ \<Rightarrow> None)"

definition int_leaf :: "json option \<Rightarrow> int option" where
  "int_leaf v = (case v of Some (JNum q) \<Rightarrow> if is_whole q then Some \<lfloor>q\<rfloor> else None | _ \<Rightarrow> None)"

section \<open>Writing JSON\<close>

abbreviation jint :: "int \<Rightarrow> json" where "jint i \<equiv> JNum (of_int i)"
abbreviation jnat :: "nat \<Rightarrow> json" where "jnat n \<equiv> JNum (of_int (int n))"

definition jopt :: "string \<Rightarrow> ('a \<Rightarrow> json) \<Rightarrow> 'a option \<Rightarrow> (string \<times> json) list" where
  "jopt k f x = (case x of Some v \<Rightarrow> [(k, f v)] | None \<Rightarrow> [])"

definition jnull :: "string option \<Rightarrow> json" where
  "jnull x = (case x of Some s \<Rightarrow> JStr s | None \<Rightarrow> JNull)"

end
