(* ===== verification/Anthropic.thy ===== *)
theory Anthropic
  imports WireJson
begin

text \<open>
  \<open>translate/anthropic.ts\<close>: the Anthropic Messages adapter. The wire shapes of
  \<open>wire/anthropic.ts\<close>, the four conversions of requests and responses, and the two directions of
  a stream. A request or response on the wire is a value of its declared interface, as the code
  casts it; a block of an undeclared type is \<open>AntOther\<close>. Stream frames are read as JSON, and a
  property read on \<open>undefined\<close> or \<open>null\<close> throws.
\<close>

section \<open>The wire\<close>

datatype ant_block =
    AntText string "json option"
  | AntImageData string string   \<comment> \<open>media type, data\<close>
  | AntImageUrl string
  | AntToolUse string string json "json option"
  | AntToolResult string ant_content "bool option" "json option"
  | AntOther
  and ant_content = AntString string | AntBlocks "ant_block list"

datatype ant_role = AntUser | AntAssistant

record ant_message =
  am_role :: ant_role
  am_content :: ant_content

record ant_tool =
  an_name :: string
  an_description :: "string option"
  an_input_schema :: json
  an_cache_control :: "json option"

datatype ant_choice = AtAuto | AtAny | AtTool | AtNone

record ant_tool_choice =
  atc_type :: ant_choice
  atc_name :: "string option"
  atc_disable_parallel :: "bool option"

text \<open>A system prompt is a string or text blocks.\<close>

record ant_request =
  ar_model :: string
  ar_system :: "(string + (string \<times> json option) list) option"
  ar_messages :: "ant_message list"
  ar_max_tokens :: int
  ar_tools :: "ant_tool list option"
  ar_tool_choice :: "ant_tool_choice option"
  ar_temperature :: "rat option"
  ar_top_p :: "rat option"
  ar_stop_sequences :: "string list option"
  ar_thinking :: "json option"
  ar_output_config :: "json option"
  ar_stream :: "bool option"

record ant_response =
  ap_id :: string
  ap_model :: string
  ap_content :: "ant_block list"
  ap_stop_reason :: "string option"
  ap_stop_sequence :: "string option"
  ap_usage :: "ant_usage option"

section \<open>Blocks\<close>

definition tryParseObject :: "string \<Rightarrow> json" where
  "tryParseObject s =
     (case json_parse s of Some v \<Rightarrow> if isRecord v then v else JObj [] | None \<Rightarrow> JObj [])"

primrec irBlockToAnt :: "content_block \<Rightarrow> ant_block" where
  "irBlockToAnt (TextBlock t cc) = AntText t cc"
| "irBlockToAnt (ImageData d mt det) = AntImageData mt d"
| "irBlockToAnt (ImageUrl u det) = AntImageUrl u"
| "irBlockToAnt (ToolUse i n input cc) = AntToolUse i n input cc"
| "irBlockToAnt (ToolUseRaw i n raw cc) = AntToolUse i n (tryParseObject raw) cc"
| "irBlockToAnt (ToolResult i content isErr cc) =
     AntToolResult i
       (if list_all is_text content then AntString (concat (map text_of content))
        else AntBlocks (map irBlockToAnt content))
       (if isErr = Some True then Some True else None) cc"

definition antBlockToIr :: "ant_block \<Rightarrow> content_block option" where
  "antBlockToIr b =
     (case b of
        AntText t cc \<Rightarrow> Some (TextBlock t cc)
      | AntImageData mt d \<Rightarrow> Some (ImageData d mt None)
      | AntImageUrl u \<Rightarrow> Some (ImageUrl u None)
      | AntToolUse i n input cc \<Rightarrow>
          Some (if isRecord input then ToolUse i n input cc else ToolUseRaw i n (json_text input) cc)
      | AntToolResult _ _ _ _ \<Rightarrow> Some (TextBlock [] None)
      | AntOther \<Rightarrow> None)"

definition antContentToBlocks :: "ant_content \<Rightarrow> content_block list" where
  "antContentToBlocks content =
     (case content of
        AntString s \<Rightarrow> if s = [] then [] else [TextBlock s None]
      | AntBlocks bs \<Rightarrow> List.map_filter antBlockToIr bs)"

section \<open>Requests\<close>

definition ant_toolChoiceIn :: "ant_tool_choice option \<Rightarrow> tool_choice option \<times> bool option" where
  "ant_toolChoiceIn tc =
     (case tc of
        None \<Rightarrow> (None, None)
      | Some c \<Rightarrow>
          (Some (case atc_type c of
                   AtAuto \<Rightarrow> ChoiceAuto | AtAny \<Rightarrow> ChoiceRequired | AtNone \<Rightarrow> ChoiceNone
                 | AtTool \<Rightarrow> ChoiceTool (or_else (atc_name c) [])),
           if atc_disable_parallel c = Some True then Some False else None))"

definition ant_toolChoiceOut :: "tool_choice option \<Rightarrow> bool option \<Rightarrow> ant_tool_choice option" where
  "ant_toolChoiceOut tc allowParallel =
     (let disable = (if allowParallel = Some False then Some True else None);
          mk = (\<lambda>ty nm. Some \<lparr>atc_type = ty, atc_name = nm, atc_disable_parallel = disable\<rparr>)
      in case tc of
           None \<Rightarrow> if allowParallel = Some False then mk AtAuto None else None
         | Some ChoiceAuto \<Rightarrow> mk AtAuto None
         | Some ChoiceNone \<Rightarrow> mk AtNone None
         | Some ChoiceRequired \<Rightarrow> mk AtAny None
         | Some (ChoiceTool n) \<Rightarrow> mk AtTool (Some n))"

text \<open>One user turn of blocks: each result its own tool message, the rest one trailing message.\<close>

definition tool_message :: "ant_block \<Rightarrow> normalized_message list" where
  "tool_message b =
     (case b of
        AntToolResult i content isErr cc \<Rightarrow>
          [\<lparr>msg_role = RTool, msg_content =
             [ToolResult i (antContentToBlocks content) (if isErr = Some True then Some True else None) cc]\<rparr>]
      | _ \<Rightarrow> [])"

definition trailing_block :: "ant_block \<Rightarrow> content_block option" where
  "trailing_block b = (case b of AntToolResult _ _ _ _ \<Rightarrow> None | _ \<Rightarrow> antBlockToIr b)"

definition ant_message_in :: "ant_message \<Rightarrow> normalized_message list" where
  "ant_message_in m =
     (case (am_role m, am_content m) of
        (AntUser, AntBlocks bs) \<Rightarrow>
          (let trailing = List.map_filter trailing_block bs in
           concat (map tool_message bs)
             @ (if trailing = [] then [] else [\<lparr>msg_role = RUser, msg_content = trailing\<rparr>]))
      | (AntUser, c) \<Rightarrow> [\<lparr>msg_role = RUser, msg_content = antContentToBlocks c\<rparr>]
      | (AntAssistant, c) \<Rightarrow> [\<lparr>msg_role = RAssistant, msg_content = antContentToBlocks c\<rparr>])"

definition ant_requestIn :: "ant_request \<Rightarrow> normalized_request" where
  "ant_requestIn wire =
     (let (choice, parallel) = ant_toolChoiceIn (ar_tool_choice wire) in
      \<lparr>rq_model = ar_model wire,
       rq_system = map_option (\<lambda>s. case s of Inl t \<Rightarrow> [TextBlock t None]
                                    | Inr bs \<Rightarrow> map (\<lambda>(t, cc). TextBlock t cc) bs) (ar_system wire),
       rq_messages = concat (map ant_message_in (ar_messages wire)),
       rq_tools = map_option (map (\<lambda>t. \<lparr>tool_name = an_name t, tool_description = an_description t,
           tool_parameters = an_input_schema t, tool_cacheControl = an_cache_control t\<rparr>)) (ar_tools wire),
       rq_toolChoice = choice,
       rq_allowParallelTools = parallel,
       rq_params = \<lparr>maxOutputTokens = Some (ar_max_tokens wire), temperature = ar_temperature wire,
                    topP = ar_top_p wire, stopSequences = ar_stop_sequences wire\<rparr>,
       rq_responseFormat = None,
       rq_reasoning = map_option AnthropicThinking (ar_thinking wire),
       rq_outputConfig = ar_output_config wire,
       rq_stream = ar_stream wire,
       rq_includeUsage = None\<rparr>)"

definition tool_results :: "normalized_message \<Rightarrow> ant_block list" where
  "tool_results m =
     map irBlockToAnt (filter (\<lambda>b. case b of ToolResult _ _ _ _ \<Rightarrow> True | _ \<Rightarrow> False) (msg_content m))"

lemma dropWhile_rest_length: "x # xs = dropWhile P ys \<Longrightarrow> length xs < length ys"
  by (metis Suc_le_lessD length_Cons length_dropWhile_le)

text \<open>The grouping of a run of tool messages with the user message behind it.\<close>

function ant_messages_out :: "normalized_message list \<Rightarrow> ant_message list" where
  "ant_messages_out [] = []"
| "ant_messages_out (m # ms) =
     (if msg_role m = RTool then
        let run = m # takeWhile (\<lambda>x. msg_role x = RTool) ms; rest = dropWhile (\<lambda>x. msg_role x = RTool) ms;
            content = concat (map tool_results run)
        in case rest of
             [] \<Rightarrow> [\<lparr>am_role = AntUser, am_content = AntBlocks content\<rparr>]
           | n # rest' \<Rightarrow>
               if msg_role n = RUser
               then \<lparr>am_role = AntUser, am_content = AntBlocks (content @ map irBlockToAnt (msg_content n))\<rparr>
                      # ant_messages_out rest'
               else \<lparr>am_role = AntUser, am_content = AntBlocks content\<rparr> # ant_messages_out rest
      else \<lparr>am_role = (if msg_role m = RUser then AntUser else AntAssistant),
             am_content = AntBlocks (map irBlockToAnt (msg_content m))\<rparr> # ant_messages_out ms)"
  by pat_completeness auto
termination
  by (relation "measure length") (auto simp: less_Suc_eq_le length_dropWhile_le dest: dropWhile_rest_length)

definition systemOut :: "content_block list option \<Rightarrow> (string + (string \<times> json option) list) option" where
  "systemOut system =
     (case system of
        None \<Rightarrow> None
      | Some blocks \<Rightarrow>
          (let texts = List.map_filter (\<lambda>b. case b of TextBlock t cc \<Rightarrow> Some (t, cc) | _ \<Rightarrow> None) blocks;
               hasMarker = list_ex (\<lambda>(t, cc). cc \<noteq> None) texts
           in case texts of
                [] \<Rightarrow> None
              | [(t, cc)] \<Rightarrow> if hasMarker then Some (Inr texts) else Some (Inl t)
              | _ \<Rightarrow> Some (Inr texts)))"

text \<open>The left side is the \<open>SerializationError\<close> of a request without a token limit.\<close>

definition ant_requestOut :: "int option \<Rightarrow> normalized_request \<Rightarrow> string + ant_request" where
  "ant_requestOut defaultMaxOutputTokens ir =
     (case later defaultMaxOutputTokens (maxOutputTokens (rq_params ir)) of
        None \<Rightarrow> Inl ''Anthropic requests require max_tokens''
      | Some maxTokens \<Rightarrow>
          Inr \<lparr>ar_model = rq_model ir,
               ar_system = systemOut (rq_system ir),
               ar_messages = ant_messages_out (rq_messages ir),
               ar_max_tokens = maxTokens,
               ar_tools = map_option (map (\<lambda>t. \<lparr>an_name = tool_name t, an_description = tool_description t,
                   an_input_schema = tool_parameters t, an_cache_control = tool_cacheControl t\<rparr>)) (rq_tools ir),
               ar_tool_choice = ant_toolChoiceOut (rq_toolChoice ir) (rq_allowParallelTools ir),
               ar_temperature = map_option (\<lambda>t. min t 1) (temperature (rq_params ir)),
               ar_top_p = topP (rq_params ir),
               ar_stop_sequences = stopSequences (rq_params ir),
               ar_thinking = (case rq_reasoning ir of Some (AnthropicThinking v) \<Rightarrow> Some v | _ \<Rightarrow> None),
               ar_output_config = rq_outputConfig ir,
               ar_stream = rq_stream ir\<rparr>)"

section \<open>Responses\<close>

definition ant_responseIn :: "bool \<Rightarrow> ant_response \<Rightarrow> normalized_response" where
  "ant_responseIn usageOmitted wire =
     \<lparr>rs_id = ap_id wire, rs_model = ap_model wire, rs_created = None,
      rs_content = List.map_filter antBlockToIr (ap_content wire),
      rs_stopReason = stopReasonFromAnthropic (ap_stop_reason wire),
      rs_rawStopReason = ap_stop_reason wire, rs_stopSequence = ap_stop_sequence wire,
      rs_usage = (if usageOmitted then None else usageFromAnthropic (ap_usage wire))\<rparr>"

definition ant_responseOut :: "normalized_response \<Rightarrow> ant_response" where
  "ant_responseOut ir =
     \<lparr>ap_id = rs_id ir, ap_model = rs_model ir,
      ap_content = map irBlockToAnt (filter (\<lambda>b. case b of ToolResult _ _ _ _ \<Rightarrow> False | _ \<Rightarrow> True) (rs_content ir)),
      ap_stop_reason = stopReasonToAnthropic (rs_stopReason ir) (rs_rawStopReason ir),
      ap_stop_sequence = rs_stopSequence ir,
      ap_usage = map_option usageToAnthropic (rs_usage ir)\<rparr>"

section \<open>Streams in\<close>

record ant_open =
  ao_tool :: bool
  ao_id :: "string option"
  ao_name :: "string option"
  ao_json :: string

record ant_parser =
  an_open :: "nat \<rightharpoonup> ant_open"
  an_remap :: "json option \<rightharpoonup> nat"
  an_next :: nat
  an_sawStop :: bool
  an_sawReason :: bool

definition ant_parser0 :: ant_parser where
  "ant_parser0 = \<lparr>an_open = Map.empty, an_remap = Map.empty, an_next = 0, an_sawStop = False, an_sawReason = False\<rparr>"

definition finalizeTool :: "string \<Rightarrow> string \<Rightarrow> string \<Rightarrow> content_block" where
  "finalizeTool tid name js =
     (case json_parse (if js = [] then ''{}'' else js) of
        Some v \<Rightarrow> if isRecord v then ToolUse tid name v None else ToolUseRaw tid name js None
      | None \<Rightarrow> ToolUseRaw tid name js None)"

definition ant_usage_leaf :: "json option \<Rightarrow> ant_partial_usage option" where
  "ant_usage_leaf u =
     (case u of
        None \<Rightarrow> None
      | Some _ \<Rightarrow> Some \<lparr>a_input_tokens = int_leaf (opt_prop ''input_tokens'' u),
          a_output_tokens = int_leaf (opt_prop ''output_tokens'' u),
          a_cache_creation_input_tokens = int_leaf (opt_prop ''cache_creation_input_tokens'' u),
          a_cache_read_input_tokens = int_leaf (opt_prop ''cache_read_input_tokens'' u)\<rparr>)"

text \<open>Each handler returns the events it yields and the next state, \<open>None\<close> where it throws.\<close>

type_synonym ant_step = "stream_event list \<times> ant_parser option"

definition ant_on_start :: "json option \<Rightarrow> ant_parser \<Rightarrow> ant_step" where
  "ant_on_start ev st =
     (let msg = opt_prop ''message'' ev in
      if js_prop ''usage'' msg = None \<or> opt_prop ''usage'' msg = Some JNull then ([], None)
      else
        let usage = partialUsageFromAnthropicStart (ant_usage_leaf (opt_prop ''usage'' msg)) in
        ([MessageStart (or_else (str_leaf (opt_prop ''id'' msg)) []) (or_else (str_leaf (opt_prop ''model'' msg)) [])
            (if usage = empty_usage then None else Some usage)],
         Some st))"

definition ant_on_block_start :: "json option \<Rightarrow> ant_parser \<Rightarrow> ant_step" where
  "ant_on_block_start ev st =
     (let cb = opt_prop ''content_block'' ev; index = opt_prop ''index'' ev; iri = an_next st in
      case js_prop ''type'' cb of
        None \<Rightarrow> ([], None)
      | Some ty \<Rightarrow>
          if ty = Some (JStr ''tool_use'') then
            (let bid = str_leaf (opt_prop ''id'' cb); name = str_leaf (opt_prop ''name'' cb) in
             ([ToolUseStart iri (or_else bid []) (or_else name [])],
              Some (st\<lparr>an_next := Suc iri, an_remap := (an_remap st)(index \<mapsto> iri),
                       an_open := (an_open st)(iri \<mapsto> \<lparr>ao_tool = True, ao_id = bid, ao_name = name, ao_json = []\<rparr>)\<rparr>)))
          else if ty = Some (JStr ''text'') then
            ([], Some (st\<lparr>an_next := Suc iri, an_remap := (an_remap st)(index \<mapsto> iri),
                        an_open := (an_open st)(iri \<mapsto> \<lparr>ao_tool = False, ao_id = None, ao_name = None, ao_json = []\<rparr>)\<rparr>))
          else ([], Some st))"

definition ant_on_delta :: "json option \<Rightarrow> ant_parser \<Rightarrow> ant_step" where
  "ant_on_delta ev st =
     (case an_remap st (opt_prop ''index'' ev) of
        None \<Rightarrow> ([], Some st)
      | Some iri \<Rightarrow>
          (let d = opt_prop ''delta'' ev in
           case js_prop ''type'' d of
             None \<Rightarrow> ([], None)
           | Some ty \<Rightarrow>
               if ty = Some (JStr ''text_delta'')
               then ([TextDelta iri (or_else (str_leaf (opt_prop ''text'' d)) [])], Some st)
               else if ty = Some (JStr ''input_json_delta'') then
                 (let part = or_else (str_leaf (opt_prop ''partial_json'' d)) [];
                      st' = (case an_open st iri of
                               Some b \<Rightarrow> st\<lparr>an_open := (an_open st)(iri \<mapsto> b\<lparr>ao_json := ao_json b @ part\<rparr>)\<rparr>
                             | None \<Rightarrow> st)
                  in ([ToolUseDelta iri part], Some st'))
               else ([], Some st)))"

definition ant_on_block_stop :: "json option \<Rightarrow> ant_parser \<Rightarrow> ant_step" where
  "ant_on_block_stop ev st =
     (case an_remap st (opt_prop ''index'' ev) of
        None \<Rightarrow> ([], Some st)
      | Some iri \<Rightarrow>
          ([BlockStop iri
              (case an_open st iri of
                 Some b \<Rightarrow> if ao_tool b then Some (finalizeTool (or_else (ao_id b) []) (or_else (ao_name b) []) (ao_json b))
                           else None
               | None \<Rightarrow> None)],
           Some (st\<lparr>an_open := (an_open st)(iri := None)\<rparr>)))"

definition ant_on_message_delta :: "json option \<Rightarrow> ant_parser \<Rightarrow> ant_step" where
  "ant_on_message_delta ev st =
     (let delta = opt_prop ''delta'' ev in
      case js_prop ''stop_reason'' delta of
        None \<Rightarrow> ([], None)
      | Some sr \<Rightarrow>
          (let stopRaw = str_leaf sr; outputTokens = int_leaf (opt_prop ''output_tokens'' (opt_prop ''usage'' ev)) in
           ([MessageDelta (map_option (\<lambda>r. stopReasonFromAnthropic (Some r)) stopRaw) stopRaw
               (str_leaf (opt_prop ''stop_sequence'' delta))
               (map_option (\<lambda>n. empty_usage\<lparr>p_outputTokens := Some n\<rparr>) outputTokens)],
            Some (if stopRaw \<noteq> None then st\<lparr>an_sawReason := True\<rparr> else st))))"

definition ant_on_message_stop :: "ant_parser \<Rightarrow> ant_step" where
  "ant_on_message_stop st =
     ([if an_sawReason st then MessageStop
       else StreamError ''incomplete'' ''stream ended without a stop reason'' None],
      Some (st\<lparr>an_sawStop := True\<rparr>))"

definition ant_on_error :: "json option \<Rightarrow> ant_parser \<Rightarrow> ant_step" where
  "ant_on_error ev st =
     (let err = opt_prop ''error'' ev in
      if js_prop ''message'' err = None then ([], None)
      else
        let m = str_leaf (opt_prop ''message'' err); t = str_leaf (opt_prop ''type'' err) in
        ([StreamError (or_else t []) (or_else m [])
            (Some \<lparr>diag_wire = Some \<lparr>wire_message = m, wire_type = t, wire_code = None\<rparr>, diag_markers = None,
                   diag_kind = None, diag_providerMessage = None, diag_requestId = None\<rparr>)],
         Some st))"

definition ant_on_frame :: "string \<Rightarrow> ant_parser \<Rightarrow> ant_step" where
  "ant_on_frame data st =
     (case json_parse data of
        None \<Rightarrow> ([], Some st)
      | Some v \<Rightarrow>
          (case js_prop ''type'' (Some v) of
             None \<Rightarrow> ([], None)
           | Some ty \<Rightarrow>
               (case str_leaf ty of
                  None \<Rightarrow> ([], Some st)
                | Some t \<Rightarrow>
                    if t = ''message_start'' then ant_on_start (Some v) st
                    else if t = ''content_block_start'' then ant_on_block_start (Some v) st
                    else if t = ''content_block_delta'' then ant_on_delta (Some v) st
                    else if t = ''content_block_stop'' then ant_on_block_stop (Some v) st
                    else if t = ''message_delta'' then ant_on_message_delta (Some v) st
                    else if t = ''message_stop'' then ant_on_message_stop st
                    else if t = ''error'' then ant_on_error (Some v) st
                    else ([], Some st))))"

text \<open>The run over the frames; the flag is set when the generator threw.\<close>

primrec ant_parse_frames :: "sse_frame list \<Rightarrow> ant_parser \<Rightarrow> stream_event list \<times> bool" where
  "ant_parse_frames [] st =
     ((if an_sawStop st then []
       else [StreamError ''truncated'' ''upstream stream ended without a terminator'' None]), False)"
| "ant_parse_frames (fr # frs) st =
     (case ant_on_frame (fr_data fr) st of
        (evs, None) \<Rightarrow> (evs, True)
      | (evs, Some st') \<Rightarrow> (case ant_parse_frames frs st' of (evs2, threw) \<Rightarrow> (evs @ evs2, threw)))"

definition ant_streamParse :: "string list \<Rightarrow> stream_event list \<times> bool" where
  "ant_streamParse chunks = ant_parse_frames (sseFrames chunks) ant_parser0"

section \<open>Streams out\<close>

record ant_writer =
  aw_started :: "nat list"
  aw_tailUsage :: "partial_usage option list"
  aw_stopReason :: "stop_reason option"
  aw_rawStopReason :: "string option"
  aw_stopSequence :: "string option"

definition ant_writer0 :: ant_writer where
  "ant_writer0 = \<lparr>aw_started = [], aw_tailUsage = [], aw_stopReason = None, aw_rawStopReason = None,
                  aw_stopSequence = None\<rparr>"

definition ant_start_json :: "string \<Rightarrow> string \<Rightarrow> partial_usage option \<Rightarrow> json" where
  "ant_start_json rid model usage =
     (let u = or_else usage empty_usage in
      JObj [(''type'', JStr ''message_start''),
            (''message'', JObj [(''id'', JStr rid), (''type'', JStr ''message''), (''role'', JStr ''assistant''),
               (''model'', JStr model), (''content'', JArr []), (''stop_reason'', JNull), (''stop_sequence'', JNull),
               (''usage'', JObj ([(''input_tokens'', jint (or_else (p_inputTokens u) 0)),
                                 (''output_tokens'', jint (or_else (p_outputTokens u) 0))]
                  @ jopt ''cache_read_input_tokens'' jint (p_cacheReadTokens u)
                  @ jopt ''cache_creation_input_tokens'' jint (p_cacheWriteTokens u)))])])"

definition ant_tail_json :: "ant_writer \<Rightarrow> string \<times> json" where
  "ant_tail_json w =
     (case aw_stopReason w of
        None \<Rightarrow> (''error'', JObj [(''type'', JStr ''error''),
            (''error'', JObj [(''type'', JStr ''incomplete''), (''message'', JStr ''stream ended without a stop reason'')])])
      | Some sr \<Rightarrow>
          (''message_delta'', JObj [(''type'', JStr ''message_delta''),
             (''delta'', JObj [(''stop_reason'', jnull (stopReasonToAnthropic sr (aw_rawStopReason w))),
                             (''stop_sequence'', jnull (aw_stopSequence w))]),
             (''usage'', JObj [(''output_tokens'',
                jint (or_else (p_outputTokens (mergePartialUsage (aw_tailUsage w))) 0))])]))"

definition ant_block_json :: "string \<Rightarrow> nat \<Rightarrow> string \<Rightarrow> json \<Rightarrow> string \<times> json" where
  "ant_block_json ty index k v = (ty, JObj [(''type'', JStr ty), (''index'', jnat index), (k, v)])"

definition ant_write :: "stream_event \<Rightarrow> ant_writer \<Rightarrow> (string \<times> json) list \<times> ant_writer" where
  "ant_write ev w =
     (case ev of
        MessageStart rid model usage \<Rightarrow>
          ([(''message_start'', ant_start_json rid model usage)],
           if usage \<noteq> None then w\<lparr>aw_tailUsage := aw_tailUsage w @ [usage]\<rparr> else w)
      | TextDelta i t \<Rightarrow>
          ((if i \<in> set (aw_started w) then []
            else [ant_block_json ''content_block_start'' i ''content_block''
                    (JObj [(''type'', JStr ''text''), (''text'', JStr [])])])
             @ [ant_block_json ''content_block_delta'' i ''delta'' (JObj [(''type'', JStr ''text_delta''), (''text'', JStr t)])],
           if i \<in> set (aw_started w) then w else w\<lparr>aw_started := i # aw_started w\<rparr>)
      | ToolUseStart i tid name \<Rightarrow>
          ([ant_block_json ''content_block_start'' i ''content_block''
              (JObj [(''type'', JStr ''tool_use''), (''id'', JStr tid), (''name'', JStr name), (''input'', JObj [])])],
           w\<lparr>aw_started := i # aw_started w\<rparr>)
      | ToolUseDelta i part \<Rightarrow>
          ([ant_block_json ''content_block_delta'' i ''delta''
              (JObj [(''type'', JStr ''input_json_delta''), (''partial_json'', JStr part)])], w)
      | BlockStop i fin \<Rightarrow>
          ([(''content_block_stop'', JObj [(''type'', JStr ''content_block_stop''), (''index'', jnat i)])], w)
      | MessageDelta sr raw sq usage \<Rightarrow>
          (let w1 = (if usage \<noteq> None then w\<lparr>aw_tailUsage := aw_tailUsage w @ [usage]\<rparr> else w);
               w2 = (if sr \<noteq> None then w1\<lparr>aw_stopReason := sr, aw_rawStopReason := raw\<rparr> else w1)
           in ([], if sq \<noteq> None then w2\<lparr>aw_stopSequence := sq\<rparr> else w2))
      | MessageStop \<Rightarrow> ([ant_tail_json w, (''message_stop'', JObj [(''type'', JStr ''message_stop'')])], w)
      | StreamError ty msg diag \<Rightarrow>
          ([(''error'', JObj [(''type'', JStr ''error''), (''error'', JObj [(''type'', JStr ty), (''message'', JStr msg)])])], w))"

primrec ant_write_all :: "stream_event list \<Rightarrow> ant_writer \<Rightarrow> (string \<times> json) list" where
  "ant_write_all [] w = []"
| "ant_write_all (ev # evs) w = (case ant_write ev w of (fs, w') \<Rightarrow> fs @ ant_write_all evs w')"

definition ant_streamSerialize :: "stream_event list \<Rightarrow> string list" where
  "ant_streamSerialize evs = map (\<lambda>(n, j). formatSseEvent n j) (ant_write_all evs ant_writer0)"

end
