(* ===== verification/AnthropicFacts.thy ===== *)
theory AnthropicFacts
  imports Anthropic
begin

text \<open>
  The Anthropic adapter's round trips: a canonical response written to the wire is read back unchanged;
  a request of canonical messages is read back as \<open>ant_carried\<close> says, with nothing else changed (the
  grouping of tool results into one user turn and their splitting are inverse); and a replayed answer,
  written as a stream and cut into any chunks, is parsed back into its blocks (theory AnthropicStream).
\<close>

section \<open>Blocks\<close>

text \<open>The blocks the wire carries without loss: no image detail, a tool call that parsed.\<close>

definition leaf_ok :: "content_block \<Rightarrow> bool" where
  "leaf_ok b =
     (case b of
        TextBlock _ _ \<Rightarrow> True
      | ImageData _ _ d \<Rightarrow> d = None
      | ImageUrl _ d \<Rightarrow> d = None
      | ToolUse _ _ input _ \<Rightarrow> isRecord input
      | _ \<Rightarrow> False)"

lemma leaf_roundtrip: "leaf_ok b \<Longrightarrow> antBlockToIr (irBlockToAnt b) = Some b"
  by (cases b) (simp_all add: leaf_ok_def antBlockToIr_def)

lemma map_filter_id: "(\<And>b. b \<in> set bs \<Longrightarrow> f (g b) = Some b) \<Longrightarrow> List.map_filter f (map g bs) = bs"
  by (induction bs) (simp_all add: List.map_filter_simps)

text \<open>An answer of canonical blocks, with a stop reason that agrees with its raw value,
  crosses the Anthropic wire unchanged: blocks in order, stop reason, matched stop sequence, usage.\<close>

theorem ant_response_roundtrip:
  assumes "list_all leaf_ok (rs_content ir)" "rs_created ir = None"
    and "rs_stopReason ir = stopReasonFromAnthropic (rs_rawStopReason ir)" "rs_stopReason ir \<noteq> StopOther"
  shows "ant_responseIn False (ant_responseOut ir) = ir"
proof -
  have "filter (\<lambda>b. case b of ToolResult _ _ _ _ \<Rightarrow> False | _ \<Rightarrow> True) (rs_content ir) = rs_content ir"
    using assms(1) by (intro filter_True) (auto simp: list_all_iff leaf_ok_def split: content_block.splits)
  moreover have "List.map_filter antBlockToIr (map irBlockToAnt (rs_content ir)) = rs_content ir"
    using assms(1) by (intro map_filter_id) (simp add: list_all_iff leaf_roundtrip)
  moreover have "stopReasonToAnthropic (rs_stopReason ir) (rs_rawStopReason ir) = rs_rawStopReason ir"
    using assms(3,4) by (auto simp: stopReasonToAnthropic_def stopReasonFromAnthropic_def
        split: option.splits if_splits)
  moreover have "usageFromAnthropic (map_option usageToAnthropic (rs_usage ir)) = rs_usage ir"
    by (cases "rs_usage ir") (simp_all add: usageFromAnthropic_def usageToAnthropic_def)
  ultimately show ?thesis
    using assms(2,3) by (simp add: ant_responseIn_def ant_responseOut_def)
qed

definition demo_ant_answer :: normalized_response where
  "demo_ant_answer = \<lparr>rs_id = ''msg'', rs_model = ''m'', rs_created = None,
     rs_content = [TextBlock ''hi'' None, ToolUse ''t1'' ''f'' (JObj [(''a'', JNum 1)]) None],
     rs_stopReason = StopToolUse, rs_rawStopReason = Some ''tool_use'', rs_stopSequence = None,
     rs_usage = Some \<lparr>inputTokens = 10, outputTokens = 5, cacheReadTokens = Some 3, cacheWriteTokens = None\<rparr>\<rparr>"

lemma ant_response_roundtrip_witness:
  "ant_responseIn False (ant_responseOut demo_ant_answer) = demo_ant_answer"
  by (rule ant_response_roundtrip)
    (simp_all add: demo_ant_answer_def leaf_ok_def isRecord_def stopReasonFromAnthropic_def)

section \<open>Turns\<close>

text \<open>What becomes of a block, of the content of a tool result and of a message on the wire: an image
  loses its detail, a result of text blocks alone becomes one text without cache marks (none when
  there is no text), and a result that is explicitly no error says nothing about it.\<close>

definition block_shape :: "content_block \<Rightarrow> bool" where
  "block_shape b =
     (case b of ToolUse _ _ input _ \<Rightarrow> isRecord input | ToolUseRaw _ _ _ _ \<Rightarrow> False | ToolResult _ _ _ _ \<Rightarrow> False | _ \<Rightarrow> True)"

definition carried_block :: "content_block \<Rightarrow> content_block" where
  "carried_block b =
     (case b of ImageData m d _ \<Rightarrow> ImageData m d None | ImageUrl u _ \<Rightarrow> ImageUrl u None | _ \<Rightarrow> b)"

definition carried_content :: "content_block list \<Rightarrow> content_block list" where
  "carried_content bs =
     (if list_all is_text bs then
        let t = concat (map text_of bs) in if t = [] then [] else [TextBlock t None]
      else map carried_block bs)"

definition carried_message :: "normalized_message \<Rightarrow> normalized_message" where
  "carried_message m =
     m\<lparr>msg_content := map (\<lambda>b. case b of
         ToolResult i content isErr cc \<Rightarrow>
           ToolResult i (carried_content content) (if isErr = Some True then Some True else None) cc
       | _ \<Rightarrow> carried_block b) (msg_content m)\<rparr>"

text \<open>A canonical message: one tool result of plain blocks in a tool message, plain blocks elsewhere.\<close>

definition message_shape :: "normalized_message \<Rightarrow> bool" where
  "message_shape m =
     (case msg_role m of
        RTool \<Rightarrow>
          (case msg_content m of [ToolResult i content isErr cc] \<Rightarrow> list_all block_shape content | _ \<Rightarrow> False)
      | RUser \<Rightarrow> msg_content m \<noteq> [] \<and> list_all block_shape (msg_content m)
      | RAssistant \<Rightarrow> list_all block_shape (msg_content m))"

lemma block_carried: "block_shape b \<Longrightarrow> antBlockToIr (irBlockToAnt b) = Some (carried_block b)"
  by (cases b) (simp_all add: block_shape_def carried_block_def antBlockToIr_def)

lemma carried_plain: "block_shape b \<Longrightarrow>
    (case b of ToolResult i content isErr cc \<Rightarrow>
        ToolResult i (carried_content content) (if isErr = Some True then Some True else None) cc
      | _ \<Rightarrow> carried_block b) = carried_block b"
  by (cases b) (simp_all add: block_shape_def)

lemma map_filter_map: "(\<And>b. b \<in> set bs \<Longrightarrow> f (g b) = Some (h b)) \<Longrightarrow> List.map_filter f (map g bs) = map h bs"
  by (induction bs) (simp_all add: List.map_filter_simps)

lemma blocks_carried: "list_all block_shape bs \<Longrightarrow>
    List.map_filter antBlockToIr (map irBlockToAnt bs) = map carried_block bs"
  by (intro map_filter_map) (simp add: list_all_iff block_carried)

lemma message_carried:
  assumes "list_all block_shape (msg_content m)"
  shows "carried_message m = m\<lparr>msg_content := map carried_block (msg_content m)\<rparr>"
  unfolding carried_message_def
  by (rule arg_cong [where f = "\<lambda>c. m\<lparr>msg_content := c\<rparr>"], rule map_cong [OF refl], rule carried_plain)
    (use assms in \<open>simp add: list_all_iff\<close>)

lemma result_content_carried:
  assumes "list_all block_shape bs"
  shows "antContentToBlocks (if list_all is_text bs then AntString (concat (map text_of bs))
      else AntBlocks (map irBlockToAnt bs)) = carried_content bs"
  using assms by (simp add: antContentToBlocks_def carried_content_def blocks_carried Let_def)

lemma tool_message_carried:
  assumes "message_shape m" "msg_role m = RTool"
  shows "concat (map tool_message (tool_results m)) = [carried_message m]"
    "List.map_filter trailing_block (tool_results m) = []"
proof -
  obtain i content isErr cc where m: "m = \<lparr>msg_role = RTool, msg_content = [ToolResult i content isErr cc]\<rparr>"
    and ok: "list_all block_shape content"
    using assms by (cases m) (auto simp: message_shape_def split: list.splits content_block.splits)
  show "concat (map tool_message (tool_results m)) = [carried_message m]"
    by (cases isErr) (use result_content_carried [OF ok] in
      \<open>simp_all add: m tool_results_def tool_message_def carried_message_def\<close>)
  show "List.map_filter trailing_block (tool_results m) = []"
    by (simp add: m tool_results_def trailing_block_def List.map_filter_simps)
qed

lemma map_filter_append: "List.map_filter f (xs @ ys) = List.map_filter f xs @ List.map_filter f ys"
  by (simp add: List.map_filter_def)

lemma run_carried:
  assumes "list_all (\<lambda>m. message_shape m \<and> msg_role m = RTool) run"
  shows "concat (map tool_message (concat (map tool_results run))) = map carried_message run"
    "List.map_filter trailing_block (concat (map tool_results run)) = []"
proof -
  show "concat (map tool_message (concat (map tool_results run))) = map carried_message run"
    using assms by (induction run) (simp_all add: tool_message_carried)
  show "List.map_filter trailing_block (concat (map tool_results run)) = []"
    using assms by (induction run) (simp_all add: tool_message_carried map_filter_append List.map_filter_simps)
qed

lemma user_blocks_carried:
  assumes "list_all block_shape bs"
  shows "concat (map tool_message (map irBlockToAnt bs)) = []"
    "List.map_filter trailing_block (map irBlockToAnt bs) = map carried_block bs"
proof -
  have t: "tool_message (irBlockToAnt b) = []" "trailing_block (irBlockToAnt b) = Some (carried_block b)"
    if "block_shape b" for b
    using that block_carried [OF that]
    by (cases b; simp add: block_shape_def tool_message_def trailing_block_def)+
  with assms show "concat (map tool_message (map irBlockToAnt bs)) = []"
    by (auto simp: list_all_iff)
  from t assms show "List.map_filter trailing_block (map irBlockToAnt bs) = map carried_block bs"
    by (intro map_filter_map) (simp add: list_all_iff)
qed

text \<open>What one turn is read back as, from the results it leads with and the blocks behind them.\<close>

lemma turn_in:
  assumes "list_all (\<lambda>m. message_shape m \<and> msg_role m = RTool) run" "list_all block_shape bs"
  shows "ant_message_in \<lparr>am_role = AntUser, am_content = AntBlocks (concat (map tool_results run) @ map irBlockToAnt bs)\<rparr> =
    map carried_message run
      @ (if bs = [] then [] else [carried_message \<lparr>msg_role = RUser, msg_content = bs\<rparr>])"
  using run_carried [OF assms(1)] user_blocks_carried [OF assms(2)] assms(2)
  by (simp add: ant_message_in_def map_filter_append Let_def message_carried)

lemma plain_message_carried:
  assumes "message_shape m" "msg_role m \<noteq> RTool" "ant_messages_out [m] = [a]"
  shows "ant_message_in a = [carried_message m]"
proof (cases "msg_role m")
  case RUser
  with assms have "list_all block_shape (msg_content m)" "msg_content m \<noteq> []" by (simp_all add: message_shape_def)
  with RUser assms(3) turn_in [of "[]" "msg_content m"] show ?thesis by (cases m) auto
next
  case RAssistant
  with assms have "list_all block_shape (msg_content m)" by (simp add: message_shape_def)
  with RAssistant assms(3) blocks_carried [of "msg_content m"] message_carried [of m] show ?thesis
    by (cases m) (auto simp: ant_message_in_def antContentToBlocks_def)
qed (use assms in simp)

lemma messages_carried:
  "list_all message_shape ms \<Longrightarrow> concat (map ant_message_in (ant_messages_out ms)) = map carried_message ms"
proof (induction ms rule: ant_messages_out.induct)
  case (2 m ms)
  show ?case
  proof (cases "msg_role m = RTool")
    case False
    then obtain a where a: "ant_messages_out [m] = [a]" "ant_messages_out (m # ms) = a # ant_messages_out ms"
      by (cases "msg_role m") auto
    with 2 False plain_message_carried [OF _ False a(1)] show ?thesis by simp
  next
    case True
    define run where "run = m # takeWhile (\<lambda>x. msg_role x = RTool) ms"
    define rest where "rest = dropWhile (\<lambda>x. msg_role x = RTool) ms"
    have ms: "m # ms = run @ rest" by (simp add: run_def rest_def)
    have run: "list_all (\<lambda>m. message_shape m \<and> msg_role m = RTool) run"
      using 2(4) True by (auto simp: run_def list_all_iff dest: set_takeWhileD)
    have rest: "list_all message_shape rest" using 2(4) unfolding ms by simp
    let ?results = "concat (map tool_results run)"
    have out: "ant_messages_out (m # ms) =
      (case rest of
         [] \<Rightarrow> [\<lparr>am_role = AntUser, am_content = AntBlocks ?results\<rparr>]
       | n # rest' \<Rightarrow>
           if msg_role n = RUser
           then \<lparr>am_role = AntUser, am_content = AntBlocks (?results @ map irBlockToAnt (msg_content n))\<rparr>
                  # ant_messages_out rest'
           else \<lparr>am_role = AntUser, am_content = AntBlocks ?results\<rparr> # ant_messages_out rest)"
      unfolding run_def rest_def using True by (simp add: Let_def)
    show ?thesis
    proof (cases rest)
      case Nil
      with turn_in [OF run, of "[]"] show ?thesis unfolding out unfolding ms by simp
    next
      case (Cons n rest')
      show ?thesis
      proof (cases "msg_role n = RUser")
        case user: True
        from rest user have n: "list_all block_shape (msg_content n)" "msg_content n \<noteq> []"
          by (auto simp: Cons message_shape_def)
        have "concat (map ant_message_in (ant_messages_out rest')) = map carried_message rest'"
          using 2(1) [OF True run_def rest_def refl Cons user] rest by (simp add: Cons)
        moreover have "\<lparr>msg_role = RUser, msg_content = msg_content n\<rparr> = n" using user by (cases n) simp
        with turn_in [OF run n(1)] n(2)
        have "ant_message_in \<lparr>am_role = AntUser, am_content = AntBlocks (?results @ map irBlockToAnt (msg_content n))\<rparr> =
            map carried_message run @ [carried_message n]" by metis
        ultimately show ?thesis
          using user Cons unfolding out unfolding ms by simp
      next
        case nuser: False
        have "concat (map ant_message_in (ant_messages_out rest)) = map carried_message rest"
          using 2(2) [OF True run_def rest_def refl Cons nuser] rest by simp
        with nuser turn_in [OF run, of "[]"] Cons show ?thesis unfolding out unfolding ms by simp
      qed
    qed
  qed
qed simp

section \<open>Requests\<close>

text \<open>What becomes of a request on the wire. The system prompt keeps its text blocks; a switched-off
  parallelism brings a tool choice with it and a switched-on one is not said; the token limit is always
  there; the temperature is capped at one; and the controls of the other protocol are dropped.\<close>

definition carried_system :: "content_block list option \<Rightarrow> content_block list option" where
  "carried_system system =
     (case system of
        None \<Rightarrow> None
      | Some bs \<Rightarrow> if filter is_text bs = [] then None else Some (filter is_text bs))"

definition ant_carried :: "int \<Rightarrow> normalized_request \<Rightarrow> normalized_request" where
  "ant_carried cap ir =
     ir\<lparr>rq_system := carried_system (rq_system ir),
        rq_messages := map carried_message (rq_messages ir),
        rq_toolChoice := (if rq_allowParallelTools ir = Some False
                          then Some (or_else (rq_toolChoice ir) ChoiceAuto) else rq_toolChoice ir),
        rq_allowParallelTools := (if rq_allowParallelTools ir = Some False then Some False else None),
        rq_params := (rq_params ir)\<lparr>maxOutputTokens := Some cap,
                                     temperature := map_option (\<lambda>t. min t 1) (temperature (rq_params ir))\<rparr>,
        rq_reasoning := (case rq_reasoning ir of Some (AnthropicThinking v) \<Rightarrow> Some (AnthropicThinking v) | _ \<Rightarrow> None),
        rq_responseFormat := None, rq_includeUsage := None\<rparr>"

text \<open>The requests none of this touches: no image detail, no result of several or cache-marked texts or
  marked as no error, a token limit, a temperature up to one, a system prompt of text, no control of
  the other protocol, and a parallel-tools switch only off and beside a tool choice.\<close>

definition result_unchanged :: "content_block list \<Rightarrow> bool" where
  "result_unchanged bs =
     (if list_all is_text bs then (case bs of [] \<Rightarrow> True | [TextBlock t cc] \<Rightarrow> t \<noteq> [] \<and> cc = None | _ \<Rightarrow> False)
      else list_all leaf_ok bs)"

definition message_unchanged :: "normalized_message \<Rightarrow> bool" where
  "message_unchanged m = list_all (\<lambda>b. case b of
     ToolResult i content isErr cc \<Rightarrow> result_unchanged content \<and> isErr \<noteq> Some False | _ \<Rightarrow> leaf_ok b) (msg_content m)"

definition request_unchanged :: "normalized_request \<Rightarrow> bool" where
  "request_unchanged ir =
     (list_all message_unchanged (rq_messages ir)
      \<and> (case rq_system ir of None \<Rightarrow> True | Some bs \<Rightarrow> bs \<noteq> [] \<and> list_all is_text bs)
      \<and> maxOutputTokens (rq_params ir) \<noteq> None
      \<and> (case temperature (rq_params ir) of None \<Rightarrow> True | Some t \<Rightarrow> t \<le> 1)
      \<and> (rq_allowParallelTools ir = None \<or> rq_allowParallelTools ir = Some False \<and> rq_toolChoice ir \<noteq> None)
      \<and> (case rq_reasoning ir of None \<Rightarrow> True | Some (AnthropicThinking _) \<Rightarrow> True | _ \<Rightarrow> False)
      \<and> rq_responseFormat ir = None \<and> rq_includeUsage ir = None)"

lemma leaf_carried: "leaf_ok b \<Longrightarrow> carried_block b = b"
  by (cases b) (simp_all add: leaf_ok_def carried_block_def)

lemma content_carried: "result_unchanged bs \<Longrightarrow> carried_content bs = bs"
proof (cases "list_all is_text bs")
  case True
  assume "result_unchanged bs"
  with True show ?thesis
    by (cases bs; cases "hd bs"; cases "tl bs")
      (simp_all add: result_unchanged_def carried_content_def Let_def)
next
  case False
  assume "result_unchanged bs"
  with False show ?thesis
    by (simp add: result_unchanged_def carried_content_def) (simp add: list_all_iff leaf_carried map_idI)
qed

lemma message_carried_same:
  assumes "message_unchanged m"
  shows "carried_message m = m"
proof -
  have "(case b of
         ToolResult i content isErr cc \<Rightarrow>
           ToolResult i (carried_content content) (if isErr = Some True then Some True else None) cc
       | _ \<Rightarrow> carried_block b) = b" if "b \<in> set (msg_content m)" for b
  proof -
    from assms that have here: "case b of
      ToolResult i content isErr cc \<Rightarrow> result_unchanged content \<and> isErr \<noteq> Some False | _ \<Rightarrow> leaf_ok b"
      by (simp add: message_unchanged_def list_all_iff)
    show ?thesis
    proof (cases b)
      case (ToolResult i content isErr cc)
      with here show ?thesis by (cases isErr) (simp_all add: content_carried)
    qed (use here in \<open>simp_all add: leaf_carried\<close>)
  qed
  then have "map (\<lambda>b. case b of
         ToolResult i content isErr cc \<Rightarrow>
           ToolResult i (carried_content content) (if isErr = Some True then Some True else None) cc
       | _ \<Rightarrow> carried_block b) (msg_content m) = msg_content m" by (rule map_idI)
  then show ?thesis by (cases m) (simp add: carried_message_def)
qed

lemma request_carried_same:
  assumes "request_unchanged ir" "maxOutputTokens (rq_params ir) = Some cap"
  shows "ant_carried cap ir = ir"
proof -
  have messages: "map carried_message (rq_messages ir) = rq_messages ir"
    using assms(1) by (intro map_idI) (simp add: request_unchanged_def list_all_iff message_carried_same)
  have system: "carried_system (rq_system ir) = rq_system ir"
    using assms(1) by (cases "rq_system ir") (auto simp: request_unchanged_def carried_system_def list_all_iff)
  have temp: "map_option (\<lambda>t. min t 1) (temperature (rq_params ir)) = temperature (rq_params ir)"
    using assms(1) by (cases "temperature (rq_params ir)") (simp_all add: request_unchanged_def)
  have reason: "(case rq_reasoning ir of Some (AnthropicThinking v) \<Rightarrow> Some (AnthropicThinking v) | _ \<Rightarrow> None)
      = rq_reasoning ir"
    using assms(1) by (auto simp: request_unchanged_def split: option.splits reasoning_control.splits)
  have choice: "(if rq_allowParallelTools ir = Some False then Some (or_else (rq_toolChoice ir) ChoiceAuto)
      else rq_toolChoice ir) = rq_toolChoice ir"
    "(if rq_allowParallelTools ir = Some False then Some False else None) = rq_allowParallelTools ir"
    using assms(1) by (auto simp: request_unchanged_def or_else_def)
  have dropped: "rq_responseFormat ir = None" "rq_includeUsage ir = None"
    using assms(1) by (simp_all add: request_unchanged_def)
  have params: "(rq_params ir)\<lparr>maxOutputTokens := Some cap, temperature := temperature (rq_params ir)\<rparr> = rq_params ir"
    using assms(2) by (cases "rq_params ir") simp
  show ?thesis
    unfolding ant_carried_def messages system temp reason choice params
    using dropped by (cases ir) simp
qed

lemma tool_choice_carried:
  "ant_toolChoiceIn (ant_toolChoiceOut tc p) =
     (if p = Some False then Some (or_else tc ChoiceAuto) else tc, if p = Some False then Some False else None)"
  by (cases tc; cases "the tc")
    (auto simp: ant_toolChoiceOut_def ant_toolChoiceIn_def or_else_def Let_def)

lemma system_carried:
  "map_option (\<lambda>s. case s of Inl t \<Rightarrow> [TextBlock t None] | Inr bs \<Rightarrow> map (\<lambda>(t, cc). TextBlock t cc) bs)
     (systemOut system) = carried_system system"
proof (cases system)
  case (Some bs)
  let ?f = "\<lambda>b. case b of TextBlock t cc \<Rightarrow> Some (t, cc) | _ \<Rightarrow> None"
  have texts: "map (\<lambda>(t, cc). TextBlock t cc) (List.map_filter ?f bs) = filter is_text bs"
    by (induction bs) (auto simp: List.map_filter_simps is_text_def split: content_block.split)
  show ?thesis
  proof (cases "List.map_filter ?f bs")
    case Nil
    with texts Some show ?thesis by (simp add: systemOut_def carried_system_def)
  next
    case (Cons x tcs)
    with texts have ne: "filter is_text bs \<noteq> []" by (cases "filter is_text bs") auto
    obtain t cc where x: "x = (t, cc)" by (cases x)
    show ?thesis
      using texts ne Cons Some by (cases tcs; cases cc) (simp_all add: systemOut_def carried_system_def x)
  qed
qed (simp add: systemOut_def carried_system_def)

lemma tool_eta [simp]: "\<lparr>tool_name = tool_name t, tool_description = tool_description t,
    tool_parameters = tool_parameters t, tool_cacheControl = tool_cacheControl t\<rparr> = t"
  by (cases t) simp

lemma tools_roundtrip:
  "map_option (map (\<lambda>t. \<lparr>tool_name = an_name t, tool_description = an_description t,
       tool_parameters = an_input_schema t, tool_cacheControl = an_cache_control t\<rparr>))
     (map_option (map (\<lambda>t. \<lparr>an_name = tool_name t, an_description = tool_description t,
       an_input_schema = tool_parameters t, an_cache_control = tool_cacheControl t\<rparr>)) ts) = ts"
  by (cases ts) (simp_all add: comp_def)

text \<open>C15 (roundtrip). A request of canonical messages (tool arguments that parsed, one result per tool
  message, user messages that say something) crosses the Anthropic wire: it is refused exactly when
  neither it nor the adapter has a token limit, and else reading the written request gives back the
  request with the changes of \<open>ant_carried\<close> and no other: the texts of a tool result are fused into one
  without cache marks, a result's explicit mark of no error, image details and controls of the other
  protocol are dropped, the temperature is capped, the token limit is filled in, and a switch of parallel
  tools is kept only when off, with a tool choice to carry it. The tool results are regrouped into user turns and split again message by message. A request
  that has none of these comes back unchanged.\<close>

theorem ant_request_roundtrip:
  assumes "list_all message_shape (rq_messages ir)"
  shows "case later defaultMax (maxOutputTokens (rq_params ir)) of
      None \<Rightarrow> isl (ant_requestOut defaultMax ir)
    | Some cap \<Rightarrow>
        (\<exists>wire. ant_requestOut defaultMax ir = Inr wire \<and> ant_requestIn wire = ant_carried cap ir)
        \<and> (request_unchanged ir \<longrightarrow> ant_carried cap ir = ir)"
proof (cases "later defaultMax (maxOutputTokens (rq_params ir))")
  case None
  then show ?thesis by (simp add: ant_requestOut_def)
next
  case (Some cap)
  have reason: "map_option AnthropicThinking (case rq_reasoning ir of Some (AnthropicThinking v) \<Rightarrow> Some v | _ \<Rightarrow> None)
      = (case rq_reasoning ir of Some (AnthropicThinking v) \<Rightarrow> Some (AnthropicThinking v) | _ \<Rightarrow> None)"
    by (simp split: option.split reasoning_control.split)
  have "\<exists>wire. ant_requestOut defaultMax ir = Inr wire \<and> ant_requestIn wire = ant_carried cap ir"
    by (simp add: ant_requestOut_def ant_requestIn_def Some system_carried tool_choice_carried
        messages_carried [OF assms] tools_roundtrip reason del: option.map_comp)
      (cases ir; cases "rq_params ir"; simp add: ant_carried_def)
  moreover have "ant_carried cap ir = ir" if "request_unchanged ir"
  proof (rule request_carried_same [OF that])
    from that obtain n where "maxOutputTokens (rq_params ir) = Some n" by (auto simp: request_unchanged_def)
    with Some show "maxOutputTokens (rq_params ir) = Some cap" by (simp add: later_def)
  qed
  ultimately show ?thesis by (simp add: Some)
qed

definition demo_ant_request :: normalized_request where
  "demo_ant_request = \<lparr>rq_model = ''m'', rq_system = Some [TextBlock ''be brief'' None],
     rq_messages =
       [\<lparr>msg_role = RUser, msg_content = [TextBlock ''go'' None]\<rparr>,
        \<lparr>msg_role = RAssistant, msg_content = [ToolUse ''t1'' ''f'' (JObj []) None, ToolUse ''t2'' ''g'' (JObj []) None]\<rparr>,
        \<lparr>msg_role = RTool, msg_content = [ToolResult ''t1'' [TextBlock ''one'' None] None None]\<rparr>,
        \<lparr>msg_role = RTool, msg_content = [ToolResult ''t2'' [] (Some True) None]\<rparr>,
        \<lparr>msg_role = RUser, msg_content = [TextBlock ''next'' None]\<rparr>],
     rq_tools = Some [\<lparr>tool_name = ''f'', tool_description = None, tool_parameters = JObj [], tool_cacheControl = None\<rparr>],
     rq_toolChoice = Some ChoiceAuto, rq_allowParallelTools = Some False,
     rq_params = \<lparr>maxOutputTokens = Some 100, temperature = Some 1, topP = None, stopSequences = None\<rparr>,
     rq_responseFormat = None, rq_reasoning = Some (AnthropicThinking (JObj [])), rq_outputConfig = None,
     rq_stream = Some True, rq_includeUsage = None\<rparr>"

text \<open>An unchanged request, and a tool result of two texts, one of them cache-marked, that is fused.\<close>

definition demo_fused :: normalized_request where
  "demo_fused = demo_ant_request\<lparr>rq_messages :=
     [\<lparr>msg_role = RTool, msg_content =
         [ToolResult ''t1'' [TextBlock ''one'' (Some (JObj [])), TextBlock ''two'' None] None None]\<rparr>]\<rparr>"

lemma ant_request_roundtrip_witness:
  "(\<exists>wire. ant_requestOut None demo_ant_request = Inr wire \<and> ant_requestIn wire = demo_ant_request)
   \<and> (\<exists>wire. ant_requestOut None demo_fused = Inr wire \<and> rq_messages (ant_requestIn wire) =
        [\<lparr>msg_role = RTool, msg_content = [ToolResult ''t1'' [TextBlock ''onetwo'' None] None None]\<rparr>])"
proof
  have shape: "list_all message_shape (rq_messages demo_ant_request)"
    by (simp add: demo_ant_request_def message_shape_def block_shape_def isRecord_def)
  have same: "request_unchanged demo_ant_request"
    by (simp add: demo_ant_request_def request_unchanged_def message_unchanged_def leaf_ok_def
        result_unchanged_def isRecord_def is_text_def)
  have cap: "later None (maxOutputTokens (rq_params demo_ant_request)) = Some 100"
    by (simp add: demo_ant_request_def later_def)
  from ant_request_roundtrip [OF shape, of None] same
  have "(\<exists>wire. ant_requestOut None demo_ant_request = Inr wire \<and> ant_requestIn wire = ant_carried 100 demo_ant_request)
      \<and> ant_carried 100 demo_ant_request = demo_ant_request"
    unfolding cap option.case by blast
  then obtain wire where "ant_requestOut None demo_ant_request = Inr wire"
    "ant_requestIn wire = ant_carried 100 demo_ant_request" "ant_carried 100 demo_ant_request = demo_ant_request" by blast
  then show "\<exists>wire. ant_requestOut None demo_ant_request = Inr wire \<and> ant_requestIn wire = demo_ant_request"
    by (intro exI [of _ wire]) simp
  have "list_all message_shape (rq_messages demo_fused)"
    by (simp add: demo_fused_def message_shape_def block_shape_def)
  moreover have "later None (maxOutputTokens (rq_params demo_fused)) = Some 100"
    by (simp add: demo_fused_def demo_ant_request_def later_def)
  moreover have "rq_messages (ant_carried 100 demo_fused) =
      [\<lparr>msg_role = RTool, msg_content = [ToolResult ''t1'' [TextBlock ''onetwo'' None] None None]\<rparr>]"
    by (simp add: demo_fused_def ant_carried_def carried_message_def carried_content_def is_text_def text_of_def)
  ultimately show "\<exists>wire. ant_requestOut None demo_fused = Inr wire \<and> rq_messages (ant_requestIn wire) =
      [\<lparr>msg_role = RTool, msg_content = [ToolResult ''t1'' [TextBlock ''onetwo'' None] None None]\<rparr>]"
    using ant_request_roundtrip [of demo_fused None] by auto
qed

end
