(* ===== verification/AnthropicStream.thy ===== *)
theory AnthropicStream
  imports AnthropicFacts
begin

text \<open>
  A stream written by the Anthropic adapter is read back by it: the events of a buffered answer,
  serialized, cut into any chunks and parsed, are the events of that answer again.
\<close>

text \<open>What an assistant streams: text, a call whose input parsed, a call whose input did not.\<close>

definition streams :: "content_block \<Rightarrow> bool" where
  "streams b =
     (case b of
        TextBlock _ _ \<Rightarrow> True
      | ToolUse _ _ input cc \<Rightarrow> isRecord input \<and> json_ok input \<and> cc = None
      | ToolUseRaw _ _ raw cc \<Rightarrow>
          raw \<noteq> [] \<and> (case json_parse raw of Some v \<Rightarrow> \<not> isRecord v | None \<Rightarrow> True) \<and> cc = None
      | _ \<Rightarrow> False)"

lemma streams_simps [simp]:
  "streams (TextBlock t cc)" "\<not> streams (ImageData d m e)" "\<not> streams (ImageUrl u e)"
  "\<not> streams (ToolResult i bs r c)"
  by (simp_all add: streams_def)

definition frame_of :: "string \<times> json \<Rightarrow> sse_frame" where
  "frame_of f = \<lparr>fr_event = Some (fst f), fr_data = json_text (snd f)\<rparr>"

lemma frame_data [simp]: "fr_data (frame_of f) = json_text (snd f)"
  by (simp add: frame_of_def)

lemma decimals_nat [simp]: "decimals (of_nat n) = Some 0"
  using decimals_of_int [of "int n"] by simp

lemma is_whole_nat [simp]: "is_whole (of_nat n)"
  using is_whole_of_int [of "int n"] by simp

lemma jnat_eq [simp]: "jnat i = JNum (of_nat i)" by simp

definition read_json :: "json \<Rightarrow> ant_parser \<Rightarrow> ant_step" where
  "read_json v st =
     (case js_prop ''type'' (Some v) of
        None \<Rightarrow> ([], None)
      | Some ty \<Rightarrow>
          (case str_leaf ty of
             None \<Rightarrow> ([], Some st)
           | Some t \<Rightarrow>
               if t = ''message_start'' then ant_on_start (Some v) st
               else if t = ''content_block_start'' then ant_on_block_start (Some v) st
               else if t = ''content_block_delta'' then ant_on_delta (Some v) st
               else if t = ''content_block_stop'' then ant_on_block_stop (Some v) st
               else if t = ''message_delta'' then ant_on_message_delta (Some v) st
               else if t = ''message_stop'' then ant_on_message_stop st
               else if t = ''error'' then ant_on_error (Some v) st
               else ([], Some st)))"

lemma on_frame_text: "json_ok v \<Longrightarrow> ant_on_frame (json_text v) st = read_json v st"
  by (simp add: ant_on_frame_def read_json_def del: json_text.simps)

lemmas reading = read_json_def js_prop_def opt_prop_def obj_prop_def str_leaf_def or_else_def Let_def
lemmas writing = ant_block_json_def jopt_def jnull_def

section \<open>Each frame, read\<close>

abbreviation read_frame :: "string \<times> json \<Rightarrow> ant_parser \<Rightarrow> ant_step" where
  "read_frame f st \<equiv> read_json (snd f) st"

lemma read_text_start:
  "read_frame (ant_block_json ''content_block_start'' i ''content_block''
       (JObj [(''type'', JStr ''text''), (''text'', JStr [])])) st =
     ([], Some (st\<lparr>an_next := Suc (an_next st), an_remap := (an_remap st)(Some (jnat i) \<mapsto> an_next st),
        an_open := (an_open st)(an_next st \<mapsto> \<lparr>ao_tool = False, ao_id = None, ao_name = None, ao_json = []\<rparr>)\<rparr>))"
  by (simp add: reading writing ant_on_block_start_def)

lemma read_tool_start:
  "read_frame (ant_block_json ''content_block_start'' i ''content_block''
       (JObj [(''type'', JStr ''tool_use''), (''id'', JStr tid), (''name'', JStr name), (''input'', JObj [])])) st =
     ([ToolUseStart (an_next st) tid name],
      Some (st\<lparr>an_next := Suc (an_next st), an_remap := (an_remap st)(Some (jnat i) \<mapsto> an_next st),
        an_open := (an_open st)(an_next st \<mapsto> \<lparr>ao_tool = True, ao_id = Some tid, ao_name = Some name, ao_json = []\<rparr>)\<rparr>))"
  by (simp add: reading writing ant_on_block_start_def)

lemma read_text_delta:
  assumes "an_remap st (Some (jnat i)) = Some k"
  shows "read_frame (ant_block_json ''content_block_delta'' i ''delta''
       (JObj [(''type'', JStr ''text_delta''), (''text'', JStr t)])) st = ([TextDelta k t], Some st)"
  using assms by (simp add: reading writing ant_on_delta_def)

lemma read_tool_delta:
  assumes "an_remap st (Some (jnat i)) = Some k" "an_open st k = Some b"
  shows "read_frame (ant_block_json ''content_block_delta'' i ''delta''
       (JObj [(''type'', JStr ''input_json_delta''), (''partial_json'', JStr part)])) st =
     ([ToolUseDelta k part], Some (st\<lparr>an_open := (an_open st)(k \<mapsto> b\<lparr>ao_json := ao_json b @ part\<rparr>)\<rparr>))"
  using assms by (simp add: reading writing ant_on_delta_def)

lemma read_block_stop:
  assumes "an_remap st (Some (jnat i)) = Some k"
  shows "read_frame (''content_block_stop'', JObj [(''type'', JStr ''content_block_stop''), (''index'', jnat i)]) st =
     ([BlockStop k
         (case an_open st k of
            Some b \<Rightarrow> if ao_tool b then Some (finalizeTool (or_else (ao_id b) []) (or_else (ao_name b) []) (ao_json b)) else None
          | None \<Rightarrow> None)],
      Some (st\<lparr>an_open := (an_open st)(k := None)\<rparr>))"
  using assms by (simp add: reading writing ant_on_block_stop_def)

lemma read_start:
  "read_frame (''message_start'', ant_start_json rid model usage) st =
     ([MessageStart rid model (Some
         (let u = or_else usage empty_usage in
          \<lparr>p_inputTokens = Some (or_else (p_inputTokens u) 0), p_outputTokens = Some (or_else (p_outputTokens u) 0),
           p_cacheReadTokens = p_cacheReadTokens u, p_cacheWriteTokens = p_cacheWriteTokens u\<rparr>))],
      Some st)"
  by (simp add: reading ant_start_json_def ant_on_start_def ant_usage_leaf_def int_leaf_def jopt_def
      partialUsageFromAnthropicStart_def empty_usage_def split: option.splits)

lemma read_tail:
  assumes "aw_stopReason w = Some sr" "stopReasonToAnthropic sr (aw_rawStopReason w) = Some raw"
  shows "read_frame (ant_tail_json w) st =
     ([MessageDelta (Some (stopReasonFromAnthropic (Some raw))) (Some raw) (aw_stopSequence w)
         (Some (empty_usage\<lparr>p_outputTokens := Some (or_else (p_outputTokens (mergePartialUsage (aw_tailUsage w))) 0)\<rparr>))],
      Some (st\<lparr>an_sawReason := True\<rparr>))"
  using assms by (cases "aw_stopSequence w")
    (simp_all add: reading writing ant_tail_json_def ant_on_message_delta_def int_leaf_def)

lemma read_message_stop:
  "an_sawReason st \<Longrightarrow> read_frame (''message_stop'', JObj [(''type'', JStr ''message_stop'')]) st =
     ([MessageStop], Some (st\<lparr>an_sawStop := True\<rparr>))"
  by (simp add: reading ant_on_message_stop_def)

section \<open>A block, written and read\<close>

definition block_frames :: "nat \<Rightarrow> content_block \<Rightarrow> (string \<times> json) list" where
  "block_frames i b =
     (let stop = [(''content_block_stop'', JObj [(''type'', JStr ''content_block_stop''), (''index'', jnat i)])];
          tool = (\<lambda>tid name part.
            [ant_block_json ''content_block_start'' i ''content_block''
               (JObj [(''type'', JStr ''tool_use''), (''id'', JStr tid), (''name'', JStr name), (''input'', JObj [])]),
             ant_block_json ''content_block_delta'' i ''delta''
               (JObj [(''type'', JStr ''input_json_delta''), (''partial_json'', JStr part)])] @ stop)
      in case b of
           TextBlock t _ \<Rightarrow>
             [ant_block_json ''content_block_start'' i ''content_block'' (JObj [(''type'', JStr ''text''), (''text'', JStr [])]),
              ant_block_json ''content_block_delta'' i ''delta'' (JObj [(''type'', JStr ''text_delta''), (''text'', JStr t)])] @ stop
         | ToolUse tid name input _ \<Rightarrow> tool tid name (json_text input)
         | ToolUseRaw tid name raw _ \<Rightarrow> tool tid name raw
         | _ \<Rightarrow> [])"

lemma write_block:
  assumes "streams b" "i \<notin> set (aw_started w)"
  shows "ant_write_all (block_events i b @ rest) w =
    block_frames i b @ ant_write_all rest (w\<lparr>aw_started := i # aw_started w\<rparr>)"
  using assms by (cases b) (simp_all add: streams_def block_events_def block_frames_def ant_write_def Let_def
      del: jnat_eq)

lemma parse_frame:
  "json_ok (snd f) \<Longrightarrow> ant_parse_frames (frame_of f # fs) st =
     (case read_frame f st of
        (evs, None) \<Rightarrow> (evs, True)
      | (evs, Some st') \<Rightarrow> (case ant_parse_frames fs st' of (es, t) \<Rightarrow> (evs @ es, t)))"
  by (simp add: on_frame_text split: prod.splits option.splits)

lemma finalize_streams:
  "streams (ToolUse tid name input cc) \<Longrightarrow> finalizeTool tid name (json_text input) = ToolUse tid name input cc"
  "streams (ToolUseRaw tid name raw cc) \<Longrightarrow> finalizeTool tid name raw = ToolUseRaw tid name raw cc"
  by (auto simp: streams_def finalizeTool_def isRecord_def split: json.splits option.splits)

definition after_block :: "nat \<Rightarrow> ant_parser \<Rightarrow> ant_parser" where
  "after_block i st = st\<lparr>an_next := Suc i, an_remap := (an_remap st)(Some (jnat i) \<mapsto> i), an_open := (an_open st)(i := None)\<rparr>"

lemma parse_block:
  assumes "streams b" "an_next st = i"
  shows "ant_parse_frames (map frame_of (block_frames i b) @ fs) st =
    (case ant_parse_frames fs (after_block i st) of (es, t) \<Rightarrow> (block_events i b @ es, t))"
proof -
  have ok: "json_ok (snd (ant_block_json n i k v)) = (k \<noteq> ''type'' \<and> k \<noteq> ''index'' \<and> json_ok v)" for n k v
    by (auto simp: ant_block_json_def)
  show ?thesis
    using assms by (cases b)
      (simp_all add: block_frames_def parse_frame ok read_text_start read_text_delta read_tool_start read_tool_delta
        read_block_stop [simplified] block_events_def after_block_def finalize_streams Let_def or_else_def
        del: ant_parse_frames.simps split: prod.splits)
qed

lemma block_events_taken: "streams b \<Longrightarrow> block_events i b \<noteq> []"
  by (cases b) (simp_all add: block_events_def)

lemma stream_blocks:
  assumes "list_all streams bs" "an_next st = i" "\<forall>j\<in>set (aw_started w). j < i"
  shows "\<exists>l st'. an_sawReason st' = an_sawReason st \<and>
    (\<forall>rest. ant_parse_frames (map frame_of (ant_write_all (blocks_events i bs @ rest) w)) st =
      (case ant_parse_frames (map frame_of (ant_write_all rest (w\<lparr>aw_started := l\<rparr>))) st' of
         (es, t) \<Rightarrow> (blocks_events i bs @ es, t)))"
  using assms
proof (induction bs arbitrary: i st w)
  case Nil
  have "w\<lparr>aw_started := aw_started w\<rparr> = w" by simp
  then show ?case by (intro exI [of _ "aw_started w"] exI [of _ st]) simp
next
  case (Cons b bs)
  let ?w = "w\<lparr>aw_started := i # aw_started w\<rparr>" and ?st = "after_block i st"
  have b: "streams b" "i \<notin> set (aw_started w)" using Cons.prems by auto
  have next': "an_next ?st = Suc i" by (simp add: after_block_def)
  have started: "\<forall>j\<in>set (aw_started ?w). j < Suc i" using Cons.prems(3) by auto
  have bs: "list_all streams bs" using Cons.prems(1) by simp
  obtain l st' where r: "an_sawReason st' = an_sawReason ?st" and
    p: "\<And>rest. ant_parse_frames (map frame_of (ant_write_all (blocks_events (Suc i) bs @ rest) ?w)) ?st =
      (case ant_parse_frames (map frame_of (ant_write_all rest (?w\<lparr>aw_started := l\<rparr>))) st' of
         (es, t) \<Rightarrow> (blocks_events (Suc i) bs @ es, t))"
    using Cons.IH [OF bs next' started] by blast
  have "ant_parse_frames (map frame_of (ant_write_all (blocks_events i (b # bs) @ rest) w)) st =
      (case ant_parse_frames (map frame_of (ant_write_all rest (w\<lparr>aw_started := l\<rparr>))) st' of
         (es, t) \<Rightarrow> (blocks_events i (b # bs) @ es, t))" for rest
    using block_events_taken [OF b(1), of i] p [of rest]
    by (simp add: write_block b parse_block [OF b(1) Cons.prems(2)] split: prod.splits)
  moreover from r have "an_sawReason st' = an_sawReason st" by (simp add: after_block_def)
  ultimately show ?case by blast
qed

lemma written_names: "f \<in> set (ant_write_all evs w) \<Longrightarrow> one_line (fst f)"
proof (induction evs arbitrary: w)
  case (Cons ev evs)
  have "one_line (fst f)" if "f \<in> set (fst (ant_write ev w))"
    using that by (cases ev)
      (auto simp: ant_write_def ant_block_json_def ant_tail_json_def Let_def split: option.splits if_splits)
  with Cons show ?case by (cases "ant_write ev w") auto
qed simp

lemma serialized_frames:
  assumes "concat chunks = concat (ant_streamSerialize evs)"
  shows "sseFrames chunks = map frame_of (ant_write_all evs ant_writer0)"
proof (rule read_written)
  show "list_all writable (map frame_of (ant_write_all evs ant_writer0))"
    by (auto simp: list_all_iff writable_def frame_of_def dest: written_names)
  show "concat chunks = concat (map written (map frame_of (ant_write_all evs ant_writer0)))"
    by (simp add: assms ant_streamSerialize_def written_formats frame_of_def split_def comp_def)
qed

definition usage_or_zero :: "normalized_response \<Rightarrow> normalized_usage" where
  "usage_or_zero r =
     or_else (rs_usage r) \<lparr>inputTokens = 0, outputTokens = 0, cacheReadTokens = None, cacheWriteTokens = None\<rparr>"

text \<open>C17 (roundtrip). An answer replayed as an Anthropic stream is parsed back into itself under every
  cutting of the text into chunks: the same blocks at the same indices (tool inputs as JSON values
  again), the stop reason, the matched stop sequence and the usage, a terminator and no error.\<close>

theorem ant_stream_roundtrip:
  assumes blocks: "list_all streams (rs_content r)"
    and stop: "stopReasonToAnthropic (rs_stopReason r) (rs_rawStopReason r) = Some raw"
      "stopReasonFromAnthropic (Some raw) = rs_stopReason r"
    and chunks: "concat chunks = concat (ant_streamSerialize (responseToStreamEvents r))"
  shows "ant_streamParse chunks =
    (MessageStart (rs_id r) (rs_model r) (Some ((start_usage (usage_or_zero r))\<lparr>p_outputTokens := Some 0\<rparr>))
       # blocks_events 0 (rs_content r)
       @ [MessageDelta (Some (rs_stopReason r)) (Some raw) (rs_stopSequence r) (Some (end_usage (usage_or_zero r))),
          MessageStop], False)"
proof -
  let ?u = "map_option start_usage (rs_usage r)" and ?d = "map_option end_usage (rs_usage r)"
  let ?tail = "[MessageDelta (Some (rs_stopReason r)) (rs_rawStopReason r) (rs_stopSequence r) ?d, MessageStop]"
  let ?w = "if ?u \<noteq> None then ant_writer0\<lparr>aw_tailUsage := [?u]\<rparr> else ant_writer0"
  have st0: "an_next ant_parser0 = 0" "\<forall>j\<in>set (aw_started ?w). j < 0"
    by (simp_all add: ant_parser0_def ant_writer0_def)
  obtain l st' where p: "\<And>rest. ant_parse_frames (map frame_of (ant_write_all (blocks_events 0 (rs_content r) @ rest) ?w)) ant_parser0 =
      (case ant_parse_frames (map frame_of (ant_write_all rest (?w\<lparr>aw_started := l\<rparr>))) st' of
         (es, t) \<Rightarrow> (blocks_events 0 (rs_content r) @ es, t))"
    using stream_blocks [OF blocks st0] by blast
  let ?w3 = "\<lparr>aw_started = l, aw_tailUsage = (if ?u \<noteq> None then [?u, ?d] else []), aw_stopReason = Some (rs_stopReason r),
      aw_rawStopReason = rs_rawStopReason r, aw_stopSequence = rs_stopSequence r\<rparr>"
  have tail: "ant_write_all ?tail (?w\<lparr>aw_started := l\<rparr>) =
      [ant_tail_json ?w3, (''message_stop'', JObj [(''type'', JStr ''message_stop'')])]"
    by (cases "rs_usage r"; cases "rs_stopSequence r") (simp_all add: ant_write_def ant_writer0_def Let_def)
  have ok: "json_ok (snd (ant_tail_json ?w3))" "json_ok (ant_start_json (rs_id r) (rs_model r) ?u)"
    by (auto simp: ant_tail_json_def ant_start_json_def jnull_def jopt_def Let_def split: option.splits)
  have merged: "or_else (p_outputTokens (mergePartialUsage (if ?u \<noteq> None then [?u, ?d] else []))) 0 =
      outputTokens (usage_or_zero r)"
    by (cases "rs_usage r") (simp_all add: mergePartialUsage_def merge_one_def later_def empty_usage_def or_else_def
        start_usage_def end_usage_def usage_or_zero_def)
  have end_in: "ant_parse_frames (map frame_of (ant_write_all ?tail (?w\<lparr>aw_started := l\<rparr>))) st' =
      ([MessageDelta (Some (rs_stopReason r)) (Some raw) (rs_stopSequence r) (Some (end_usage (usage_or_zero r))),
        MessageStop], False)"
    unfolding tail
    using read_tail [of ?w3 "rs_stopReason r" raw st'] stop ok(1) merged
      read_message_stop [of "st'\<lparr>an_sawReason := True\<rparr>", simplified]
    by (simp add: parse_frame end_usage_def del: ant_parse_frames.simps(2))
  have start: "ant_write_all (responseToStreamEvents r) ant_writer0 =
      (''message_start'', ant_start_json (rs_id r) (rs_model r) ?u)
        # ant_write_all (blocks_events 0 (rs_content r) @ ?tail) ?w"
    by (simp add: responseToStreamEvents_def ant_write_def ant_writer0_def)
  have first: "read_frame (''message_start'', ant_start_json (rs_id r) (rs_model r) ?u) ant_parser0 =
      ([MessageStart (rs_id r) (rs_model r) (Some ((start_usage (usage_or_zero r))\<lparr>p_outputTokens := Some 0\<rparr>))],
       Some ant_parser0)"
    unfolding read_start
    by (cases "rs_usage r") (simp_all add: or_else_def usage_or_zero_def start_usage_def empty_usage_def)
  show ?thesis
    unfolding ant_streamParse_def serialized_frames [OF chunks] start list.map
    using first ok(2) by (simp add: parse_frame p [of ?tail, simplified] end_in [simplified] del: ant_parse_frames.simps)
qed

lemma ant_stream_roundtrip_witness:
  "ant_streamParse (map (\<lambda>c. [c]) (concat (ant_streamSerialize (responseToStreamEvents demo_ant_answer)))) =
    ([MessageStart ''msg'' ''m'' (Some \<lparr>p_inputTokens = Some 10, p_outputTokens = Some 0,
        p_cacheReadTokens = Some 3, p_cacheWriteTokens = None\<rparr>),
      TextDelta 0 ''hi'', BlockStop 0 None,
      ToolUseStart 1 ''t1'' ''f'', ToolUseDelta 1 (json_text (JObj [(''a'', JNum 1)])),
      BlockStop 1 (Some (ToolUse ''t1'' ''f'' (JObj [(''a'', JNum 1)]) None)),
      MessageDelta (Some StopToolUse) (Some ''tool_use'') None (Some (empty_usage\<lparr>p_outputTokens := Some 5\<rparr>)),
      MessageStop], False)"
proof -
  have one: "decimals 1 = Some 0" using decimals_of_int [of 1] by simp
  have "list_all streams (rs_content demo_ant_answer)"
    by (simp add: demo_ant_answer_def streams_def isRecord_def one)
  note this ant_stream_roundtrip [OF this, of "''tool_use''"
      "map (\<lambda>c. [c]) (concat (ant_streamSerialize (responseToStreamEvents demo_ant_answer)))"]
  then show ?thesis
    by (simp add: demo_ant_answer_def stopReasonToAnthropic_def stopReasonFromAnthropic_def usage_or_zero_def
        or_else_def start_usage_def end_usage_def block_events_def)
qed

end
