(* ===== verification/Openai.thy ===== *)
theory Openai
  imports WireJson
begin

text \<open>
  \<open>translate/openai.ts\<close>: the Chat Completions adapter. The wire shapes of \<open>wire/openai.ts\<close>, the
  four conversions of requests and responses, and the two directions of a stream. The arguments
  of a tool call are a type of their own: text nominally, a parsed object under the quirk
  \<open>toolArgumentsAlreadyObject\<close>; the conversions take the reading of one call as an argument.
\<close>

section \<open>The wire\<close>

text \<open>\<open>OaiOther\<close> is a part of a type the interface does not declare.\<close>

datatype oai_part = OaiText string | OaiImage string "image_detail option" | OaiOther

text \<open>\<open>OaiAbsent\<close> is a message without \<open>content\<close>.\<close>

datatype oai_content = OaiAbsent | OaiNull | OaiString string | OaiParts "oai_part list"

record 'a oai_tool_call =
  tc_id :: string
  tc_name :: string
  tc_arguments :: 'a

datatype oai_role = OaiSystem | OaiDeveloper | OaiUser | OaiAssistant | OaiTool

record 'a oai_message =
  om_role :: oai_role
  om_content :: oai_content
  om_tool_calls :: "'a oai_tool_call list option"
  om_tool_call_id :: "string option"

record oai_tool =
  on_name :: string
  on_description :: "string option"
  on_parameters :: "json option"

datatype oai_tool_choice = OcNone | OcAuto | OcRequired | OcFunction string

record 'a oai_request =
  oq_model :: string
  oq_messages :: "'a oai_message list"
  oq_tools :: "oai_tool list option"
  oq_tool_choice :: "oai_tool_choice option"
  oq_parallel_tool_calls :: "bool option"
  oq_temperature :: "rat option"
  oq_top_p :: "rat option"
  oq_max_tokens :: "int option"
  oq_max_completion_tokens :: "int option"
  oq_stop :: "(string + string list) option"
  oq_stream :: "bool option"
  oq_include_usage :: "bool option"   \<comment> \<open>\<open>stream_options?.include_usage\<close>\<close>
  oq_response_format :: "json option"
  oq_reasoning_effort :: "json option"

record 'a oai_response_message =
  orm_content :: "string option"   \<comment> \<open>\<open>null\<close> and absent alike\<close>
  orm_tool_calls :: "'a oai_tool_call list option"

record 'a oai_choice =
  och_message :: "'a oai_response_message"
  och_finish_reason :: "string option"

record 'a oai_response =
  op_id :: string
  op_created :: int
  op_model :: string
  op_choices :: "'a oai_choice list"
  op_usage :: "oai_usage option"

text \<open>The quirks that change a conversion beside the reading of tool arguments.\<close>

record adapter_quirks =
  usageOmitted :: bool
  maxTokensLegacy :: bool   \<comment> \<open>\<open>maxTokensSpelling: 'max_tokens'\<close>\<close>

section \<open>Blocks and parts\<close>

definition parseDataUrl :: "string \<Rightarrow> (string \<times> string) option" where
  "parseDataUrl url =
     (case strip_prefix ''data:'' url of
        None \<Rightarrow> None
      | Some r \<Rightarrow>
          (let plain = (\<lambda>c. c \<noteq> CHR '';'' \<and> c \<noteq> CHR '',''); mediaType = takeWhile plain r in
           if mediaType = [] then None
           else map_option (\<lambda>d. (mediaType, d)) (strip_prefix '';base64,'' (dropWhile plain r))))"

definition parseToolArguments :: "string \<Rightarrow> string \<Rightarrow> string \<Rightarrow> content_block" where
  "parseToolArguments name tid args =
     (case json_parse args of
        Some v \<Rightarrow> if isRecord v then ToolUse tid name v None else ToolUseRaw tid name args None
      | None \<Rightarrow> ToolUseRaw tid name args None)"

definition objectToolArguments :: "string \<Rightarrow> string \<Rightarrow> json \<Rightarrow> content_block" where
  "objectToolArguments name tid args = ToolUse tid name args None"

definition partToBlock :: "oai_part \<Rightarrow> content_block option" where
  "partToBlock part =
     (case part of
        OaiText t \<Rightarrow> Some (TextBlock t None)
      | OaiImage url detail \<Rightarrow>
          Some (case parseDataUrl url of
                  Some (mediaType, d) \<Rightarrow> ImageData d mediaType detail
                | None \<Rightarrow> ImageUrl url detail)
      | OaiOther \<Rightarrow> None)"

definition contentToBlocks :: "oai_content \<Rightarrow> content_block list" where
  "contentToBlocks content =
     (case content of
        OaiAbsent \<Rightarrow> []
      | OaiNull \<Rightarrow> []
      | OaiString s \<Rightarrow> if s = [] then [] else [TextBlock s None]
      | OaiParts parts \<Rightarrow> List.map_filter partToBlock parts)"

definition blockToPart :: "content_block \<Rightarrow> oai_part option" where
  "blockToPart b =
     (case b of
        TextBlock t _ \<Rightarrow> Some (OaiText t)
      | ImageUrl url detail \<Rightarrow> Some (OaiImage url detail)
      | ImageData d mediaType detail \<Rightarrow> Some (OaiImage (''data:'' @ mediaType @ '';base64,'' @ d) detail)
      | _ \<Rightarrow> None)"

definition visual :: "content_block \<Rightarrow> bool" where
  "visual b = (case b of TextBlock _ _ \<Rightarrow> True | ImageUrl _ _ \<Rightarrow> True | ImageData _ _ _ \<Rightarrow> True | _ \<Rightarrow> False)"

definition blocksToContent :: "content_block list \<Rightarrow> oai_content" where
  "blocksToContent blocks =
     (case filter visual blocks of
        [] \<Rightarrow> OaiNull
      | [TextBlock t _] \<Rightarrow> OaiString t
      | bs \<Rightarrow> OaiParts (List.map_filter blockToPart bs))"

definition toolResultText :: "content_block list \<Rightarrow> string" where
  "toolResultText blocks = concat (map text_of (filter is_text blocks))"

definition blocksToText :: "content_block list \<Rightarrow> string option" where
  "blocksToText blocks =
     (let texts = filter is_text blocks in if texts = [] then None else Some (concat (map text_of texts)))"

text \<open>The tool calls of an assistant turn; the text of parsed arguments is their JSON.\<close>

definition toolCall :: "content_block \<Rightarrow> string oai_tool_call option" where
  "toolCall b =
     (case b of
        ToolUse tid name input _ \<Rightarrow> Some \<lparr>tc_id = tid, tc_name = name, tc_arguments = json_text input\<rparr>
      | ToolUseRaw tid name raw _ \<Rightarrow> Some \<lparr>tc_id = tid, tc_name = name, tc_arguments = raw\<rparr>
      | _ \<Rightarrow> None)"

definition some_calls :: "'a list \<Rightarrow> 'a list option" where
  "some_calls calls = (if calls = [] then None else Some calls)"

section \<open>Requests\<close>

definition oai_toolChoiceIn :: "oai_tool_choice option \<Rightarrow> tool_choice option" where
  "oai_toolChoiceIn = map_option (\<lambda>c. case c of
     OcNone \<Rightarrow> ChoiceNone | OcAuto \<Rightarrow> ChoiceAuto | OcRequired \<Rightarrow> ChoiceRequired | OcFunction n \<Rightarrow> ChoiceTool n)"

definition oai_toolChoiceOut :: "tool_choice option \<Rightarrow> oai_tool_choice option" where
  "oai_toolChoiceOut = map_option (\<lambda>c. case c of
     ChoiceNone \<Rightarrow> OcNone | ChoiceAuto \<Rightarrow> OcAuto | ChoiceRequired \<Rightarrow> OcRequired | ChoiceTool n \<Rightarrow> OcFunction n)"

definition calls_in :: "(string \<Rightarrow> string \<Rightarrow> 'a \<Rightarrow> content_block) \<Rightarrow> 'a oai_tool_call list option \<Rightarrow> content_block list" where
  "calls_in readArgs calls =
     map (\<lambda>tc. readArgs (tc_name tc) (tc_id tc) (tc_arguments tc)) (or_else calls [])"

definition is_system :: "'a oai_message \<Rightarrow> bool" where
  "is_system m = (om_role m = OaiSystem \<or> om_role m = OaiDeveloper)"

definition oai_message_in ::
  "(string \<Rightarrow> string \<Rightarrow> 'a \<Rightarrow> content_block) \<Rightarrow> 'a oai_message \<Rightarrow> normalized_message" where
  "oai_message_in readArgs m =
     (case om_role m of
        OaiTool \<Rightarrow>
          \<lparr>msg_role = RTool, msg_content =
             [ToolResult (or_else (om_tool_call_id m) []) (contentToBlocks (om_content m)) None None]\<rparr>
      | OaiAssistant \<Rightarrow>
          \<lparr>msg_role = RAssistant, msg_content = contentToBlocks (om_content m) @ calls_in readArgs (om_tool_calls m)\<rparr>
      | _ \<Rightarrow> \<lparr>msg_role = RUser, msg_content = contentToBlocks (om_content m)\<rparr>)"

definition oai_requestIn ::
  "(string \<Rightarrow> string \<Rightarrow> 'a \<Rightarrow> content_block) \<Rightarrow> 'a oai_request \<Rightarrow> normalized_request" where
  "oai_requestIn readArgs wire =
     (let systemBlocks = concat (map (\<lambda>m. contentToBlocks (om_content m)) (filter is_system (oq_messages wire))) in
      \<lparr>rq_model = oq_model wire,
       rq_system = (if systemBlocks = [] then None else Some systemBlocks),
       rq_messages = map (oai_message_in readArgs) (filter (\<lambda>m. \<not> is_system m) (oq_messages wire)),
       rq_tools = map_option (map (\<lambda>t. \<lparr>tool_name = on_name t, tool_description = on_description t,
           tool_parameters = or_else (on_parameters t) (JObj []), tool_cacheControl = None\<rparr>)) (oq_tools wire),
       rq_toolChoice = oai_toolChoiceIn (oq_tool_choice wire),
       rq_allowParallelTools = oq_parallel_tool_calls wire,
       rq_params = \<lparr>maxOutputTokens = later (oq_max_tokens wire) (oq_max_completion_tokens wire),
                    temperature = oq_temperature wire, topP = oq_top_p wire,
                    stopSequences = map_option (\<lambda>s. case s of Inl one \<Rightarrow> [one] | Inr many \<Rightarrow> many) (oq_stop wire)\<rparr>,
       rq_responseFormat = oq_response_format wire,
       rq_reasoning = map_option OpenAIEffort (oq_reasoning_effort wire),
       rq_outputConfig = None,
       rq_stream = oq_stream wire,
       rq_includeUsage = (if oq_include_usage wire = Some True then Some True else None)\<rparr>)"

definition oai_message_out :: "normalized_message \<Rightarrow> string oai_message" where
  "oai_message_out m =
     (case msg_role m of
        RTool \<Rightarrow>
          (case find (\<lambda>b. case b of ToolResult _ _ _ _ \<Rightarrow> True | _ \<Rightarrow> False) (msg_content m) of
             Some (ToolResult i content _ _) \<Rightarrow>
               \<lparr>om_role = OaiTool, om_content = OaiString (toolResultText content), om_tool_calls = None,
                om_tool_call_id = Some i\<rparr>
           | _ \<Rightarrow> \<lparr>om_role = OaiTool, om_content = OaiString [], om_tool_calls = None, om_tool_call_id = Some []\<rparr>)
      | RAssistant \<Rightarrow>
          \<lparr>om_role = OaiAssistant, om_content = blocksToContent (msg_content m),
           om_tool_calls = some_calls (List.map_filter toolCall (msg_content m)), om_tool_call_id = None\<rparr>
      | RUser \<Rightarrow>
          \<lparr>om_role = OaiUser, om_content = blocksToContent (msg_content m), om_tool_calls = None,
           om_tool_call_id = None\<rparr>)"

definition oai_system_out :: "content_block list option \<Rightarrow> string oai_message list" where
  "oai_system_out system =
     (case system of
        None \<Rightarrow> []
      | Some bs \<Rightarrow>
          if bs = [] then []
          else [\<lparr>om_role = OaiSystem,
                 om_content = (case blocksToContent bs of OaiNull \<Rightarrow> OaiString [] | c \<Rightarrow> c),
                 om_tool_calls = None, om_tool_call_id = None\<rparr>])"

definition oai_requestOut :: "adapter_quirks \<Rightarrow> normalized_request \<Rightarrow> string oai_request" where
  "oai_requestOut quirks ir =
     (let maxOut = maxOutputTokens (rq_params ir) in
      \<lparr>oq_model = rq_model ir,
       oq_messages = oai_system_out (rq_system ir) @ map oai_message_out (rq_messages ir),
       oq_tools = map_option (map (\<lambda>t. \<lparr>on_name = tool_name t, on_description = tool_description t,
           on_parameters = Some (tool_parameters t)\<rparr>)) (rq_tools ir),
       oq_tool_choice = oai_toolChoiceOut (rq_toolChoice ir),
       oq_parallel_tool_calls = rq_allowParallelTools ir,
       oq_temperature = temperature (rq_params ir),
       oq_top_p = topP (rq_params ir),
       oq_max_tokens = (if maxTokensLegacy quirks then maxOut else None),
       oq_max_completion_tokens = (if maxTokensLegacy quirks then None else maxOut),
       oq_stop = map_option Inr (stopSequences (rq_params ir)),
       oq_stream = rq_stream ir,
       oq_include_usage = (if rq_stream ir = Some True then Some True else None),
       oq_response_format = rq_responseFormat ir,
       oq_reasoning_effort = (case rq_reasoning ir of Some (OpenAIEffort e) \<Rightarrow> Some e | _ \<Rightarrow> None)\<rparr>)"

section \<open>Responses\<close>

definition oai_responseIn ::
  "(string \<Rightarrow> string \<Rightarrow> 'a \<Rightarrow> content_block) \<Rightarrow> adapter_quirks \<Rightarrow> 'a oai_response \<Rightarrow> normalized_response" where
  "oai_responseIn readArgs quirks wire =
     (let choice = (case op_choices wire of [] \<Rightarrow> None | c # _ \<Rightarrow> Some c);
          finish = Option.bind choice och_finish_reason
      in \<lparr>rs_id = op_id wire, rs_model = op_model wire, rs_created = Some (op_created wire),
          rs_content =
            (case choice of
               None \<Rightarrow> []
             | Some c \<Rightarrow>
                 contentToBlocks (case orm_content (och_message c) of None \<Rightarrow> OaiNull | Some s \<Rightarrow> OaiString s)
                   @ calls_in readArgs (orm_tool_calls (och_message c))),
          rs_stopReason = stopReasonFromOpenai finish, rs_rawStopReason = finish, rs_stopSequence = None,
          rs_usage = (if usageOmitted quirks then None else usageFromOpenai (op_usage wire))\<rparr>)"

definition oai_responseOut :: "int option \<Rightarrow> normalized_response \<Rightarrow> string oai_response" where
  "oai_responseOut ctxCreated ir =
     \<lparr>op_id = rs_id ir, op_created = or_else (later ctxCreated (rs_created ir)) 0, op_model = rs_model ir,
      op_choices = [\<lparr>och_message = \<lparr>orm_content = blocksToText (rs_content ir),
                       orm_tool_calls = some_calls (List.map_filter toolCall (rs_content ir))\<rparr>,
                     och_finish_reason = stopReasonToOpenai (rs_stopReason ir) (rs_rawStopReason ir)\<rparr>],
      op_usage = map_option usageToOpenai (rs_usage ir)\<rparr>"

section \<open>Streams in\<close>

text \<open>An open block. The name and the id of a call are undefined, \<open>null\<close> or a string.\<close>

datatype oai_key = KText | KTool "json option"

record oai_open =
  ob_tool :: bool
  ob_id :: "string option option"
  ob_name :: "string option option"
  ob_json :: string
  ob_started :: bool

text \<open>The keys in the order their indices were handed out: the index of a key is its position.\<close>

record oai_parser =
  oa_keys :: "oai_key list"
  oa_open :: "nat \<rightharpoonup> oai_open"
  oa_started :: bool
  oa_sawFinish :: bool

definition oai_parser0 :: oai_parser where
  "oai_parser0 = \<lparr>oa_keys = [], oa_open = Map.empty, oa_started = False, oa_sawFinish = False\<rparr>"

fun position :: "oai_key \<Rightarrow> oai_key list \<Rightarrow> nat" where
  "position k [] = 0"
| "position k (k' # ks) = (if k = k' then 0 else Suc (position k ks))"

definition alloc :: "oai_key \<Rightarrow> oai_parser \<Rightarrow> nat \<times> oai_parser" where
  "alloc k st =
     (position k (oa_keys st), if k \<in> set (oa_keys st) then st else st\<lparr>oa_keys := oa_keys st @ [k]\<rparr>)"

text \<open>A string property that may be undefined, \<open>null\<close> or a string.\<close>

definition null_leaf :: "json option \<Rightarrow> string option option" where
  "null_leaf v = (case v of Some (JStr s) \<Rightarrow> Some (Some s) | Some JNull \<Rightarrow> Some None | _ \<Rightarrow> None)"

definition text_or :: "string option option \<Rightarrow> string" where
  "text_or x = (case x of Some (Some s) \<Rightarrow> s | _ \<Rightarrow> [])"

text \<open>The usage of a chunk as its interface declares it; a required count that is missing reads as 0.\<close>

definition oai_usage_leaf :: "json \<Rightarrow> oai_usage" where
  "oai_usage_leaf u =
     \<lparr>prompt_tokens = opt0 (int_leaf (obj_prop ''prompt_tokens'' u)),
      completion_tokens = opt0 (int_leaf (obj_prop ''completion_tokens'' u)),
      total_tokens = int_leaf (obj_prop ''total_tokens'' u),
      prompt_tokens_details = map_option (\<lambda>d. int_leaf (opt_prop ''cached_tokens'' (Some d)))
        (obj_prop ''prompt_tokens_details'' u)\<rparr>"

type_synonym oai_step = "stream_event list \<times> oai_parser option"

definition oai_on_error :: "json option \<Rightarrow> stream_event" where
  "oai_on_error err =
     (let m = str_leaf (opt_prop ''message'' err); t = str_leaf (opt_prop ''type'' err);
          c = str_leaf (opt_prop ''code'' err)
      in StreamError (or_else t ''server_error'') (or_else m ''upstream stream error'')
           (Some \<lparr>diag_wire = Some \<lparr>wire_message = m, wire_type = t, wire_code = c\<rparr>, diag_markers = None,
                  diag_kind = None, diag_providerMessage = None, diag_requestId = None\<rparr>))"

definition oai_on_text :: "json option \<Rightarrow> oai_parser \<Rightarrow> stream_event list \<times> oai_parser" where
  "oai_on_text content st =
     (case str_leaf content of
        Some (c # cs) \<Rightarrow>
          (let (idx, st1) = alloc KText st in
           ([TextDelta idx (c # cs)],
            if oa_open st1 idx = None
            then st1\<lparr>oa_open := (oa_open st1)(idx \<mapsto>
                   \<lparr>ob_tool = False, ob_id = None, ob_name = None, ob_json = [], ob_started = False\<rparr>)\<rparr>
            else st1))
      | _ \<Rightarrow> ([], st))"

text \<open>One fragment of a call. The length of a \<open>null\<close> fragment throws, after the start was sent.\<close>

definition oai_on_call :: "json \<Rightarrow> oai_parser \<Rightarrow> oai_step" where
  "oai_on_call tc st =
     (if tc = JNull then ([], None)
      else
        let (idx, st1) = alloc (KTool (obj_prop ''index'' tc)) st;
            fn = obj_prop ''function'' tc;
            b0 = or_else (oa_open st1 idx)
                   \<lparr>ob_tool = True, ob_id = None, ob_name = None, ob_json = [], ob_started = False\<rparr>;
            b1 = (case null_leaf (obj_prop ''id'' tc) of Some v \<Rightarrow> b0\<lparr>ob_id := Some v\<rparr> | None \<Rightarrow> b0);
            b2 = (case null_leaf (opt_prop ''name'' fn) of Some v \<Rightarrow> b1\<lparr>ob_name := Some v\<rparr> | None \<Rightarrow> b1);
            opens = (\<not> ob_started b2 \<and> (ob_id b2 \<noteq> None \<or> ob_name b2 \<noteq> None));
            b3 = (if opens then b2\<lparr>ob_started := True\<rparr> else b2);
            start = (if opens then [ToolUseStart idx (text_or (ob_id b2)) (text_or (ob_name b2))] else []);
            put = (\<lambda>b. st1\<lparr>oa_open := (oa_open st1)(idx \<mapsto> b)\<rparr>)
        in case null_leaf (opt_prop ''arguments'' fn) of
             Some None \<Rightarrow> (start, None)
           | Some (Some (c # cs)) \<Rightarrow>
               (start @ [ToolUseDelta idx (c # cs)], Some (put (b3\<lparr>ob_json := ob_json b3 @ c # cs\<rparr>)))
           | _ \<Rightarrow> (start, Some (put b3)))"

primrec oai_on_calls :: "json list \<Rightarrow> oai_parser \<Rightarrow> oai_step" where
  "oai_on_calls [] st = ([], Some st)"
| "oai_on_calls (tc # tcs) st =
     (case oai_on_call tc st of
        (evs, None) \<Rightarrow> (evs, None)
      | (evs, Some st') \<Rightarrow> (case oai_on_calls tcs st' of (evs2, r) \<Rightarrow> (evs @ evs2, r)))"

text \<open>What \<open>for (const tc of delta.tool_calls ?? [])\<close> runs over; \<open>None\<close> where it is not iterable.\<close>

definition iterated :: "json option \<Rightarrow> json list option" where
  "iterated v =
     (case v of
        None \<Rightarrow> Some []
      | Some JNull \<Rightarrow> Some []
      | Some (JArr vs) \<Rightarrow> Some vs
      | Some (JStr s) \<Rightarrow> Some (map (\<lambda>c. JStr [c]) s)
      | _ \<Rightarrow> None)"

definition stop_open :: "oai_parser \<Rightarrow> nat \<Rightarrow> stream_event list" where
  "stop_open st idx =
     (case oa_open st idx of
        None \<Rightarrow> []
      | Some b \<Rightarrow>
          [BlockStop idx (if ob_tool b then Some (parseToolArguments (text_or (ob_name b)) (text_or (ob_id b)) (ob_json b))
                          else None)])"

definition oai_on_finish :: "json option \<Rightarrow> oai_parser \<Rightarrow> stream_event list \<times> oai_parser" where
  "oai_on_finish finish st =
     (case str_leaf finish of
        None \<Rightarrow> ([], st)
      | Some r \<Rightarrow>
          (concat (map (stop_open st) [0..<length (oa_keys st)])
             @ [MessageDelta (Some (stopReasonFromOpenai (Some r))) (Some r) None None],
           st\<lparr>oa_open := Map.empty, oa_sawFinish := True\<rparr>))"

definition oai_on_choice :: "json \<Rightarrow> oai_parser \<Rightarrow> oai_step" where
  "oai_on_choice choice st =
     (let delta = opt_prop ''delta'' (Some choice) in
      case js_prop ''content'' delta of
        None \<Rightarrow> ([], None)
      | Some content \<Rightarrow>
          (let (evs1, st1) = oai_on_text content st in
           case iterated (opt_prop ''tool_calls'' delta) of
             None \<Rightarrow> (evs1, None)
           | Some tcs \<Rightarrow>
               (case oai_on_calls tcs st1 of
                  (evs2, None) \<Rightarrow> (evs1 @ evs2, None)
                | (evs2, Some st2) \<Rightarrow>
                    (let (evs3, st3) = oai_on_finish (opt_prop ''finish_reason'' (Some choice)) st2 in
                     (evs1 @ evs2 @ evs3, Some st3)))))"

definition oai_on_chunk :: "json \<Rightarrow> json list \<Rightarrow> oai_parser \<Rightarrow> oai_step" where
  "oai_on_chunk chunk choices st =
     (let start = (if oa_started st then []
                   else [MessageStart (or_else (str_leaf (obj_prop ''id'' chunk)) [])
                           (or_else (str_leaf (obj_prop ''model'' chunk)) []) None]);
          st1 = st\<lparr>oa_started := True\<rparr>
      in case choices of
           [] \<Rightarrow>
             (start @ (case obj_prop ''usage'' chunk of
                         None \<Rightarrow> []
                       | Some JNull \<Rightarrow> []
                       | Some u \<Rightarrow> [MessageDelta None None None (Some (partialUsageFromOpenai (oai_usage_leaf u)))]),
              Some st1)
         | choice # _ \<Rightarrow> (case oai_on_choice choice st1 of (evs, r) \<Rightarrow> (start @ evs, r)))"

definition oai_on_json :: "json \<Rightarrow> oai_parser \<Rightarrow> oai_step" where
  "oai_on_json v st =
     (case obj_prop ''error'' v of
        Some err \<Rightarrow>
          if err \<noteq> JNull \<and> obj_prop ''choices'' v = None then ([oai_on_error (Some err)], Some st)
          else (case obj_prop ''choices'' v of Some (JArr cs) \<Rightarrow> oai_on_chunk v cs st | _ \<Rightarrow> ([], Some st))
      | None \<Rightarrow>
          if v = JNull then ([], None)
          else (case obj_prop ''choices'' v of Some (JArr cs) \<Rightarrow> oai_on_chunk v cs st | _ \<Rightarrow> ([], Some st)))"

definition oai_close :: "oai_parser \<Rightarrow> stream_event list \<times> bool" where
  "oai_close st =
     ([if oa_sawFinish st then MessageStop
       else StreamError ''truncated'' ''upstream stream ended without a terminator'' None], False)"

primrec oai_parse_frames :: "sse_frame list \<Rightarrow> oai_parser \<Rightarrow> stream_event list \<times> bool" where
  "oai_parse_frames [] st = oai_close st"
| "oai_parse_frames (fr # frs) st =
     (if fr_data fr = ''[DONE]'' then oai_close st
      else case json_parse (fr_data fr) of
        None \<Rightarrow> oai_parse_frames frs st
      | Some v \<Rightarrow>
          (case oai_on_json v st of
             (evs, None) \<Rightarrow> (evs, True)
           | (evs, Some st') \<Rightarrow> (case oai_parse_frames frs st' of (evs2, threw) \<Rightarrow> (evs @ evs2, threw))))"

definition oai_streamParse :: "string list \<Rightarrow> stream_event list \<times> bool" where
  "oai_streamParse chunks = oai_parse_frames (sseFrames chunks) oai_parser0"

section \<open>Streams out\<close>

record oai_writer =
  ow_id :: string
  ow_model :: string
  ow_toolIndex :: "nat \<rightharpoonup> nat"
  ow_nextTool :: nat
  ow_pendingUsage :: "partial_usage option"

definition oai_writer0 :: oai_writer where
  "oai_writer0 = \<lparr>ow_id = ''chatcmpl-stream'', ow_model = [], ow_toolIndex = Map.empty, ow_nextTool = 0,
                  ow_pendingUsage = None\<rparr>"

definition oai_chunk_json :: "int \<Rightarrow> oai_writer \<Rightarrow> json list \<Rightarrow> (string \<times> json) list \<Rightarrow> json" where
  "oai_chunk_json created w choices more_fields =
     JObj ([(''id'', JStr (ow_id w)), (''object'', JStr ''chat.completion.chunk''), (''created'', jint created),
            (''model'', JStr (ow_model w)), (''choices'', JArr choices)] @ more_fields)"

definition oai_choice_json :: "(string \<times> json) list \<Rightarrow> json \<Rightarrow> json" where
  "oai_choice_json delta finish = JObj [(''index'', JNum 0), (''delta'', JObj delta), (''finish_reason'', finish)]"

definition usagePartialToWire :: "partial_usage \<Rightarrow> oai_usage option" where
  "usagePartialToWire p = map_option usageToOpenai (partialToNormalized p)"

definition oai_usage_json :: "oai_usage \<Rightarrow> json" where
  "oai_usage_json u =
     JObj ([(''prompt_tokens'', jint (prompt_tokens u)), (''completion_tokens'', jint (completion_tokens u))]
        @ jopt ''total_tokens'' jint (total_tokens u)
        @ jopt ''prompt_tokens_details'' (\<lambda>c. JObj (jopt ''cached_tokens'' jint c)) (prompt_tokens_details u))"

text \<open>What one event writes: chunks, and after a stop \<open>None\<close>, the \<open>[DONE]\<close> frame.\<close>

definition add_usage :: "partial_usage option \<Rightarrow> oai_writer \<Rightarrow> oai_writer" where
  "add_usage u w =
     (if u = None then w else w\<lparr>ow_pendingUsage := Some (mergePartialUsage [ow_pendingUsage w, u])\<rparr>)"

definition oai_write :: "int \<Rightarrow> bool \<Rightarrow> stream_event \<Rightarrow> oai_writer \<Rightarrow> json option list \<times> oai_writer" where
  "oai_write created includeUsage ev w =
     (let chunk = (\<lambda>w delta finish. [Some (oai_chunk_json created w [oai_choice_json delta finish] [])]) in
      case ev of
        MessageStart i m u \<Rightarrow>
          (let w1 = add_usage u (w\<lparr>ow_id := i, ow_model := m\<rparr>) in
           (chunk w1 [(''role'', JStr ''assistant'')] JNull, w1))
      | TextDelta i t \<Rightarrow> (chunk w [(''content'', JStr t)] JNull, w)
      | ToolUseStart i tid name \<Rightarrow>
          (let ti = ow_nextTool w; w1 = w\<lparr>ow_nextTool := Suc ti, ow_toolIndex := (ow_toolIndex w)(i \<mapsto> ti)\<rparr> in
           (chunk w1 [(''tool_calls'', JArr [JObj [(''index'', jnat ti), (''id'', JStr tid), (''type'', JStr ''function''),
                (''function'', JObj [(''name'', JStr name), (''arguments'', JStr [])])]])] JNull, w1))
      | ToolUseDelta i part \<Rightarrow>
          (chunk w [(''tool_calls'', JArr [JObj [(''index'', jnat (or_else (ow_toolIndex w i) 0)),
                (''function'', JObj [(''arguments'', JStr part)])]])] JNull, w)
      | BlockStop i f \<Rightarrow> ([], w)
      | MessageDelta sr raw sq u \<Rightarrow>
          (let w1 = add_usage u w in
           ((case sr of
               Some r \<Rightarrow> chunk w1 [] (jnull (stopReasonToOpenai r raw))
             | None \<Rightarrow> []), w1))
      | MessageStop \<Rightarrow>
          ((case ow_pendingUsage w of
              Some p \<Rightarrow>
                (case usagePartialToWire p of
                   Some u \<Rightarrow> if includeUsage then [Some (oai_chunk_json created w [] [(''usage'', oai_usage_json u)])] else []
                 | None \<Rightarrow> [])
            | None \<Rightarrow> []) @ [None], w)
      | StreamError ty m d \<Rightarrow> ([], w))"

primrec oai_write_all :: "int \<Rightarrow> bool \<Rightarrow> stream_event list \<Rightarrow> oai_writer \<Rightarrow> json option list" where
  "oai_write_all created includeUsage [] w = []"
| "oai_write_all created includeUsage (ev # evs) w =
     (case oai_write created includeUsage ev w of (fs, w') \<Rightarrow> fs @ oai_write_all created includeUsage evs w')"

definition oai_frame_text :: "json option \<Rightarrow> string" where
  "oai_frame_text f = (case f of Some j \<Rightarrow> formatSseData j | None \<Rightarrow> ''data: [DONE]'' @ NL @ NL)"

definition oai_streamSerialize :: "int option \<Rightarrow> bool \<Rightarrow> stream_event list \<Rightarrow> string list" where
  "oai_streamSerialize ctxCreated includeUsage evs =
     map oai_frame_text (oai_write_all (or_else ctxCreated 0) includeUsage evs oai_writer0)"

end
