(* ===== verification/OpenaiFacts.thy ===== *)
theory OpenaiFacts
  imports Openai
begin

text \<open>
  The OpenAI adapter's round trips. What a response keeps on the Chat Completions wire (its text
  in one piece, its calls in order), and what a request keeps under either spelling of the token cap:
  \<open>oai_carried\<close> lists all that changes.
\<close>

section \<open>Calls and parts\<close>

definition is_call :: "content_block \<Rightarrow> bool" where
  "is_call b = (case b of ToolUse _ _ _ _ \<Rightarrow> True | ToolUseRaw _ _ _ _ \<Rightarrow> True | _ \<Rightarrow> False)"

text \<open>A call whose arguments are a printable object, or a text that is none.\<close>

definition call_ok :: "content_block \<Rightarrow> bool" where
  "call_ok b =
     (case b of
        ToolUse _ _ input cc \<Rightarrow> isRecord input \<and> json_ok input \<and> cc = None
      | ToolUseRaw _ _ raw cc \<Rightarrow> (case json_parse raw of Some v \<Rightarrow> \<not> isRecord v | None \<Rightarrow> True) \<and> cc = None
      | _ \<Rightarrow> False)"

lemma call_ok_call: "call_ok b \<Longrightarrow> is_call b"
  by (cases b) (simp_all add: call_ok_def is_call_def)

lemma call_roundtrip:
  assumes "call_ok b"
  shows "\<exists>tc. toolCall b = Some tc \<and> parseToolArguments (tc_name tc) (tc_id tc) (tc_arguments tc) = b"
  using assms
  by (cases b) (auto simp: call_ok_def toolCall_def parseToolArguments_def simp del: json_text.simps split: option.splits)

lemma no_call: "\<not> is_call b \<Longrightarrow> toolCall b = None"
  by (cases b) (simp_all add: is_call_def toolCall_def)

lemma calls_roundtrip:
  assumes "list_all (\<lambda>b. is_call b \<longrightarrow> call_ok b) bs"
  shows "calls_in parseToolArguments (some_calls (List.map_filter toolCall bs)) = filter is_call bs"
proof -
  have "map (\<lambda>tc. parseToolArguments (tc_name tc) (tc_id tc) (tc_arguments tc)) (List.map_filter toolCall bs) =
      filter is_call bs"
    using assms
  proof (induction bs)
    case (Cons b bs)
    then show ?case
      using call_roundtrip [of b] no_call [of b] by (cases "is_call b") (auto simp: List.map_filter_simps)
  qed (simp add: List.map_filter_simps)
  then show ?thesis by (auto simp: calls_in_def some_calls_def or_else_def)
qed

definition fused_text :: "content_block list \<Rightarrow> content_block list" where
  "fused_text bs = (let t = concat (map text_of bs) in if t = [] then [] else [TextBlock t None])"

lemma text_of_filter: "concat (map text_of (filter is_text bs)) = concat (map text_of bs)"
  by (induction bs) (auto simp: is_text_def text_of_def split: content_block.splits)

lemma fused_text_roundtrip:
  "contentToBlocks (case blocksToText bs of None \<Rightarrow> OaiNull | Some s \<Rightarrow> OaiString s) = fused_text bs"
proof (cases "filter is_text bs = []")
  case True
  then have "concat (map text_of bs) = []" using text_of_filter [of bs] by simp
  with True show ?thesis by (simp add: blocksToText_def contentToBlocks_def fused_text_def)
next
  case False
  then show ?thesis by (simp add: blocksToText_def contentToBlocks_def fused_text_def text_of_filter Let_def)
qed

text \<open>A response written to the Chat Completions wire and read back keeps its identity,
  the whole text in one block in front, every call in order with its arguments (parsed or raw),
  the stop reason it has on that wire, and the usage, of which a cache write is folded into the
  input; a block the wire has no place for is the only content lost.\<close>

theorem oai_response_survives:
  assumes "list_all (\<lambda>b. is_call b \<longrightarrow> call_ok b) (rs_content r)"
  shows "oai_responseIn parseToolArguments \<lparr>usageOmitted = False, maxTokensLegacy = legacy\<rparr> (oai_responseOut created r) =
    r\<lparr>rs_created := Some (or_else (later created (rs_created r)) 0),
      rs_content := fused_text (rs_content r) @ filter is_call (rs_content r),
      rs_stopReason := stopReasonFromOpenai (stopReasonToOpenai (rs_stopReason r) (rs_rawStopReason r)),
      rs_rawStopReason := stopReasonToOpenai (rs_stopReason r) (rs_rawStopReason r),
      rs_stopSequence := None,
      rs_usage := map_option (\<lambda>u. u\<lparr>inputTokens := inputTokens u + opt0 (cacheWriteTokens u), cacheWriteTokens := None\<rparr>)
        (rs_usage r)\<rparr>"
  using calls_roundtrip [OF assms] fused_text_roundtrip [of "rs_content r"]
  by (cases r; cases "rs_usage r")
    (simp_all add: oai_responseIn_def oai_responseOut_def usageFromOpenai_def usageToOpenai_def Let_def
      opt0_def split: option.splits)

section \<open>Requests\<close>

text \<open>The visual blocks the wire carries: no cache marker, a data URL that is one exactly when it should be.\<close>

definition part_ok :: "content_block \<Rightarrow> bool" where
  "part_ok b =
     (case b of
        TextBlock t cc \<Rightarrow> cc = None
      | ImageUrl url _ \<Rightarrow> parseDataUrl url = None
      | ImageData _ mediaType _ \<Rightarrow> mediaType \<noteq> [] \<and> list_all (\<lambda>c. c \<noteq> CHR '';'' \<and> c \<noteq> CHR '','') mediaType
      | _ \<Rightarrow> False)"

definition parts_ok :: "content_block list \<Rightarrow> bool" where
  "parts_ok bs = (list_all part_ok bs \<and> bs \<noteq> [TextBlock [] None])"

lemma part_visual: "part_ok b \<Longrightarrow> visual b" "part_ok b \<Longrightarrow> \<not> is_call b" "is_call b \<Longrightarrow> \<not> visual b"
  by (cases b; simp add: part_ok_def visual_def is_call_def)+

lemma data_url_roundtrip:
  assumes "mt \<noteq> []" "list_all (\<lambda>c. c \<noteq> CHR '';'' \<and> c \<noteq> CHR '','') mt"
  shows "parseDataUrl (''data:'' @ mt @ '';base64,'' @ d) = Some (mt, d)"
proof -
  have "takeWhile (\<lambda>c. c \<noteq> CHR '';'' \<and> c \<noteq> CHR '','') (mt @ '';base64,'' @ d) = mt"
    "dropWhile (\<lambda>c. c \<noteq> CHR '';'' \<and> c \<noteq> CHR '','') (mt @ '';base64,'' @ d) = '';base64,'' @ d"
    using assms(2) by (auto simp: list_all_iff takeWhile_append2 dropWhile_append2)
  with assms(1) show ?thesis by (simp add: parseDataUrl_def strip_prefix_def starts_with_def Let_def)
qed

lemma part_roundtrip: "part_ok b \<Longrightarrow> \<exists>p. blockToPart b = Some p \<and> partToBlock p = Some b"
  using data_url_roundtrip by (cases b) (auto simp: part_ok_def blockToPart_def partToBlock_def)

lemma map_filter_roundtrip:
  "(\<And>b. b \<in> set bs \<Longrightarrow> \<exists>p. f b = Some p \<and> g p = Some b) \<Longrightarrow>
   List.map_filter g (List.map_filter f bs) = bs"
proof (induction bs)
  case (Cons b bs)
  then obtain p where "f b = Some p" "g p = Some b" by fastforce
  with Cons show ?case by (simp add: List.map_filter_simps)
qed (simp add: List.map_filter_simps)

lemma content_roundtrip:
  assumes "parts_ok bs" "list_all (\<lambda>b. \<not> visual b) rest"
  shows "contentToBlocks (blocksToContent (bs @ rest)) = bs"
proof -
  have vis: "filter visual (bs @ rest) = bs"
    using assms by (auto simp: parts_ok_def list_all_iff filter_empty_conv part_visual intro!: filter_True)
  have parts: "List.map_filter partToBlock (List.map_filter blockToPart bs) = bs"
    using assms(1) by (intro map_filter_roundtrip part_roundtrip) (simp add: parts_ok_def list_all_iff)
  show ?thesis
  proof (cases "\<exists>t cc. bs = [TextBlock t cc]")
    case True
    then obtain t cc where "bs = [TextBlock t cc]" by blast
    with assms(1) vis show ?thesis by (auto simp: blocksToContent_def contentToBlocks_def parts_ok_def part_ok_def)
  next
    case False
    then have "blocksToContent (bs @ rest) = (if bs = [] then OaiNull else OaiParts (List.map_filter blockToPart bs))"
      unfolding blocksToContent_def vis by (auto split: list.splits content_block.splits)
    with parts show ?thesis by (simp add: contentToBlocks_def)
  qed
qed

text \<open>A message the wire carries: visual parts (an assistant's calls behind them), or one plain result.\<close>

definition result_ok :: "content_block list \<Rightarrow> bool" where
  "result_ok bs = (case bs of [] \<Rightarrow> True | [TextBlock t cc] \<Rightarrow> t \<noteq> [] \<and> cc = None | _ \<Rightarrow> False)"

definition oai_message_ok :: "normalized_message \<Rightarrow> bool" where
  "oai_message_ok m =
     (case msg_role m of
        RTool \<Rightarrow>
          (case msg_content m of
             [ToolResult _ bs isErr cc] \<Rightarrow> isErr = None \<and> cc = None \<and> result_ok bs
           | _ \<Rightarrow> False)
      | RUser \<Rightarrow> parts_ok (msg_content m)
      | RAssistant \<Rightarrow>
          parts_ok (takeWhile (\<lambda>b. \<not> is_call b) (msg_content m))
            \<and> list_all call_ok (dropWhile (\<lambda>b. \<not> is_call b) (msg_content m)))"

lemma message_roundtrip:
  assumes "oai_message_ok m"
  shows "oai_message_in parseToolArguments (oai_message_out m) = m" "\<not> is_system (oai_message_out m)"
proof -
  obtain r c where m: "m = \<lparr>msg_role = r, msg_content = c\<rparr>" by (cases m) auto
  show "oai_message_in parseToolArguments (oai_message_out m) = m"
  proof (cases r)
    case RUser
    with assms m content_roundtrip [of c "[]"] show ?thesis
      by (simp add: oai_message_ok_def oai_message_in_def oai_message_out_def)
  next
    case RAssistant
    let ?vs = "takeWhile (\<lambda>b. \<not> is_call b) c" and ?cs = "dropWhile (\<lambda>b. \<not> is_call b) c"
    from assms m RAssistant have ok: "parts_ok ?vs" "list_all call_ok ?cs" by (simp_all add: oai_message_ok_def)
    have calls: "filter is_call c = ?cs"
    proof -
      have "filter is_call (?vs @ ?cs) = filter is_call ?vs @ filter is_call ?cs" by (rule filter_append)
      moreover have "filter is_call ?vs = []" by (auto simp: filter_empty_conv dest: set_takeWhileD)
      moreover have "filter is_call ?cs = ?cs"
        using ok(2) unfolding list_all_iff by (intro filter_True) (blast intro: call_ok_call)
      ultimately show ?thesis by simp
    qed
    have nonvis: "list_all (\<lambda>b. \<not> visual b) ?cs"
      using ok(2) unfolding list_all_iff by (blast dest: call_ok_call part_visual(3))
    have "list_all (\<lambda>b. is_call b \<longrightarrow> call_ok b) c"
      unfolding list_all_iff
    proof (intro ballI impI)
      fix b assume "b \<in> set c" "is_call b"
      then have "b \<in> set (filter is_call c)" by simp
      with ok(2) show "call_ok b" unfolding calls by (simp add: list_all_iff)
    qed
    from calls_roundtrip [OF this] content_roundtrip [OF ok(1) nonvis] show ?thesis
      by (simp add: m RAssistant oai_message_in_def oai_message_out_def calls)
  next
    case RTool
    obtain i bs where c: "c = [ToolResult i bs None None]" and ok: "result_ok bs"
    proof (cases c)
      case Nil
      with assms m RTool show ?thesis by (simp add: oai_message_ok_def)
    next
      case (Cons b tl)
      with assms m RTool that show ?thesis by (cases tl; cases b) (simp_all add: oai_message_ok_def)
    qed
    have "contentToBlocks (OaiString (toolResultText bs)) = bs"
    proof (cases bs)
      case (Cons b tl)
      with ok show ?thesis
        by (cases tl; cases b) (simp_all add: result_ok_def toolResultText_def contentToBlocks_def is_text_def)
    qed (simp add: toolResultText_def contentToBlocks_def)
    then show ?thesis by (simp add: m RTool c oai_message_in_def oai_message_out_def or_else_def)
  qed
  show "\<not> is_system (oai_message_out m)"
    by (auto simp: is_system_def oai_message_out_def split: role.splits option.splits content_block.splits)
qed

text \<open>The requests the wire carries as they are. A streaming one has to ask for its usage and another must
  not: the writer sets that field whatever the request said.\<close>

definition oai_request_ok :: "normalized_request \<Rightarrow> bool" where
  "oai_request_ok ir =
     (list_all oai_message_ok (rq_messages ir)
      \<and> (case rq_system ir of None \<Rightarrow> True | Some bs \<Rightarrow> bs \<noteq> [] \<and> parts_ok bs)
      \<and> (case rq_tools ir of None \<Rightarrow> True | Some ts \<Rightarrow> list_all (\<lambda>t. tool_cacheControl t = None) ts)
      \<and> (case rq_reasoning ir of None \<Rightarrow> True | Some (OpenAIEffort _) \<Rightarrow> True | _ \<Rightarrow> False)
      \<and> rq_outputConfig ir = None
      \<and> rq_includeUsage ir = (if rq_stream ir = Some True then Some True else None))"

lemma system_out_in:
  assumes "case sys of None \<Rightarrow> True | Some bs \<Rightarrow> bs \<noteq> [] \<and> parts_ok bs"
  shows "(let bs = concat (map (\<lambda>m. contentToBlocks (om_content m)) (filter is_system (oai_system_out sys)))
          in if bs = [] then None else Some bs) = sys"
    "filter (\<lambda>m. \<not> is_system m) (oai_system_out sys) = []"
proof -
  show "(let bs = concat (map (\<lambda>m. contentToBlocks (om_content m)) (filter is_system (oai_system_out sys)))
          in if bs = [] then None else Some bs) = sys"
  proof (cases sys)
    case None
    then show ?thesis by (simp add: oai_system_out_def)
  next
    case (Some bs)
    with assms have bs: "bs \<noteq> []" "contentToBlocks (blocksToContent bs) = bs"
      using content_roundtrip [of bs "[]"] by auto
    then have "blocksToContent bs \<noteq> OaiNull" by (auto simp: contentToBlocks_def)
    with Some bs show ?thesis
      by (cases "blocksToContent bs") (simp_all add: oai_system_out_def is_system_def Let_def)
  qed
  show "filter (\<lambda>m. \<not> is_system m) (oai_system_out sys) = []"
    by (cases sys) (simp_all add: oai_system_out_def is_system_def)
qed

lemma messages_out_in:
  assumes "list_all oai_message_ok ms"
  shows "map (oai_message_in parseToolArguments) (filter (\<lambda>m. \<not> is_system m) (map oai_message_out ms)) = ms"
    "filter is_system (map oai_message_out ms) = []"
  using assms by (induction ms) (simp_all add: message_roundtrip)

lemma tools_out_in:
  assumes "case ts of None \<Rightarrow> True | Some ts \<Rightarrow> list_all (\<lambda>t. tool_cacheControl t = None) ts"
  shows "map_option (map (\<lambda>t. \<lparr>tool_name = on_name t, tool_description = on_description t,
      tool_parameters = or_else (on_parameters t) (JObj []), tool_cacheControl = None\<rparr>))
      (map_option (map (\<lambda>t. \<lparr>on_name = tool_name t, on_description = tool_description t,
        on_parameters = Some (tool_parameters t)\<rparr>)) ts) = ts"
proof (cases ts)
  case (Some l)
  have "\<lparr>tool_name = tool_name t, tool_description = tool_description t, tool_parameters = tool_parameters t,
      tool_cacheControl = None\<rparr> = t" if "t \<in> set l" for t
    using assms Some that by (cases t) (auto simp: list_all_iff)
  with Some show ?thesis by (simp add: or_else_def map_idI)
qed simp

text \<open>The requests that come back as they were.\<close>

lemma oai_request_same:
  assumes "oai_request_ok ir"
  shows "oai_requestIn parseToolArguments (oai_requestOut quirks ir) = ir"
proof -
  have sys: "(let bs = concat (map (\<lambda>m. contentToBlocks (om_content m))
        (filter is_system (oai_system_out (rq_system ir)) @ filter is_system (map oai_message_out (rq_messages ir))))
      in if bs = [] then None else Some bs) = rq_system ir"
    using assms system_out_in(1) [of "rq_system ir"] messages_out_in(2) [of "rq_messages ir"]
    by (simp add: oai_request_ok_def)
  have msgs: "map (oai_message_in parseToolArguments) (filter (\<lambda>m. \<not> is_system m)
      (oai_system_out (rq_system ir) @ map oai_message_out (rq_messages ir))) = rq_messages ir"
    using assms system_out_in(2) [of "rq_system ir"] messages_out_in(1) [of "rq_messages ir"]
    by (simp add: oai_request_ok_def)
  have choice: "oai_toolChoiceIn (oai_toolChoiceOut tc) = tc" for tc
    by (cases tc) (auto simp: oai_toolChoiceIn_def oai_toolChoiceOut_def split: tool_choice.splits)
  have cap: "later (if maxTokensLegacy quirks then m else None) (if maxTokensLegacy quirks then None else m) = m" for m
    by (cases m) (simp_all add: later_def)
  have stops: "map_option (\<lambda>s. case s of Inl one \<Rightarrow> [one] | Inr many \<Rightarrow> many) (map_option Inr ss) = ss" for ss :: "string list option"
    by (cases ss) simp_all
  have reason: "map_option OpenAIEffort (case rq_reasoning ir of Some (OpenAIEffort e) \<Rightarrow> Some e | _ \<Rightarrow> None) = rq_reasoning ir"
    using assms by (cases "rq_reasoning ir") (simp_all add: oai_request_ok_def split: reasoning_control.splits)
  have usage: "rq_includeUsage ir = (if rq_stream ir = Some True then Some True else None)" "rq_outputConfig ir = None"
    using assms by (simp_all add: oai_request_ok_def)
  have tools: "map_option (map (\<lambda>t. \<lparr>tool_name = on_name t, tool_description = on_description t,
      tool_parameters = or_else (on_parameters t) (JObj []), tool_cacheControl = None\<rparr>))
      (map_option (map (\<lambda>t. \<lparr>on_name = tool_name t, on_description = tool_description t,
        on_parameters = Some (tool_parameters t)\<rparr>)) (rq_tools ir)) = rq_tools ir"
    using assms by (intro tools_out_in) (simp add: oai_request_ok_def)
  have "oai_requestIn parseToolArguments (oai_requestOut quirks ir) =
      ir\<lparr>rq_includeUsage := (if rq_stream ir = Some True then Some True else None), rq_outputConfig := None\<rparr>"
    unfolding oai_requestIn_def oai_requestOut_def Let_def oai_request.simps filter_append msgs [unfolded filter_append]
      sys [unfolded Let_def] choice cap stops reason tools
    by (cases ir; cases "rq_params ir") simp
  also have "\<dots> = ir" by (cases ir) (use usage in simp)
  finally show ?thesis .
qed

text \<open>What becomes of a request on the wire: parts lose their cache markers, a data URL is read as data, a
  single empty text is no content; an assistant's calls come behind its text; a tool result keeps
  its text, fused into one block, and nothing else; the controls of the other protocol are dropped; and
  a streaming request always asks for its usage, one that does not stream never.\<close>

definition media_ok :: "content_block \<Rightarrow> bool" where
  "media_ok b =
     (case b of
        ImageData _ mt _ \<Rightarrow> mt \<noteq> [] \<and> list_all (\<lambda>c. c \<noteq> CHR '';'' \<and> c \<noteq> CHR '','') mt
      | _ \<Rightarrow> True)"

definition carried_part :: "content_block \<Rightarrow> content_block" where
  "carried_part b =
     (case b of
        TextBlock t _ \<Rightarrow> TextBlock t None
      | ImageUrl url d \<Rightarrow> (case parseDataUrl url of Some (mt, data) \<Rightarrow> ImageData data mt d | None \<Rightarrow> b)
      | _ \<Rightarrow> b)"

definition carried_parts :: "content_block list \<Rightarrow> content_block list" where
  "carried_parts bs =
     (case filter visual bs of
        [TextBlock t _] \<Rightarrow> if t = [] then [] else [TextBlock t None]
      | vs \<Rightarrow> map carried_part vs)"

definition carried_call :: "content_block \<Rightarrow> content_block" where
  "carried_call b =
     (case b of ToolUse i n input _ \<Rightarrow> ToolUse i n input None | ToolUseRaw i n raw _ \<Rightarrow> ToolUseRaw i n raw None | _ \<Rightarrow> b)"

definition oai_carried_message :: "normalized_message \<Rightarrow> normalized_message" where
  "oai_carried_message m =
     m\<lparr>msg_content :=
        (case msg_role m of
           RTool \<Rightarrow>
             (case msg_content m of
                [ToolResult i bs _ _] \<Rightarrow> [ToolResult i (fused_text bs) None None]
              | c \<Rightarrow> c)
         | RUser \<Rightarrow> carried_parts (msg_content m)
         | RAssistant \<Rightarrow> carried_parts (msg_content m) @ map carried_call (filter is_call (msg_content m)))\<rparr>"

definition oai_carried :: "normalized_request \<Rightarrow> normalized_request" where
  "oai_carried ir =
     ir\<lparr>rq_system := (case rq_system ir of None \<Rightarrow> None
          | Some bs \<Rightarrow> if carried_parts bs = [] then None else Some (carried_parts bs)),
        rq_messages := map oai_carried_message (rq_messages ir),
        rq_tools := map_option (map (\<lambda>t. t\<lparr>tool_cacheControl := None\<rparr>)) (rq_tools ir),
        rq_reasoning := (case rq_reasoning ir of Some (OpenAIEffort e) \<Rightarrow> Some (OpenAIEffort e) | _ \<Rightarrow> None),
        rq_outputConfig := None,
        rq_includeUsage := (if rq_stream ir = Some True then Some True else None)\<rparr>"

text \<open>A canonical message: one result in a tool message; media types that can stand in a data URL and
  arguments that are printable or raw elsewhere.\<close>

definition oai_message_shape :: "normalized_message \<Rightarrow> bool" where
  "oai_message_shape m =
     (case msg_role m of
        RTool \<Rightarrow> (case msg_content m of [ToolResult _ _ _ _] \<Rightarrow> True | _ \<Rightarrow> False)
      | _ \<Rightarrow> list_all (\<lambda>b. media_ok b \<and> (is_call b \<longrightarrow> call_ok (carried_call b))) (msg_content m))"

definition oai_request_shape :: "normalized_request \<Rightarrow> bool" where
  "oai_request_shape ir =
     (list_all oai_message_shape (rq_messages ir)
      \<and> (case rq_system ir of None \<Rightarrow> True | Some bs \<Rightarrow> list_all media_ok bs))"

lemma part_carried:
  "visual b \<Longrightarrow> media_ok b \<Longrightarrow> \<exists>p. blockToPart b = Some p \<and> partToBlock p = Some (carried_part b)"
  using data_url_roundtrip
  by (cases b) (auto simp: visual_def media_ok_def carried_part_def blockToPart_def partToBlock_def split: option.split)

lemma map_filter_carried:
  "(\<And>b. b \<in> set bs \<Longrightarrow> \<exists>p. f b = Some p \<and> g p = Some (h b)) \<Longrightarrow>
   List.map_filter g (List.map_filter f bs) = map h bs"
proof (induction bs)
  case (Cons b bs)
  then obtain p where "f b = Some p" "g p = Some (h b)" by fastforce
  with Cons show ?case by (simp add: List.map_filter_simps)
qed (simp add: List.map_filter_simps)

lemma parts_carried:
  assumes "list_all media_ok bs"
  shows "contentToBlocks (blocksToContent bs) = carried_parts bs"
proof -
  have "List.map_filter partToBlock (List.map_filter blockToPart (filter visual bs)) = map carried_part (filter visual bs)"
    using assms by (intro map_filter_carried part_carried) (auto simp: list_all_iff)
  then have parts: "contentToBlocks (OaiParts (List.map_filter blockToPart (filter visual bs))) =
      map carried_part (filter visual bs)" by (simp add: contentToBlocks_def)
  show ?thesis
  proof (cases "\<exists>t cc. filter visual bs = [TextBlock t cc]")
    case True
    then obtain t cc where "filter visual bs = [TextBlock t cc]" by blast
    then show ?thesis by (simp add: blocksToContent_def contentToBlocks_def carried_parts_def)
  next
    case False
    then have "blocksToContent bs = (if filter visual bs = [] then OaiNull
        else OaiParts (List.map_filter blockToPart (filter visual bs)))"
      "carried_parts bs = map carried_part (filter visual bs)"
      unfolding blocksToContent_def carried_parts_def by (auto split: list.splits content_block.splits)
    with parts show ?thesis by (auto simp: contentToBlocks_def)
  qed
qed

lemma calls_carried:
  assumes "list_all (\<lambda>b. is_call b \<longrightarrow> call_ok (carried_call b)) bs"
  shows "calls_in parseToolArguments (some_calls (List.map_filter toolCall bs)) = map carried_call (filter is_call bs)"
proof -
  have same: "toolCall (carried_call b) = toolCall b" "is_call (carried_call b) = is_call b" for b
    by (cases b; simp add: toolCall_def carried_call_def is_call_def)+
  have "List.map_filter toolCall (map carried_call bs) = List.map_filter toolCall bs"
    by (induction bs) (simp_all add: List.map_filter_simps same split: option.split)
  moreover have "filter is_call (map carried_call bs) = map carried_call (filter is_call bs)"
    by (induction bs) (simp_all add: same)
  ultimately show ?thesis
    using calls_roundtrip [of "map carried_call bs"] assms by (simp add: list_all_iff same)
qed

lemma oai_message_carried:
  assumes "oai_message_shape m"
  shows "oai_message_in parseToolArguments (oai_message_out m) = oai_carried_message m" "\<not> is_system (oai_message_out m)"
proof -
  obtain r c where m: "m = \<lparr>msg_role = r, msg_content = c\<rparr>" by (cases m) auto
  show "oai_message_in parseToolArguments (oai_message_out m) = oai_carried_message m"
  proof (cases r)
    case RTool
    then obtain i bs isErr cc where c: "c = [ToolResult i bs isErr cc]"
      using assms by (auto simp: m oai_message_shape_def split: list.splits content_block.splits)
    have "contentToBlocks (OaiString (toolResultText bs)) = fused_text bs"
      by (simp add: toolResultText_def contentToBlocks_def fused_text_def text_of_filter Let_def)
    then show ?thesis
      by (simp add: m RTool c oai_message_in_def oai_message_out_def oai_carried_message_def or_else_def)
  next
    case RUser
    then have "list_all media_ok c" using assms by (simp add: m oai_message_shape_def list_all_iff)
    then show ?thesis
      by (simp add: m RUser oai_message_in_def oai_message_out_def oai_carried_message_def parts_carried)
  next
    case RAssistant
    then have "list_all media_ok c" "list_all (\<lambda>b. is_call b \<longrightarrow> call_ok (carried_call b)) c"
      using assms by (simp_all add: m oai_message_shape_def list_all_iff)
    then show ?thesis
      by (simp add: m RAssistant oai_message_in_def oai_message_out_def oai_carried_message_def parts_carried calls_carried)
  qed
  show "\<not> is_system (oai_message_out m)"
    by (auto simp: is_system_def oai_message_out_def split: role.splits option.splits content_block.splits)
qed

lemma oai_messages_carried:
  assumes "list_all oai_message_shape ms"
  shows "map (oai_message_in parseToolArguments) (filter (\<lambda>m. \<not> is_system m) (map oai_message_out ms)) = map oai_carried_message ms"
    "filter is_system (map oai_message_out ms) = []"
  using assms by (induction ms) (simp_all add: oai_message_carried)

lemma oai_system_carried:
  assumes "case sys of None \<Rightarrow> True | Some bs \<Rightarrow> list_all media_ok bs"
  shows "(let bs = concat (map (\<lambda>m. contentToBlocks (om_content m)) (filter is_system (oai_system_out sys)))
          in if bs = [] then None else Some bs)
      = (case sys of None \<Rightarrow> None | Some bs \<Rightarrow> if carried_parts bs = [] then None else Some (carried_parts bs))"
    "filter (\<lambda>m. \<not> is_system m) (oai_system_out sys) = []"
proof -
  show "(let bs = concat (map (\<lambda>m. contentToBlocks (om_content m)) (filter is_system (oai_system_out sys)))
          in if bs = [] then None else Some bs)
      = (case sys of None \<Rightarrow> None | Some bs \<Rightarrow> if carried_parts bs = [] then None else Some (carried_parts bs))"
  proof (cases sys)
    case (Some bs)
    with assms have "contentToBlocks (blocksToContent bs) = carried_parts bs" by (simp add: parts_carried)
    then have "contentToBlocks (case blocksToContent bs of OaiNull \<Rightarrow> OaiString [] | c \<Rightarrow> c) = carried_parts bs"
      by (cases "blocksToContent bs") (auto simp: contentToBlocks_def)
    moreover have "carried_parts [] = []" by (simp add: carried_parts_def)
    ultimately show ?thesis
      by (cases "bs = []") (simp_all add: Some oai_system_out_def is_system_def Let_def)
  qed (simp add: oai_system_out_def)
  show "filter (\<lambda>m. \<not> is_system m) (oai_system_out sys) = []"
    by (cases sys) (simp_all add: oai_system_out_def is_system_def)
qed

lemma oai_tools_carried:
  "map_option (map (\<lambda>t. \<lparr>tool_name = on_name t, tool_description = on_description t,
      tool_parameters = or_else (on_parameters t) (JObj []), tool_cacheControl = None\<rparr>))
      (map_option (map (\<lambda>t. \<lparr>on_name = tool_name t, on_description = tool_description t,
        on_parameters = Some (tool_parameters t)\<rparr>)) ts) = map_option (map (\<lambda>t. t\<lparr>tool_cacheControl := None\<rparr>)) ts"
proof -
  have "\<lparr>tool_name = tool_name t, tool_description = tool_description t, tool_parameters = tool_parameters t,
      tool_cacheControl = None\<rparr> = t\<lparr>tool_cacheControl := None\<rparr>" for t :: normalized_tool by (cases t) simp
  then show ?thesis by (cases ts) (simp_all add: or_else_def)
qed

text \<open>C18 (roundtrip). A request of canonical messages (one result per tool message, arguments that are
  printable or raw, media types that can stand in a data URL), written to the Chat Completions wire
  under either spelling of the token cap and read back, is the request with the changes of
  \<open>oai_carried\<close> and no other: the system prompt, images as data URLs, tool calls with their arguments as
  text, and every parameter come back; a tool result comes back as its fused text; cache markers and the
  controls of the other protocol are dropped; and the usage request is not kept but set, on for every
  streaming request and off for every other. A request that has none of these, and asks for usage
  exactly when it streams, comes back unchanged.\<close>

theorem oai_request_roundtrip:
  assumes "oai_request_shape ir"
  shows "oai_requestIn parseToolArguments (oai_requestOut quirks ir) = oai_carried ir
    \<and> (oai_request_ok ir \<longrightarrow> oai_carried ir = ir)"
proof -
  have sys: "(let bs = concat (map (\<lambda>m. contentToBlocks (om_content m))
        (filter is_system (oai_system_out (rq_system ir)) @ filter is_system (map oai_message_out (rq_messages ir))))
      in if bs = [] then None else Some bs)
      = (case rq_system ir of None \<Rightarrow> None | Some bs \<Rightarrow> if carried_parts bs = [] then None else Some (carried_parts bs))"
    using assms oai_system_carried(1) [of "rq_system ir"] oai_messages_carried(2) [of "rq_messages ir"]
    by (simp add: oai_request_shape_def)
  have msgs: "map (oai_message_in parseToolArguments) (filter (\<lambda>m. \<not> is_system m)
      (oai_system_out (rq_system ir) @ map oai_message_out (rq_messages ir))) = map oai_carried_message (rq_messages ir)"
    using assms oai_system_carried(2) [of "rq_system ir"] oai_messages_carried(1) [of "rq_messages ir"]
    by (simp add: oai_request_shape_def)
  have choice: "oai_toolChoiceIn (oai_toolChoiceOut tc) = tc" for tc
    by (cases tc) (auto simp: oai_toolChoiceIn_def oai_toolChoiceOut_def split: tool_choice.splits)
  have cap: "later (if maxTokensLegacy quirks then m else None) (if maxTokensLegacy quirks then None else m) = m" for m
    by (cases m) (simp_all add: later_def)
  have stops: "map_option (\<lambda>s. case s of Inl one \<Rightarrow> [one] | Inr many \<Rightarrow> many) (map_option Inr ss) = ss" for ss :: "string list option"
    by (cases ss) simp_all
  have reason: "map_option OpenAIEffort (case rq_reasoning ir of Some (OpenAIEffort e) \<Rightarrow> Some e | _ \<Rightarrow> None)
      = (case rq_reasoning ir of Some (OpenAIEffort e) \<Rightarrow> Some (OpenAIEffort e) | _ \<Rightarrow> None)"
    by (simp split: option.split reasoning_control.split)
  have "oai_requestIn parseToolArguments (oai_requestOut quirks ir) = oai_carried ir"
    unfolding oai_requestIn_def oai_requestOut_def Let_def oai_request.simps filter_append msgs [unfolded filter_append]
      sys [unfolded Let_def] choice cap stops reason oai_tools_carried
    by (cases ir; cases "rq_params ir") (simp add: oai_carried_def)
  with oai_request_same [of ir quirks] show ?thesis by simp
qed

definition demo_oai_request :: normalized_request where
  "demo_oai_request = \<lparr>rq_model = ''m'', rq_system = Some [TextBlock ''be brief'' None],
     rq_messages =
       [\<lparr>msg_role = RUser, msg_content =
          [TextBlock ''see'' None, ImageData ''AAAA'' ''image/png'' (Some DetailLow), ImageUrl ''http://x/y'' None]\<rparr>,
        \<lparr>msg_role = RAssistant, msg_content = [TextBlock ''ok'' None, ToolUse ''t1'' ''f'' (JObj []) None]\<rparr>,
        \<lparr>msg_role = RTool, msg_content = [ToolResult ''t1'' [TextBlock ''one'' None] None None]\<rparr>],
     rq_tools = Some [\<lparr>tool_name = ''f'', tool_description = None, tool_parameters = JObj [], tool_cacheControl = None\<rparr>],
     rq_toolChoice = Some (ChoiceTool ''f''), rq_allowParallelTools = Some True,
     rq_params = \<lparr>maxOutputTokens = Some 100, temperature = Some 2, topP = None, stopSequences = Some [''end'']\<rparr>,
     rq_responseFormat = None, rq_reasoning = Some (OpenAIEffort (JStr ''low'')), rq_outputConfig = None,
     rq_stream = Some True, rq_includeUsage = Some True\<rparr>"

text \<open>An unchanged request, and a streaming one that did not ask for usage.\<close>

lemma oai_request_roundtrip_witness:
  "oai_requestIn parseToolArguments (oai_requestOut \<lparr>usageOmitted = False, maxTokensLegacy = True\<rparr> demo_oai_request) =
     demo_oai_request
   \<and> rq_includeUsage (oai_requestIn parseToolArguments (oai_requestOut \<lparr>usageOmitted = False, maxTokensLegacy = True\<rparr>
        (demo_oai_request\<lparr>rq_includeUsage := None\<rparr>))) = Some True"
proof
  have "parseDataUrl ''http://x/y'' = None" by code_simp
  then have "oai_request_ok demo_oai_request"
    by (simp add: demo_oai_request_def oai_request_ok_def oai_message_ok_def parts_ok_def part_ok_def
        result_ok_def call_ok_def is_call_def isRecord_def)
  moreover have "oai_request_shape demo_oai_request"
    by (simp add: demo_oai_request_def oai_request_shape_def oai_message_shape_def media_ok_def
        carried_call_def call_ok_def is_call_def isRecord_def)
  ultimately show "oai_requestIn parseToolArguments (oai_requestOut \<lparr>usageOmitted = False, maxTokensLegacy = True\<rparr> demo_oai_request) =
     demo_oai_request"
    using oai_request_roundtrip [of demo_oai_request "\<lparr>usageOmitted = False, maxTokensLegacy = True\<rparr>"] by simp
  from \<open>oai_request_shape demo_oai_request\<close> have "oai_request_shape (demo_oai_request\<lparr>rq_includeUsage := None\<rparr>)"
    by (simp add: oai_request_shape_def)
  from oai_request_roundtrip [OF this]
  show "rq_includeUsage (oai_requestIn parseToolArguments (oai_requestOut \<lparr>usageOmitted = False, maxTokensLegacy = True\<rparr>
        (demo_oai_request\<lparr>rq_includeUsage := None\<rparr>))) = Some True"
    by (simp add: oai_carried_def demo_oai_request_def)
qed

definition demo_oai_answer :: normalized_response where
  "demo_oai_answer = \<lparr>rs_id = ''c1'', rs_model = ''m'', rs_created = Some 7,
     rs_content = [TextBlock ''he'' None, ToolUse ''t1'' ''f'' (JObj [(''a'', JNum 1)]) None, TextBlock ''y'' None,
       ToolUseRaw ''t2'' ''g'' ''{'' None],
     rs_stopReason = StopToolUse, rs_rawStopReason = None, rs_stopSequence = None,
     rs_usage = Some \<lparr>inputTokens = 10, outputTokens = 5, cacheReadTokens = Some 3, cacheWriteTokens = Some 2\<rparr>\<rparr>"

lemma oai_response_survives_witness:
  "oai_responseIn parseToolArguments \<lparr>usageOmitted = False, maxTokensLegacy = False\<rparr> (oai_responseOut None demo_oai_answer) =
   \<lparr>rs_id = ''c1'', rs_model = ''m'', rs_created = Some 7,
     rs_content = [TextBlock ''hey'' None, ToolUse ''t1'' ''f'' (JObj [(''a'', JNum 1)]) None, ToolUseRaw ''t2'' ''g'' ''{'' None],
     rs_stopReason = StopToolUse, rs_rawStopReason = Some ''tool_calls'', rs_stopSequence = None,
     rs_usage = Some \<lparr>inputTokens = 12, outputTokens = 5, cacheReadTokens = Some 3, cacheWriteTokens = None\<rparr>\<rparr>"
proof -
  have one: "decimals 1 = Some 0" using decimals_of_int [of 1] by simp
  have raw: "json_parse ''{'' = None" by code_simp
  have "list_all (\<lambda>b. is_call b \<longrightarrow> call_ok b) (rs_content demo_oai_answer)"
    by (simp add: demo_oai_answer_def is_call_def call_ok_def isRecord_def one raw)
  from oai_response_survives [OF this, of False None] show ?thesis
    by (simp add: demo_oai_answer_def fused_text_def is_call_def later_def or_else_def opt0_def
        stopReasonToOpenai_def stopReasonFromOpenai_def Let_def)
qed

end
