(* ===== verification/OpenaiStream.thy ===== *)
theory OpenaiStream
  imports AnthropicStream OpenaiFacts
begin

text \<open>
  Streams of the OpenAI adapter: an answer replayed as chunks is parsed back into its blocks, and,
  for both parsers, a stream ends cleanly only after a stop reason was delivered.
\<close>

section \<open>An honest end\<close>

definition stop_seen :: "stream_event list \<Rightarrow> bool" where
  "stop_seen evs = list_ex (\<lambda>e. case e of MessageDelta (Some _) _ _ _ \<Rightarrow> True | _ \<Rightarrow> False) evs"

lemma stop_seen_simps [simp]:
  "\<not> stop_seen []" "stop_seen (xs @ ys) = (stop_seen xs \<or> stop_seen ys)"
  "stop_seen (MessageDelta (Some s) r q u # xs)" "stop_seen (MessageDelta None r q u # xs) = stop_seen xs"
  "stop_seen (MessageStart i m v # xs) = stop_seen xs" "stop_seen (TextDelta k t # xs) = stop_seen xs"
  "stop_seen (ToolUseStart k i n # xs) = stop_seen xs" "stop_seen (ToolUseDelta k t # xs) = stop_seen xs"
  "stop_seen (BlockStop k f # xs) = stop_seen xs" "stop_seen (MessageStop # xs) = stop_seen xs"
  "stop_seen (StreamError t m d # xs) = stop_seen xs"
  by (auto simp: stop_seen_def)

text \<open>What a step may do: no terminator of its own, and the flag rises exactly with a stop reason.\<close>

definition honest_step :: "bool \<Rightarrow> stream_event list \<Rightarrow> bool option \<Rightarrow> bool" where
  "honest_step f0 evs fin =
     (MessageStop \<notin> set evs \<and> (case fin of None \<Rightarrow> True | Some f \<Rightarrow> f = (f0 \<or> stop_seen evs)))"

lemma honest_call:
  "oai_on_call tc st = (evs, r) \<Longrightarrow> honest_step (oa_sawFinish st) evs (map_option oa_sawFinish r) \<and> \<not> stop_seen evs"
  by (auto simp: oai_on_call_def alloc_def honest_step_def Let_def split: if_splits option.splits list.splits)

lemma honest_calls:
  "oai_on_calls tcs st = (evs, r) \<Longrightarrow> honest_step (oa_sawFinish st) evs (map_option oa_sawFinish r) \<and> \<not> stop_seen evs"
proof (induction tcs arbitrary: st evs r)
  case Nil
  then show ?case by (auto simp: honest_step_def)
next
  case (Cons tc tcs)
  obtain e1 r1 where c: "oai_on_call tc st = (e1, r1)" by (cases "oai_on_call tc st") auto
  note h = honest_call [OF c]
  show ?case
  proof (cases r1)
    case None
    with Cons.prems c h show ?thesis by auto
  next
    case (Some st')
    obtain e2 r2 where cs: "oai_on_calls tcs st' = (e2, r2)" by (cases "oai_on_calls tcs st'") auto
    from Cons.IH [OF cs] h Some Cons.prems c cs show ?thesis
      by (auto simp: honest_step_def split: option.splits)
  qed
qed

lemma honest_text:
  "oai_on_text content st = (evs, st') \<Longrightarrow> oa_sawFinish st' = oa_sawFinish st \<and> MessageStop \<notin> set evs \<and> \<not> stop_seen evs"
  by (auto simp: oai_on_text_def alloc_def Let_def split: option.splits list.splits if_splits)

lemma honest_stops: "MessageStop \<notin> set (concat (map (stop_open st) is)) \<and> \<not> stop_seen (concat (map (stop_open st) is))"
  by (induction "is") (auto simp: stop_open_def split: option.splits)

lemma honest_finish:
  "oai_on_finish finish st = (evs, st') \<Longrightarrow>
   MessageStop \<notin> set evs \<and> oa_sawFinish st' = (oa_sawFinish st \<or> stop_seen evs)"
  using honest_stops [of st "[0..<length (oa_keys st)]"]
  by (auto simp: oai_on_finish_def split: option.splits)

lemma honest_choice:
  assumes "oai_on_choice choice st = (evs, r)"
  shows "honest_step (oa_sawFinish st) evs (map_option oa_sawFinish r)"
proof -
  let ?delta = "opt_prop ''delta'' (Some choice)"
  show ?thesis
  proof (cases "js_prop ''content'' ?delta")
    case None
    with assms show ?thesis by (simp add: oai_on_choice_def honest_step_def)
  next
    case (Some content)
    obtain e1 st1 where t: "oai_on_text content st = (e1, st1)" by (cases "oai_on_text content st") auto
    note h1 = honest_text [OF t]
    show ?thesis
    proof (cases "iterated (opt_prop ''tool_calls'' ?delta)")
      case None
      with assms Some t h1 show ?thesis by (auto simp: oai_on_choice_def honest_step_def)
    next
      case it: (Some tcs)
      obtain e2 r2 where c: "oai_on_calls tcs st1 = (e2, r2)" by (cases "oai_on_calls tcs st1") auto
      note h2 = honest_calls [OF c]
      show ?thesis
      proof (cases r2)
        case None
        with assms Some t it c h1 h2 show ?thesis by (auto simp: oai_on_choice_def honest_step_def)
      next
        case r2: (Some st2)
        obtain e3 st3 where f: "oai_on_finish (opt_prop ''finish_reason'' (Some choice)) st2 = (e3, st3)"
          by (cases "oai_on_finish (opt_prop ''finish_reason'' (Some choice)) st2") auto
        from honest_finish [OF f] assms Some t it c r2 f h1 h2 show ?thesis
          by (auto simp: oai_on_choice_def honest_step_def)
      qed
    qed
  qed
qed

lemma honest_json:
  assumes "oai_on_json v st = (evs, r)"
  shows "honest_step (oa_sawFinish st) evs (map_option oa_sawFinish r)"
proof -
  have chunk: "honest_step (oa_sawFinish st) evs (map_option oa_sawFinish r)"
    if c: "oai_on_chunk v cs st = (evs, r)" for cs
  proof (cases cs)
    case Nil
    with c show ?thesis
      by (cases "oa_started st") (auto simp: oai_on_chunk_def honest_step_def split: option.splits json.splits)
  next
    case (Cons choice rest)
    let ?st = "st\<lparr>oa_started := True\<rparr>"
    obtain e r' where ch: "oai_on_choice choice ?st = (e, r')" by (cases "oai_on_choice choice ?st") auto
    from honest_choice [OF ch] c Cons ch show ?thesis
      by (cases "oa_started st") (auto simp: oai_on_chunk_def honest_step_def Let_def split: option.splits)
  qed
  have idle: "honest_step (oa_sawFinish st) [] (Some (oa_sawFinish st))" "honest_step (oa_sawFinish st) [] None"
    "honest_step (oa_sawFinish st) [oai_on_error e] (Some (oa_sawFinish st))" for e
    by (simp_all add: honest_step_def oai_on_error_def Let_def)
  show ?thesis
    using assms chunk idle unfolding oai_on_json_def
    by (cases "obj_prop ''error'' v"; cases "obj_prop ''choices'' v")
      (auto split: if_splits json.splits)
qed

definition truncated_error :: stream_event where
  "truncated_error = StreamError ''truncated'' ''upstream stream ended without a terminator'' None"

lemma close_honest:
  "oai_close st = (evs, threw) \<Longrightarrow>
   if threw then MessageStop \<notin> set evs
   else \<exists>xs. MessageStop \<notin> set xs \<and>
     evs = xs @ [if oa_sawFinish st \<or> stop_seen xs then MessageStop else truncated_error]"
  by (cases "oa_sawFinish st") (auto simp: oai_close_def truncated_error_def intro!: exI [of _ "[]"])

lemma oai_frames_honest:
  "oai_parse_frames frs st = (evs, threw) \<Longrightarrow>
   if threw then MessageStop \<notin> set evs
   else \<exists>xs. MessageStop \<notin> set xs \<and>
     evs = xs @ [if oa_sawFinish st \<or> stop_seen xs then MessageStop else truncated_error]"
proof (induction frs arbitrary: st evs)
  case Nil
  then show ?case by (intro close_honest) simp
next
  case (Cons fr frs)
  show ?case
  proof (cases "fr_data fr = ''[DONE]'' \<or> json_parse (fr_data fr) = None")
    case True
    with Cons.prems have "oai_close st = (evs, threw) \<or> oai_parse_frames frs st = (evs, threw)"
      by (auto split: if_splits)
    then show ?thesis using close_honest Cons.IH [of st evs] by blast
  next
    case False
    then obtain v where v: "json_parse (fr_data fr) = Some v" "fr_data fr \<noteq> ''[DONE]''" by auto
    obtain e1 r where s: "oai_on_json v st = (e1, r)" by (cases "oai_on_json v st") auto
    note h = honest_json [OF s]
    show ?thesis
    proof (cases r)
      case None
      with Cons.prems v s h show ?thesis by (auto simp: honest_step_def)
    next
      case (Some st')
      obtain e2 t2 where f: "oai_parse_frames frs st' = (e2, t2)" by (cases "oai_parse_frames frs st'") auto
      with Cons.prems v s Some have evs: "evs = e1 @ e2" "threw = t2" by simp_all
      from h Some have h': "MessageStop \<notin> set e1" "oa_sawFinish st' = (oa_sawFinish st \<or> stop_seen e1)"
        by (simp_all add: honest_step_def)
      show ?thesis
      proof (cases t2)
        case True
        with Cons.IH [OF f [folded evs(2)]] h' evs show ?thesis by simp
      next
        case False
        with Cons.IH [OF f [folded evs(2)]] evs(2) obtain xs where "MessageStop \<notin> set xs"
          "e2 = xs @ [if oa_sawFinish st' \<or> stop_seen xs then MessageStop else truncated_error]" by auto
        with h' have "MessageStop \<notin> set (e1 @ xs) \<and> evs =
            (e1 @ xs) @ [if oa_sawFinish st \<or> stop_seen (e1 @ xs) then MessageStop else truncated_error]"
          by (simp add: evs disj_assoc)
        with False evs(2) show ?thesis by (auto intro: exI [of _ "e1 @ xs"])
      qed
    qed
  qed
qed

text \<open>The same for the Anthropic parser, whose terminator is a frame of its own.\<close>

definition is_terminal :: "stream_event \<Rightarrow> bool" where
  "is_terminal e = (case e of MessageStop \<Rightarrow> True | StreamError _ _ _ \<Rightarrow> True | _ \<Rightarrow> False)"

definition ant_honest :: "ant_parser \<Rightarrow> ant_step \<Rightarrow> bool" where
  "ant_honest st step =
     (case step of (evs, r) \<Rightarrow>
        (if MessageStop \<in> set evs then evs = [MessageStop] \<and> an_sawReason st else True) \<and>
        (case r of None \<Rightarrow> True
         | Some st' \<Rightarrow> (an_sawReason st' \<longrightarrow> an_sawReason st \<or> stop_seen evs) \<and>
                      (an_sawStop st' \<longrightarrow> an_sawStop st \<or> list_ex is_terminal evs)))"

lemma ant_handlers_honest:
  "ant_honest st (ant_on_start ev st)" "ant_honest st (ant_on_block_start ev st)" "ant_honest st (ant_on_delta ev st)"
  "ant_honest st (ant_on_block_stop ev st)" "ant_honest st (ant_on_message_delta ev st)"
  "ant_honest st (ant_on_message_stop st)" "ant_honest st (ant_on_error ev st)" "ant_honest st ([], Some st)"
  "ant_honest st ([], None)"
  by (auto simp: ant_honest_def ant_on_start_def ant_on_block_start_def ant_on_delta_def ant_on_block_stop_def
      ant_on_message_delta_def ant_on_message_stop_def ant_on_error_def is_terminal_def Let_def
      split: option.splits)

lemma ant_frame_honest: "ant_honest st (ant_on_frame data st)"
  unfolding ant_on_frame_def
  by (simp add: ant_handlers_honest split: option.split)

lemma ant_frames_honest:
  "ant_parse_frames frs st = (evs, threw) \<Longrightarrow>
   (MessageStop \<in> set evs \<longrightarrow> an_sawReason st \<or> stop_seen (takeWhile (\<lambda>e. e \<noteq> MessageStop) evs)) \<and>
   (threw \<or> an_sawStop st \<or> list_ex is_terminal evs)"
proof (induction frs arbitrary: st evs)
  case Nil
  then show ?case by (auto simp: is_terminal_def split: if_splits)
next
  case (Cons fr frs)
  obtain e1 r where s: "ant_on_frame (fr_data fr) st = (e1, r)" by (cases "ant_on_frame (fr_data fr) st") auto
  have h: "ant_honest st (e1, r)" using ant_frame_honest [of st "fr_data fr"] s by simp
  show ?case
  proof (cases r)
    case None
    with Cons.prems s h show ?thesis by (auto simp: ant_honest_def split: if_splits)
  next
    case (Some st')
    obtain e2 t2 where f: "ant_parse_frames frs st' = (e2, t2)" by (cases "ant_parse_frames frs st'") auto
    with Cons.prems s Some have evs: "evs = e1 @ e2" "threw = t2" by simp_all
    note ih = Cons.IH [OF f [folded evs(2)]]
    show ?thesis
    proof (cases "MessageStop \<in> set e1")
      case True
      with h Some evs show ?thesis by (auto simp: ant_honest_def is_terminal_def)
    next
      case False
      then have "takeWhile (\<lambda>e. e \<noteq> MessageStop) evs = e1 @ takeWhile (\<lambda>e. e \<noteq> MessageStop) e2"
        unfolding evs(1) by (intro takeWhile_append2) auto
      with False h Some ih evs show ?thesis by (auto simp: ant_honest_def)
    qed
  qed
qed

text \<open>C22 (safety). A cut-off answer never passes as a finished one. Whatever the chunks hold, a parsed
  OpenAI stream that did not throw ends in exactly one terminator, which is the clean stop exactly
  when a stop reason was delivered before and the truncation error otherwise; an Anthropic stream
  sends the clean stop only after a stop reason, and ends without a terminal event only by
  throwing.\<close>

theorem clean_end_has_stop_reason:
  "(case oai_streamParse chunks of (evs, threw) \<Rightarrow>
      if threw then MessageStop \<notin> set evs
      else \<exists>xs. MessageStop \<notin> set xs \<and> evs = xs @ [if stop_seen xs then MessageStop else truncated_error]) \<and>
   (case ant_streamParse chunks of (evs, threw) \<Rightarrow>
      (if MessageStop \<in> set evs then stop_seen (takeWhile (\<lambda>e. e \<noteq> MessageStop) evs) else True) \<and>
      (threw \<or> list_ex is_terminal evs))"
proof -
  obtain e1 t1 e2 t2 where o: "oai_parse_frames (sseFrames chunks) oai_parser0 = (e1, t1)"
    and a: "ant_parse_frames (sseFrames chunks) ant_parser0 = (e2, t2)" by fastforce
  have flags: "oa_sawFinish oai_parser0 = False" "an_sawReason ant_parser0 = False" "an_sawStop ant_parser0 = False"
    by (simp_all add: oai_parser0_def ant_parser0_def)
  show ?thesis
    unfolding oai_streamParse_def ant_streamParse_def o a prod.case
    using ant_frames_honest [OF a, unfolded flags]
    by (intro conjI oai_frames_honest [OF o, unfolded flags simp_thms]) simp_all
qed

section \<open>A replayed answer, written as chunks and read\<close>

text \<open>The blocks an answer streams on this wire: text that is not empty, a call as before.\<close>

definition oai_streams :: "content_block \<Rightarrow> bool" where
  "oai_streams b = (case b of TextBlock t _ \<Rightarrow> t \<noteq> [] | _ \<Rightarrow> streams b)"

lemma oai_streams_simps [simp]:
  "oai_streams (TextBlock t cc) = (t \<noteq> [])" "\<not> oai_streams (ImageData d m e)" "\<not> oai_streams (ImageUrl u e)"
  "\<not> oai_streams (ToolResult i bs r c)"
  "oai_streams (ToolUse i n v c) = streams (ToolUse i n v c)"
  "oai_streams (ToolUseRaw i n s c) = streams (ToolUseRaw i n s c)"
  by (simp_all add: oai_streams_def)

text \<open>The parser's state is a function of the blocks it has read.\<close>

definition calls_of :: "content_block list \<Rightarrow> nat" where
  "calls_of bs = length (filter is_call bs)"

definition key_of :: "nat \<Rightarrow> content_block \<Rightarrow> oai_key" where
  "key_of k b = (if is_call b then KTool (Some (JNum (of_nat k))) else KText)"

definition open_of :: "content_block \<Rightarrow> oai_open" where
  "open_of b =
     (case b of
        ToolUse i n input _ \<Rightarrow> \<lparr>ob_tool = True, ob_id = Some (Some i), ob_name = Some (Some n),
           ob_json = json_text input, ob_started = True\<rparr>
      | ToolUseRaw i n raw _ \<Rightarrow> \<lparr>ob_tool = True, ob_id = Some (Some i), ob_name = Some (Some n),
           ob_json = raw, ob_started = True\<rparr>
      | _ \<Rightarrow> \<lparr>ob_tool = False, ob_id = None, ob_name = None, ob_json = [], ob_started = False\<rparr>)"

definition keys_of :: "content_block list \<Rightarrow> oai_key list" where
  "keys_of bs = map (\<lambda>j. key_of (calls_of (take j bs)) (bs ! j)) [0..<length bs]"

definition read_state :: "content_block list \<Rightarrow> oai_parser" where
  "read_state bs =
     \<lparr>oa_keys = keys_of bs, oa_open = (\<lambda>j. if j < length bs then Some (open_of (bs ! j)) else None),
      oa_started = True, oa_sawFinish = False\<rparr>"

lemma keys_snoc [simp]: "keys_of (bs @ [b]) = keys_of bs @ [key_of (calls_of bs) b]"
  by (simp add: keys_of_def nth_append)

lemma keys_length [simp]: "length (keys_of bs) = length bs"
  by (simp add: keys_of_def)

lemma calls_snoc [simp]: "calls_of (bs @ [b]) = (if is_call b then Suc (calls_of bs) else calls_of bs)"
  by (simp add: calls_of_def)

lemma read_state_simps [simp]:
  "oa_keys (read_state bs) = keys_of bs" "oa_open (read_state bs) (length bs) = None"
  "oa_started (read_state bs)" "\<not> oa_sawFinish (read_state bs)"
  by (simp_all add: read_state_def)

lemma read_state_snoc:
  "read_state (bs @ [b]) = (read_state bs)\<lparr>oa_keys := keys_of bs @ [key_of (calls_of bs) b],
     oa_open := (oa_open (read_state bs))(length bs \<mapsto> open_of b)\<rparr>"
proof -
  have "(\<lambda>j. if j < length (bs @ [b]) then Some (open_of ((bs @ [b]) ! j)) else None) =
      (\<lambda>j. if j < length bs then Some (open_of (bs ! j)) else None)(length bs \<mapsto> open_of b)"
    by (rule ext) (auto simp: nth_append)
  then show ?thesis by (simp add: read_state_def)
qed

lemma call_keys: "KTool (Some (JNum (of_nat k))) \<in> set (keys_of bs) \<Longrightarrow> k < calls_of bs"
proof (induction bs rule: rev_induct)
  case (snoc b bs)
  then show ?case by (auto simp: key_of_def split: if_splits)
qed (simp add: keys_of_def)

lemma text_key: "list_all oai_streams bs \<Longrightarrow> KText \<in> set (keys_of bs) \<Longrightarrow> filter is_text bs \<noteq> []"
proof (induction bs rule: rev_induct)
  case (snoc b bs)
  then show ?case by (cases b) (auto simp: key_of_def is_call_def is_text_def)
qed (simp add: keys_of_def)

lemma position_new: "k \<notin> set ks \<Longrightarrow> position k ks = length ks"
  by (induction ks) auto

lemma position_last: "k \<notin> set ks \<Longrightarrow> position k (ks @ [k]) = length ks"
  by (induction ks) auto

lemma alloc_new:
  "k \<notin> set (oa_keys st) \<Longrightarrow> alloc k st = (length (oa_keys st), st\<lparr>oa_keys := oa_keys st @ [k]\<rparr>)"
  by (simp add: alloc_def position_new)

text \<open>The chunks of a block, with the number of calls before it.\<close>

definition call_start_json :: "nat \<Rightarrow> string \<Rightarrow> string \<Rightarrow> json" where
  "call_start_json ti tid name =
     oai_choice_json [(''tool_calls'', JArr [JObj [(''index'', jnat ti), (''id'', JStr tid), (''type'', JStr ''function''),
        (''function'', JObj [(''name'', JStr name), (''arguments'', JStr [])])]])] JNull"

definition call_delta_json :: "nat \<Rightarrow> string \<Rightarrow> json" where
  "call_delta_json ti part =
     oai_choice_json [(''tool_calls'', JArr [JObj [(''index'', jnat ti),
        (''function'', JObj [(''arguments'', JStr part)])]])] JNull"

definition block_choices :: "nat \<Rightarrow> content_block \<Rightarrow> json list" where
  "block_choices ti b =
     (case b of
        TextBlock t _ \<Rightarrow> [oai_choice_json [(''content'', JStr t)] JNull]
      | ToolUse tid name input _ \<Rightarrow> [call_start_json ti tid name, call_delta_json ti (json_text input)]
      | ToolUseRaw tid name raw _ \<Rightarrow> [call_start_json ti tid name, call_delta_json ti raw]
      | _ \<Rightarrow> [])"

definition delta_events :: "nat \<Rightarrow> content_block \<Rightarrow> stream_event list" where
  "delta_events i b = filter (\<lambda>e. case e of BlockStop _ _ \<Rightarrow> False | _ \<Rightarrow> True) (block_events i b)"

definition stop_event :: "nat \<Rightarrow> content_block \<Rightarrow> stream_event" where
  "stop_event i b = BlockStop i (if is_call b then Some b else None)"

lemmas choosing = oai_on_choice_def oai_choice_json_def opt_prop_def js_prop_def obj_prop_def str_leaf_def
  null_leaf_def text_or_def or_else_def iterated_def oai_on_finish_def oai_on_text_def oai_on_call_def Let_def

lemma read_text_choice:
  assumes "t \<noteq> []" "KText \<notin> set (keys_of bs)"
  shows "oai_on_choice (oai_choice_json [(''content'', JStr t)] JNull) (read_state bs) =
    ([TextDelta (length bs) t], Some (read_state (bs @ [TextBlock t cc])))"
  using assms
  by (cases t) (simp_all add: choosing alloc_new read_state_snoc key_of_def is_call_def open_of_def)

lemma read_call_choices:
  assumes "calls_of bs = k"
  shows "\<exists>mid. oai_on_choice (call_start_json k tid name) (read_state bs) = ([ToolUseStart (length bs) tid name], Some mid)
    \<and> oa_started mid \<and> (part \<noteq> [] \<longrightarrow> oai_on_choice (call_delta_json k part) mid =
      ([ToolUseDelta (length bs) part], Some ((read_state bs)
         \<lparr>oa_keys := keys_of bs @ [KTool (Some (JNum (of_nat k)))],
          oa_open := (oa_open (read_state bs))(length bs \<mapsto>
            \<lparr>ob_tool = True, ob_id = Some (Some tid), ob_name = Some (Some name), ob_json = part, ob_started = True\<rparr>)\<rparr>)))"
proof -
  let ?key = "KTool (Some (JNum (of_nat k)))"
  have new: "?key \<notin> set (keys_of bs)" using call_keys [of k bs] assms by auto
  let ?mid = "(read_state bs)\<lparr>oa_keys := keys_of bs @ [?key], oa_open := (oa_open (read_state bs))(length bs \<mapsto>
     \<lparr>ob_tool = True, ob_id = Some (Some tid), ob_name = Some (Some name), ob_json = [], ob_started = True\<rparr>)\<rparr>"
  have "oai_on_choice (call_start_json k tid name) (read_state bs) = ([ToolUseStart (length bs) tid name], Some ?mid)"
    using new by (simp add: choosing call_start_json_def alloc_new)
  moreover have "oai_on_choice (call_delta_json k part) ?mid =
      ([ToolUseDelta (length bs) part], Some ((read_state bs)
         \<lparr>oa_keys := keys_of bs @ [?key], oa_open := (oa_open (read_state bs))(length bs \<mapsto>
            \<lparr>ob_tool = True, ob_id = Some (Some tid), ob_name = Some (Some name), ob_json = part, ob_started = True\<rparr>)\<rparr>))"
    if "part \<noteq> []"
    using that position_last [OF new] by (cases part) (simp_all add: choosing call_delta_json_def alloc_def)
  ultimately show ?thesis by auto
qed

section \<open>Chunks as frames\<close>

definition oai_frame :: "json option \<Rightarrow> sse_frame" where
  "oai_frame f = \<lparr>fr_event = None, fr_data = (case f of Some j \<Rightarrow> json_text j | None \<Rightarrow> ''[DONE]'')\<rparr>"

lemma frame_texts: "oai_frame_text = (\<lambda>f. written (oai_frame f))"
  by (rule ext) (simp add: oai_frame_text_def oai_frame_def written_formats written_def split: option.split)

lemma oai_serialized_frames:
  assumes "concat chunks = concat (oai_streamSerialize created includeUsage evs)"
  shows "sseFrames chunks = map oai_frame (oai_write_all (or_else created 0) includeUsage evs oai_writer0)"
proof (rule read_written)
  show "list_all writable (map oai_frame (oai_write_all (or_else created 0) includeUsage evs oai_writer0))"
    by (simp add: list_all_iff writable_def oai_frame_def split: option.split)
  show "concat chunks = concat (map written (map oai_frame (oai_write_all (or_else created 0) includeUsage evs oai_writer0)))"
    by (simp add: assms oai_streamSerialize_def frame_texts comp_def)
qed

lemma chunk_text_not_done: "json_text (oai_chunk_json c w cs m) \<noteq> ''[DONE]''"
  by (simp add: oai_chunk_json_def json_text_JObj del: json_text.simps)

lemma on_chunk_json:
  "oa_started st \<Longrightarrow> oai_on_json (oai_chunk_json c w [ch] []) st = oai_on_choice ch st"
proof -
  assume s: "oa_started st"
  then have same: "st\<lparr>oa_started := True\<rparr> = st" by (cases st) simp
  have "oai_on_json (oai_chunk_json c w [ch] []) st = oai_on_choice ch (st\<lparr>oa_started := True\<rparr>)"
    using s by (simp add: oai_on_json_def oai_chunk_json_def obj_prop_def oai_on_chunk_def Let_def)
  then show ?thesis unfolding same .
qed

lemma parse_chunk:
  assumes "json_ok ch" "oa_started st"
  shows "oai_parse_frames (oai_frame (Some (oai_chunk_json c w [ch] [])) # fs) st =
    (case oai_on_choice ch st of
       (evs, None) \<Rightarrow> (evs, True)
     | (evs, Some st') \<Rightarrow> (case oai_parse_frames fs st' of (evs2, threw) \<Rightarrow> (evs @ evs2, threw)))"
proof -
  have "json_ok (oai_chunk_json c w [ch] [])" using assms(1) by (simp add: oai_chunk_json_def)
  then show ?thesis
    using on_chunk_json [OF assms(2), of c w ch] chunk_text_not_done [of c w "[ch]" "[]"]
    by (simp add: oai_frame_def)
qed

lemma choices_ok:
  "json_ok (oai_choice_json [(''content'', JStr t)] JNull)" "json_ok (call_start_json k tid name)"
  "json_ok (call_delta_json k part)" "json_ok (oai_choice_json [] (JStr fin))"
  "json_ok (oai_choice_json [(''role'', JStr ''assistant'')] JNull)"
  using decimals_of_int [of 0]
  by (simp_all add: oai_choice_json_def call_start_json_def call_delta_json_def)

text \<open>One block, written and read.\<close>

lemma parse_block_choices:
  assumes "oai_streams b" "is_text b \<longrightarrow> KText \<notin> set (keys_of bs)"
  shows "oai_parse_frames (map (\<lambda>ch. oai_frame (Some (oai_chunk_json c w [ch] []))) (block_choices (calls_of bs) b) @ fs)
      (read_state bs) =
    (case oai_parse_frames fs (read_state (bs @ [b])) of (es, t) \<Rightarrow> (delta_events (length bs) b @ es, t))"
proof (cases b)
  case (TextBlock t cc)
  with assms have "t \<noteq> []" "KText \<notin> set (keys_of bs)" by (simp_all add: is_text_def)
  from read_text_choice [OF this, of cc] TextBlock show ?thesis
    by (simp add: block_choices_def parse_chunk choices_ok delta_events_def block_events_def
        del: oai_parse_frames.simps)
next
  case (ToolUse tid name input cc)
  with assms have part: "json_text input \<noteq> []" by (cases input) (simp_all add: streams_def isRecord_def json_text_JObj)
  from read_call_choices [OF refl, of bs tid name "json_text input"] part ToolUse show ?thesis
    by (auto simp: block_choices_def parse_chunk choices_ok delta_events_def block_events_def read_state_snoc
        key_of_def is_call_def open_of_def simp del: oai_parse_frames.simps split: prod.split)
next
  case (ToolUseRaw tid name raw cc)
  with assms have part: "raw \<noteq> []" by (simp add: streams_def)
  from read_call_choices [OF refl, of bs tid name raw] part ToolUseRaw show ?thesis
    by (auto simp: block_choices_def parse_chunk choices_ok delta_events_def block_events_def read_state_snoc
        key_of_def is_call_def open_of_def simp del: oai_parse_frames.simps split: prod.split)
qed (use assms in simp_all)

definition after_write :: "nat \<Rightarrow> content_block \<Rightarrow> oai_writer \<Rightarrow> oai_writer" where
  "after_write i b w =
     (if is_call b then w\<lparr>ow_nextTool := Suc (ow_nextTool w), ow_toolIndex := (ow_toolIndex w)(i \<mapsto> ow_nextTool w)\<rparr> else w)"

lemma write_choices:
  "oai_streams b \<Longrightarrow> oai_write_all c inc (block_events i b @ rest) w =
     map (\<lambda>ch. Some (oai_chunk_json c w [ch] [])) (block_choices (ow_nextTool w) b)
       @ oai_write_all c inc rest (after_write i b w)"
  by (cases b) (simp_all add: block_events_def oai_write_def block_choices_def call_start_json_def call_delta_json_def
      after_write_def is_call_def oai_chunk_json_def or_else_def Let_def)

primrec deltas :: "nat \<Rightarrow> content_block list \<Rightarrow> stream_event list" where
  "deltas i [] = []"
| "deltas i (b # bs) = delta_events i b @ deltas (Suc i) bs"

lemma oai_stream_blocks:
  assumes "list_all oai_streams (ps @ bs)" "length (filter is_text (ps @ bs)) \<le> 1" "ow_nextTool w = calls_of ps"
  shows "\<exists>w'. ow_id w' = ow_id w \<and> ow_model w' = ow_model w \<and> ow_pendingUsage w' = ow_pendingUsage w \<and>
    (\<forall>rest. oai_parse_frames (map oai_frame (oai_write_all c inc (blocks_events (length ps) bs @ rest) w)) (read_state ps) =
      (case oai_parse_frames (map oai_frame (oai_write_all c inc rest w')) (read_state (ps @ bs)) of
         (es, t) \<Rightarrow> (deltas (length ps) bs @ es, t)))"
  using assms
proof (induction bs arbitrary: ps w)
  case Nil
  then show ?case by (intro exI [of _ w]) simp
next
  case (Cons b bs)
  let ?w = "after_write (length ps) b w"
  have b: "oai_streams b" and ps: "list_all oai_streams ps" using Cons.prems(1) by simp_all
  have fresh: "is_text b \<longrightarrow> KText \<notin> set (keys_of ps)"
    using text_key [OF ps] Cons.prems(2) by auto
  have next': "ow_nextTool ?w = calls_of (ps @ [b])" using Cons.prems(3) by (simp add: after_write_def)
  have "list_all oai_streams ((ps @ [b]) @ bs)" "length (filter is_text ((ps @ [b]) @ bs)) \<le> 1"
    using Cons.prems by simp_all
  from Cons.IH [OF this next'] obtain w' where
    w': "ow_id w' = ow_id ?w" "ow_model w' = ow_model ?w" "ow_pendingUsage w' = ow_pendingUsage ?w" and
    p: "\<And>rest. oai_parse_frames (map oai_frame (oai_write_all c inc (blocks_events (length (ps @ [b])) bs @ rest) ?w))
        (read_state (ps @ [b])) =
      (case oai_parse_frames (map oai_frame (oai_write_all c inc rest w')) (read_state ((ps @ [b]) @ bs)) of
         (es, t) \<Rightarrow> (deltas (length (ps @ [b])) bs @ es, t))" by blast
  have taken: "block_events (length ps) b \<noteq> []" using b by (cases b) (simp_all add: block_events_def)
  have "oai_parse_frames (map oai_frame (oai_write_all c inc (blocks_events (length ps) (b # bs) @ rest) w)) (read_state ps) =
      (case oai_parse_frames (map oai_frame (oai_write_all c inc rest w')) (read_state (ps @ b # bs)) of
         (es, t) \<Rightarrow> (deltas (length ps) (b # bs) @ es, t))" for rest
  proof -
    have "map oai_frame (oai_write_all c inc (blocks_events (length ps) (b # bs) @ rest) w) =
        map (\<lambda>ch. oai_frame (Some (oai_chunk_json c w [ch] []))) (block_choices (calls_of ps) b)
          @ map oai_frame (oai_write_all c inc (blocks_events (length (ps @ [b])) bs @ rest) ?w)"
      using taken by (simp add: write_choices [OF b] Cons.prems(3))
    then show ?thesis using p [of rest] by (simp add: parse_block_choices [OF b fresh] split: prod.split)
  qed
  moreover have "ow_id ?w = ow_id w" "ow_model ?w = ow_model w" "ow_pendingUsage ?w = ow_pendingUsage w"
    by (simp_all add: after_write_def)
  ultimately show ?case using w' by auto
qed

section \<open>The whole stream\<close>

lemma read_first_chunk:
  "oai_on_json (oai_chunk_json c w [oai_choice_json [(''role'', JStr ''assistant'')] JNull] []) oai_parser0 =
     ([MessageStart (ow_id w) (ow_model w) None], Some (read_state []))"
  by (simp add: oai_on_json_def oai_chunk_json_def oai_on_chunk_def choosing oai_parser0_def read_state_def keys_of_def)

lemma stopped_call: "oai_streams b \<Longrightarrow> oa_open st i = Some (open_of b) \<Longrightarrow> stop_open st i = [stop_event i b]"
  by (cases b) (auto simp: stop_open_def stop_event_def open_of_def is_call_def text_or_def parseToolArguments_def
      streams_def simp del: json_text.simps split: option.splits)

lemma stops_all:
  assumes "list_all oai_streams bs"
  shows "concat (map (stop_open (read_state bs)) [0..<length bs]) = map (\<lambda>j. stop_event j (bs ! j)) [0..<length bs]"
proof -
  have "stop_open (read_state bs) j = [stop_event j (bs ! j)]" if "j < length bs" for j
    using that assms by (intro stopped_call) (simp_all add: read_state_def list_all_length)
  then have "map (stop_open (read_state bs)) [0..<length bs] = map (\<lambda>j. [stop_event j (bs ! j)]) [0..<length bs]"
    by simp
  then show ?thesis by (simp only: concat_map_singleton)
qed

lemma read_finish_choice:
  assumes "list_all oai_streams bs"
  shows "oai_on_choice (oai_choice_json [] (JStr fin)) (read_state bs) =
    (map (\<lambda>j. stop_event j (bs ! j)) [0..<length bs]
       @ [MessageDelta (Some (stopReasonFromOpenai (Some fin))) (Some fin) None None],
     Some ((read_state bs)\<lparr>oa_open := Map.empty, oa_sawFinish := True\<rparr>))"
  by (simp add: choosing stops_all [OF assms])

lemma usage_leaf_json: "oai_usage_leaf (oai_usage_json v) = v"
proof -
  obtain p c t d where v: "v = \<lparr>prompt_tokens = p, completion_tokens = c, total_tokens = t, prompt_tokens_details = d\<rparr>"
    by (cases v) auto
  show ?thesis
    unfolding v by (cases t; cases d; (cases "the d")?)
      (simp_all add: oai_usage_leaf_def oai_usage_json_def obj_prop_def jopt_def int_leaf_def opt0_def
        opt_prop_def js_prop_def)
qed

definition wire_usage :: "normalized_usage \<Rightarrow> normalized_usage" where
  "wire_usage u = u\<lparr>inputTokens := inputTokens u + opt0 (cacheWriteTokens u), cacheWriteTokens := None\<rparr>"

lemma partial_wire_usage: "partialUsageFromOpenai (usageToOpenai u) = partial_of (wire_usage u)"
  by (cases u) (simp add: partialUsageFromOpenai_def usageFromOpenai_def usageToOpenai_def wire_usage_def opt0_def
      Let_def split: option.splits)

definition usage_tail :: "bool \<Rightarrow> normalized_usage option \<Rightarrow> stream_event list" where
  "usage_tail includeUsage u =
     (case u of
        None \<Rightarrow> []
      | Some u \<Rightarrow> if includeUsage then [MessageDelta None None None (Some (partial_of (wire_usage u)))] else [])"

lemma usage_json_ok: "json_ok (oai_chunk_json c w [] [(''usage'', oai_usage_json u)])"
  by (auto simp: oai_chunk_json_def oai_usage_json_def jopt_def split: option.split)

lemma read_usage_chunk:
  "oa_started st \<Longrightarrow>
   oai_parse_frames (oai_frame (Some (oai_chunk_json c w [] [(''usage'', oai_usage_json (usageToOpenai u))])) # fs) st =
     (case oai_parse_frames fs (st\<lparr>oa_started := True\<rparr>) of
        (es, t) \<Rightarrow> (MessageDelta None None None (Some (partial_of (wire_usage u))) # es, t))"
proof -
  assume s: "oa_started st"
  let ?v = "oai_chunk_json c w [] [(''usage'', oai_usage_json (usageToOpenai u))]"
  obtain kvs where U: "oai_usage_json (usageToOpenai u) = JObj kvs" by (simp add: oai_usage_json_def)
  have "oai_usage_leaf (JObj kvs) = usageToOpenai u" using usage_leaf_json [of "usageToOpenai u"] U by simp
  then have "oai_on_json ?v st = ([MessageDelta None None None (Some (partial_of (wire_usage u)))], Some (st\<lparr>oa_started := True\<rparr>))"
    unfolding U using s by (simp add: oai_on_json_def oai_chunk_json_def obj_prop_def oai_on_chunk_def partial_wire_usage)
  then show ?thesis
    using usage_json_ok [of c w "usageToOpenai u"] chunk_text_not_done [of c w "[]" "[(''usage'', oai_usage_json (usageToOpenai u))]"]
    by (simp add: oai_frame_def)
qed

lemma parse_done: "oai_parse_frames [oai_frame None] st = oai_close st"
  by (simp add: oai_frame_def)

lemma read_tail_frames:
  assumes "oa_started st" "oa_sawFinish st"
    "ow_pendingUsage w = map_option partial_of u"
  shows "oai_parse_frames (map oai_frame (oai_write_all c inc [MessageStop] w)) st = (usage_tail inc u @ [MessageStop], False)"
proof -
  have close: "oai_close (st\<lparr>oa_started := True\<rparr>) = ([MessageStop], False)" "oai_close st = ([MessageStop], False)"
    using assms(2) by (simp_all add: oai_close_def)
  have wire: "usagePartialToWire (partial_of v) = Some (usageToOpenai v)" for v
    by (cases v) (simp add: usagePartialToWire_def partialToNormalized_def partial_of_def)
  show ?thesis
    using assms(1,3) close
    by (cases u) (simp_all add: oai_write_def wire usage_tail_def parse_done read_usage_chunk del: oai_parse_frames.simps)
qed

text \<open>C16 (roundtrip). An answer replayed as Chat Completions chunks is parsed back into itself under
  every cutting of the text: its text and its calls in order (fragments first, then every block
  closed with its finalized call), the stop reason, the usage when the client asked for it, and a
  clean end.\<close>

theorem oai_stream_roundtrip:
  assumes blocks: "list_all oai_streams (rs_content r)" "length (filter is_text (rs_content r)) \<le> 1"
    and stop: "stopReasonToOpenai (rs_stopReason r) (rs_rawStopReason r) = Some fin"
    and chunks: "concat chunks = concat (oai_streamSerialize created includeUsage (responseToStreamEvents r))"
  shows "oai_streamParse chunks =
    (MessageStart (rs_id r) (rs_model r) None
       # deltas 0 (rs_content r)
       @ map (\<lambda>j. stop_event j (rs_content r ! j)) [0..<length (rs_content r)]
       @ MessageDelta (Some (stopReasonFromOpenai (Some fin))) (Some fin) None None
       # usage_tail includeUsage (rs_usage r) @ [MessageStop], False)"
proof -
  let ?bs = "rs_content r" and ?c = "or_else created 0"
  let ?u = "map_option start_usage (rs_usage r)" and ?d = "map_option end_usage (rs_usage r)"
  let ?stop = "MessageDelta (Some (rs_stopReason r)) (rs_rawStopReason r) (rs_stopSequence r) ?d"
  let ?w = "add_usage ?u (oai_writer0\<lparr>ow_id := rs_id r, ow_model := rs_model r\<rparr>)"
  have w0: "ow_nextTool ?w = calls_of []" "ow_id ?w = rs_id r" "ow_model ?w = rs_model r"
    by (simp_all add: add_usage_def oai_writer0_def calls_of_def)
  obtain w' where pend: "ow_pendingUsage w' = ow_pendingUsage ?w" and
    p: "\<And>rest. oai_parse_frames (map oai_frame (oai_write_all ?c includeUsage (blocks_events 0 ?bs @ rest) ?w)) (read_state []) =
      (case oai_parse_frames (map oai_frame (oai_write_all ?c includeUsage rest w')) (read_state ?bs) of
         (es, t) \<Rightarrow> (deltas 0 ?bs @ es, t))"
    using oai_stream_blocks [of "[]" ?bs ?w ?c includeUsage] blocks w0(1) by auto
  let ?w3 = "add_usage ?d w'"
  let ?st = "(read_state ?bs)\<lparr>oa_open := Map.empty, oa_sawFinish := True\<rparr>"
  have pend3: "ow_pendingUsage ?w3 = map_option partial_of (rs_usage r)"
    using pend by (cases "rs_usage r")
      (simp_all add: add_usage_def oai_writer0_def mergePartialUsage_def merge_one_def later_def empty_usage_def
        start_usage_def end_usage_def partial_of_def split: option.splits)
  have tail: "oai_write_all ?c includeUsage [?stop, MessageStop] w' =
      Some (oai_chunk_json ?c ?w3 [oai_choice_json [] (JStr fin)] []) # oai_write_all ?c includeUsage [MessageStop] ?w3"
    using stop by (simp add: oai_write_def jnull_def Let_def)
  have end_in: "oai_parse_frames (map oai_frame (oai_write_all ?c includeUsage [?stop, MessageStop] w')) (read_state ?bs) =
      (map (\<lambda>j. stop_event j (?bs ! j)) [0..<length ?bs]
         @ MessageDelta (Some (stopReasonFromOpenai (Some fin))) (Some fin) None None
         # usage_tail includeUsage (rs_usage r) @ [MessageStop], False)"
    unfolding tail list.map
    using read_tail_frames [of ?st ?w3 "rs_usage r" ?c includeUsage] pend3
    by (simp add: parse_chunk choices_ok read_finish_choice [OF blocks(1)] del: oai_parse_frames.simps oai_write_all.simps)
  have start: "oai_write_all ?c includeUsage (responseToStreamEvents r) oai_writer0 =
      Some (oai_chunk_json ?c ?w [oai_choice_json [(''role'', JStr ''assistant'')] JNull] [])
        # oai_write_all ?c includeUsage (blocks_events 0 ?bs @ [?stop, MessageStop]) ?w"
    by (simp add: responseToStreamEvents_def oai_write_def Let_def)
  have ok: "json_ok (oai_chunk_json ?c ?w [oai_choice_json [(''role'', JStr ''assistant'')] JNull] [])"
    using choices_ok(5) by (simp add: oai_chunk_json_def)
  have "oai_parse_frames (map oai_frame (oai_write_all ?c includeUsage (responseToStreamEvents r) oai_writer0)) oai_parser0 =
      (case oai_parse_frames (map oai_frame (oai_write_all ?c includeUsage (blocks_events 0 ?bs @ [?stop, MessageStop]) ?w)) (read_state []) of
         (es, t) \<Rightarrow> (MessageStart (rs_id r) (rs_model r) None # es, t))"
    unfolding start list.map
    using ok chunk_text_not_done read_first_chunk [of ?c ?w] w0
    by (simp add: oai_frame_def del: oai_write_all.simps)
  then show ?thesis
    unfolding oai_streamParse_def oai_serialized_frames [OF chunks] p end_in by simp
qed

definition demo_oai_stream :: normalized_response where
  "demo_oai_stream = \<lparr>rs_id = ''c1'', rs_model = ''m'', rs_created = None,
     rs_content = [ToolUse ''t1'' ''f'' (JObj []) None, TextBlock ''hi'' None],
     rs_stopReason = StopToolUse, rs_rawStopReason = None, rs_stopSequence = None,
     rs_usage = Some \<lparr>inputTokens = 10, outputTokens = 5, cacheReadTokens = None, cacheWriteTokens = Some 2\<rparr>\<rparr>"

lemma oai_stream_roundtrip_witness:
  "oai_streamParse (map (\<lambda>c. [c]) (concat (oai_streamSerialize (Some 7) True (responseToStreamEvents demo_oai_stream)))) =
    ([MessageStart ''c1'' ''m'' None,
      ToolUseStart 0 ''t1'' ''f'', ToolUseDelta 0 (json_text (JObj [])), TextDelta 1 ''hi'',
      BlockStop 0 (Some (ToolUse ''t1'' ''f'' (JObj []) None)), BlockStop 1 None,
      MessageDelta (Some StopToolUse) (Some ''tool_calls'') None None,
      MessageDelta None None None (Some \<lparr>p_inputTokens = Some 12, p_outputTokens = Some 5, p_cacheReadTokens = None,
        p_cacheWriteTokens = None\<rparr>),
      MessageStop], False)"
proof -
  have "list_all oai_streams (rs_content demo_oai_stream)" "length (filter is_text (rs_content demo_oai_stream)) \<le> 1"
    "stopReasonToOpenai (rs_stopReason demo_oai_stream) (rs_rawStopReason demo_oai_stream) = Some ''tool_calls''"
    by (simp_all add: demo_oai_stream_def streams_def isRecord_def is_text_def stopReasonToOpenai_def)
  note oai_stream_roundtrip [OF this, of "map (\<lambda>c. [c]) (concat (oai_streamSerialize (Some 7) True
    (responseToStreamEvents demo_oai_stream)))" "Some 7" True]
  then show ?thesis
    by (simp add: demo_oai_stream_def stopReasonFromOpenai_def delta_events_def block_events_def stop_event_def
        is_call_def usage_tail_def wire_usage_def partial_of_def opt0_def upt_rec)
qed

end
