(* ===== verification/Pricing.thy ===== *)
theory Pricing
  imports UsageFacts
begin

text \<open>
  \<open>pricing/resolve.ts\<close>: which unit price a request is charged at. The keys of the price catalog
  (the canonical key of a family and a model, the native family behind an aggregator), and the
  precedence of the sources, synchronous and batch. The host of a provider URL is an argument:
  parsing URLs is the runtime's.
\<close>

section \<open>Keys\<close>

text \<open>A property read of an object literal: its own entries, and the members every object inherits.
  A value that is inherited is not a string, so using it as one throws.\<close>

definition inherited :: "string list" where
  "inherited = [''constructor'', ''__proto__'', ''toString'', ''valueOf'', ''hasOwnProperty'', ''isPrototypeOf'',
     ''propertyIsEnumerable'', ''toLocaleString'', ''__defineGetter__'', ''__defineSetter__'',
     ''__lookupGetter__'', ''__lookupSetter__'']"

datatype 'a looked = Undefined | Own 'a | Inherited

definition obj_lookup :: "(string \<times> 'a) list \<Rightarrow> string \<Rightarrow> 'a looked" where
  "obj_lookup table k =
     (case map_of table k of
        Some v \<Rightarrow> Own v
      | None \<Rightarrow> if k \<in> set inherited then Inherited else Undefined)"

definition PROVIDER_FAMILY_HOSTS :: "(string \<times> string) list" where
  "PROVIDER_FAMILY_HOSTS =
     [(''api.openai.com'', ''openai''), (''api.anthropic.com'', ''anthropic''),
      (''generativelanguage.googleapis.com'', ''gemini''), (''api.deepseek.com'', ''deepseek''),
      (''api.mistral.ai'', ''mistral''), (''api.groq.com'', ''groq''), (''openrouter.ai'', ''openrouter''),
      (''api.x.ai'', ''xai''), (''api.cohere.ai'', ''cohere''), (''api.cohere.com'', ''cohere''),
      (''api.together.xyz'', ''together_ai''), (''api.perplexity.ai'', ''perplexity''),
      (''dashscope-intl.aliyuncs.com'', ''dashscope''), (''api.moonshot.ai'', ''moonshot''),
      (''api.minimax.io'', ''minimax''), (''api.z.ai'', ''zai'')]"

definition AGGREGATOR_FAMILIES :: "string list" where
  "AGGREGATOR_FAMILIES = [''openrouter'']"

definition AGGREGATOR_VENDOR_FAMILIES :: "(string \<times> string) list" where
  "AGGREGATOR_VENDOR_FAMILIES =
     [(''minimax'', ''minimax''), (''openai'', ''openai''), (''anthropic'', ''anthropic''),
      (''deepseek'', ''deepseek''), (''mistral'', ''mistral''), (''cohere'', ''cohere''),
      (''perplexity'', ''perplexity''), (''x-ai'', ''xai''), (''google'', ''gemini''),
      (''moonshotai'', ''moonshot''), (''mistralai'', ''mistral'')]"

definition canonicalModelKey :: "string \<Rightarrow> string \<Rightarrow> string" where
  "canonicalModelKey family modelId =
     (let f = js_lower (js_trim family); i = js_lower (js_trim modelId); prefix = f @ ''/'';
          i' = (if starts_with prefix i then drop (length prefix) i else i)
      in f @ '':'' @ i')"

text \<open>The left side is the \<open>TypeError\<close> of using an inherited member as a family name.\<close>

definition deriveNativeFamilyKey :: "string \<Rightarrow> string \<Rightarrow> unit + string option" where
  "deriveNativeFamilyKey billingFamily externalModelId =
     (if js_lower (js_trim billingFamily) \<notin> set AGGREGATOR_FAMILIES then Inr None
      else
        let i = js_lower (js_trim externalModelId) in
        case index_of (CHR ''/'') i of
          None \<Rightarrow> Inr None
        | Some slash \<Rightarrow>
            if slash = 0 \<or> slash = length i - 1 then Inr None
            else
              let vendor = js_trim (take slash i); rest = js_trim (drop (Suc slash) i) in
              if vendor = [] \<or> rest = [] then Inr None
              else case obj_lookup AGGREGATOR_VENDOR_FAMILIES vendor of
                     Undefined \<Rightarrow> Inr None
                   | Inherited \<Rightarrow> Inl ()
                   | Own family \<Rightarrow> Inr (Some (canonicalModelKey family rest)))"

text \<open>\<open>hostname\<close> is the lower-cased host the URL parses to, \<open>None\<close> where it does not parse.\<close>

definition deriveProviderFamily :: "string option \<Rightarrow> string looked" where
  "deriveProviderFamily hostname =
     (case hostname of None \<Rightarrow> Undefined | Some host \<Rightarrow> obj_lookup PROVIDER_FAMILY_HOSTS host)"

definition deriveModelKey :: "string option \<Rightarrow> string \<Rightarrow> unit + string option" where
  "deriveModelKey hostname externalModelId =
     (case deriveProviderFamily hostname of
        Undefined \<Rightarrow> Inr None
      | Inherited \<Rightarrow> Inl ()
      | Own family \<Rightarrow> Inr (Some (canonicalModelKey family externalModelId)))"

section \<open>Resolution\<close>

record price_options =
  po_mode :: price_mode
  listedBatchInputPricePer1m :: "rat option"
  listedBatchOutputPricePer1m :: "rat option"

datatype provider_kind = ApiKeyKind | SubscriptionKind | CustomKind | LocalKind

record price_input =
  providerKind :: provider_kind
  modelInputPricePer1m :: "rat option"
  modelOutputPricePer1m :: "rat option"
  modelIsFree :: bool
  listedInputPricePer1m :: "rat option"
  listedOutputPricePer1m :: "rat option"
  listedIsFree :: bool

record price_row =
  pr_id :: string
  pr_modelKey :: string
  pr_input :: rat
  pr_output :: rat
  pr_cacheRead :: "rat option"
  pr_cacheWrite :: "rat option"
  pr_isFree :: bool
  pr_source :: price_source
  pr_validFrom :: int
  pr_batchInput :: "rat option"
  pr_batchOutput :: "rat option"

text \<open>A price without a catalog version, and the price a row states.\<close>

definition bare_price :: "rat \<Rightarrow> rat \<Rightarrow> bool \<Rightarrow> price_source \<Rightarrow> price_mode \<Rightarrow> price_snapshot" where
  "bare_price i out free src mode =
     \<lparr>ps_priceVersionId = None, ps_modelKey = None, inputPricePer1m = i, outputPricePer1m = out,
      cacheReadPricePer1m = None, cacheWritePricePer1m = None, isFree = free, ps_source = src,
      ps_validFrom = None, ps_mode = mode\<rparr>"

definition row_price :: "price_row \<Rightarrow> price_source \<Rightarrow> price_snapshot" where
  "row_price row src =
     \<lparr>ps_priceVersionId = Some (pr_id row), ps_modelKey = Some (pr_modelKey row), inputPricePer1m = pr_input row,
      outputPricePer1m = pr_output row, cacheReadPricePer1m = pr_cacheRead row,
      cacheWritePricePer1m = pr_cacheWrite row, isFree = pr_isFree row, ps_source = src,
      ps_validFrom = Some (pr_validFrom row), ps_mode = PriceSync\<rparr>"

definition batch_row_price :: "price_row \<Rightarrow> price_source \<Rightarrow> price_snapshot option" where
  "batch_row_price row src =
     (case (pr_batchInput row, pr_batchOutput row) of
        (Some i, Some out) \<Rightarrow>
          Some \<lparr>ps_priceVersionId = Some (pr_id row), ps_modelKey = Some (pr_modelKey row), inputPricePer1m = i,
            outputPricePer1m = out, cacheReadPricePer1m = None, cacheWritePricePer1m = None,
            isFree = (i = 0 \<and> out = 0), ps_source = src, ps_validFrom = Some (pr_validFrom row), ps_mode = PriceBatch\<rparr>
      | _ \<Rightarrow> None)"

definition resolveBatchPrice ::
  "price_row option \<Rightarrow> price_row option \<Rightarrow> price_options \<Rightarrow> price_snapshot option" where
  "resolveBatchPrice catalogRow nativeCatalogRow opts =
     (case Option.bind catalogRow (\<lambda>row. batch_row_price row (pr_source row)) of
        Some exact \<Rightarrow> Some exact
      | None \<Rightarrow>
          (case Option.bind nativeCatalogRow (\<lambda>row. batch_row_price row PsNativeFamily) of
             Some native \<Rightarrow> Some native
           | None \<Rightarrow>
               (case (listedBatchInputPricePer1m opts, listedBatchOutputPricePer1m opts) of
                  (Some li, Some lo) \<Rightarrow> Some (bare_price li lo (li = 0 \<and> lo = 0) PsListed PriceBatch)
                | _ \<Rightarrow> None)))"

definition own_price :: "price_input \<Rightarrow> price_snapshot option" where
  "own_price input =
     (if providerKind input = CustomKind \<or> providerKind input = LocalKind then
        case (modelInputPricePer1m input, modelOutputPricePer1m input) of
          (Some i, Some out) \<Rightarrow> Some (bare_price i out (modelIsFree input) PsModel PriceSync)
        | _ \<Rightarrow> None
      else None)"

definition listed_price :: "price_input \<Rightarrow> price_snapshot option" where
  "listed_price input =
     (case (listedInputPricePer1m input, listedOutputPricePer1m input) of
        (Some i, Some out) \<Rightarrow>
          if \<not> (i = 0 \<and> out = 0) \<or> listedIsFree input
          then Some (bare_price i out (listedIsFree input) PsListed PriceSync)
          else None
      | _ \<Rightarrow> None)"

definition resolveModelPrice ::
  "price_input \<Rightarrow> price_row option \<Rightarrow> price_row option \<Rightarrow> price_options \<Rightarrow> price_snapshot option" where
  "resolveModelPrice input catalogRow nativeCatalogRow opts =
     (if po_mode opts = PriceBatch then resolveBatchPrice catalogRow nativeCatalogRow opts
      else case own_price input of
        Some own \<Rightarrow> Some own
      | None \<Rightarrow>
          if providerKind input = LocalKind then Some (bare_price 0 0 True PsLocal PriceSync)
          else case catalogRow of
            Some row \<Rightarrow> Some (row_price row (pr_source row))
          | None \<Rightarrow>
              (case nativeCatalogRow of
                 Some row \<Rightarrow> Some (row_price row PsNativeFamily)
               | None \<Rightarrow> listed_price input))"

section \<open>What resolution guarantees\<close>

text \<open>Key derivation canonicalizes once: a key built from a canonical model name is itself.\<close>

lemma inherited_vendor_throws: "deriveNativeFamilyKey ''openrouter'' ''constructor/x'' = Inl ()"
  "deriveModelKey (Some ''constructor'') ''x'' = Inl ()"
  by code_simp+

text \<open>Who may quote a price, in the order they are asked: the first two halves and the row a quote is
  versioned by, if it has one. A synchronous price may come from the user's own entry on custom and
  local providers, then a local model is free, then the catalog row, the row of the native family and
  the provider's list (unless it lists zeros without saying free). A batch price may come from the
  batch rates of the two rows and of the list only.\<close>

record quote =
  q_source :: price_source
  q_row :: "price_row option"
  q_in :: "rat option"
  q_out :: "rat option"
  q_free :: bool

definition both_zero :: "rat option \<Rightarrow> rat option \<Rightarrow> bool" where
  "both_zero i out = (i = Some 0 \<and> out = Some 0)"

definition sync_quotes :: "price_input \<Rightarrow> price_row option \<Rightarrow> price_row option \<Rightarrow> quote list" where
  "sync_quotes input row native =
     [q. k \<leftarrow> [CustomKind, LocalKind], k = providerKind input,
         q \<leftarrow> [\<lparr>q_source = PsModel, q_row = None, q_in = modelInputPricePer1m input,
                 q_out = modelOutputPricePer1m input, q_free = modelIsFree input\<rparr>]]
     @ (if providerKind input = LocalKind
        then [\<lparr>q_source = PsLocal, q_row = None, q_in = Some 0, q_out = Some 0, q_free = True\<rparr>]
        else
          (case row of None \<Rightarrow> [] | Some r \<Rightarrow>
             [\<lparr>q_source = pr_source r, q_row = row, q_in = Some (pr_input r), q_out = Some (pr_output r),
                q_free = pr_isFree r\<rparr>])
          @ (case native of None \<Rightarrow> [] | Some r \<Rightarrow>
               [\<lparr>q_source = PsNativeFamily, q_row = native, q_in = Some (pr_input r), q_out = Some (pr_output r),
                  q_free = pr_isFree r\<rparr>])
          @ (if both_zero (listedInputPricePer1m input) (listedOutputPricePer1m input) \<and> \<not> listedIsFree input
             then []
             else [\<lparr>q_source = PsListed, q_row = None, q_in = listedInputPricePer1m input,
                     q_out = listedOutputPricePer1m input, q_free = listedIsFree input\<rparr>]))"

definition batch_quotes :: "price_row option \<Rightarrow> price_row option \<Rightarrow> price_options \<Rightarrow> quote list" where
  "batch_quotes row native opts =
     (case row of None \<Rightarrow> [] | Some r \<Rightarrow>
        [\<lparr>q_source = pr_source r, q_row = row, q_in = pr_batchInput r, q_out = pr_batchOutput r,
           q_free = both_zero (pr_batchInput r) (pr_batchOutput r)\<rparr>])
     @ (case native of None \<Rightarrow> [] | Some r \<Rightarrow>
          [\<lparr>q_source = PsNativeFamily, q_row = native, q_in = pr_batchInput r, q_out = pr_batchOutput r,
             q_free = both_zero (pr_batchInput r) (pr_batchOutput r)\<rparr>])
     @ [\<lparr>q_source = PsListed, q_row = None, q_in = listedBatchInputPricePer1m opts,
           q_out = listedBatchOutputPricePer1m opts,
           q_free = both_zero (listedBatchInputPricePer1m opts) (listedBatchOutputPricePer1m opts)\<rparr>]"

definition price_quotes ::
  "price_input \<Rightarrow> price_row option \<Rightarrow> price_row option \<Rightarrow> price_options \<Rightarrow> quote list" where
  "price_quotes input row native opts =
     (case po_mode opts of
        PriceBatch \<Rightarrow> batch_quotes row native opts
      | PriceSync \<Rightarrow> sync_quotes input row native)"

definition both_halves :: "quote \<Rightarrow> bool" where
  "both_halves q = (q_in q \<noteq> None \<and> q_out q \<noteq> None)"

text \<open>A resolved price states a quote: both rates, the version and the provenance are the quote's own;
  cache rates come from the versioned row and only for a synchronous price.\<close>

definition states_quote :: "price_mode \<Rightarrow> quote \<Rightarrow> price_snapshot \<Rightarrow> bool" where
  "states_quote mode q p =
     (q_in q = Some (inputPricePer1m p) \<and> q_out q = Some (outputPricePer1m p) \<and>
      isFree p = q_free q \<and> ps_source p = q_source q \<and> ps_mode p = mode \<and>
      ps_priceVersionId p = map_option pr_id (q_row q) \<and>
      ps_modelKey p = map_option pr_modelKey (q_row q) \<and>
      ps_validFrom p = map_option pr_validFrom (q_row q) \<and>
      cacheReadPricePer1m p = (if mode = PriceSync then Option.bind (q_row q) pr_cacheRead else None) \<and>
      cacheWritePricePer1m p = (if mode = PriceSync then Option.bind (q_row q) pr_cacheWrite else None))"

lemma resolveBatchPrice_first:
  "rel_option (states_quote PriceBatch) (find both_halves (batch_quotes row native opts))
     (resolveBatchPrice row native opts)"
  by (cases row; cases native)
    (auto simp: resolveBatchPrice_def batch_quotes_def both_halves_def states_quote_def batch_row_price_def
      bare_price_def both_zero_def split: option.splits)

lemma resolveSyncPrice_first:
  assumes "po_mode opts = PriceSync"
  shows "rel_option (states_quote PriceSync) (find both_halves (sync_quotes input row native))
     (resolveModelPrice input row native opts)"
  using assms
  by (cases row; cases native; cases "providerKind input")
    (auto simp: resolveModelPrice_def sync_quotes_def both_halves_def states_quote_def own_price_def
      row_price_def listed_price_def bare_price_def both_zero_def split: option.splits if_splits)

lemma find_first: "find P xs = Some x \<Longrightarrow> \<exists>ys zs. xs = ys @ x # zs \<and> P x \<and> (\<forall>y\<in>set ys. \<not> P y)"
proof (induction xs)
  case (Cons a xs)
  show ?case
  proof (cases "P a")
    case True
    with Cons.prems show ?thesis by (intro exI [of _ "[]"] exI [of _ xs]) simp
  next
    case False
    with Cons obtain ys zs where "xs = ys @ x # zs" "P x" "\<forall>y\<in>set ys. \<not> P y" by auto
    with False show ?thesis by (intro exI [of _ "a # ys"] exI [of _ zs]) simp
  qed
qed simp

text \<open>C37 (safety). A price is never guessed. It is, word for word, the first quote in the order of
  precedence that has both halves: its two rates (not swapped, and neither half filled in), whether it
  is free, its provenance and its catalog version are those of that one quote, every quote asked before
  it lacked a half, and in batch mode only batch rates are asked. Without a complete quote there is no
  price.\<close>

theorem price_never_guessed:
  "(resolveModelPrice input row native opts = None)
     = (\<forall>q \<in> set (price_quotes input row native opts). \<not> both_halves q)
   \<and> (\<forall>p. resolveModelPrice input row native opts = Some p \<longrightarrow>
        (\<exists>earlier q later. price_quotes input row native opts = earlier @ q # later
          \<and> (\<forall>x \<in> set earlier. \<not> both_halves x) \<and> states_quote (po_mode opts) q p))"
proof -
  have first: "rel_option (states_quote (po_mode opts)) (find both_halves (price_quotes input row native opts))
      (resolveModelPrice input row native opts)"
  proof (cases "po_mode opts")
    case PriceBatch
    then show ?thesis
      using resolveBatchPrice_first by (simp add: price_quotes_def resolveModelPrice_def)
  next
    case PriceSync
    then show ?thesis using resolveSyncPrice_first by (simp add: price_quotes_def)
  qed
  show ?thesis
  proof (cases "find both_halves (price_quotes input row native opts)")
    case None
    with first show ?thesis by (auto simp: find_None_iff)
  next
    case (Some q)
    with first obtain p where "resolveModelPrice input row native opts = Some p"
      "states_quote (po_mode opts) q p" by (auto simp: option_rel_Some1)
    moreover from find_first [OF Some] obtain earlier later where
      "price_quotes input row native opts = earlier @ q # later" "both_halves q"
      "\<forall>x \<in> set earlier. \<not> both_halves x" by blast
    ultimately show ?thesis by fastforce
  qed
qed

text \<open>A batch model whose catalog row has half a batch price only is priced by the provider's list; one
  whose list is halved too has no price.\<close>

definition demo_row :: price_row where
  "demo_row = \<lparr>pr_id = ''v1'', pr_modelKey = ''openai/m'', pr_input = 2, pr_output = 8, pr_cacheRead = None,
     pr_cacheWrite = None, pr_isFree = False, pr_source = PsBundled, pr_validFrom = 0,
     pr_batchInput = Some 1, pr_batchOutput = None\<rparr>"

definition demo_input :: price_input where
  "demo_input = \<lparr>providerKind = ApiKeyKind, modelInputPricePer1m = None, modelOutputPricePer1m = None,
     modelIsFree = False, listedInputPricePer1m = None, listedOutputPricePer1m = None, listedIsFree = False\<rparr>"

lemma price_never_guessed_witness:
  "resolveModelPrice demo_input (Some demo_row) None
     \<lparr>po_mode = PriceBatch, listedBatchInputPricePer1m = Some 3, listedBatchOutputPricePer1m = Some 5\<rparr>
     = Some (bare_price 3 5 False PsListed PriceBatch)
   \<and> (\<exists>earlier q later. price_quotes demo_input (Some demo_row) None
        \<lparr>po_mode = PriceBatch, listedBatchInputPricePer1m = Some 3, listedBatchOutputPricePer1m = Some 5\<rparr>
        = earlier @ q # later \<and> (\<forall>x \<in> set earlier. \<not> both_halves x)
        \<and> states_quote PriceBatch q (bare_price 3 5 False PsListed PriceBatch))"
proof -
  let ?o = "\<lparr>po_mode = PriceBatch, listedBatchInputPricePer1m = Some 3, listedBatchOutputPricePer1m = Some 5\<rparr>"
  have r: "resolveModelPrice demo_input (Some demo_row) None ?o = Some (bare_price 3 5 False PsListed PriceBatch)"
    by (simp add: resolveModelPrice_def resolveBatchPrice_def batch_row_price_def demo_row_def)
  show ?thesis
    using price_never_guessed [of demo_input "Some demo_row" None ?o] r by simp
qed

end
