(* ===== verification/Period.thy ===== *)
theory Period
  imports JsonText
begin

text \<open>
  \<open>budgets/period.ts\<close> and \<open>budgets/progress-math.ts\<close>: the UTC calendar periods of spend budgets,
  money in integer micro-dollars, and the arithmetic of a budget's progress. The date functions
  of the runtime (\<open>Date.UTC\<close>, \<open>getUTCFullYear\<close>, \<open>getUTCMonth\<close>, \<open>getUTCDate\<close>, \<open>getUTCDay\<close>) are
  written out over integer milliseconds, as the language defines them; the theorem
  \<open>period_names_its_instants\<close> says that a period id and the bounds beside it agree.
\<close>

section \<open>The calendar of the runtime\<close>

definition DAY_MS :: int where "DAY_MS = 86400000"

definition day_from_year :: "int \<Rightarrow> int" where
  "day_from_year y = 365 * (y - 1970) + (y - 1969) div 4 - (y - 1901) div 100 + (y - 1601) div 400"

definition leap_year :: "int \<Rightarrow> bool" where
  "leap_year y = (y mod 4 = 0 \<and> (y mod 100 \<noteq> 0 \<or> y mod 400 = 0))"

text \<open>The day of the year a month starts on; month 12 is the end of the year.\<close>

definition month_start :: "bool \<Rightarrow> int \<Rightarrow> int" where
  "month_start leap m =
     [0, 31, 59, 90, 120, 151, 181, 212, 243, 273, 304, 334, 365] ! nat m + (if leap \<and> 2 \<le> m then 1 else 0)"

definition day_of :: "int \<Rightarrow> int" where "day_of t = t div DAY_MS"

text \<open>The year of a day: the mean length of a year is right up to one year either way.\<close>

definition year_of_day :: "int \<Rightarrow> int" where
  "year_of_day d =
     (let y = 1970 + (400 * d) div 146097 in
      if d < day_from_year y then y - 1 else if day_from_year (y + 1) \<le> d then y + 1 else y)"

definition month_of_yday :: "bool \<Rightarrow> int \<Rightarrow> int" where
  "month_of_yday leap n =
     (if n < month_start leap 1 then 0 else if n < month_start leap 2 then 1
      else if n < month_start leap 3 then 2 else if n < month_start leap 4 then 3
      else if n < month_start leap 5 then 4 else if n < month_start leap 6 then 5
      else if n < month_start leap 7 then 6 else if n < month_start leap 8 then 7
      else if n < month_start leap 9 then 8 else if n < month_start leap 10 then 9
      else if n < month_start leap 11 then 10 else 11)"

definition getUTCFullYear :: "int \<Rightarrow> int" where "getUTCFullYear t = year_of_day (day_of t)"

definition yday :: "int \<Rightarrow> int" where
  "yday t = day_of t - day_from_year (getUTCFullYear t)"

definition getUTCMonth :: "int \<Rightarrow> int" where
  "getUTCMonth t = month_of_yday (leap_year (getUTCFullYear t)) (yday t)"

definition getUTCDate :: "int \<Rightarrow> int" where
  "getUTCDate t = yday t - month_start (leap_year (getUTCFullYear t)) (getUTCMonth t) + 1"

definition getUTCDay :: "int \<Rightarrow> int" where "getUTCDay t = (day_of t + 4) mod 7"

text \<open>\<open>Date.UTC\<close> carries months past December into the next years, and reads the years 0 to 99 as
  those of the last century.\<close>

definition Date_UTC :: "int \<Rightarrow> int \<Rightarrow> int \<Rightarrow> int" where
  "Date_UTC year m d =
     (let y0 = (if 0 \<le> year \<and> year \<le> 99 then 1900 + year else year);
          y = y0 + m div 12
      in (day_from_year y + month_start (leap_year y) (m mod 12) + d - 1) * DAY_MS)"

section \<open>Periods\<close>

datatype budget_window = Day | Week | Month

record period_info =
  periodId :: string
  startMs :: int
  endMs :: int

definition js_round :: "rat \<Rightarrow> int" where "js_round q = \<lfloor>q + 1 / 2\<rfloor>"

definition toMicros :: "rat \<Rightarrow> int" where "toMicros usd = js_round (usd * 1000000)"

definition pad2 :: "int \<Rightarrow> string" where
  "pad2 n = (if n < 10 then CHR ''0'' # show_int n else show_int n)"

definition week_period :: "int \<Rightarrow> int \<Rightarrow> int \<Rightarrow> period_info" where
  "week_period y m d =
     (let dayStartMs = Date_UTC y m d;
          isoDow = (getUTCDay dayStartMs + 6) mod 7;
          mondayMs = dayStartMs - isoDow * DAY_MS;
          isoYear = getUTCFullYear (mondayMs + 3 * DAY_MS);
          jan4Ms = Date_UTC isoYear 0 4;
          jan4Dow = (getUTCDay jan4Ms + 6) mod 7;
          week1MondayMs = jan4Ms - jan4Dow * DAY_MS;
          weekNum = js_round (of_int (mondayMs - week1MondayMs) / of_int (7 * DAY_MS)) + 1
      in \<lparr>periodId = show_int isoYear @ ''-W'' @ pad2 weekNum, startMs = mondayMs,
          endMs = mondayMs + 7 * DAY_MS\<rparr>)"

definition periodInfo :: "budget_window \<Rightarrow> int \<Rightarrow> period_info" where
  "periodInfo window t =
     (let y = getUTCFullYear t; m = getUTCMonth t; d = getUTCDate t in
      case window of
        Day \<Rightarrow> \<lparr>periodId = show_int y @ ''-'' @ pad2 (m + 1) @ ''-'' @ pad2 d,
                startMs = Date_UTC y m d, endMs = Date_UTC y m (d + 1)\<rparr>
      | Month \<Rightarrow> \<lparr>periodId = show_int y @ ''-'' @ pad2 (m + 1),
                startMs = Date_UTC y m 1, endMs = Date_UTC y (m + 1) 1\<rparr>
      | Week \<Rightarrow> week_period y m d)"

lemma week_spans_new_year:
  "periodInfo Week 1735689599999 = \<lparr>periodId = ''2025-W01'', startMs = 1735516800000, endMs = 1736121600000\<rparr>"
  by code_simp

lemma leap_day: "periodId (periodInfo Day 1709208000000) = ''2024-02-29''"
  by code_simp

section \<open>Years and months\<close>

lemma div_bounds: "0 < (n::int) \<Longrightarrow> n * (x div n) \<le> x \<and> x < n * (x div n) + n"
  by (metis mult.commute mult_div_mod_eq pos_mod_bound pos_mod_sign add_le_same_cancel1 add.commute
      add_less_cancel_left le_add_same_cancel1)

lemma div_step:
  assumes "0 < (n::int)"
  shows "(x + 1) div n = x div n + (if (x + 1) mod n = 0 then 1 else 0)"
proof (cases "x mod n = n - 1")
  case True
  then have "x + 1 = n * (x div n + 1)"
    using mult_div_mod_eq [of n x] by (simp add: distrib_left)
  with assms show ?thesis by simp
next
  case False
  with assms have "0 \<le> x mod n + 1" "x mod n + 1 < n"
    using pos_mod_sign [of n x] pos_mod_bound [of n x] by linarith+
  moreover have x: "x + 1 = n * (x div n) + (x mod n + 1)"
    using mult_div_mod_eq [of n x] by simp
  ultimately have "(x + 1) div n = x div n \<and> (x + 1) mod n = x mod n + 1"
    by (metis int_div_pos_eq int_mod_pos_eq)
  then show ?thesis using pos_mod_sign [OF assms, of x] by simp
qed

lemma leap_sum:
  fixes A :: int
  assumes "A' = A + (if p then 1 else 0)" "B' = B + (if q then 1 else 0)" "C' = C + (if r then 1 else 0)"
    "r \<Longrightarrow> q" "q \<Longrightarrow> p" "X' = z + 365 + A' - B' + C'" "X = z + A - B + C"
  shows "X' = X + 365 + (if p \<and> (\<not> q \<or> r) then 1 else 0)"
  by (cases p; cases q; cases r) (use assms in simp_all)

lemma year_after: "day_from_year (y + 1) = day_from_year y + 365 + (if leap_year y then 1 else 0)"
proof -
  have "(y - 1968) div 4 = (y - 1969) div 4 + (if y mod 4 = 0 then 1 else 0)"
    using div_step [of 4 "y - 1969"] mod_diff_cong [of y 4 y 1968 0] by (simp add: mod_diff_right_eq)
  moreover have "(y - 1900) div 100 = (y - 1901) div 100 + (if y mod 100 = 0 then 1 else 0)"
    using div_step [of 100 "y - 1901"] mod_diff_cong [of y 100 y 1900 0] by simp
  moreover have "(y - 1600) div 400 = (y - 1601) div 400 + (if y mod 400 = 0 then 1 else 0)"
    using div_step [of 400 "y - 1601"] mod_diff_cong [of y 400 y 1600 0] by simp
  moreover have "y mod 400 = 0 \<Longrightarrow> y mod 100 = 0" "y mod 100 = 0 \<Longrightarrow> y mod 4 = 0"
    by (auto simp: mod_eq_0_iff_dvd intro: dvd_trans [of _ 400] dvd_trans [of _ 100])
  moreover have "day_from_year (y + 1) = 365 * (y - 1970) + 365 + (y - 1968) div 4 - (y - 1900) div 100 + (y - 1600) div 400"
    by (simp add: day_from_year_def)
  moreover have "day_from_year y = 365 * (y - 1970) + (y - 1969) div 4 - (y - 1901) div 100 + (y - 1601) div 400"
    by (simp add: day_from_year_def)
  ultimately show ?thesis unfolding leap_year_def by (rule leap_sum)
qed

lemma year_before: "day_from_year y = day_from_year (y - 1) + 365 + (if leap_year (y - 1) then 1 else 0)"
  using year_after [of "y - 1"] by simp

lemma mean_year:
  "146097 * k - 506 \<le> 400 * day_from_year (1970 + k)" "400 * day_from_year (1970 + k) \<le> 146097 * k + 589"
proof -
  have "4 * ((k + 1) div 4) \<le> k + 1 \<and> k + 1 \<le> 4 * ((k + 1) div 4) + 3"
    "100 * ((k + 69) div 100) \<le> k + 69 \<and> k + 69 \<le> 100 * ((k + 69) div 100) + 99"
    "400 * ((k + 369) div 400) \<le> k + 369 \<and> k + 369 \<le> 400 * ((k + 369) div 400) + 399"
    using div_bounds [of 4 "k + 1"] div_bounds [of 100 "k + 69"] div_bounds [of 400 "k + 369"] by simp_all
  then show "146097 * k - 506 \<le> 400 * day_from_year (1970 + k)"
    "400 * day_from_year (1970 + k) \<le> 146097 * k + 589"
    by (simp_all add: day_from_year_def add.commute)
qed

lemma year_of_day_bounds: "day_from_year (year_of_day d) \<le> d \<and> d < day_from_year (year_of_day d + 1)"
proof -
  define q where "q = (400 * d) div 146097"
  have q: "146097 * q \<le> 400 * d" "400 * d < 146097 * q + 146097"
    using div_bounds [of 146097 "400 * d"] by (simp_all add: q_def)
  have "day_from_year (1970 + (q - 1)) \<le> d"
    using q(1) mean_year(2) [of "q - 1"] by (simp add: algebra_simps)
  moreover have "d < day_from_year (1970 + (q + 2))"
    using q(2) mean_year(1) [of "q + 2"] by (simp add: algebra_simps)
  ultimately have "day_from_year (1970 + q - 1) \<le> d" "d < day_from_year (1970 + q + 1 + 1)"
    by (simp_all add: algebra_simps)
  then show ?thesis
    unfolding year_of_day_def q_def [symmetric] Let_def by auto
qed

lemma day_from_year_mono: "y \<le> z \<Longrightarrow> day_from_year y + 365 * (z - y) \<le> day_from_year z"
  by (induction z rule: int_ge_induct) (simp_all add: year_after algebra_simps)

lemma year_of_day_unique:
  assumes "day_from_year y \<le> d" "d < day_from_year (y + 1)"
  shows "year_of_day d = y"
  using assms year_of_day_bounds [of d] day_from_year_mono [of "y + 1" "year_of_day d"]
    day_from_year_mono [of "year_of_day d + 1" y] by (cases y "year_of_day d" rule: linorder_cases) auto

definition month_len_ok :: "bool \<Rightarrow> int \<Rightarrow> int \<Rightarrow> bool" where
  "month_len_ok leap n m = (0 \<le> m \<and> m \<le> 11 \<and> month_start leap m \<le> n \<and> n < month_start leap (m + 1))"

lemma month_start_table:
  "\<forall>leap \<in> {True, False}. \<forall>m \<in> set [0..11]. \<forall>k \<in> set [m + 1..12]. month_start leap m + 28 \<le> month_start leap k"
  by code_simp

lemma month_start_mono:
  assumes "0 \<le> m" "m < k" "k \<le> 12"
  shows "month_start leap m + 28 \<le> month_start leap k"
proof -
  have "m \<in> set [0..11]" "k \<in> set [m + 1..12]" using assms by simp_all
  then show ?thesis using month_start_table by (cases leap) blast+
qed

lemma month_start_0 [simp]: "month_start leap 0 = 0"
  by (simp add: month_start_def)

lemma month_start_12: "month_start leap 12 = 365 + (if leap then 1 else 0)"
  by (simp add: month_start_def)

lemma month_of_yday_ok:
  assumes "0 \<le> n" "n < 365 + (if leap then 1 else 0)"
  shows "month_len_ok leap n (month_of_yday leap n)"
  using assms month_start_12 [of leap]
  by (simp add: month_len_ok_def month_of_yday_def not_less)

lemma month_unique: "month_len_ok leap n m \<Longrightarrow> month_len_ok leap n k \<Longrightarrow> m = k"
  using month_start_mono [of "m + 1" k leap] month_start_mono [of "k + 1" m leap]
  unfolding month_len_ok_def by (smt (verit))


section \<open>What a period is\<close>

lemma yday_bounds: "0 \<le> yday t \<and> yday t < 365 + (if leap_year (getUTCFullYear t) then 1 else 0)"
  using year_of_day_bounds [of "day_of t"] year_after [of "getUTCFullYear t"]
  by (simp add: yday_def getUTCFullYear_def)

lemma month_ok: "month_len_ok (leap_year (getUTCFullYear t)) (yday t) (getUTCMonth t)"
  using yday_bounds [of t] by (simp add: getUTCMonth_def month_of_yday_ok)

lemma day_split:
  "day_of t = day_from_year (getUTCFullYear t) +
     month_start (leap_year (getUTCFullYear t)) (getUTCMonth t) + getUTCDate t - 1"
  by (simp add: getUTCDate_def yday_def)

lemma year_ge_1970: "0 \<le> t \<Longrightarrow> 1970 \<le> getUTCFullYear t"
proof (rule ccontr)
  assume "0 \<le> t" "\<not> 1970 \<le> getUTCFullYear t"
  then have "day_from_year (getUTCFullYear t + 1) \<le> day_from_year 1970" "0 \<le> day_of t"
    using day_from_year_mono [of "getUTCFullYear t + 1" 1970] by (simp_all add: day_of_def DAY_MS_def)
  moreover have "day_from_year 1970 = 0" by (simp add: day_from_year_def)
  ultimately show False using year_of_day_bounds [of "day_of t"] by (simp add: getUTCFullYear_def)
qed

lemma Date_UTC_plain:
  "1970 \<le> y \<Longrightarrow> 0 \<le> m \<Longrightarrow> m \<le> 11 \<Longrightarrow>
     Date_UTC y m d = (day_from_year y + month_start (leap_year y) m + d - 1) * DAY_MS"
  by (simp add: Date_UTC_def)

lemma Date_UTC_next_month:
  assumes "1970 \<le> y" "0 \<le> m" "m \<le> 11"
  shows "Date_UTC y (m + 1) 1 = (day_from_year y + month_start (leap_year y) (m + 1)) * DAY_MS"
proof (cases "m = 11")
  case True
  with assms show ?thesis
    by (simp add: Date_UTC_def year_after month_start_def nth_Cons')
next
  case False
  with assms show ?thesis by (simp add: Date_UTC_plain)
qed

lemma day_interval: "day_of t = d \<longleftrightarrow> d * DAY_MS \<le> t \<and> t < (d + 1) * DAY_MS"
  using div_bounds [of DAY_MS t] unfolding day_of_def
  by (auto simp: DAY_MS_def)

lemma days_interval: "a \<le> day_of t \<and> day_of t < b \<longleftrightarrow> a * DAY_MS \<le> t \<and> t < b * DAY_MS"
  using div_bounds [of DAY_MS t] unfolding day_of_def DAY_MS_def by auto

lemma day_of_scaled [simp]: "day_of (d * DAY_MS) = d"
  by (simp add: day_of_def DAY_MS_def)

lemma day_period:
  assumes "0 \<le> t"
  shows "startMs (periodInfo Day t) = day_of t * DAY_MS" "endMs (periodInfo Day t) = (day_of t + 1) * DAY_MS"
  using year_ge_1970 [OF assms] month_ok [of t] day_split [of t]
  by (simp_all add: periodInfo_def Let_def month_len_ok_def Date_UTC_plain)

lemma month_period:
  assumes "0 \<le> t"
  defines "y \<equiv> getUTCFullYear t" and "m \<equiv> getUTCMonth t"
  shows "startMs (periodInfo Month t) = (day_from_year y + month_start (leap_year y) m) * DAY_MS"
    "endMs (periodInfo Month t) = (day_from_year y + month_start (leap_year y) (m + 1)) * DAY_MS"
  using year_ge_1970 [OF assms(1)] month_ok [of t]
  by (simp_all add: periodInfo_def Let_def month_len_ok_def Date_UTC_plain Date_UTC_next_month y_def m_def)

definition monday :: "int \<Rightarrow> int" where "monday d = d - (d + 3) mod 7"

definition iso_year :: "int \<Rightarrow> int" where "iso_year mon = year_of_day (mon + 3)"

definition week_no :: "int \<Rightarrow> int" where
  "week_no mon = (mon - monday (day_from_year (iso_year mon) + 3)) div 7 + 1"

lemma weekday_shift: "((d + 4) mod 7 + 6) mod 7 = (d + 3) mod (7::int)"
  by presburger

lemma js_round_exact: "js_round (of_int (a * 7 * k) / of_int (7 * k)) = a" if "k \<noteq> (0::int)"
  using that by (simp add: js_round_def floor_eq_iff)

lemma week_period_eq:
  assumes "0 \<le> t"
  defines "mon \<equiv> monday (day_of t)"
  shows "periodInfo Week t = \<lparr>periodId = show_int (iso_year mon) @ ''-W'' @ pad2 (week_no mon),
     startMs = mon * DAY_MS, endMs = (mon + 7) * DAY_MS\<rparr>"
proof -
  let ?y = "getUTCFullYear t" and ?m = "getUTCMonth t" and ?d = "getUTCDate t"
  have start: "Date_UTC ?y ?m ?d = day_of t * DAY_MS"
    using year_ge_1970 [OF assms(1)] month_ok [of t] day_split [of t]
    by (simp add: month_len_ok_def Date_UTC_plain)
  have mon: "day_of t * DAY_MS - (getUTCDay (day_of t * DAY_MS) + 6) mod 7 * DAY_MS = mon * DAY_MS"
    by (simp add: getUTCDay_def weekday_shift mon_def monday_def left_diff_distrib)
  have "0 \<le> mon + 3"
    using assms(1) zmod_le_nonneg_dividend [of "day_of t + 3" 7] unfolding mon_def monday_def
    by (simp add: day_of_def DAY_MS_def)
  then have "1970 \<le> iso_year mon"
    using year_ge_1970 [of "(mon + 3) * DAY_MS"] by (simp add: iso_year_def getUTCFullYear_def DAY_MS_def day_of_def)
  then have jan4: "Date_UTC (iso_year mon) 0 4 = (day_from_year (iso_year mon) + 3) * DAY_MS"
    by (simp add: Date_UTC_plain)
  have iso: "getUTCFullYear (mon * DAY_MS + 3 * DAY_MS) = iso_year mon"
    by (simp add: getUTCFullYear_def iso_year_def distrib_right [symmetric])
  define w where "w = monday (day_from_year (iso_year mon) + 3)"
  have week1: "(day_from_year (iso_year mon) + 3) * DAY_MS
      - (getUTCDay ((day_from_year (iso_year mon) + 3) * DAY_MS) + 6) mod 7 * DAY_MS = w * DAY_MS"
    unfolding getUTCDay_def day_of_scaled weekday_shift w_def monday_def by (simp only: left_diff_distrib)
  have "7 dvd mon - w" unfolding mon_def w_def monday_def by presburger
  then obtain k where k: "mon - w = k * 7" by (metis dvd_def mult.commute)
  then have "js_round (of_int (mon * DAY_MS - w * DAY_MS) / of_int (7 * DAY_MS)) = (mon - w) div 7"
    using js_round_exact [of DAY_MS k] by (simp add: left_diff_distrib [symmetric] DAY_MS_def)
  then show ?thesis
    unfolding periodInfo_def week_period_def Let_def budget_window.case start mon iso jan4 week1
    by (simp add: week_no_def w_def [symmetric] distrib_right)
qed


lemma monday_aligned: "7 dvd monday d + 3"
  unfolding monday_def by presburger

lemma monday_interval: "monday d = mon \<longleftrightarrow> (7 dvd mon + 3 \<and> mon \<le> d \<and> d < mon + 7)"
proof
  assume "monday d = mon"
  then show "7 dvd mon + 3 \<and> mon \<le> d \<and> d < mon + 7"
    using monday_aligned [of d] pos_mod_sign [of 7 "d + 3"] pos_mod_bound [of 7 "d + 3"] by (auto simp: monday_def)
next
  assume r: "7 dvd mon + 3 \<and> mon \<le> d \<and> d < mon + 7"
  then obtain k where k: "mon + 3 = 7 * k" by (auto elim: dvdE)
  then have "d + 3 = (d - mon) + 7 * k" by simp
  then have "(d + 3) mod 7 = d - mon" using r by (simp only: mod_mult_self2) simp
  then show "monday d = mon" by (simp add: monday_def)
qed

lemma week_names_monday:
  assumes "iso_year a = iso_year b" "week_no a = week_no b" "7 dvd a + 3" "7 dvd b + 3"
  shows "a = b"
proof -
  let ?w = "monday (day_from_year (iso_year b) + 3)"
  have "7 dvd a - ?w" "7 dvd b - ?w" using assms(3,4) unfolding monday_def by presburger+
  moreover have "(a - ?w) div 7 = (b - ?w) div 7" using assms(1,2) by (simp add: week_no_def)
  ultimately have "a - ?w = b - ?w" by (metis dvd_div_mult_self)
  then show ?thesis by simp
qed

lemma show_int_inj [simp]: "0 \<le> a \<Longrightarrow> 0 \<le> b \<Longrightarrow> show_int a = show_int b \<longleftrightarrow> a = b"
  using nat_of_digits_show by (metis eq_nat_nat_iff linorder_not_less show_int_def)

lemma show_int_digits: "0 \<le> a \<Longrightarrow> list_all is_digit (show_int a)"
  by (simp add: show_int_def show_nat_digits)

lemma pad2_inj: "0 \<le> a \<Longrightarrow> 0 \<le> b \<Longrightarrow> pad2 a = pad2 b \<longleftrightarrow> a = b"
proof -
  have "nat_of_digits (pad2 c) = nat c" if "0 \<le> c" for c
    using that by (simp add: pad2_def show_int_def nat_of_digits_zeros [of 1, simplified])
  then show "0 \<le> a \<Longrightarrow> 0 \<le> b \<Longrightarrow> ?thesis" by (metis eq_nat_nat_iff)
qed

lemma pad2_digits: "0 \<le> a \<Longrightarrow> list_all is_digit (pad2 a)"
  by (simp add: pad2_def show_int_digits is_digit_def char_range_def)

lemma dash_split:
  assumes "list_all is_digit a" "list_all is_digit b"
  shows "a @ CHR ''-'' # r = b @ CHR ''-'' # s \<longleftrightarrow> a = b \<and> r = s"
  using assms
proof (induction a arbitrary: b)
  case Nil
  then show ?case by (cases b) (auto simp: is_digit_def char_range_def)
next
  case (Cons x a)
  then show ?case by (cases b) (auto simp: is_digit_def char_range_def)
qed


lemma iso_year_ge: "0 \<le> t \<Longrightarrow> 1970 \<le> iso_year (monday (day_of t))"
proof -
  assume "0 \<le> t"
  then have "0 \<le> monday (day_of t) + 3"
    using zmod_le_nonneg_dividend [of "day_of t + 3" 7] unfolding monday_def by (simp add: day_of_def DAY_MS_def)
  then show ?thesis
    using year_ge_1970 [of "(monday (day_of t) + 3) * DAY_MS"]
    by (simp add: iso_year_def getUTCFullYear_def DAY_MS_def day_of_def)
qed

lemma week_no_ge: "0 \<le> week_no mon"
proof -
  have "day_from_year (iso_year mon) \<le> mon + 3" using year_of_day_bounds by (simp add: iso_year_def)
  moreover have "monday (day_from_year (iso_year mon) + 3) \<le> day_from_year (iso_year mon) + 3"
    by (simp add: monday_def)
  ultimately have "- 7 \<le> mon - monday (day_from_year (iso_year mon) + 3)" by linarith
  then have "- 7 div 7 \<le> (mon - monday (day_from_year (iso_year mon) + 3)) div 7"
    by (rule zdiv_mono1) simp
  then show ?thesis by (simp add: week_no_def)
qed

lemma date_parts: "0 \<le> getUTCMonth t" "1 \<le> getUTCDate t"
  using month_ok [of t] by (simp_all add: month_len_ok_def getUTCDate_def)

lemma same_month_iff:
  defines "lo \<equiv> \<lambda>t. day_from_year (getUTCFullYear t) + month_start (leap_year (getUTCFullYear t)) (getUTCMonth t)"
    and "hi \<equiv> \<lambda>t. day_from_year (getUTCFullYear t) + month_start (leap_year (getUTCFullYear t)) (getUTCMonth t + 1)"
  shows "lo t \<le> day_of u \<and> day_of u < hi t
    \<longleftrightarrow> getUTCFullYear u = getUTCFullYear t \<and> getUTCMonth u = getUTCMonth t"
proof
  assume in_month: "lo t \<le> day_of u \<and> day_of u < hi t"
  let ?y = "getUTCFullYear t"
  have m: "0 \<le> getUTCMonth t" "getUTCMonth t \<le> 11" using month_ok [of t] by (simp_all add: month_len_ok_def)
  have "0 \<le> month_start (leap_year ?y) (getUTCMonth t)"
    using month_start_mono [of 0 "getUTCMonth t" "leap_year ?y"] m by (cases "getUTCMonth t = 0") simp_all
  moreover have "month_start (leap_year ?y) (getUTCMonth t + 1) \<le> 365 + (if leap_year ?y then 1 else 0)"
    using month_start_mono [of "getUTCMonth t + 1" 12 "leap_year ?y"] m
    by (cases "getUTCMonth t = 11") (simp_all add: month_start_def)
  ultimately have y: "getUTCFullYear u = ?y"
    using in_month year_after [of ?y] unfolding lo_def hi_def getUTCFullYear_def
    by (intro year_of_day_unique) (simp_all add: getUTCFullYear_def)
  with in_month m have "month_len_ok (leap_year ?y) (yday u) (getUTCMonth t)"
    by (simp add: month_len_ok_def yday_def lo_def hi_def algebra_simps)
  with month_ok [of u] y show "getUTCFullYear u = ?y \<and> getUTCMonth u = getUTCMonth t"
    by (auto dest: month_unique)
next
  assume "getUTCFullYear u = getUTCFullYear t \<and> getUTCMonth u = getUTCMonth t"
  then show "lo t \<le> day_of u \<and> day_of u < hi t"
    using month_ok [of u] by (simp add: month_len_ok_def lo_def hi_def yday_def)
qed

lemma same_day_iff:
  "day_of u = day_of t \<longleftrightarrow>
     getUTCFullYear u = getUTCFullYear t \<and> getUTCMonth u = getUTCMonth t \<and> getUTCDate u = getUTCDate t"
  using day_split [of t] day_split [of u] by (auto simp: getUTCFullYear_def getUTCMonth_def getUTCDate_def yday_def)

lemma id_splits:
  assumes "0 \<le> y" "0 \<le> y'" "0 \<le> m" "0 \<le> m'" "0 \<le> d" "0 \<le> d'"
  shows "show_int y @ CHR ''-'' # pad2 m @ CHR ''-'' # pad2 d = show_int y' @ CHR ''-'' # pad2 m' @ CHR ''-'' # pad2 d'
      \<longleftrightarrow> y = y' \<and> m = m' \<and> d = d'"
    "show_int y @ CHR ''-'' # pad2 m = show_int y' @ CHR ''-'' # pad2 m' \<longleftrightarrow> y = y' \<and> m = m'"
    "show_int y @ CHR ''-'' # CHR ''W'' # pad2 m = show_int y' @ CHR ''-'' # CHR ''W'' # pad2 m' \<longleftrightarrow> y = y' \<and> m = m'"
  using assms by (simp_all add: dash_split show_int_digits pad2_digits pad2_inj)

lemma period_contains:
  assumes "0 \<le> t"
  shows "startMs (periodInfo w t) \<le> t \<and> t < endMs (periodInfo w t)"
proof (cases w)
  case Day
  then show ?thesis using day_period [OF assms] day_interval [of t "day_of t"] by simp
next
  case Month
  then show ?thesis using same_month_iff [of t t] month_period [OF assms] by (simp add: days_interval)
next
  case Week
  let ?mon = "monday (day_of t)"
  show ?thesis
    using Week monday_interval [of "day_of t" ?mon] days_interval [of ?mon t "?mon + 7"]
    by (simp add: week_period_eq assms)
qed

text \<open>C39 (bounds). A period id names its instants: every instant lies in the bounds of its own
  period, and a second instant has the same id exactly if it lies in those bounds, and then the
  same bounds. A counter keyed by the id therefore starts afresh exactly at the period's end.\<close>

theorem period_names_its_instants:
  assumes "0 \<le> t" "0 \<le> u"
  shows "startMs (periodInfo w t) \<le> t \<and> t < endMs (periodInfo w t)
    \<and> (periodId (periodInfo w u) = periodId (periodInfo w t)
         \<longleftrightarrow> startMs (periodInfo w t) \<le> u \<and> u < endMs (periodInfo w t))
    \<and> (periodId (periodInfo w u) = periodId (periodInfo w t) \<longleftrightarrow> periodInfo w u = periodInfo w t)"
proof (cases w)
  case Day
  have "periodId (periodInfo Day u) = periodId (periodInfo Day t) \<longleftrightarrow> day_of u = day_of t"
    using assms [THEN year_ge_1970] date_parts [of t] date_parts [of u] unfolding same_day_iff
    by (simp add: periodInfo_def Let_def id_splits)
  then show ?thesis
    using day_period [OF assms(1)] day_period [OF assms(2)] day_interval [of u "day_of t"] day_interval [of t "day_of t"]
    by (simp add: Day) (metis day_of_scaled period_info.surjective old.unit.exhaust)
next
  case Month
  have "periodId (periodInfo Month u) = periodId (periodInfo Month t)
      \<longleftrightarrow> getUTCFullYear u = getUTCFullYear t \<and> getUTCMonth u = getUTCMonth t"
    using assms [THEN year_ge_1970] date_parts [of t] date_parts [of u]
    by (simp add: periodInfo_def Let_def id_splits)
  moreover have "periodInfo Month u = periodInfo Month t"
    if "getUTCFullYear u = getUTCFullYear t" "getUTCMonth u = getUTCMonth t"
    using that by (simp add: periodInfo_def Let_def)
  ultimately show ?thesis
    using same_month_iff [of t u] same_month_iff [of t t] month_period [OF assms(1)]
    by (auto simp: Month days_interval)
next
  case Week
  let ?mon = "monday (day_of t)"
  have "periodId (periodInfo Week u) = periodId (periodInfo Week t) \<longleftrightarrow> monday (day_of u) = ?mon"
    using assms [THEN iso_year_ge] week_no_ge [of ?mon] week_no_ge [of "monday (day_of u)"]
      week_names_monday [of "monday (day_of u)" ?mon] monday_aligned
    by (auto simp: week_period_eq assms id_splits)
  then show ?thesis
    using monday_interval [of "day_of u" ?mon] monday_interval [of "day_of t" ?mon]
      days_interval [of ?mon u "?mon + 7"] days_interval [of ?mon t "?mon + 7"]
    by (auto simp: Week week_period_eq assms)
qed

theorem period_names_its_instants_witness:
  "startMs (periodInfo Month 1709208000000) \<le> 1709208000000
     \<and> 1709208000000 < endMs (periodInfo Month 1709208000000)"
  using period_names_its_instants [of 1709208000000 0 Month] by simp

section \<open>Progress\<close>

text \<open>\<open>toISOString\<close>; years outside 0 to 9999 take six digits and a sign.\<close>

definition zero_pad :: "nat \<Rightarrow> int \<Rightarrow> string" where
  "zero_pad k n = (let s = show_int n in replicate (k - length s) CHR ''0'' @ s)"

definition toISOString :: "int \<Rightarrow> string" where
  "toISOString t =
     (let y = getUTCFullYear t; ms = t mod DAY_MS;
          year = (if 0 \<le> y \<and> y \<le> 9999 then zero_pad 4 y
                  else (if y < 0 then CHR ''-'' else CHR ''+'') # zero_pad 6 \<bar>y\<bar>)
      in year @ ''-'' @ zero_pad 2 (getUTCMonth t + 1) @ ''-'' @ zero_pad 2 (getUTCDate t) @ ''T''
           @ zero_pad 2 (ms div 3600000) @ '':'' @ zero_pad 2 (ms div 60000 mod 60) @ '':''
           @ zero_pad 2 (ms div 1000 mod 60) @ ''.'' @ zero_pad 3 (ms mod 1000) @ ''Z'')"

lemma iso_string_demo: "toISOString 1709208000007 = ''2024-02-29T12:00:00.007Z''"
  by code_simp

definition progressBucketSeconds :: "budget_window \<Rightarrow> int" where
  "progressBucketSeconds window = (case window of Day \<Rightarrow> 900 | Week \<Rightarrow> 3600 | Month \<Rightarrow> 86400)"

record progress_point =
  pt_at :: string
  pt_spentMicros :: int

definition progress_point_at :: "int \<Rightarrow> int \<Rightarrow> progress_point" where
  "progress_point_at t spentMicros = \<lparr>pt_at = toISOString t, pt_spentMicros = spentMicros\<rparr>"

text \<open>The loop ends because every bucket has a positive width; with a width of zero it would not, so
  the recursion asks for it.\<close>

function progress_from :: "int \<Rightarrow> int \<Rightarrow> int \<Rightarrow> (int \<rightharpoonup> int) \<Rightarrow> int \<Rightarrow> int \<Rightarrow> progress_point list" where
  "progress_from start width asOfMs buckets n acc =
     (if 0 < width \<and> start + n * width < asOfMs then
        let acc' = acc + (case buckets n of None \<Rightarrow> 0 | Some v \<Rightarrow> v) in
        progress_point_at (min (start + (n + 1) * width) asOfMs) acc'
          # progress_from start width asOfMs buckets (n + 1) acc'
      else [])"
  by pat_completeness auto
termination
  by (relation "measure (\<lambda>(start, width, asOfMs, _, n, _). nat (asOfMs - (start + n * width)))")
    (auto simp: algebra_simps)

declare progress_from.simps [simp del]

definition cumulativeProgress :: "period_info \<Rightarrow> int \<Rightarrow> int \<Rightarrow> (int \<rightharpoonup> int) \<Rightarrow> progress_point list" where
  "cumulativeProgress period asOfMs bucketSeconds buckets =
     progress_point_at (startMs period) 0
       # progress_from (startMs period) (bucketSeconds * 1000) asOfMs buckets 0 0"

datatype budget_action = AlertAction | BlockAction

record allowance =
  al_amountMicros :: int
  al_spentMicros :: int
  al_pendingMicros :: int
  al_remainingMicros :: int
  al_overspendMicros :: int
  al_usedPercent :: "rat option"
  al_availableMicros :: "int option"

definition progressAllowance :: "rat \<Rightarrow> int \<Rightarrow> int \<Rightarrow> bool \<Rightarrow> budget_action \<Rightarrow> allowance" where
  "progressAllowance amount spentMicros pendingMicros enabled act =
     (let amountMicros = toMicros amount in
      \<lparr>al_amountMicros = amountMicros, al_spentMicros = spentMicros, al_pendingMicros = pendingMicros,
       al_remainingMicros = max 0 (amountMicros - spentMicros),
       al_overspendMicros = max 0 (spentMicros - amountMicros),
       al_usedPercent = (if amountMicros > 0 then Some (100 * of_int spentMicros / of_int amountMicros) else None),
       al_availableMicros = (if enabled \<and> act = BlockAction
         then Some (max 0 (amountMicros - spentMicros - pendingMicros)) else None)\<rparr>)"

definition bucket_sum :: "(int \<rightharpoonup> int) \<Rightarrow> int \<Rightarrow> int \<Rightarrow> int" where
  "bucket_sum buckets n k = (\<Sum>i \<in> {n ..< n + k}. case buckets i of None \<Rightarrow> 0 | Some v \<Rightarrow> v)"

lemma bucket_sum_step:
  assumes "0 \<le> k"
  shows "(case buckets n of None \<Rightarrow> 0 | Some v \<Rightarrow> v) + bucket_sum buckets (n + 1) k = bucket_sum buckets n (k + 1)"
proof -
  have "{n ..< n + (k + 1)} = insert n {n + 1 ..< n + 1 + k}" using assms by auto
  then show ?thesis by (simp add: bucket_sum_def)
qed

lemma progress_from_end:
  fixes buckets :: "int \<rightharpoonup> int" and acc :: int
  assumes "0 < width" "start + n * width < asOfMs"
  defines "pts \<equiv> progress_from start width asOfMs buckets n acc"
  shows "pts \<noteq> [] \<and> start + (n + int (length pts) - 1) * width < asOfMs
    \<and> asOfMs \<le> start + (n + int (length pts)) * width
    \<and> last pts = progress_point_at asOfMs (acc + bucket_sum buckets n (int (length pts)))"
  using assms unfolding pts_def
proof (induction start width asOfMs buckets n acc rule: progress_from.induct)
  case (1 start width asOfMs buckets n acc)
  define inc where "inc = (case buckets n of None \<Rightarrow> 0 | Some v \<Rightarrow> v)"
  let ?rest = "progress_from start width asOfMs buckets (n + 1) (acc + inc)"
  have step: "progress_from start width asOfMs buckets n acc =
      progress_point_at (min (start + (n + 1) * width) asOfMs) (acc + inc) # ?rest"
    using 1(2,3) by (subst progress_from.simps) (simp add: inc_def Let_def)
  show ?case
  proof (cases "start + (n + 1) * width < asOfMs")
    case True
    then have IH: "?rest \<noteq> [] \<and> start + (n + 1 + int (length ?rest) - 1) * width < asOfMs
        \<and> asOfMs \<le> start + (n + 1 + int (length ?rest)) * width
        \<and> last ?rest = progress_point_at asOfMs (acc + inc + bucket_sum buckets (n + 1) (int (length ?rest)))"
      using 1 by (simp add: inc_def)
    then show ?thesis
      using bucket_sum_step [of "int (length ?rest)" buckets n] unfolding step inc_def [symmetric]
      by (simp add: algebra_simps)
  next
    case False
    then have "?rest = []" by (simp add: progress_from.simps)
    moreover have "bucket_sum buckets n 1 = inc"
      using bucket_sum_step [of 0 buckets n] by (simp add: bucket_sum_def inc_def)
    ultimately show ?thesis using False 1(2,3) unfolding step by (simp add: min_def)
  qed
qed

text \<open>C40 (termination). The progress loop ends at the instant asked for: with a positive bucket width it
  yields one point per started bucket after the initial zero, the number of buckets is the least
  that covers the elapsed time, and the last point carries the sum of exactly those buckets.\<close>

theorem progress_ends_at_instant:
  assumes "0 < bucketSeconds" "startMs period < asOfMs"
  shows "\<exists>k > 0. length (cumulativeProgress period asOfMs bucketSeconds buckets) = Suc k
    \<and> startMs period + (int k - 1) * (bucketSeconds * 1000) < asOfMs
    \<and> asOfMs \<le> startMs period + int k * (bucketSeconds * 1000)
    \<and> last (cumulativeProgress period asOfMs bucketSeconds buckets)
        = progress_point_at asOfMs (bucket_sum buckets 0 (int k))"
  using assms progress_from_end [of "bucketSeconds * 1000" "startMs period" 0 asOfMs buckets 0]
  by (intro exI [of _ "length (progress_from (startMs period) (bucketSeconds * 1000) asOfMs buckets 0 0)"])
    (simp add: cumulativeProgress_def)

theorem progress_ends_at_instant_witness:
  "\<exists>k > 0. length (cumulativeProgress (periodInfo Day 1000) 2000000 900 Map.empty) = Suc k"
proof -
  have "startMs (periodInfo Day 1000) < 2000000" by code_simp
  then show ?thesis
    using progress_ends_at_instant [of 900 "periodInfo Day 1000" 2000000 Map.empty] by auto
qed

end
