(* ===== verification/Budgets.thy ===== *)
theory Budgets
  imports Period
begin

text \<open>
  Spend budgets: \<open>budgets/spend-counter.ts\<close> (the Redis counters and their three scripts),
  \<open>budgets/budget-service.ts\<close> (the block check and the reservation of a batch ceiling) and the
  occurrence of \<open>budgets/budget.scheduler.ts\<close>. Money is integer micro-dollars.

  The shared store is a map from keys to a value and the instant it expires at; a script runs
  atomically on it. Every command the program sends consumes one entry of the network's script
  \<open>w_net\<close>: it is served after some milliseconds, or it never arrives, or it runs and its answer is
  lost; the last two are a rejected promise. An empty script is a network that serves at once.
  The rows of the owner's budgets come from the cache (theory BudgetCache) and are an argument,
  the left side being a cold load that failed. Fault logging is a counter, the throttled log line
  is not modelled; the ledgers the scheduler reads are arguments.
\<close>

section \<open>The shared store\<close>

datatype net = Served nat | Dropped nat | Unanswered nat

datatype budget_scope = GlobalScope | AgentScope
datatype metering_basis = Cash | Notional

record budget_row =
  bd_id :: string
  bd_owner :: string
  bd_name :: string
  bd_scope :: budget_scope
  bd_agentId :: "string option"
  bd_window :: budget_window
  bd_action :: budget_action
  bd_basis :: metering_basis
  bd_amount :: rat
  bd_channels :: string
  bd_enabled :: bool

record budget_notice =
  nt_owner :: string
  nt_agentId :: "string option"
  nt_budgetId :: string
  nt_periodId :: string
  nt_name :: string
  nt_spent :: int
  nt_threshold :: int
  nt_estimated :: "bool option"
  nt_basis :: metering_basis
  nt_channels :: "string list"

record world =
  w_db :: "string \<rightharpoonup> int \<times> int option"
  w_clock :: int
  w_net :: "net list"
  w_faults :: nat
  w_sent :: "budget_notice list"

definition live :: "world \<Rightarrow> string \<Rightarrow> int option" where
  "live w k =
     (case w_db w k of
        None \<Rightarrow> None
      | Some (v, None) \<Rightarrow> Some v
      | Some (v, Some e) \<Rightarrow> if w_clock w < e then Some v else None)"

definition tally :: "world \<Rightarrow> string \<Rightarrow> int" where
  "tally w k = (case live w k of None \<Rightarrow> 0 | Some v \<Rightarrow> v)"

definition r_set :: "string \<Rightarrow> int \<Rightarrow> int option \<Rightarrow> world \<Rightarrow> world" where
  "r_set k v expiry w = w\<lparr>w_db := (w_db w)(k \<mapsto> (v, expiry))\<rparr>"

definition r_expiry :: "world \<Rightarrow> string \<Rightarrow> int option" where
  "r_expiry w k = (case live w k of None \<Rightarrow> None | Some _ \<Rightarrow> Option.bind (w_db w k) snd)"

definition r_pexpire :: "string \<Rightarrow> int \<Rightarrow> world \<Rightarrow> world" where
  "r_pexpire k ttl w =
     (case live w k of None \<Rightarrow> w | Some v \<Rightarrow> r_set k v (Some (w_clock w + ttl)) w)"

definition r_incrby :: "string \<Rightarrow> int \<Rightarrow> world \<Rightarrow> world" where
  "r_incrby k n w = r_set k (tally w k + n) (r_expiry w k) w"

section \<open>The scripts\<close>

definition RECONCILE_MAX :: "string \<Rightarrow> int \<Rightarrow> int \<Rightarrow> world \<Rightarrow> int \<times> world" where
  "RECONCILE_MAX key v ttl w =
     (let c = tally w key;
          w1 = (if v > c \<or> live w key = None then r_set key v None w else w)
      in (if v > c then v else c, r_pexpire key ttl w1))"

definition CHECK_AND_RESERVE ::
  "string \<Rightarrow> string \<Rightarrow> int \<Rightarrow> int \<Rightarrow> int \<Rightarrow> world \<Rightarrow> (bool \<times> int \<times> int) \<times> world" where
  "CHECK_AND_RESERVE spendKey pendingKey ask amount ttl w =
     (let spend = tally w spendKey; pending = tally w pendingKey in
      if spend + pending + ask > amount then ((False, spend, pending), w)
      else ((True, spend, pending), r_pexpire pendingKey ttl (r_incrby pendingKey ask w)))"

definition RELEASE :: "string \<Rightarrow> int \<Rightarrow> int \<Rightarrow> world \<Rightarrow> int \<times> world" where
  "RELEASE pendingKey micros ttl w =
     (let w1 = r_incrby pendingKey (- micros) w; v = tally w1 pendingKey in
      if v < 0 then (0, r_pexpire pendingKey ttl (r_set pendingKey 0 None w1))
      else (v, r_pexpire pendingKey ttl w1))"

section \<open>The counter\<close>

definition HEARTBEAT_KEY :: string where "HEARTBEAT_KEY = ''budget:reconcile:heartbeat''"

definition cmd :: "(world \<Rightarrow> 'a \<times> world) \<Rightarrow> world \<Rightarrow> (unit + 'a) \<times> world" where
  "cmd f w =
     (case w_net w of
        [] \<Rightarrow> map_prod Inr id (f w)
      | n # ns \<Rightarrow>
          (case n of
             Served d \<Rightarrow> map_prod Inr id (f (w\<lparr>w_net := ns, w_clock := w_clock w + int d\<rparr>))
           | Dropped d \<Rightarrow> (Inl (), w\<lparr>w_net := ns, w_clock := w_clock w + int d\<rparr>)
           | Unanswered d \<Rightarrow> (Inl (), snd (f (w\<lparr>w_net := ns, w_clock := w_clock w + int d\<rparr>)))))"

definition scope_text :: "budget_scope \<Rightarrow> string" where
  "scope_text s = (case s of GlobalScope \<Rightarrow> ''global'' | AgentScope \<Rightarrow> ''agent'')"

definition window_text :: "budget_window \<Rightarrow> string" where
  "window_text w = (case w of Day \<Rightarrow> ''day'' | Week \<Rightarrow> ''week'' | Month \<Rightarrow> ''month'')"

definition counter_key ::
  "string \<Rightarrow> budget_scope \<Rightarrow> string \<Rightarrow> budget_window \<Rightarrow> string \<Rightarrow> metering_basis \<Rightarrow> string" where
  "counter_key owner scope scopeId window pid basis =
     ''budget:'' @ owner @ '':'' @ scope_text scope @ '':'' @ scopeId @ '':'' @ window_text window @ '':''
       @ (if basis = Cash then ''cash:'' else []) @ pid"

definition pendingKeyFor :: "string \<Rightarrow> string" where
  "pendingKeyFor spendKey = CHR 0x7B # spendKey @ CHR 0x7D # '':pending''"

definition readWithPending :: "string list \<Rightarrow> world \<Rightarrow> (unit + (int \<times> int) list) \<times> world" where
  "readWithPending spendKeys w =
     (if spendKeys = [] then (Inr [], w)
      else cmd (\<lambda>s. (map (\<lambda>k. (tally s k, tally s (pendingKeyFor k))) spendKeys, s)) w)"

definition read_counters :: "string list \<Rightarrow> world \<Rightarrow> (unit + int list) \<times> world" where
  "read_counters ks w = (if ks = [] then (Inr [], w) else cmd (\<lambda>s. (map (tally s) ks, s)) w)"

definition checkAndReserve ::
  "string \<Rightarrow> int \<Rightarrow> rat \<Rightarrow> int \<Rightarrow> world \<Rightarrow> (unit + bool \<times> int \<times> int) \<times> world" where
  "checkAndReserve spendKey amountMicros ceilingMicros ttlMs =
     cmd (CHECK_AND_RESERVE spendKey (pendingKeyFor spendKey) (max 0 \<lceil>ceilingMicros\<rceil>) (max 0 amountMicros) (max 1 ttlMs))"

definition release_pending :: "string \<Rightarrow> rat \<Rightarrow> int \<Rightarrow> world \<Rightarrow> (unit + int) \<times> world" where
  "release_pending spendKey micros ttlMs =
     cmd (RELEASE (pendingKeyFor spendKey) (max 0 \<lceil>micros\<rceil>) (max 1 ttlMs))"

definition reconcilePending :: "string \<Rightarrow> int \<Rightarrow> int \<Rightarrow> world \<Rightarrow> (unit + unit) \<times> world" where
  "reconcilePending spendKey micros ttlMs =
     cmd (\<lambda>s. ((), r_set (pendingKeyFor spendKey) (max 0 micros) (Some (w_clock s + max 1 ttlMs)) s))"

definition reconcileMax :: "string \<Rightarrow> int \<Rightarrow> int \<Rightarrow> world \<Rightarrow> (unit + int) \<times> world" where
  "reconcileMax key micros ttlMs = cmd (RECONCILE_MAX key (max 0 micros) (max 1 ttlMs))"

definition heartbeatSet :: "int \<Rightarrow> int \<Rightarrow> world \<Rightarrow> (unit + unit) \<times> world" where
  "heartbeatSet nowMs ttlMs = cmd (\<lambda>s. ((), r_set HEARTBEAT_KEY nowMs (Some (w_clock s + max 1 ttlMs)) s))"

text \<open>The age is \<open>None\<close> where the source has plus infinity.\<close>

definition heartbeatAgeMs :: "int \<Rightarrow> world \<Rightarrow> (unit + int option) \<times> world" where
  "heartbeatAgeMs nowMs = cmd (\<lambda>s. (map_option (\<lambda>t. nowMs - t) (live s HEARTBEAT_KEY), s))"

definition markOnce :: "string \<Rightarrow> int \<Rightarrow> world \<Rightarrow> (unit + bool) \<times> world" where
  "markOnce key ttlMs =
     cmd (\<lambda>s. if live s key = None then (True, r_set key 1 (Some (w_clock s + max 1 ttlMs)) s) else (False, s))"

section \<open>The service\<close>

datatype unavailable = BudgetEnforcementUnavailable

record budget_hit =
  hit_budget :: budget_row
  hit_spentMicros :: int
  hit_pendingMicros :: int
  hit_periodId :: string
  hit_periodStart :: int
  hit_resetAt :: int

datatype batch_reservation =
    Reserved "string list"
  | NoBlockBudget
  | Unenforced
  | Rejected budget_hit rat

definition MARKER_GRACE_MS :: int where "MARKER_GRACE_MS = 60000"

definition recordFault :: "world \<Rightarrow> world" where
  "recordFault w = w\<lparr>w_faults := Suc (w_faults w)\<rparr>"

definition applies :: "budget_row \<Rightarrow> string option \<Rightarrow> bool" where
  "applies b agentId =
     (if bd_scope b = GlobalScope then True
      else bd_scope b = AgentScope \<and> agentId \<noteq> None \<and> agentId = bd_agentId b)"

definition block_budgets :: "budget_row list \<Rightarrow> string option \<Rightarrow> budget_row list" where
  "block_budgets rows agentId = filter (\<lambda>b. bd_enabled b \<and> bd_action b = BlockAction \<and> applies b agentId) rows"

record key_info =
  ki_budget :: budget_row
  ki_key :: string
  ki_period :: period_info

definition scope_id :: "budget_row \<Rightarrow> string" where
  "scope_id b = (if bd_scope b = AgentScope then case bd_agentId b of None \<Rightarrow> ''global'' | Some a \<Rightarrow> a else ''global'')"

definition keyFor :: "string \<Rightarrow> budget_row \<Rightarrow> int \<Rightarrow> key_info" where
  "keyFor owner b t =
     (let p = periodInfo (bd_window b) t in
      \<lparr>ki_budget = b,
       ki_key = counter_key owner (bd_scope b) (scope_id b) (bd_window b) (periodId p) (bd_basis b),
       ki_period = p\<rparr>)"

definition hit_of :: "key_info \<Rightarrow> int \<Rightarrow> int \<Rightarrow> budget_hit" where
  "hit_of i spend pending =
     \<lparr>hit_budget = ki_budget i, hit_spentMicros = spend, hit_pendingMicros = pending,
      hit_periodId = periodId (ki_period i), hit_periodStart = startMs (ki_period i),
      hit_resetAt = endMs (ki_period i)\<rparr>"

text \<open>\<open>[...new Set(xs)]\<close>: the first occurrences, in order.\<close>

definition distinct_keys :: "string list \<Rightarrow> string list" where
  "distinct_keys ks = rev (remdups (rev ks))"

text \<open>The catch of the block check: every fault is counted, and the mode decides.\<close>

definition blocked_fault :: "bool \<Rightarrow> world \<Rightarrow> (unavailable + 'a option) \<times> world" where
  "blocked_fault failOpen w =
     (if failOpen then Inr None else Inl BudgetEnforcementUnavailable, recordFault w)"

definition stale_beat :: "int \<Rightarrow> int option \<Rightarrow> bool" where
  "stale_beat staleMs age = (case age of None \<Rightarrow> True | Some a \<Rightarrow> a > staleMs)"

definition over_threshold :: "(string \<rightharpoonup> int \<times> int) \<Rightarrow> key_info \<Rightarrow> budget_hit option" where
  "over_threshold byKey i =
     (let (spend, pending) = (case byKey (ki_key i) of None \<Rightarrow> (0, 0) | Some v \<Rightarrow> v) in
      if spend + pending \<ge> toMicros (bd_amount (ki_budget i)) then Some (hit_of i spend pending) else None)"

definition first_hit :: "(string \<rightharpoonup> int \<times> int) \<Rightarrow> key_info list \<Rightarrow> budget_hit option" where
  "first_hit byKey infos =
     (case find (\<lambda>i. over_threshold byKey i \<noteq> None) infos of None \<Rightarrow> None | Some i \<Rightarrow> over_threshold byKey i)"

definition checkBlocked ::
  "bool \<Rightarrow> int \<Rightarrow> string \<Rightarrow> unit + budget_row list \<Rightarrow> string option \<Rightarrow> world
     \<Rightarrow> (unavailable + budget_hit option) \<times> world" where
  "checkBlocked failOpen staleMs owner rows agentId w =
     (case rows of
        Inl _ \<Rightarrow> blocked_fault failOpen w
      | Inr all \<Rightarrow>
          let matched = block_budgets all agentId; now = w_clock w in
          if matched = [] then (Inr None, w)
          else case heartbeatAgeMs now w of
            (Inl _, w1) \<Rightarrow> blocked_fault failOpen w1
          | (Inr age, w1) \<Rightarrow>
              if stale_beat staleMs age then blocked_fault failOpen w1
              else
                let infos = map (\<lambda>b. keyFor owner b now) matched;
                    ks = distinct_keys (map ki_key infos)
                in case readWithPending ks w1 of
                     (Inl _, w2) \<Rightarrow> blocked_fault failOpen w2
                   | (Inr vals, w2) \<Rightarrow> (Inr (first_hit (map_of (zip ks vals)) infos), w2))"

definition hasBlockBudget ::
  "bool \<Rightarrow> unit + budget_row list \<Rightarrow> string option \<Rightarrow> world \<Rightarrow> (unavailable + bool) \<times> world" where
  "hasBlockBudget failOpen rows agentId w =
     (case rows of
        Inr all \<Rightarrow> (Inr (block_budgets all agentId \<noteq> []), w)
      | Inl _ \<Rightarrow> (if failOpen then Inr False else Inl BudgetEnforcementUnavailable, recordFault w))"

primrec rollback :: "(string \<times> int) list \<Rightarrow> rat \<Rightarrow> world \<Rightarrow> world" where
  "rollback [] micros w = w"
| "rollback (r # rs) micros w = rollback rs micros (snd (release_pending (fst r) micros (snd r) w))"

text \<open>The groups of a \<open>Map\<close>: keys in the order of first insertion, each with its infos in order.\<close>

definition key_groups :: "key_info list \<Rightarrow> (string \<times> key_info list) list" where
  "key_groups infos =
     map (\<lambda>k. (k, filter (\<lambda>i. ki_key i = k) infos)) (distinct_keys (map ki_key infos))"

definition tightest :: "key_info list \<Rightarrow> key_info" where
  "tightest g =
     foldl (\<lambda>a b. if bd_amount (ki_budget a) \<le> bd_amount (ki_budget b) then a else b) (hd g) (tl g)"

definition reserve_fault ::
  "bool \<Rightarrow> (string \<times> int) list \<Rightarrow> rat \<Rightarrow> world \<Rightarrow> (unavailable + batch_reservation) \<times> world" where
  "reserve_fault failOpen reserved ask w =
     (if failOpen then Inr Unenforced else Inl BudgetEnforcementUnavailable,
      rollback reserved ask (recordFault w))"

primrec reserve_groups ::
  "bool \<Rightarrow> int \<Rightarrow> rat \<Rightarrow> (string \<times> key_info list) list \<Rightarrow> (string \<times> int) list \<Rightarrow> world
     \<Rightarrow> (unavailable + batch_reservation) \<times> world" where
  "reserve_groups failOpen now ask [] reserved w = (Inr (Reserved (map fst reserved)), w)"
| "reserve_groups failOpen now ask (g # gs) reserved w =
     (let t = tightest (snd g);
          ttlMs = max 1 (endMs (ki_period t) - now) + MARKER_GRACE_MS
      in case checkAndReserve (fst g) (toMicros (bd_amount (ki_budget t))) ask ttlMs w of
           (Inl _, w1) \<Rightarrow> reserve_fault failOpen reserved ask w1
         | (Inr r, w1) \<Rightarrow>
             if \<not> fst r then (Inr (Rejected (hit_of t (fst (snd r)) (snd (snd r))) ask), rollback reserved ask w1)
             else reserve_groups failOpen now ask gs (reserved @ [(fst g, ttlMs)]) w1)"

definition reserveForBatch ::
  "bool \<Rightarrow> int \<Rightarrow> string \<Rightarrow> unit + budget_row list \<Rightarrow> string option \<Rightarrow> int \<Rightarrow> rat \<Rightarrow> world
     \<Rightarrow> (unavailable + batch_reservation) \<times> world" where
  "reserveForBatch failOpen staleMs owner rows agentId submittedAt ask w =
     (case rows of
        Inl _ \<Rightarrow> reserve_fault failOpen [] ask w
      | Inr all \<Rightarrow>
          let matched = block_budgets all agentId; now = w_clock w in
          if matched = [] then (Inr NoBlockBudget, w)
          else case heartbeatAgeMs now w of
            (Inl _, w1) \<Rightarrow> reserve_fault failOpen [] ask w1
          | (Inr age, w1) \<Rightarrow>
              if stale_beat staleMs age
              then (if failOpen then reserve_fault failOpen [] ask w1 else (Inl BudgetEnforcementUnavailable, w1))
              else reserve_groups failOpen now ask
                     (key_groups (map (\<lambda>b. keyFor owner b submittedAt) matched)) [] w1)"

primrec release_keys :: "(string \<times> int) list \<Rightarrow> rat \<Rightarrow> world \<Rightarrow> world" where
  "release_keys [] ask w = w"
| "release_keys (k # ks) ask w =
     (case release_pending (fst k) ask (snd k) w of
        (Inl _, w1) \<Rightarrow> recordFault w1
      | (Inr _, w1) \<Rightarrow> release_keys ks ask w1)"

definition releaseForBatch ::
  "string \<Rightarrow> unit + budget_row list \<Rightarrow> string option \<Rightarrow> int \<Rightarrow> rat \<Rightarrow> world \<Rightarrow> world" where
  "releaseForBatch owner rows agentId submittedAt ask w =
     (if ask \<le> 0 then w
      else case rows of
        Inl _ \<Rightarrow> recordFault w
      | Inr all \<Rightarrow>
          let infos = map (\<lambda>b. keyFor owner b submittedAt) (block_budgets all agentId);
              ttl = (\<lambda>i. max 1 (endMs (ki_period i) - w_clock w) + MARKER_GRACE_MS)
          in release_keys (map (\<lambda>g. (fst g, ttl (last (snd g)))) (key_groups infos)) ask w)"

fun split_on :: "char \<Rightarrow> string \<Rightarrow> string list" where
  "split_on c [] = [[]]"
| "split_on c (x # s) = (if x = c then [] # split_on c s else (x # hd (split_on c s)) # tl (split_on c s))"

definition parseCsv :: "string \<Rightarrow> string list" where
  "parseCsv csv = filter (\<lambda>s. s \<noteq> []) (map js_trim (split_on CHR '','' csv))"

text \<open>\<open>estimate\<close> is the provenance lookup under its deadline: \<open>None\<close> when it failed or timed out.\<close>

definition emitBlock :: "string \<Rightarrow> budget_hit \<Rightarrow> int option \<Rightarrow> world \<Rightarrow> world" where
  "emitBlock owner hit estimate w =
     (let b = hit_budget hit;
          ttlMs = max 1 (hit_resetAt hit - w_clock w) + MARKER_GRACE_MS
      in case markOnce (''budget-blocked:'' @ bd_id b @ '':'' @ hit_periodId hit) ttlMs w of
           (Inr True, w1) \<Rightarrow>
             w1\<lparr>w_sent := w_sent w1 @
               [\<lparr>nt_owner = owner, nt_agentId = bd_agentId b, nt_budgetId = bd_id b, nt_periodId = hit_periodId hit,
                 nt_name = bd_name b, nt_spent = hit_spentMicros hit, nt_threshold = toMicros (bd_amount b),
                 nt_estimated = map_option (\<lambda>e. e > 0) estimate, nt_basis = bd_basis b,
                 nt_channels = parseCsv (bd_channels b)\<rparr>]\<rparr>
         | (_, w1) \<Rightarrow> w1)"

section \<open>The reconcile occurrence\<close>

definition GRACE_MS :: int where "GRACE_MS = 60000"

type_synonym ledger = "string \<Rightarrow> string option \<Rightarrow> int \<Rightarrow> int \<Rightarrow> metering_basis \<Rightarrow> unit + int \<times> int"
type_synonym reservations = "string \<Rightarrow> string option \<Rightarrow> int \<Rightarrow> int \<Rightarrow> unit + int"

definition alert_notice :: "key_info \<Rightarrow> int \<Rightarrow> int \<Rightarrow> budget_notice" where
  "alert_notice i micros estimated =
     (let b = ki_budget i in
      \<lparr>nt_owner = bd_owner b, nt_agentId = bd_agentId b, nt_budgetId = bd_id b, nt_periodId = periodId (ki_period i),
       nt_name = bd_name b, nt_spent = micros, nt_threshold = toMicros (bd_amount b),
       nt_estimated = Some (estimated > 0), nt_basis = bd_basis b, nt_channels = parseCsv (bd_channels b)\<rparr>)"

text \<open>The marker's fault is contained: the occurrence goes on to the next budget.\<close>

primrec alert_budgets :: "int \<Rightarrow> int \<Rightarrow> int \<Rightarrow> key_info list \<Rightarrow> world \<Rightarrow> world" where
  "alert_budgets micros estimated ttlMs [] w = w"
| "alert_budgets micros estimated ttlMs (i # infos) w =
     (let b = ki_budget i in
      if bd_action b \<noteq> AlertAction \<or> micros < toMicros (bd_amount b) then alert_budgets micros estimated ttlMs infos w
      else
        let (r, w1) = markOnce (''budget-alerted:'' @ bd_id b @ '':'' @ periodId (ki_period i)) ttlMs w
        in alert_budgets micros estimated ttlMs infos
             (if r = Inr True then w1\<lparr>w_sent := w_sent w1 @ [alert_notice i micros estimated]\<rparr> else w1))"

definition reconcile_group ::
  "ledger \<Rightarrow> reservations option \<Rightarrow> int \<Rightarrow> string \<times> key_info list \<Rightarrow> world \<Rightarrow> (unit + unit) \<times> world" where
  "reconcile_group spendMicrosFor pendingMicrosFor atMs g w =
     (let key = fst g; i = hd (snd g); b = ki_budget i; p = ki_period i;
          agentId = (if bd_scope b = AgentScope then Some (scope_id b) else None);
          ttlMs = endMs p - atMs + GRACE_MS
      in case spendMicrosFor (bd_owner b) agentId (startMs p) (endMs p) (bd_basis b) of
           Inl _ \<Rightarrow> (Inl (), w)
         | Inr spend \<Rightarrow>
             (case reconcileMax key (fst spend) ttlMs w of
                (Inl _, w1) \<Rightarrow> (Inl (), w1)
              | (Inr _, w1) \<Rightarrow>
                  (case pendingMicrosFor of
                     None \<Rightarrow> (Inr (), alert_budgets (fst spend) (snd spend) ttlMs (snd g) w1)
                   | Some pendingOf \<Rightarrow>
                       (case pendingOf (bd_owner b) agentId (startMs p) (endMs p) of
                          Inl _ \<Rightarrow> (Inl (), w1)
                        | Inr pending \<Rightarrow>
                            (case reconcilePending key pending ttlMs w1 of
                               (Inl _, w2) \<Rightarrow> (Inl (), w2)
                             | (Inr _, w2) \<Rightarrow>
                                 (Inr (), alert_budgets (fst spend) (snd spend) ttlMs (snd g) w2))))))"

primrec reconcile_groups ::
  "ledger \<Rightarrow> reservations option \<Rightarrow> int \<Rightarrow> (string \<times> key_info list) list \<Rightarrow> world \<Rightarrow> (unit + unit) \<times> world" where
  "reconcile_groups spendOf pendingOf atMs [] w = (Inr (), w)"
| "reconcile_groups spendOf pendingOf atMs (g # gs) w =
     (case reconcile_group spendOf pendingOf atMs g w of
        (Inl _, w1) \<Rightarrow> (Inl (), w1)
      | (Inr _, w1) \<Rightarrow> reconcile_groups spendOf pendingOf atMs gs w1)"

definition runBudgetOccurrence ::
  "budget_row list \<Rightarrow> ledger \<Rightarrow> reservations option \<Rightarrow> int \<Rightarrow> int \<Rightarrow> world \<Rightarrow> (unit + unit) \<times> world" where
  "runBudgetOccurrence active spendOf pendingOf atMs staleMs w =
     (case reconcile_groups spendOf pendingOf atMs (key_groups (map (\<lambda>b. keyFor (bd_owner b) b atMs) active)) w of
        (Inl _, w1) \<Rightarrow> (Inl (), w1)
      | (Inr _, w1) \<Rightarrow> heartbeatSet atMs (staleMs * 2) w1)"

text \<open>One budget of ten dollars, eight spent, one reserved: a second reservation of one dollar and a
  cent is refused and leaves the counters alone, and one of a dollar goes through.\<close>

definition sample_budget :: budget_row where
  "sample_budget =
     \<lparr>bd_id = ''b'', bd_owner = ''u'', bd_name = ''ten'', bd_scope = GlobalScope, bd_agentId = None,
      bd_window = Day, bd_action = BlockAction, bd_basis = Cash, bd_amount = 10, bd_channels = '' c1, ,c2'',
      bd_enabled = True\<rparr>"

definition sample_key :: string where
  "sample_key = ki_key (keyFor ''u'' sample_budget 1000)"

definition sample_world :: world where
  "sample_world =
     \<lparr>w_db = [sample_key \<mapsto> (8000000, None), pendingKeyFor sample_key \<mapsto> (1000000, None),
        HEARTBEAT_KEY \<mapsto> (900, None)],
      w_clock = 1000, w_net = [], w_faults = 0, w_sent = []\<rparr>"

lemma sample_key_text: "sample_key = ''budget:u:global:global:day:cash:1970-01-01''"
  by code_simp

lemma pendingKey_inj [simp]: "pendingKeyFor a = pendingKeyFor b \<longleftrightarrow> a = b"
  by (simp add: pendingKeyFor_def)

lemma counter_key_head: "counter_key own sc sid win pid bas = CHR ''b'' # drop 1 (counter_key own sc sid win pid bas)"
  by (simp add: counter_key_def)

lemma counter_key_not_pending [simp]: "counter_key own sc sid win pid bas \<noteq> pendingKeyFor k"
  "pendingKeyFor k \<noteq> counter_key own sc sid win pid bas"
  by (simp_all add: counter_key_def pendingKeyFor_def)

lemma sample_keyFor: "keyFor ''u'' sample_budget 1000 =
    \<lparr>ki_budget = sample_budget, ki_key = sample_key,
     ki_period = \<lparr>periodId = ''1970-01-01'', startMs = 0, endMs = 86400000\<rparr>\<rparr>"
  by code_simp

lemma sample_keys [simp]: "pendingKeyFor k \<noteq> sample_key" "sample_key \<noteq> pendingKeyFor k"
  "HEARTBEAT_KEY \<noteq> pendingKeyFor k" "pendingKeyFor k \<noteq> HEARTBEAT_KEY" "HEARTBEAT_KEY \<noteq> sample_key"
  "sample_key \<noteq> HEARTBEAT_KEY"
  by (simp_all add: sample_key_text pendingKeyFor_def HEARTBEAT_KEY_def)

lemma sample_block: "block_budgets [sample_budget] None = [sample_budget]"
  by (simp add: block_budgets_def sample_budget_def applies_def)

lemma sample_amounts [simp]: "toMicros (bd_amount sample_budget) = 10000000"
  by (simp add: sample_budget_def toMicros_def js_round_def floor_eq_iff)

lemma sample_beat: "heartbeatAgeMs 1000 sample_world = (Inr (Some 100), sample_world)"
  by (simp add: heartbeatAgeMs_def cmd_def live_def sample_world_def)

lemma single_group: "key_groups [i] = [(ki_key i, [i])]"
  by (simp add: key_groups_def distinct_keys_def)

lemma sample_tally: "tally sample_world sample_key = 8000000" "tally sample_world (pendingKeyFor sample_key) = 1000000"
  by (simp_all add: tally_def live_def sample_world_def)

lemma sample_net: "w_net sample_world = []" "w_clock sample_world = 1000"
  by (simp_all add: sample_world_def)

lemma sample_reservation:
  "fst (reserveForBatch False 5000 ''u'' (Inr [sample_budget]) None 1000 1000000 sample_world) = Inr (Reserved [sample_key])"
  "\<exists>hit. reserveForBatch False 5000 ''u'' (Inr [sample_budget]) None 1000 1010000 sample_world
     = (Inr (Rejected hit 1010000), sample_world)"
  by (simp_all add: reserveForBatch_def sample_block sample_beat sample_net single_group stale_beat_def Let_def
      tightest_def sample_keyFor checkAndReserve_def cmd_def CHECK_AND_RESERVE_def sample_tally)

end
