(* ===== verification/BudgetFacts.thy ===== *)
theory BudgetFacts
  imports Budgets
begin

text \<open>
  What the spend counters and the budget service guarantee, for every network: a reservation that is
  admitted fits every budget it was admitted against, a refused or faulted one leaves at least what
  it found, a fault under fail-closed never admits, and reconciliation never lowers a counter.
  \<open>val\<close> is the value a key holds, expired or not; \<open>lasting\<close> says that nothing in the store expires
  before the network's script is over, and then \<^const>\<open>tally\<close> reads that value.
\<close>

section \<open>Values and expiry\<close>

definition net_ms :: "net \<Rightarrow> int" where
  "net_ms n = (case n of Served d \<Rightarrow> int d | Dropped d \<Rightarrow> int d | Unanswered d \<Rightarrow> int d)"

definition horizon :: "world \<Rightarrow> int" where
  "horizon w = w_clock w + sum_list (map net_ms (w_net w))"

definition val :: "world \<Rightarrow> string \<Rightarrow> int" where
  "val w k = (case w_db w k of None \<Rightarrow> 0 | Some (v, _) \<Rightarrow> v)"

definition lasting :: "world \<Rightarrow> bool" where
  "lasting w = ((\<forall>k v e. w_db w k = Some (v, Some e) \<longrightarrow> horizon w < e) \<and> horizon w \<le> w_clock w + MARKER_GRACE_MS)"

lemma net_ms_nonneg: "0 \<le> net_ms n"
  by (cases n) (simp_all add: net_ms_def)

lemma net_sum_nonneg: "0 \<le> sum_list (map net_ms ns)"
  by (induction ns) (simp_all add: net_ms_nonneg add_nonneg_nonneg)

lemma clock_le_horizon: "w_clock w \<le> horizon w"
  using net_sum_nonneg [of "w_net w"] by (simp add: horizon_def)

lemma live_lasting: "lasting w \<Longrightarrow> live w k = map_option fst (w_db w k)"
  using clock_le_horizon [of w] unfolding lasting_def live_def
  by (cases "w_db w k") (force split: option.splits)+

lemma tally_lasting: "lasting w \<Longrightarrow> tally w k = val w k"
  by (auto simp: tally_def val_def live_lasting split: option.splits)

definition tick :: "net \<Rightarrow> net list \<Rightarrow> world \<Rightarrow> world" where
  "tick n ns w = w\<lparr>w_net := ns, w_clock := w_clock w + net_ms n\<rparr>"

lemma tick_view [simp]: "w_db (tick n ns w) = w_db w" "w_faults (tick n ns w) = w_faults w"
  "w_sent (tick n ns w) = w_sent w" "w_net (tick n ns w) = ns" "val (tick n ns w) = val w"
  by (simp_all add: tick_def val_def fun_eq_iff)

lemma tick_lasting: "w_net w = n # ns \<Longrightarrow> lasting w \<Longrightarrow> lasting (tick n ns w)"
  using net_ms_nonneg [of n] by (auto simp: lasting_def horizon_def tick_def add.assoc)

text \<open>The store a command meets, and what a command can do: nothing, or its effect there.\<close>

definition arrive :: "world \<Rightarrow> world" where
  "arrive w = (case w_net w of [] \<Rightarrow> w | n # ns \<Rightarrow> tick n ns w)"

lemma arrive_view [simp]: "w_db (arrive w) = w_db w" "w_faults (arrive w) = w_faults w"
  "w_sent (arrive w) = w_sent w" "val (arrive w) = val w"
  by (simp_all add: arrive_def split: list.splits)

lemma arrive_lasting [simp]: "lasting w \<Longrightarrow> lasting (arrive w)"
  by (auto simp: arrive_def tick_lasting split: list.splits)

lemma cmd_effect:
  assumes "cmd f w = (r, w')"
  shows "r = Inl () \<and> w' = arrive w \<or> w' = snd (f (arrive w)) \<and> (r = Inl () \<or> r = Inr (fst (f (arrive w))))"
proof (cases "w_net w")
  case Nil
  with assms show ?thesis by (auto simp: cmd_def arrive_def map_prod_def prod_eq_iff split: prod.splits)
next
  case (Cons n ns)
  with assms show ?thesis
    by (cases n) (auto simp: cmd_def arrive_def tick_def net_ms_def map_prod_def prod_eq_iff split: prod.splits)
qed

lemma cmd_served:
  assumes "\<forall>n \<in> set (w_net w). \<exists>d. n = Served d"
  shows "cmd f w = (Inr (fst (f (arrive w))), snd (f (arrive w)))"
proof (cases "w_net w")
  case Nil
  then show ?thesis by (simp add: cmd_def arrive_def map_prod_def split: prod.splits)
next
  case (Cons n ns)
  with assms obtain d where "n = Served d" by auto
  with Cons show ?thesis by (simp add: cmd_def arrive_def tick_def net_ms_def map_prod_def split: prod.splits)
qed

section \<open>What the scripts do\<close>

lemma r_set_view [simp]: "val (r_set k v e w) = (val w)(k := v)" "w_faults (r_set k v e w) = w_faults w"
  "w_sent (r_set k v e w) = w_sent w" "w_net (r_set k v e w) = w_net w" "w_clock (r_set k v e w) = w_clock w"
  by (simp_all add: r_set_def val_def fun_eq_iff)

lemma lasting_set:
  "lasting w \<Longrightarrow> (\<And>x. e = Some x \<Longrightarrow> w_clock w + MARKER_GRACE_MS < x \<or> Option.bind (w_db w k) snd = Some x) \<Longrightarrow>
     lasting (r_set k v e w)"
  unfolding lasting_def horizon_def r_set_def
  by (auto split: option.splits simp: bind_eq_Some_conv)

lemma pexpire_view:
  assumes "lasting w" "MARKER_GRACE_MS < ttl"
  shows "val (r_pexpire k ttl w) = val w" "lasting (r_pexpire k ttl w)" "w_faults (r_pexpire k ttl w) = w_faults w"
    "w_sent (r_pexpire k ttl w) = w_sent w"
proof -
  have "r_pexpire k ttl w = w \<or> r_pexpire k ttl w = r_set k (val w k) (Some (w_clock w + ttl)) w"
    using live_lasting [OF assms(1), of k] by (auto simp: r_pexpire_def val_def split: option.splits)
  moreover have "lasting (r_set k (val w k) (Some (w_clock w + ttl)) w)"
    using assms by (intro lasting_set) auto
  ultimately show "val (r_pexpire k ttl w) = val w" "lasting (r_pexpire k ttl w)"
    "w_faults (r_pexpire k ttl w) = w_faults w" "w_sent (r_pexpire k ttl w) = w_sent w"
    using assms(1) by auto
qed

lemma incrby_view:
  assumes "lasting w"
  shows "val (r_incrby k n w) = (val w)(k := val w k + n)" "lasting (r_incrby k n w)"
    "w_faults (r_incrby k n w) = w_faults w" "w_sent (r_incrby k n w) = w_sent w"
proof -
  have "lasting (r_set k (val w k + n) (r_expiry w k) w)"
    using live_lasting [OF assms, of k] by (intro lasting_set [OF assms]) (auto simp: r_expiry_def split: option.splits)
  then show "val (r_incrby k n w) = (val w)(k := val w k + n)" "lasting (r_incrby k n w)"
    "w_faults (r_incrby k n w) = w_faults w" "w_sent (r_incrby k n w) = w_sent w"
    by (simp_all add: r_incrby_def tally_lasting [OF assms])
qed

lemma check_and_reserve_view:
  assumes "lasting w" "MARKER_GRACE_MS < ttl" "CHECK_AND_RESERVE s p c a ttl w = (r, w')"
  shows "lasting w' \<and> w_faults w' = w_faults w \<and> snd r = (val w s, val w p) \<and>
    (fst r \<longleftrightarrow> val w s + val w p + c \<le> a) \<and> val w' = (if fst r then (val w)(p := val w p + c) else val w)"
  using assms incrby_view [OF assms(1), of p c] pexpire_view [of "r_incrby p c w" ttl p]
  by (auto simp: CHECK_AND_RESERVE_def tally_lasting Let_def split: if_splits)

lemma release_view:
  assumes "lasting w" "MARKER_GRACE_MS < ttl" "RELEASE p m ttl w = (r, w')"
  shows "lasting w' \<and> w_faults w' = w_faults w \<and> val w' = (val w)(p := max 0 (val w p - m))"
  using assms incrby_view [OF assms(1), of p "- m"] pexpire_view [of "r_incrby p (- m) w" ttl p]
    pexpire_view [OF lasting_set [of "r_incrby p (- m) w" None p 0], of ttl p]
  by (auto simp: RELEASE_def tally_lasting Let_def max_def fun_eq_iff split: if_splits)

section \<open>Reserving\<close>

definition micros_of :: "rat \<Rightarrow> int" where "micros_of ask = max 0 \<lceil>ask\<rceil>"

definition served :: "world \<Rightarrow> bool" where "served w = (\<forall>n \<in> set (w_net w). \<exists>d. n = Served d)"

lemma served_arrive [simp]: "served w \<Longrightarrow> served (arrive w)"
  by (auto simp: served_def arrive_def tick_def split: list.splits)

lemma script_net [simp]: "w_net (r_pexpire k t w) = w_net w" "w_net (r_incrby k n w) = w_net w"
  by (auto simp: r_pexpire_def r_incrby_def split: option.splits)

lemma served_check: "served w \<Longrightarrow> served (snd (CHECK_AND_RESERVE s p c a ttl w))"
  by (simp add: CHECK_AND_RESERVE_def Let_def served_def)

lemma served_release: "served w \<Longrightarrow> served (snd (RELEASE p m ttl w))"
  by (simp add: RELEASE_def Let_def served_def)

lemma checkAndReserve_effect:
  assumes "checkAndReserve k a ask ttl w = (r, w')" "lasting w" "MARKER_GRACE_MS < ttl"
  defines "p \<equiv> pendingKeyFor k"
  shows "lasting w' \<and> w_faults w' = w_faults w \<and> (served w \<longrightarrow> served w' \<and> r \<noteq> Inl ()) \<and>
    (r = Inl () \<and> (val w' = val w \<or> val w' = (val w)(p := val w p + micros_of ask)) \<or>
     (\<exists>adm. r = Inr (adm, val w k, val w p) \<and> (adm \<longleftrightarrow> val w k + val w p + micros_of ask \<le> max 0 a) \<and>
        val w' = (if adm then (val w)(p := val w p + micros_of ask) else val w)))"
proof -
  let ?f = "CHECK_AND_RESERVE k p (micros_of ask) (max 0 a) (max 1 ttl)"
  obtain q u where run: "?f (arrive w) = (q, u)" by fastforce
  have "lasting u \<and> w_faults u = w_faults (arrive w) \<and> snd q = (val (arrive w) k, val (arrive w) p) \<and>
      (fst q \<longleftrightarrow> val (arrive w) k + val (arrive w) p + micros_of ask \<le> max 0 a) \<and>
      val u = (if fst q then (val (arrive w))(p := val (arrive w) p + micros_of ask) else val (arrive w))"
    using run assms(2,3) by (intro check_and_reserve_view [where ttl = "max 1 ttl"]) auto
  then have view: "lasting u" "w_faults u = w_faults w" "snd q = (val w k, val w p)"
      "fst q \<longleftrightarrow> val w k + val w p + micros_of ask \<le> max 0 a"
      "val u = (if fst q then (val w)(p := val w p + micros_of ask) else val w)"
    by simp_all
  have eff: "cmd ?f w = (r, w')" using assms(1) by (simp add: checkAndReserve_def micros_of_def p_def)
  have srv: "served w \<Longrightarrow> served w' \<and> r = Inr q"
    using cmd_served [of w ?f] eff run served_check [of "arrive w" k p "micros_of ask" "max 0 a" "max 1 ttl"]
      served_arrive [of w] by (simp add: served_def [of w])
  from cmd_effect [OF eff] consider "r = Inl ()" "w' = arrive w" | "r = Inl ()" "w' = u" | "r = Inr q" "w' = u"
    using run by auto
  then show ?thesis
  proof cases
    case 1 with assms(2) srv show ?thesis by auto
  next
    case 2 with view srv show ?thesis by auto
  next
    case 3 with view srv show ?thesis by (cases q) auto
  qed
qed

lemma release_effect:
  assumes "release_pending k ask ttl w = (r, w')" "lasting w" "MARKER_GRACE_MS < ttl"
  defines "p \<equiv> pendingKeyFor k"
  shows "lasting w' \<and> w_faults w' = w_faults w \<and>
    (val w' = val w \<or> val w' = (val w)(p := max 0 (val w p - micros_of ask))) \<and>
    (served w \<longrightarrow> served w' \<and> val w' = (val w)(p := max 0 (val w p - micros_of ask)))"
proof -
  let ?f = "RELEASE p (micros_of ask) (max 1 ttl)"
  obtain q u where run: "?f (arrive w) = (q, u)" by fastforce
  have "lasting u \<and> w_faults u = w_faults (arrive w)
      \<and> val u = (val (arrive w))(p := max 0 (val (arrive w) p - micros_of ask))"
    using run assms(2,3) by (intro release_view [where ttl = "max 1 ttl"]) auto
  then have view: "lasting u" "w_faults u = w_faults w" "val u = (val w)(p := max 0 (val w p - micros_of ask))"
    by simp_all
  have eff: "cmd ?f w = (r, w')" using assms(1) by (simp add: release_pending_def micros_of_def p_def)
  have "served w \<Longrightarrow> served w' \<and> w' = u"
    using cmd_served [of w ?f] eff run served_release [of "arrive w" p "micros_of ask" "max 1 ttl"]
      served_arrive [of w] by (simp add: served_def [of w])
  with cmd_effect [OF eff] run view assms(2) show ?thesis by auto
qed

lemma rollback_effect:
  assumes "lasting w" "distinct (map fst rs)" "\<forall>r \<in> set rs. MARKER_GRACE_MS < snd r"
  shows "lasting (rollback rs ask w) \<and> w_faults (rollback rs ask w) = w_faults w \<and>
    (\<forall>k. val (rollback rs ask w) k = val w k \<or>
       (\<exists>s \<in> fst ` set rs. k = pendingKeyFor s \<and> val (rollback rs ask w) k = max 0 (val w k - micros_of ask))) \<and>
    (served w \<longrightarrow> (\<forall>s \<in> fst ` set rs.
       val (rollback rs ask w) (pendingKeyFor s) = max 0 (val w (pendingKeyFor s) - micros_of ask)))"
  using assms
proof (induction rs arbitrary: w)
  case Nil
  then show ?case by simp
next
  case (Cons r rs)
  obtain q u where rel: "release_pending (fst r) ask (snd r) w = (q, u)" by fastforce
  let ?p = "pendingKeyFor (fst r)" and ?w = "rollback rs ask u"
  have step: "lasting u" "w_faults u = w_faults w"
      "val u = val w \<or> val u = (val w)(?p := max 0 (val w ?p - micros_of ask))"
      "served w \<Longrightarrow> served u \<and> val u = (val w)(?p := max 0 (val w ?p - micros_of ask))"
    using release_effect [OF rel] Cons.prems by auto
  then have IH: "lasting ?w" "w_faults ?w = w_faults w"
      "\<And>k. val ?w k = val u k \<or> (\<exists>s \<in> fst ` set rs. k = pendingKeyFor s \<and> val ?w k = max 0 (val u k - micros_of ask))"
      "served w \<Longrightarrow> \<forall>s \<in> fst ` set rs. val ?w (pendingKeyFor s) = max 0 (val u (pendingKeyFor s) - micros_of ask)"
    using Cons.IH [of u] Cons.prems by auto
  have unfold: "rollback (r # rs) ask w = ?w" by (simp add: rel)
  have fresh: "fst r \<notin> fst ` set rs" using Cons.prems(2) by simp
  have other: "val u (pendingKeyFor s) = val w (pendingKeyFor s)" if "s \<in> fst ` set rs" for s
    using step(3) that fresh by (metis fun_upd_other pendingKey_inj)
  have "val ?w k = val w k \<or> (\<exists>s \<in> fst ` set (r # rs). k = pendingKeyFor s \<and> val ?w k = max 0 (val w k - micros_of ask))" for k
    using IH(3) [of k] step(3) other fresh by (cases "k = ?p") (auto split: if_splits)
  moreover have "val ?w (pendingKeyFor s) = max 0 (val w (pendingKeyFor s) - micros_of ask)"
    if "served w" "s \<in> fst ` set (r # rs)" for s
  proof (cases "s = fst r")
    case True
    from IH(3) [of ?p] fresh have "val ?w ?p = val u ?p" by (metis pendingKey_inj)
    with step(4) [OF that(1)] True show ?thesis by simp
  next
    case False
    with that IH(4) other show ?thesis by auto
  qed
  ultimately show ?case unfolding unfold using IH(1,2) by blast
qed

text \<open>A store that holds one reservation at each of the given keys, over a base.\<close>

definition held :: "string list \<Rightarrow> int \<Rightarrow> (string \<Rightarrow> int) \<Rightarrow> string \<Rightarrow> int" where
  "held ks c v = (\<lambda>k. v k + (if \<exists>s \<in> set ks. k = pendingKeyFor s then c else 0))"

lemma held_pending: "held ks c v (pendingKeyFor s) = v (pendingKeyFor s) + (if s \<in> set ks then c else 0)"
  by (auto simp: held_def)

lemma held_spend: "(\<And>s. k \<noteq> pendingKeyFor s) \<Longrightarrow> held ks c v k = v k"
  by (simp add: held_def)

lemma held_snoc:
  "s \<notin> set ks \<Longrightarrow> (held ks c v)(pendingKeyFor s := held ks c v (pendingKeyFor s) + c) = held (ks @ [s]) c v"
  by (auto simp: held_def fun_eq_iff)

lemma held_ge: "0 \<le> c \<Longrightarrow> v k \<le> held ks c v k"
  by (simp add: held_def)

lemma micros_of_nonneg [simp]: "0 \<le> micros_of ask"
  by (simp add: micros_of_def)

lemma rollback_held:
  assumes "lasting w" "distinct (map fst rs)" "\<forall>r \<in> set rs. MARKER_GRACE_MS < snd r"
    "\<forall>s. 0 \<le> v (pendingKeyFor s)" "\<And>k. held (map fst rs) (micros_of ask) v k \<le> val w k"
    "\<And>k. (\<And>s. k \<noteq> pendingKeyFor s) \<Longrightarrow> val w k = v k"
  shows "lasting (rollback rs ask w)" "v k \<le> val (rollback rs ask w) k"
    "(\<And>s. k \<noteq> pendingKeyFor s) \<Longrightarrow> val (rollback rs ask w) k = v k"
    "served w \<Longrightarrow> val w = held (map fst rs) (micros_of ask) v \<Longrightarrow> val (rollback rs ask w) = v"
proof -
  let ?w = "rollback rs ask w"
  note eff = rollback_effect [OF assms(1-3), of ask]
  show "lasting ?w" using eff by blast
  have ge: "v k \<le> val w k" for k using assms(5) [of k] held_ge [of "micros_of ask" v k "map fst rs"] by simp
  have cases: "val ?w k = val w k \<or> (\<exists>s \<in> fst ` set rs. k = pendingKeyFor s \<and> val ?w k = max 0 (val w k - micros_of ask))" for k
    using eff by blast
  show "v k \<le> val ?w k"
  proof (cases "val ?w k = val w k")
    case True
    with ge show ?thesis by simp
  next
    case False
    then obtain s where "s \<in> fst ` set rs" "k = pendingKeyFor s" "val ?w k = max 0 (val w k - micros_of ask)"
      using cases by blast
    with assms(5) [of k] show ?thesis by (simp add: held_pending)
  qed
  show "(\<And>s. k \<noteq> pendingKeyFor s) \<Longrightarrow> val ?w k = v k"
    using cases [of k] assms(6) [of k] by metis
  assume srv: "served w" and eq: "val w = held (map fst rs) (micros_of ask) v"
  show "val ?w = v"
  proof
    fix k
    show "val ?w k = v k"
    proof (cases "\<exists>s \<in> fst ` set rs. k = pendingKeyFor s")
      case True
      then obtain x where "x \<in> set rs" "k = pendingKeyFor (fst x)" by auto
      with eff srv eq assms(4) show ?thesis by (auto simp: held_pending)
    next
      case False
      with cases [of k] eq show ?thesis by (auto simp: held_def)
    qed
  qed
qed

definition group_fits :: "rat \<Rightarrow> (string \<Rightarrow> int) \<Rightarrow> string \<times> key_info list \<Rightarrow> bool" where
  "group_fits ask v g =
     (v (fst g) + v (pendingKeyFor (fst g)) + micros_of ask \<le> max 0 (toMicros (bd_amount (ki_budget (tightest (snd g))))))"

definition reserve_post ::
  "bool \<Rightarrow> rat \<Rightarrow> (string \<times> key_info list) list \<Rightarrow> string list \<Rightarrow> (string \<Rightarrow> int) \<Rightarrow> world
     \<Rightarrow> unavailable + batch_reservation \<Rightarrow> world \<Rightarrow> bool" where
  "reserve_post failOpen ask gs ks v w r w' =
     ((\<forall>k. v k \<le> val w' k) \<and> (\<forall>k. (\<forall>s. k \<noteq> pendingKeyFor s) \<longrightarrow> val w' k = v k) \<and>
      (case r of
         Inl _ \<Rightarrow> \<not> failOpen \<and> \<not> served w
       | Inr (Reserved ks') \<Rightarrow>
           ks' = ks @ map fst gs \<and> val w' = held ks' (micros_of ask) v \<and> list_all (group_fits ask v) gs
             \<and> w_faults w' = w_faults w
       | Inr NoBlockBudget \<Rightarrow> False
       | Inr Unenforced \<Rightarrow> failOpen \<and> \<not> served w
       | Inr (Rejected h a) \<Rightarrow>
           (served w \<longrightarrow> val w' = v) \<and> list_ex (\<lambda>g. \<not> group_fits ask v g \<and> hit_budget h = ki_budget (tightest (snd g))) gs))"

lemma reserve_groups_sound:
  assumes "reserve_groups failOpen now ask gs reserved w = (r, w')" "lasting w"
    "distinct (map fst reserved @ map fst gs)" "\<forall>x \<in> set reserved. MARKER_GRACE_MS < snd x"
    "\<forall>s. 0 \<le> v (pendingKeyFor s)" "val w = held (map fst reserved) (micros_of ask) v"
    "\<forall>g \<in> set gs. \<forall>s. fst g \<noteq> pendingKeyFor s"
  shows "reserve_post failOpen ask gs (map fst reserved) v w r w'"
  using assms
proof (induction gs arbitrary: reserved w)
  case Nil
  then show ?case by (auto simp: reserve_post_def held_ge held_spend)
next
  case (Cons g gs)
  define t where "t = tightest (snd g)"
  define ttl where "ttl = max 1 (endMs (ki_period t) - now) + MARKER_GRACE_MS"
  let ?c = "micros_of ask" and ?p = "pendingKeyFor (fst g)" and ?ks = "map fst reserved"
  obtain q u where check: "checkAndReserve (fst g) (toMicros (bd_amount (ki_budget t))) ask ttl w = (q, u)" by fastforce
  have ttl: "MARKER_GRACE_MS < ttl" by (simp add: ttl_def)
  have g: "fst g \<notin> set ?ks" "\<And>s. fst g \<noteq> pendingKeyFor s" using Cons.prems(3,7) by auto
  have vg: "val w (fst g) = v (fst g)" "val w ?p = v ?p"
    using g Cons.prems(6) by (simp_all add: held_spend held_pending)
  note eff = checkAndReserve_effect [OF check Cons.prems(2) ttl]
  have lst: "lasting u" and flt: "w_faults u = w_faults w" and srv: "served w \<Longrightarrow> served u \<and> q \<noteq> Inl ()" using eff by auto
  have rs: "distinct (map fst reserved)" "\<forall>x \<in> set reserved. MARKER_GRACE_MS < snd x" using Cons.prems(3,4) by auto
  note roll = rollback_held [where rs = reserved and v = v and ask = ask, OF _ rs Cons.prems(5)]
  show ?case
  proof (cases q)
    case (Inl x)
    then have vu: "val u = val w \<or> val u = (val w)(?p := val w ?p + ?c)" and ns: "\<not> served w" using eff srv by auto
    have unfold: "(r, w') = reserve_fault failOpen reserved ask u"
      using Cons.prems(1) check Inl by (simp add: Let_def t_def ttl_def)
    have lf: "lasting (recordFault u)" "val (recordFault u) = val u"
      using lst by (simp_all add: recordFault_def lasting_def horizon_def val_def fun_eq_iff)
    have ge: "held ?ks ?c v k \<le> val (recordFault u) k" for k
      using vu lf(2) Cons.prems(6) by auto
    have sp: "(\<And>s. k \<noteq> pendingKeyFor s) \<Longrightarrow> val (recordFault u) k = v k" for k
      using vu lf(2) Cons.prems(6) held_spend [of k ?ks ?c v] by auto
    from unfold have "w' = rollback reserved ask (recordFault u)" "r = (if failOpen then Inr Unenforced else Inl BudgetEnforcementUnavailable)"
      by (simp_all add: reserve_fault_def)
    then show ?thesis
      using roll [OF lf(1) ge sp] ns by (auto simp: reserve_post_def)
  next
    case (Inr y)
    then obtain adm where y: "y = (adm, v (fst g), v ?p)" and adm: "adm \<longleftrightarrow> group_fits ask v g"
      and vu: "val u = (if adm then (val w)(?p := val w ?p + ?c) else val w)"
      using eff vg by (auto simp: group_fits_def t_def)
    show ?thesis
    proof (cases adm)
      case False
      with vu have eq: "val u = held ?ks ?c v" using Cons.prems(6) by simp
      have out: "w' = rollback reserved ask u" "\<exists>h. r = Inr (Rejected h ask) \<and> hit_budget h = ki_budget t"
        using Cons.prems(1) check Inr y False by (auto simp: Let_def t_def ttl_def hit_of_def)
      have sp: "(\<And>s. k \<noteq> pendingKeyFor s) \<Longrightarrow> val u k = v k" for k by (simp add: eq held_spend)
      from roll [OF lst _ sp] eq srv out adm False show ?thesis by (auto simp: reserve_post_def t_def)
    next
      case True
      let ?rs = "reserved @ [(fst g, ttl)]"
      have eq: "val u = held (map fst ?rs) ?c v"
        using vu True Cons.prems(6) held_snoc [OF g(1), of ?c v] by simp
      have next_step: "reserve_groups failOpen now ask gs ?rs u = (r, w')"
        using Cons.prems(1) check Inr y True by (simp add: Let_def t_def ttl_def)
      have "reserve_post failOpen ask gs (map fst ?rs) v u r w'"
        using Cons.prems(3,4,7) ttl
        by (intro Cons.IH [OF next_step lst _ _ Cons.prems(5) eq]) auto
      with adm True flt srv show ?thesis
        by (auto simp: reserve_post_def split: sum.splits batch_reservation.splits)
    qed
  qed
qed

section \<open>Groups\<close>

lemma distinct_keys [simp]: "distinct (distinct_keys ks)" "set (distinct_keys ks) = set ks"
  by (simp_all add: distinct_keys_def)

lemma groups_keys: "map fst (key_groups infos) = distinct_keys (map ki_key infos)"
  by (simp add: key_groups_def comp_def)

lemma group_of: "i \<in> set infos \<Longrightarrow> (ki_key i, filter (\<lambda>j. ki_key j = ki_key i) infos) \<in> set (key_groups infos)"
  by (force simp: key_groups_def)

lemma group_members:
  "g \<in> set (key_groups infos) \<Longrightarrow> snd g = filter (\<lambda>j. ki_key j = fst g) infos \<and> snd g \<noteq> []"
  by (fastforce simp: key_groups_def filter_empty_conv)

lemma tightest_fold:
  defines "amt \<equiv> \<lambda>i. bd_amount (ki_budget i)"
  shows "amt (foldl (\<lambda>a b. if amt a \<le> amt b then a else b) a g) \<le> amt a
    \<and> (\<forall>i \<in> set g. amt (foldl (\<lambda>a b. if amt a \<le> amt b then a else b) a g) \<le> amt i)"
proof (induction g arbitrary: a)
  case (Cons b g)
  from Cons.IH [of a] Cons.IH [of b] show ?case by auto
qed simp

lemma tightest_le: "i \<in> set g \<Longrightarrow> bd_amount (ki_budget (tightest g)) \<le> bd_amount (ki_budget i)"
  using tightest_fold [of "hd g" "tl g"] by (cases g) (auto simp: tightest_def)

lemma toMicros_mono: "a \<le> b \<Longrightarrow> toMicros a \<le> toMicros b"
  by (simp add: toMicros_def js_round_def floor_mono)

lemma ki_budget_keyFor [simp]: "ki_budget (keyFor owner b t) = b"
  by (simp add: keyFor_def Let_def)

lemma keyFor_not_pending [simp]: "ki_key (keyFor owner b t) \<noteq> pendingKeyFor s"
  by (simp add: keyFor_def Let_def)

section \<open>The service\<close>

lemma beat_effect:
  assumes "heartbeatAgeMs now w = (q, w1)"
  shows "w1 = arrive w" "served w \<Longrightarrow> q \<noteq> Inl ()"
    "q = Inl () \<or> q = Inr (map_option (\<lambda>t. now - t) (live (arrive w) HEARTBEAT_KEY))"
proof -
  let ?f = "\<lambda>s. (map_option (\<lambda>t. now - t) (live s HEARTBEAT_KEY), s)"
  have run: "cmd ?f w = (q, w1)" using assms by (simp add: heartbeatAgeMs_def)
  from cmd_effect [OF run] show "w1 = arrive w"
    "q = Inl () \<or> q = Inr (map_option (\<lambda>t. now - t) (live (arrive w) HEARTBEAT_KEY))" by auto
  show "served w \<Longrightarrow> q \<noteq> Inl ()" using cmd_served [of w ?f] run by (simp add: served_def)
qed

text \<open>The reservation either ends before any counter is touched, or is what the groups make of it.\<close>

lemma reserve_cases:
  assumes "reserveForBatch failOpen staleMs owner (Inr rows) agentId t ask w = (r, w')"
  obtains (early) "val w' = val w" "\<And>ks. r \<noteq> Inr (Reserved ks)" "\<And>h a. r \<noteq> Inr (Rejected h a)"
  | (groups) "reserve_groups failOpen (w_clock w) ask
        (key_groups (map (\<lambda>b. keyFor owner b t) (block_budgets rows agentId))) [] (arrive w) = (r, w')"
proof -
  obtain q w1 where beat: "heartbeatAgeMs (w_clock w) w = (q, w1)" by fastforce
  have vr: "val (recordFault u) = val u" for u by (simp add: recordFault_def val_def fun_eq_iff)
  note b = beat_effect [OF beat]
  show ?thesis
    using assms beat b(1) that
    by (auto simp: reserveForBatch_def Let_def reserve_fault_def vr split: if_splits sum.splits)
qed

lemma reserve_post_all:
  assumes "reserveForBatch failOpen staleMs owner (Inr rows) agentId t ask w = (r, w')" "lasting w"
    "\<forall>s. 0 \<le> val w (pendingKeyFor s)"
  shows "val w' = val w \<and> (\<forall>ks. r \<noteq> Inr (Reserved ks)) \<and> (\<forall>h a. r \<noteq> Inr (Rejected h a)) \<or>
    reserve_post failOpen ask (key_groups (map (\<lambda>b. keyFor owner b t) (block_budgets rows agentId))) [] (val w) (arrive w) r w'"
  using assms(1)
proof (cases rule: reserve_cases)
  case early
  then show ?thesis by blast
next
  case groups
  let ?gs = "key_groups (map (\<lambda>b. keyFor owner b t) (block_budgets rows agentId))"
  have "fst g \<noteq> pendingKeyFor s" if "g \<in> set ?gs" for g s
    using that by (auto simp: key_groups_def)
  then have "reserve_post failOpen ask ?gs (map fst ([] :: (string \<times> int) list)) (val w) (arrive w) r w'"
    using assms(2,3) by (intro reserve_groups_sound [OF groups]) (auto simp: groups_keys held_def)
  then show ?thesis by simp
qed

text \<open>C6 (safety). An admitted batch reservation fits: whatever the network did, for every block
  budget that governs the agent, what was spent and reserved on its counter, plus the ceiling, is
  within the budget's amount, and the counter's pending total holds the ceiling afterwards.\<close>

theorem admitted_reservation_fits:
  assumes "reserveForBatch failOpen staleMs owner (Inr rows) agentId t ask w = (Inr (Reserved ks), w')"
    "lasting w" "\<forall>s. 0 \<le> val w (pendingKeyFor s)" "b \<in> set (block_budgets rows agentId)"
  defines "k \<equiv> ki_key (keyFor owner b t)"
  shows "k \<in> set ks \<and> val w k + val w (pendingKeyFor k) + micros_of ask \<le> max 0 (toMicros (bd_amount b))
    \<and> val w' (pendingKeyFor k) = val w (pendingKeyFor k) + micros_of ask"
proof -
  let ?infos = "map (\<lambda>b. keyFor owner b t) (block_budgets rows agentId)"
  have post: "reserve_post failOpen ask (key_groups ?infos) [] (val w) (arrive w) (Inr (Reserved ks)) w'"
    using reserve_post_all [OF assms(1-3)] by blast
  let ?g = "(k, filter (\<lambda>j. ki_key j = k) ?infos)"
  have g: "?g \<in> set (key_groups ?infos)"
    using group_of [of "keyFor owner b t" ?infos] assms(4) by (simp add: k_def)
  have ks: "ks = distinct_keys (map ki_key ?infos)" and fits: "group_fits ask (val w) ?g"
    and v: "val w' = held ks (micros_of ask) (val w)"
    using post g by (auto simp: reserve_post_def groups_keys list_all_iff)
  have "k \<in> set ks" using assms(4) by (simp add: ks k_def)
  moreover have "toMicros (bd_amount (ki_budget (tightest (snd ?g)))) \<le> toMicros (bd_amount b)"
    using tightest_le [of "keyFor owner b t" "snd ?g"] assms(4) by (intro toMicros_mono) (simp add: k_def)
  ultimately show ?thesis using fits v by (simp add: group_fits_def held_pending)
qed

text \<open>C10 (safety). A reservation never under-counts: whatever happens to its commands, every counter ends at
  no less than it held and no spend counter moves, and over a network that answers a refused
  reservation leaves every counter exactly as it was.\<close>

theorem refused_reservation_leaves_no_gap:
  assumes "reserveForBatch failOpen staleMs owner (Inr rows) agentId t ask w = (r, w')" "lasting w"
    "\<forall>s. 0 \<le> val w (pendingKeyFor s)"
  shows "val w k \<le> val w' k \<and> ((\<forall>s. k \<noteq> pendingKeyFor s) \<longrightarrow> val w' k = val w k)
    \<and> (served w \<and> r = Inr (Rejected h a) \<longrightarrow> val w' k = val w k)"
  using reserve_post_all [OF assms] served_arrive [of w] unfolding reserve_post_def by (elim disjE) auto

lemma sample_lasting: "lasting sample_world" "0 \<le> val sample_world (pendingKeyFor s)"
  by (auto simp: lasting_def sample_world_def horizon_def val_def MARKER_GRACE_MS_def)

theorem admitted_reservation_fits_witness:
  "\<exists>ks w'. reserveForBatch False 5000 ''u'' (Inr [sample_budget]) None 1000 1000000 sample_world = (Inr (Reserved ks), w')
     \<and> val w' (pendingKeyFor sample_key) = 2000000"
proof -
  obtain w' where run: "reserveForBatch False 5000 ''u'' (Inr [sample_budget]) None 1000 1000000 sample_world
      = (Inr (Reserved [sample_key]), w')"
    using sample_reservation(1) by (metis prod.collapse)
  have key: "ki_key (keyFor ''u'' sample_budget 1000) = sample_key" by (simp add: sample_keyFor)
  have "val w' (pendingKeyFor sample_key) = val sample_world (pendingKeyFor sample_key) + micros_of 1000000"
    using admitted_reservation_fits [OF run sample_lasting(1), of sample_budget] sample_lasting(2)
    by (simp add: sample_block key)
  then have "val w' (pendingKeyFor sample_key) = 2000000"
    by (simp add: tally_lasting [OF sample_lasting(1), symmetric] sample_tally micros_of_def)
  with run show ?thesis by blast
qed

theorem refused_reservation_leaves_no_gap_witness:
  "val sample_world sample_key
     \<le> val (snd (reserveForBatch False 5000 ''u'' (Inr [sample_budget]) None 1000 1010000 sample_world)) sample_key"
  using refused_reservation_leaves_no_gap [of False 5000 "''u''" "[sample_budget]" None 1000 1010000 sample_world]
    sample_lasting by (metis prod.collapse)

section \<open>The block check\<close>

lemma read_effect:
  assumes "readWithPending ks w = (q, w1)" "ks \<noteq> []"
  shows "w1 = arrive w" "q = Inl () \<or> q = Inr (map (\<lambda>k. (tally w1 k, tally w1 (pendingKeyFor k))) ks)"
proof -
  let ?f = "\<lambda>s. (map (\<lambda>k. (tally s k, tally s (pendingKeyFor k))) ks, s)"
  have run: "cmd ?f w = (q, w1)" using assms by (simp add: readWithPending_def)
  from cmd_effect [OF run] show "w1 = arrive w"
    "q = Inl () \<or> q = Inr (map (\<lambda>k. (tally w1 k, tally w1 (pendingKeyFor k))) ks)" by auto
qed

lemma map_of_zip_map: "k \<in> set ks \<Longrightarrow> map_of (zip ks (map f ks)) k = Some (f k)"
  by (induction ks) auto

lemma over_threshold_reads:
  "ki_key i \<in> set ks \<Longrightarrow> over_threshold (map_of (zip ks (map (\<lambda>k. (tally u k, tally u (pendingKeyFor k))) ks))) i =
     (if toMicros (bd_amount (ki_budget i)) \<le> tally u (ki_key i) + tally u (pendingKeyFor (ki_key i))
      then Some (hit_of i (tally u (ki_key i)) (tally u (pendingKeyFor (ki_key i)))) else None)"
  by (simp add: over_threshold_def map_of_zip_map)

lemma first_hit_reads:
  fixes u :: world
  assumes "\<forall>i \<in> set infos. ki_key i \<in> set ks"
  defines "byKey \<equiv> map_of (zip ks (map (\<lambda>k. (tally u k, tally u (pendingKeyFor k))) ks))"
    and "taken \<equiv> \<lambda>i. tally u (ki_key i) + tally u (pendingKeyFor (ki_key i))"
  shows "case first_hit byKey infos of
      None \<Rightarrow> \<forall>i \<in> set infos. taken i < toMicros (bd_amount (ki_budget i))
    | Some h \<Rightarrow> \<exists>i \<in> set infos. toMicros (bd_amount (ki_budget i)) \<le> taken i \<and>
        h = hit_of i (tally u (ki_key i)) (tally u (pendingKeyFor (ki_key i)))"
proof (cases "find (\<lambda>i. over_threshold byKey i \<noteq> None) infos")
  case None
  then have none: "\<forall>i \<in> set infos. over_threshold byKey i = None" by (auto simp: find_None_iff)
  have "taken i < toMicros (bd_amount (ki_budget i))" if "i \<in> set infos" for i
    using none that assms(1) over_threshold_reads [of i ks u]
    by (auto simp: byKey_def taken_def not_le split: if_splits)
  with None show ?thesis by (simp add: first_hit_def)
next
  case (Some i)
  then have "i \<in> set infos" "over_threshold byKey i \<noteq> None" by (auto dest: find_SomeD)
  with Some assms(1) show ?thesis
    using over_threshold_reads [of i ks u]
    by (auto simp: first_hit_def byKey_def taken_def split: if_splits)
qed

text \<open>C38 (error). Under fail-closed nothing unchecked passes: for every network and every cache answer, a
  request the block check lets through was checked against the rows the cache gave, without a
  fault, and every block budget that governs it was below its amount, reservations included; and a
  request that is blocked is blocked by a budget whose counters reach its amount.\<close>

theorem fail_closed_admits_only_checked:
  "(case checkBlocked False staleMs owner rows agentId w of
      (Inl _, w') \<Rightarrow> True
    | (Inr None, w') \<Rightarrow>
        (\<exists>all. rows = Inr all \<and> w_faults w' = w_faults w \<and>
          list_all (\<lambda>b. let k = ki_key (keyFor owner b (w_clock w)) in
            tally w' k + tally w' (pendingKeyFor k) < toMicros (bd_amount b)) (block_budgets all agentId))
    | (Inr (Some h), w') \<Rightarrow>
        (\<exists>all. rows = Inr all \<and> hit_budget h \<in> set (block_budgets all agentId) \<and>
          toMicros (bd_amount (hit_budget h)) \<le> hit_spentMicros h + hit_pendingMicros h))"
proof (cases rows)
  case (Inl x)
  then show ?thesis by (simp add: checkBlocked_def blocked_fault_def)
next
  case (Inr all)
  let ?m = "block_budgets all agentId" and ?now = "w_clock w"
  let ?infos = "map (\<lambda>b. keyFor owner b ?now) ?m"
  let ?ks = "distinct_keys (map ki_key ?infos)"
  obtain q w1 where beat: "heartbeatAgeMs ?now w = (q, w1)" by fastforce
  obtain q2 w2 where reads: "readWithPending ?ks w1 = (q2, w2)" by fastforce
  show ?thesis
  proof (cases "?m = []")
    case True
    with Inr show ?thesis by (simp add: checkBlocked_def)
  next
    case False
    then have "set ?ks \<noteq> {}" by (simp del: set_map)
    then have ks: "?ks \<noteq> []" by (metis list.set(1))
    note r = read_effect [OF reads ks]
    show ?thesis
    proof (cases q)
      case (Inl x)
      with Inr False beat show ?thesis by (simp add: checkBlocked_def blocked_fault_def Let_def)
    next
      case age: (Inr age)
      show ?thesis
      proof (cases "stale_beat staleMs age \<or> q2 = Inl ()")
        case True
        with Inr False beat age reads show ?thesis by (auto simp: checkBlocked_def blocked_fault_def Let_def)
      next
        case fresh: False
        with r(2) have vals: "q2 = Inr (map (\<lambda>k. (tally w2 k, tally w2 (pendingKeyFor k))) ?ks)" by blast
        have run: "checkBlocked False staleMs owner rows agentId w
            = (Inr (first_hit (map_of (zip ?ks (map (\<lambda>k. (tally w2 k, tally w2 (pendingKeyFor k))) ?ks))) ?infos), w2)"
          using Inr False beat age reads fresh vals by (simp add: checkBlocked_def Let_def)
        have "w_faults w2 = w_faults w" using r(1) beat_effect(1) [OF beat] by simp
        then show ?thesis
          using first_hit_reads [of ?infos ?ks w2] Inr unfolding run
          by (auto simp: list_all_iff Let_def hit_of_def split: option.splits)
      qed
    qed
  qed
qed

section \<open>Reconciliation\<close>

text \<open>The markers and the heartbeat are named apart from the counters.\<close>

definition is_mark :: "string \<Rightarrow> bool" where "is_mark k = (take 7 k = ''budget-'')"

lemma mark_names [simp]: "is_mark (''budget-alerted:'' @ x)" "\<not> is_mark (pendingKeyFor s)"
  "\<not> is_mark (counter_key ow sc si win pid bas)" "\<not> is_mark HEARTBEAT_KEY"
  by (simp_all add: is_mark_def pendingKeyFor_def counter_key_def HEARTBEAT_KEY_def)

lemma counter_not_heartbeat [simp]: "counter_key ow sc si win pid bas \<noteq> HEARTBEAT_KEY"
proof
  assume "counter_key ow sc si win pid bas = HEARTBEAT_KEY"
  then have "count_list (counter_key ow sc si win pid bas) CHR '':'' = count_list HEARTBEAT_KEY CHR '':''" by simp
  then show False by (simp add: counter_key_def HEARTBEAT_KEY_def count_list_append)
qed

lemma pending_not_heartbeat [simp]: "pendingKeyFor s \<noteq> HEARTBEAT_KEY"
  by (simp add: pendingKeyFor_def HEARTBEAT_KEY_def)

lemma mark_effect:
  assumes "markOnce k ttl w = (q, w')" "lasting w" "MARKER_GRACE_MS < ttl"
  shows "lasting w'" "\<And>x. x \<noteq> k \<Longrightarrow> val w' x = val w x"
proof -
  let ?f = "\<lambda>s. if live s k = None then (True, r_set k 1 (Some (w_clock s + max 1 ttl)) s) else (False, s)"
  have eff: "cmd ?f w = (q, w')" using assms(1) by (simp add: markOnce_def)
  have "lasting (snd (?f (arrive w)))" using assms(2,3) by (auto intro: lasting_set)
  with cmd_effect [OF eff] assms(2) show "lasting w'" by auto
  from cmd_effect [OF eff] show "\<And>x. x \<noteq> k \<Longrightarrow> val w' x = val w x" by (auto split: if_splits)
qed

lemma alerts_effect:
  assumes "lasting w" "MARKER_GRACE_MS < ttl"
  shows "lasting (alert_budgets m e ttl infos w) \<and>
    (\<forall>k. \<not> is_mark k \<longrightarrow> val (alert_budgets m e ttl infos w) k = val w k)"
  using assms(1)
proof (induction infos arbitrary: w)
  case Nil
  then show ?case by simp
next
  case (Cons i infos)
  let ?k = "''budget-alerted:'' @ bd_id (ki_budget i) @ '':'' @ periodId (ki_period i)"
  obtain q u where mark: "markOnce ?k ttl w = (q, u)" by fastforce
  note eff = mark_effect [OF mark Cons.prems assms(2)]
  have sent: "lasting (u\<lparr>w_sent := x\<rparr>)" "val (u\<lparr>w_sent := x\<rparr>) = val u" for x
    using eff(1) by (simp_all add: lasting_def horizon_def val_def fun_eq_iff)
  have other: "val u k = val w k" if "\<not> is_mark k" for k
    using that eff(2) [of k] mark_names(1) by metis
  show ?case
    using Cons.IH [OF Cons.prems] Cons.IH [OF eff(1)] Cons.IH [OF sent(1)] mark other sent(2)
    by (auto simp: Let_def)
qed

lemma reconcile_max_view:
  assumes "lasting w" "MARKER_GRACE_MS < ttl" "RECONCILE_MAX k v ttl w = (r, w')" "0 \<le> v"
  shows "lasting w' \<and> val w' = (val w)(k := max (val w k) v)"
proof -
  let ?w1 = "if v > tally w k \<or> live w k = None then r_set k v None w else w"
  have w1: "lasting ?w1" using assms(1) by (auto intro: lasting_set)
  have "live w k = None \<Longrightarrow> val w k = 0" using live_lasting [OF assms(1), of k] by (simp add: val_def)
  then have v1: "val ?w1 = (val w)(k := max (val w k) v)"
    using assms(4) by (auto simp: tally_lasting [OF assms(1)] fun_eq_iff)
  have "w' = r_pexpire k ttl ?w1" using assms(3) by (simp add: RECONCILE_MAX_def Let_def)
  with pexpire_view(1,2) [OF w1 assms(2), of k] v1 show ?thesis by simp
qed

lemma reconcileMax_effect:
  assumes "reconcileMax k m ttl w = (q, w')" "lasting w" "MARKER_GRACE_MS < ttl"
  shows "lasting w' \<and> (val w' = val w \<or> val w' = (val w)(k := max (val w k) (max 0 m)))
    \<and> (q \<noteq> Inl () \<longrightarrow> val w' = (val w)(k := max (val w k) (max 0 m)))"
proof -
  let ?f = "RECONCILE_MAX k (max 0 m) (max 1 ttl)"
  obtain x u where run: "?f (arrive w) = (x, u)" by fastforce
  have "lasting u \<and> val u = (val (arrive w))(k := max (val (arrive w) k) (max 0 m))"
    using run assms(2,3) by (intro reconcile_max_view [where ttl = "max 1 ttl"]) auto
  moreover have "cmd ?f w = (q, w')" using assms(1) by (simp add: reconcileMax_def)
  ultimately show ?thesis using cmd_effect [of ?f w q w'] run assms(2) by auto
qed

lemma reconcilePending_effect:
  assumes "reconcilePending k m ttl w = (q, w')" "lasting w" "MARKER_GRACE_MS < ttl"
  shows "lasting w' \<and> (\<forall>x. x \<noteq> pendingKeyFor k \<longrightarrow> val w' x = val w x)
    \<and> (q \<noteq> Inl () \<longrightarrow> val w' (pendingKeyFor k) = max 0 m)"
proof -
  let ?f = "\<lambda>s. ((), r_set (pendingKeyFor k) (max 0 m) (Some (w_clock s + max 1 ttl)) s)"
  have eff: "cmd ?f w = (q, w')" using assms(1) by (simp add: reconcilePending_def)
  have "lasting (snd (?f (arrive w)))" using assms(2,3) by (auto intro: lasting_set)
  with cmd_effect [OF eff] assms(2) show ?thesis by auto
qed

text \<open>What one group does: its own two keys, and nothing else that is not a marker.\<close>

definition settled :: "ledger \<Rightarrow> reservations option \<Rightarrow> string \<times> key_info list \<Rightarrow> (string \<Rightarrow> int) \<Rightarrow> (string \<Rightarrow> int) \<Rightarrow> bool" where
  "settled spendOf pendingOf g v v' =
     (let i = hd (snd g); b = ki_budget i; p = ki_period i;
          agentId = (if bd_scope b = AgentScope then Some (scope_id b) else None)
      in (\<exists>m e. spendOf (bd_owner b) agentId (startMs p) (endMs p) (bd_basis b) = Inr (m, e) \<and>
            v' (fst g) = max (v (fst g)) (max 0 m)) \<and>
         (case pendingOf of
            None \<Rightarrow> v' (pendingKeyFor (fst g)) = v (pendingKeyFor (fst g))
          | Some f \<Rightarrow> \<exists>n. f (bd_owner b) agentId (startMs p) (endMs p) = Inr n \<and> v' (pendingKeyFor (fst g)) = max 0 n))"

lemma settled_cong:
  "u (fst g) = v (fst g) \<Longrightarrow> u (pendingKeyFor (fst g)) = v (pendingKeyFor (fst g)) \<Longrightarrow>
   u' (fst g) = v' (fst g) \<Longrightarrow> u' (pendingKeyFor (fst g)) = v' (pendingKeyFor (fst g)) \<Longrightarrow>
     settled spendOf pendingOf g u u' \<longleftrightarrow> settled spendOf pendingOf g v v'"
  unfolding settled_def Let_def by presburger

lemma group_effect:
  assumes "reconcile_group spendOf pendingOf t g w = (q, w')" "lasting w" "t < endMs (ki_period (hd (snd g)))"
    "\<forall>s. fst g \<noteq> pendingKeyFor s" "\<not> is_mark (fst g)"
  shows "lasting w' \<and> (\<forall>k. (\<forall>s. k \<noteq> pendingKeyFor s) \<and> \<not> is_mark k \<longrightarrow> val w k \<le> val w' k)
    \<and> (\<forall>k. k \<noteq> fst g \<and> k \<noteq> pendingKeyFor (fst g) \<and> \<not> is_mark k \<longrightarrow> val w' k = val w k)
    \<and> (q = Inr () \<longrightarrow> settled spendOf pendingOf g (val w) (val w'))"
proof -
  define b where "b = ki_budget (hd (snd g))"
  define p where "p = ki_period (hd (snd g))"
  define ag where "ag = (if bd_scope b = AgentScope then Some (scope_id b) else None)"
  define ttl where "ttl = endMs p - t + GRACE_MS"
  have np: "pendingKeyFor s \<noteq> fst g" for s using assms(4) by metis
  have ttl: "MARKER_GRACE_MS < ttl" using assms(3) by (simp add: ttl_def p_def GRACE_MS_def MARKER_GRACE_MS_def)
  note run = assms(1) [unfolded reconcile_group_def Let_def, folded b_def p_def, folded ag_def ttl_def]
  note goal = settled_def [of spendOf pendingOf g "val w" "val w'", unfolded Let_def, folded b_def p_def, folded ag_def]
  show ?thesis
  proof (cases "spendOf (bd_owner b) ag (startMs p) (endMs p) (bd_basis b)")
    case (Inl x)
    with run assms(2) show ?thesis by auto
  next
    case spend: (Inr me)
    obtain q1 w1 where max_run: "reconcileMax (fst g) (fst me) ttl w = (q1, w1)" by fastforce
    note e1 = reconcileMax_effect [OF max_run assms(2) ttl]
    show ?thesis
    proof (cases q1)
      case (Inl x)
      then have "w' = w1" "q = Inl ()"
        using run spend max_run by auto
      with e1 show ?thesis by auto
    next
      case one: (Inr y)
      then have v1: "lasting w1" "val w1 = (val w)(fst g := max (val w (fst g)) (max 0 (fst me)))" using e1 by auto
      show ?thesis
      proof (cases pendingOf)
        case None
        then have "w' = alert_budgets (fst me) (snd me) ttl (snd g) w1" "q = Inr ()"
          using run spend max_run one by auto
        then show ?thesis
          using alerts_effect [OF v1(1) ttl, of "fst me" "snd me" "snd g"] v1 assms(4,5) np spend None
          unfolding goal by (cases me) auto
      next
        case f: (Some f)
        show ?thesis
        proof (cases "f (bd_owner b) ag (startMs p) (endMs p)")
          case (Inl x)
          then have "w' = w1" "q = Inl ()"
            using run spend max_run one f by auto
          with v1 show ?thesis by auto
        next
          case n: (Inr n)
          obtain q2 w2 where set_run: "reconcilePending (fst g) n ttl w1 = (q2, w2)" by fastforce
          note e2 = reconcilePending_effect [OF set_run v1(1) ttl]
          show ?thesis
          proof (cases q2)
            case (Inl x)
            then have "w' = w2" "q = Inl ()"
              using run spend max_run one f n set_run by auto
            with e2 v1 show ?thesis by auto
          next
            case (Inr z)
            then have "w' = alert_budgets (fst me) (snd me) ttl (snd g) w2" "q = Inr ()"
              using run spend max_run one f n set_run by auto
            then show ?thesis
              using alerts_effect [of w2 ttl "fst me" "snd me" "snd g"] e2 ttl v1 assms(4,5) np spend f n Inr
              unfolding goal by (cases me) auto
          qed
        qed
      qed
    qed
  qed
qed

definition group_ok :: "int \<Rightarrow> string \<times> key_info list \<Rightarrow> bool" where
  "group_ok t g = (t < endMs (ki_period (hd (snd g))) \<and> (\<forall>s. fst g \<noteq> pendingKeyFor s) \<and> \<not> is_mark (fst g))"

lemma groups_effect:
  assumes "reconcile_groups spendOf pendingOf t gs w = (q, w')" "lasting w" "distinct (map fst gs)" "\<forall>g \<in> set gs. group_ok t g"
  shows "lasting w' \<and> (\<forall>k. (\<forall>s. k \<noteq> pendingKeyFor s) \<and> \<not> is_mark k \<longrightarrow> val w k \<le> val w' k)
    \<and> (\<forall>k. k \<notin> fst ` set gs \<and> k \<notin> (pendingKeyFor \<circ> fst) ` set gs \<and> \<not> is_mark k \<longrightarrow> val w' k = val w k)
    \<and> (q = Inr () \<longrightarrow> (\<forall>g \<in> set gs. settled spendOf pendingOf g (val w) (val w')))"
  using assms
proof (induction gs arbitrary: w)
  case Nil
  then show ?case by simp
next
  case (Cons g gs)
  obtain q1 w1 where one: "reconcile_group spendOf pendingOf t g w = (q1, w1)" by fastforce
  have g: "group_ok t g" "fst g \<notin> fst ` set gs" using Cons.prems(3,4) by simp_all
  note e1 = group_effect [OF one Cons.prems(2)]
  have e1': "lasting w1" "\<And>k. (\<forall>s. k \<noteq> pendingKeyFor s) \<Longrightarrow> \<not> is_mark k \<Longrightarrow> val w k \<le> val w1 k"
    "\<And>k. k \<noteq> fst g \<Longrightarrow> k \<noteq> pendingKeyFor (fst g) \<Longrightarrow> \<not> is_mark k \<Longrightarrow> val w1 k = val w k"
    "q1 = Inr () \<Longrightarrow> settled spendOf pendingOf g (val w) (val w1)"
    using e1 g(1) by (auto simp: group_ok_def)
  show ?case
  proof (cases q1)
    case (Inl x)
    then have "w' = w1" "q = Inl ()" using Cons.prems(1) one by auto
    with e1' show ?thesis by auto
  next
    case (Inr y)
    then have rest: "reconcile_groups spendOf pendingOf t gs w1 = (q, w')" using Cons.prems(1) one by simp
    have IH: "lasting w'" "\<And>k. (\<forall>s. k \<noteq> pendingKeyFor s) \<Longrightarrow> \<not> is_mark k \<Longrightarrow> val w1 k \<le> val w' k"
      "\<And>k. k \<notin> fst ` set gs \<Longrightarrow> k \<notin> (pendingKeyFor \<circ> fst) ` set gs \<Longrightarrow> \<not> is_mark k \<Longrightarrow> val w' k = val w1 k"
      "q = Inr () \<Longrightarrow> \<forall>h \<in> set gs. settled spendOf pendingOf h (val w1) (val w')"
      using Cons.IH [OF rest e1'(1)] Cons.prems(3,4) by auto
    have own: "val w' (fst g) = val w1 (fst g)" "val w' (pendingKeyFor (fst g)) = val w1 (pendingKeyFor (fst g))"
    proof -
      have "fst g \<notin> (pendingKeyFor \<circ> fst) ` set gs" "pendingKeyFor (fst g) \<notin> fst ` set gs"
        "pendingKeyFor (fst g) \<notin> (pendingKeyFor \<circ> fst) ` set gs"
        using g Cons.prems(4) by (auto simp: group_ok_def image_iff) (metis fst_conv)+
      then show "val w' (fst g) = val w1 (fst g)" "val w' (pendingKeyFor (fst g)) = val w1 (pendingKeyFor (fst g))"
        using IH(3) g by (simp_all add: group_ok_def)
    qed
    have other: "val w1 (fst h) = val w (fst h)" "val w1 (pendingKeyFor (fst h)) = val w (pendingKeyFor (fst h))"
      if "h \<in> set gs" for h
    proof -
      have "fst h \<noteq> fst g" using that g(2) by (metis imageI)
      moreover have "group_ok t h" using that Cons.prems(4) by simp
      ultimately have "fst h \<noteq> fst g" "group_ok t h" .
      then show "val w1 (fst h) = val w (fst h)" "val w1 (pendingKeyFor (fst h)) = val w (pendingKeyFor (fst h))"
        using e1'(3) [of "fst h"] e1'(3) [of "pendingKeyFor (fst h)"] g(1) unfolding group_ok_def
        by (metis mark_names(2) pendingKey_inj)+
    qed
    have "settled spendOf pendingOf h (val w) (val w')" if "q = Inr ()" "h \<in> set (g # gs)" for h
    proof (cases "h = g")
      case True
      with e1'(4) Inr own show ?thesis by (metis (full_types) old.unit.exhaust settled_cong)
    next
      case False
      with that have h: "h \<in> set gs" by simp
      with that(1) IH(4) have "settled spendOf pendingOf h (val w1) (val w')" by blast
      with other [OF h] show ?thesis using settled_cong by metis
    qed
    moreover have "val w k \<le> val w' k" if "\<forall>s. k \<noteq> pendingKeyFor s" "\<not> is_mark k" for k
      using e1'(2) IH(2) that by (meson order_trans)
    moreover have "val w' k = val w k"
      if "k \<notin> fst ` set (g # gs)" "k \<notin> (pendingKeyFor \<circ> fst) ` set (g # gs)" "\<not> is_mark k" for k
      using e1'(3) [of k] IH(3) [of k] that by simp
    ultimately show ?thesis using IH(1) by blast
  qed
qed

lemma heartbeat_effect:
  assumes "heartbeatSet t ttl w = (q, w')"
  shows "k \<noteq> HEARTBEAT_KEY \<Longrightarrow> val w' k = val w k" "q = Inr () \<Longrightarrow> val w' HEARTBEAT_KEY = t"
proof -
  let ?f = "\<lambda>s. ((), r_set HEARTBEAT_KEY t (Some (w_clock s + max 1 ttl)) s)"
  have eff: "cmd ?f w = (q, w')" using assms by (simp add: heartbeatSet_def)
  from cmd_effect [OF eff] show "k \<noteq> HEARTBEAT_KEY \<Longrightarrow> val w' k = val w k" "q = Inr () \<Longrightarrow> val w' HEARTBEAT_KEY = t"
    by auto
qed

lemma active_group_ok:
  assumes "0 \<le> t" "g \<in> set (key_groups (map (\<lambda>b. keyFor (bd_owner b) b t) active))"
  shows "group_ok t g"
proof -
  let ?infos = "map (\<lambda>b. keyFor (bd_owner b) b t) active"
  have "snd g \<noteq> []" using group_members [OF assms(2)] by (rule conjunct2)
  then have "hd (snd g) \<in> set (snd g)" by (rule hd_in_set)
  then have "hd (snd g) \<in> set (filter (\<lambda>j. ki_key j = fst g) ?infos)"
    using group_members [OF assms(2)] by metis
  then have "hd (snd g) \<in> set ?infos" "ki_key (hd (snd g)) = fst g" by simp_all
  then obtain b where b: "hd (snd g) = keyFor (bd_owner b) b t" "fst g = ki_key (keyFor (bd_owner b) b t)" by auto
  have "t < endMs (periodInfo (bd_window b) t)" using period_contains [OF assms(1)] by blast
  with b show ?thesis by (simp add: group_ok_def keyFor_def Let_def)
qed


text \<open>C20 (invariant). Reconciliation only raises: no occurrence, however far its commands get, lowers a spend
  counter; and one that completes leaves on the counter of every active budget the larger of what
  it held and the ledger's total, on its pending key the reservations' total, and a heartbeat of
  the evaluated instant.\<close>

theorem reconcile_only_raises:
  assumes "runBudgetOccurrence active spendOf pendingOf t staleMs w = (q, w')" "lasting w" "0 \<le> t"
  shows "(\<forall>ow sc si win pid bas. val w (counter_key ow sc si win pid bas) \<le> val w' (counter_key ow sc si win pid bas))
    \<and> (q = Inr () \<longrightarrow> val w' HEARTBEAT_KEY = t \<and>
        list_all (\<lambda>g. settled spendOf pendingOf g (val w) (val w')) (key_groups (map (\<lambda>b. keyFor (bd_owner b) b t) active)))"
proof -
  let ?gs = "key_groups (map (\<lambda>b. keyFor (bd_owner b) b t) active)"
  obtain q1 w1 where rec: "reconcile_groups spendOf pendingOf t ?gs w = (q1, w1)" by fastforce
  have "distinct (map fst ?gs)" "\<forall>g \<in> set ?gs. group_ok t g"
    using active_group_ok [OF assms(3)] by (auto simp: groups_keys)
  note eff = groups_effect [OF rec assms(2) this]
  have up: "val w (counter_key ow sc si win pid bas) \<le> val w1 (counter_key ow sc si win pid bas)" for ow sc si win pid bas
    using eff by simp
  show ?thesis
  proof (cases q1)
    case (Inl x)
    with assms(1) rec up show ?thesis by (auto simp: runBudgetOccurrence_def)
  next
    case (Inr y)
    then have beat: "heartbeatSet t (staleMs * 2) w1 = (q, w')" using assms(1) rec by (simp add: runBudgetOccurrence_def)
    have "settled spendOf pendingOf g (val w) (val w')" if "g \<in> set ?gs" for g
    proof -
      have "settled spendOf pendingOf g (val w) (val w1)" using eff Inr that by auto
      moreover have "fst g \<noteq> HEARTBEAT_KEY" using that by (auto simp: key_groups_def keyFor_def Let_def)
      ultimately show ?thesis
        using heartbeat_effect(1) [OF beat, of "fst g"] heartbeat_effect(1) [OF beat, of "pendingKeyFor (fst g)"]
        using settled_cong pending_not_heartbeat by metis
    qed
    with up heartbeat_effect [OF beat] show ?thesis by (auto simp: list_all_iff)
  qed
qed

theorem reconcile_only_raises_witness:
  "\<exists>w'. runBudgetOccurrence [sample_budget] (\<lambda>_ _ _ _ _. Inr (9000000, 0)) None 1000 60000 sample_world = (Inr (), w')
     \<and> val w' HEARTBEAT_KEY = 1000"
proof -
  obtain q w' where run: "runBudgetOccurrence [sample_budget] (\<lambda>_ _ _ _ _. Inr (9000000, 0)) None 1000 60000 sample_world = (q, w')"
    by fastforce
  have "bd_owner sample_budget = ''u''" "bd_action sample_budget = BlockAction" by (simp_all add: sample_budget_def)
  then have "q = Inr ()"
    using run by (auto simp: runBudgetOccurrence_def single_group reconcile_group_def reconcileMax_def cmd_def
        sample_net RECONCILE_MAX_def Let_def heartbeatSet_def sample_keyFor split: if_splits prod.splits)
  with run reconcile_only_raises [OF run sample_lasting(1)] show ?thesis by auto
qed

end
