(* ===== verification/BudgetCache.thy ===== *)
theory BudgetCache
  imports Prelude
begin

text \<open>
  \<open>budgets/budget-cache.ts\<close>: the per-owner cache of budget rows, with one load in flight per owner and
  generation, least-recently-used eviction and invalidation on every write. \<open>cache_get\<close>,
  \<open>cache_store\<close> and \<open>cache_invalidate\<close> are the code's methods over its three maps; the callbacks of a
  load are \<open>load_result\<close> and \<open>load_cleared\<close>. The event loop interleaves them freely: \<open>cache_step\<close>
  runs one event of a system of callers, loads and a database whose rows are numbered by the
  writes, and the theorem is about every sequence of events.
\<close>

section \<open>The cache\<close>

record 'r bcache =
  bc_cache :: "(string \<times> int \<times> 'r) list"
  bc_inflight :: "string \<rightharpoonup> nat \<times> nat"
  bc_generation :: "string \<rightharpoonup> nat"

definition gen_of :: "'r bcache \<Rightarrow> string \<Rightarrow> nat" where
  "gen_of c owner = (case bc_generation c owner of None \<Rightarrow> 0 | Some g \<Rightarrow> g)"

definition map_delete :: "string \<Rightarrow> (string \<times> 'a) list \<Rightarrow> (string \<times> 'a) list" where
  "map_delete k m = filter (\<lambda>e. fst e \<noteq> k) m"

text \<open>What a call of \<open>get\<close> does: it answers, it waits for a load in flight, or it starts one, which
  remembers the generation it started in and the expired rows it may fall back on.\<close>

datatype 'r got = Answer 'r | Join nat | Start nat "'r option"

definition cache_miss :: "string \<Rightarrow> 'r option \<Rightarrow> nat \<Rightarrow> 'r bcache \<Rightarrow> 'r got \<times> 'r bcache" where
  "cache_miss owner stale loadId c =
     (let gen = gen_of c owner in
      case bc_inflight c owner of
        Some (g, l) \<Rightarrow>
          if g = gen then (Join l, c)
          else (Start gen stale, c\<lparr>bc_inflight := (bc_inflight c)(owner \<mapsto> (gen, loadId))\<rparr>)
      | None \<Rightarrow> (Start gen stale, c\<lparr>bc_inflight := (bc_inflight c)(owner \<mapsto> (gen, loadId))\<rparr>))"

definition cache_get :: "int \<Rightarrow> int \<Rightarrow> string \<Rightarrow> nat \<Rightarrow> 'r bcache \<Rightarrow> 'r got \<times> 'r bcache" where
  "cache_get ttlMs now owner loadId c =
     (case map_of (bc_cache c) owner of
        Some (stamp, rows) \<Rightarrow>
          if now - stamp < ttlMs
          then (Answer rows, c\<lparr>bc_cache := map_delete owner (bc_cache c) @ [(owner, stamp, rows)]\<rparr>)
          else cache_miss owner (Some rows) loadId c
      | None \<Rightarrow> cache_miss owner None loadId c)"

definition cache_invalidate :: "string \<Rightarrow> 'r bcache \<Rightarrow> 'r bcache" where
  "cache_invalidate owner c =
     c\<lparr>bc_cache := map_delete owner (bc_cache c),
       bc_generation := (bc_generation c)(owner \<mapsto> gen_of c owner + 1)\<rparr>"

definition cache_store :: "nat \<Rightarrow> int \<Rightarrow> string \<Rightarrow> 'r \<Rightarrow> nat \<Rightarrow> 'r bcache \<Rightarrow> 'r bcache" where
  "cache_store cap now owner rows gen c =
     (if gen_of c owner \<noteq> gen then c
      else
        let m = map_delete owner (bc_cache c) @ [(owner, now, rows)]
        in c\<lparr>bc_cache := (if length m > cap then tl m else m)\<rparr>)"

text \<open>The load's answer (\<open>None\<close>: the failure goes to the caller), and its final clearing.\<close>

definition load_result ::
  "nat \<Rightarrow> int \<Rightarrow> string \<Rightarrow> nat \<Rightarrow> 'r option \<Rightarrow> unit + 'r \<Rightarrow> 'r bcache \<Rightarrow> 'r option \<times> 'r bcache" where
  "load_result cap now owner gen hit answer c =
     (case answer of
        Inr rows \<Rightarrow> (Some rows, cache_store cap now owner rows gen c)
      | Inl _ \<Rightarrow> (hit, c))"

definition load_cleared :: "string \<Rightarrow> nat \<Rightarrow> 'r bcache \<Rightarrow> 'r bcache" where
  "load_cleared owner gen c =
     (case bc_inflight c owner of
        Some (g, _) \<Rightarrow> if g = gen then c\<lparr>bc_inflight := (bc_inflight c)(owner := None)\<rparr> else c
      | None \<Rightarrow> c)"

section \<open>Callers, loads and the database\<close>

text \<open>The rows of an owner are represented by the number of writes they reflect.\<close>

record load_state =
  ld_owner :: string
  ld_gen :: nat
  ld_hit :: "nat option"
  ld_read :: "nat option"

record caller =
  ca_owner :: string
  ca_floor :: nat
  ca_load :: nat

record cache_system =
  sy_cache :: "nat bcache"
  sy_loads :: "load_state list"
  sy_rows :: "string \<Rightarrow> nat"
  sy_floor :: "string \<Rightarrow> nat"
  sy_waiting :: "caller list"
  sy_served :: "(string \<times> nat \<times> nat) list"

datatype cache_ev =
    GetRows int string
  | ReadDb nat
  | Finish nat int bool
  | Cleared nat
  | Invalidated string
  | Written string

text \<open>\<open>sy_floor\<close> is what the last invalidation of an owner promises, \<open>sy_served\<close> what callers were given:
  the owner, the floor when the caller arrived, and the rows.\<close>

definition get_event :: "int \<Rightarrow> int \<Rightarrow> string \<Rightarrow> cache_system \<Rightarrow> cache_system" where
  "get_event ttlMs now owner s =
     (let n = length (sy_loads s); fl = sy_floor s owner; (g, c) = cache_get ttlMs now owner n (sy_cache s) in
      case g of
        Answer v \<Rightarrow> s\<lparr>sy_cache := c, sy_served := sy_served s @ [(owner, fl, v)]\<rparr>
      | Join l \<Rightarrow> s\<lparr>sy_cache := c, sy_waiting := sy_waiting s @ [\<lparr>ca_owner = owner, ca_floor = fl, ca_load = l\<rparr>]\<rparr>
      | Start gen hit \<Rightarrow>
          s\<lparr>sy_cache := c,
            sy_loads := sy_loads s @ [\<lparr>ld_owner = owner, ld_gen = gen, ld_hit = hit, ld_read = None\<rparr>],
            sy_waiting := sy_waiting s @ [\<lparr>ca_owner = owner, ca_floor = fl, ca_load = n\<rparr>]\<rparr>)"

definition finish_event :: "nat \<Rightarrow> nat \<Rightarrow> int \<Rightarrow> bool \<Rightarrow> cache_system \<Rightarrow> cache_system" where
  "finish_event cap l now ok s =
     (let ld = sy_loads s ! l;
          answer = (case ld_read ld of Some v \<Rightarrow> if ok then Inr v else Inl () | None \<Rightarrow> Inl ());
          (res, c) = load_result cap now (ld_owner ld) (ld_gen ld) (ld_hit ld) answer (sy_cache s);
          mine = filter (\<lambda>w. ca_load w = l) (sy_waiting s)
      in s\<lparr>sy_cache := c, sy_waiting := filter (\<lambda>w. ca_load w \<noteq> l) (sy_waiting s),
           sy_served := sy_served s @
             (case res of None \<Rightarrow> [] | Some v \<Rightarrow> map (\<lambda>w. (ca_owner w, ca_floor w, v)) mine)\<rparr>)"

fun cache_step :: "int \<Rightarrow> nat \<Rightarrow> cache_ev \<Rightarrow> cache_system \<Rightarrow> cache_system" where
  "cache_step ttlMs cap (GetRows now owner) s = get_event ttlMs now owner s"
| "cache_step ttlMs cap (ReadDb l) s =
     (if l < length (sy_loads s) \<and> ld_read (sy_loads s ! l) = None
      then s\<lparr>sy_loads := (sy_loads s)[l := (sy_loads s ! l)\<lparr>ld_read := Some (sy_rows s (ld_owner (sy_loads s ! l)))\<rparr>]\<rparr>
      else s)"
| "cache_step ttlMs cap (Finish l now ok) s =
     (if l < length (sy_loads s) then finish_event cap l now ok s else s)"
| "cache_step ttlMs cap (Cleared l) s =
     (if l < length (sy_loads s)
      then s\<lparr>sy_cache := load_cleared (ld_owner (sy_loads s ! l)) (ld_gen (sy_loads s ! l)) (sy_cache s)\<rparr> else s)"
| "cache_step ttlMs cap (Invalidated owner) s =
     s\<lparr>sy_cache := cache_invalidate owner (sy_cache s), sy_floor := (sy_floor s)(owner := sy_rows s owner)\<rparr>"
| "cache_step ttlMs cap (Written owner) s = s\<lparr>sy_rows := (sy_rows s)(owner := Suc (sy_rows s owner))\<rparr>"

definition cache_start :: cache_system where
  "cache_start =
     \<lparr>sy_cache = \<lparr>bc_cache = [], bc_inflight = Map.empty, bc_generation = Map.empty\<rparr>, sy_loads = [],
      sy_rows = (\<lambda>_. 0), sy_floor = (\<lambda>_. 0), sy_waiting = [], sy_served = []\<rparr>"

definition cache_run :: "int \<Rightarrow> nat \<Rightarrow> cache_ev list \<Rightarrow> cache_system" where
  "cache_run ttlMs cap evs = foldl (\<lambda>s e. cache_step ttlMs cap e s) cache_start evs"

text \<open>A load started before a write and finished after the invalidation: its own caller gets the old
  rows, a caller that came after the invalidation does not join it and gets the new ones.\<close>

lemma late_caller_gets_new_rows:
  "sy_served (cache_run 1000 10
     [GetRows 0 ''u'', ReadDb 0, Written ''u'', Invalidated ''u'', GetRows 1 ''u'', Finish 0 2 True, Cleared 0,
      ReadDb 1, Finish 1 3 True, GetRows 4 ''u''])
   = [(''u'', 0, 0), (''u'', 1, 1), (''u'', 1, 1)]"
  by code_simp

section \<open>Nothing older than an invalidation is served\<close>

definition at_least :: "nat \<Rightarrow> nat option \<Rightarrow> bool" where
  "at_least fl v = (case v of None \<Rightarrow> True | Some x \<Rightarrow> fl \<le> x)"

definition load_fresh :: "nat \<Rightarrow> load_state \<Rightarrow> bool" where
  "load_fresh fl ld = (at_least fl (ld_read ld) \<and> at_least fl (ld_hit ld))"

text \<open>The invariant: cached rows, and the loads of the current generation, reflect at least the last
  invalidation; the load in flight is one of the owner's; a waiting caller's load can only bring
  rows at or above the caller's floor.\<close>

definition cached_ok :: "cache_system \<Rightarrow> bool" where
  "cached_ok s = (\<forall>e \<in> set (bc_cache (sy_cache s)). sy_floor s (fst e) \<le> snd (snd e))"

definition loads_ok :: "cache_system \<Rightarrow> bool" where
  "loads_ok s = (\<forall>ld \<in> set (sy_loads s).
     ld_gen ld \<le> gen_of (sy_cache s) (ld_owner ld) \<and>
     (ld_gen ld = gen_of (sy_cache s) (ld_owner ld) \<longrightarrow> load_fresh (sy_floor s (ld_owner ld)) ld))"

definition inflight_ok :: "cache_system \<Rightarrow> bool" where
  "inflight_ok s = (\<forall>owner g l. bc_inflight (sy_cache s) owner = Some (g, l) \<longrightarrow>
     l < length (sy_loads s) \<and> ld_owner (sy_loads s ! l) = owner \<and> ld_gen (sy_loads s ! l) = g)"

definition waiting_ok :: "cache_system \<Rightarrow> bool" where
  "waiting_ok s = (\<forall>w \<in> set (sy_waiting s).
     ca_load w < length (sy_loads s) \<and> ld_owner (sy_loads s ! ca_load w) = ca_owner w \<and>
     load_fresh (ca_floor w) (sy_loads s ! ca_load w) \<and> ca_floor w \<le> sy_rows s (ca_owner w))"

definition cache_inv :: "cache_system \<Rightarrow> bool" where
  "cache_inv s = (cached_ok s \<and> loads_ok s \<and> inflight_ok s \<and> waiting_ok s \<and>
     (\<forall>owner. sy_floor s owner \<le> sy_rows s owner) \<and> list_all (\<lambda>(_, fl, v). fl \<le> v) (sy_served s))"

lemma map_of_ok: "map_of m k = Some (a, v) \<Longrightarrow> \<forall>e \<in> set m. fl (fst e) \<le> snd (snd e) \<Longrightarrow> fl k \<le> (v :: nat)"
  by (force dest: map_of_SomeD)

lemma delete_set: "e \<in> set (map_delete k m) \<Longrightarrow> e \<in> set m"
  by (simp add: map_delete_def)

lemma tl_set: "e \<in> set (if b then tl m else m) \<Longrightarrow> e \<in> set m"
  by (cases m) (auto split: if_splits)

lemma at_least_mono: "at_least b v \<Longrightarrow> a \<le> b \<Longrightarrow> at_least a v"
  by (auto simp: at_least_def split: option.splits)

lemma miss_cases:
  obtains l where "bc_inflight c owner = Some (gen_of c owner, l)" "cache_miss owner stale n c = (Join l, c)"
  | "cache_miss owner stale n c
       = (Start (gen_of c owner) stale, c\<lparr>bc_inflight := (bc_inflight c)(owner \<mapsto> (gen_of c owner, n))\<rparr>)"
proof (cases "\<exists>l. bc_inflight c owner = Some (gen_of c owner, l)")
  case True
  with that(1) show ?thesis by (auto simp: cache_miss_def)
next
  case False
  with that(2) show ?thesis by (auto simp: cache_miss_def Let_def split: option.splits)
qed

lemma get_cases:
  assumes "cached_ok s"
  defines "c \<equiv> sy_cache s" and "n \<equiv> length (sy_loads s)"
  shows "(\<exists>stamp v. map_of (bc_cache c) owner = Some (stamp, v) \<and>
      get_event ttlMs now owner s = s\<lparr>sy_cache := c\<lparr>bc_cache := map_delete owner (bc_cache c) @ [(owner, stamp, v)]\<rparr>,
         sy_served := sy_served s @ [(owner, sy_floor s owner, v)]\<rparr>)
    \<or> (\<exists>l. bc_inflight c owner = Some (gen_of c owner, l) \<and>
      get_event ttlMs now owner s = s\<lparr>sy_cache := c, sy_waiting := sy_waiting s @
         [\<lparr>ca_owner = owner, ca_floor = sy_floor s owner, ca_load = l\<rparr>]\<rparr>)
    \<or> (\<exists>hit. at_least (sy_floor s owner) hit \<and>
      get_event ttlMs now owner s = s\<lparr>sy_cache := c\<lparr>bc_inflight := (bc_inflight c)(owner \<mapsto> (gen_of c owner, n))\<rparr>,
         sy_loads := sy_loads s @ [\<lparr>ld_owner = owner, ld_gen = gen_of c owner, ld_hit = hit, ld_read = None\<rparr>],
         sy_waiting := sy_waiting s @ [\<lparr>ca_owner = owner, ca_floor = sy_floor s owner, ca_load = n\<rparr>]\<rparr>)"
proof -
  have miss: ?thesis if "cache_get ttlMs now owner n c = cache_miss owner hit n c" "at_least (sy_floor s owner) hit" for hit
    using that by (cases rule: miss_cases [of c owner hit n]) (auto simp: get_event_def c_def n_def Let_def)
  show ?thesis
  proof (cases "map_of (bc_cache c) owner")
    case None
    then show ?thesis by (intro miss [of None]) (simp_all add: cache_get_def at_least_def)
  next
    case (Some e)
    obtain stamp v where e: "e = (stamp, v)" by fastforce
    show ?thesis
    proof (cases "now - stamp < ttlMs")
      case True
      with Some e show ?thesis by (auto simp: get_event_def cache_get_def c_def Let_def)
    next
      case False
      have "sy_floor s owner \<le> v"
        using map_of_ok [of _ owner stamp v "sy_floor s"] Some e assms(1) by (auto simp: cached_ok_def c_def)
      with False Some e show ?thesis by (intro miss [of "Some v"]) (simp_all add: cache_get_def at_least_def)
    qed
  qed
qed

lemma get_inv:
  assumes "cache_inv s"
  shows "cache_inv (get_event ttlMs now owner s)"
proof -
  let ?c = "sy_cache s" and ?n = "length (sy_loads s)" and ?fl = "sy_floor s owner"
  let ?L = "\<lambda>hit. \<lparr>ld_owner = owner, ld_gen = gen_of ?c owner, ld_hit = hit, ld_read = None\<rparr>"
  let ?W = "\<lambda>l. \<lparr>ca_owner = owner, ca_floor = ?fl, ca_load = l\<rparr>"
  have floor: "?fl \<le> sy_rows s owner" using assms by (simp add: cache_inv_def)
  consider (answer) stamp v where "map_of (bc_cache ?c) owner = Some (stamp, v)"
      "get_event ttlMs now owner s = s\<lparr>sy_cache := ?c\<lparr>bc_cache := map_delete owner (bc_cache ?c) @ [(owner, stamp, v)]\<rparr>,
         sy_served := sy_served s @ [(owner, ?fl, v)]\<rparr>"
    | (join) l where "bc_inflight ?c owner = Some (gen_of ?c owner, l)"
      "get_event ttlMs now owner s = s\<lparr>sy_cache := ?c, sy_waiting := sy_waiting s @ [?W l]\<rparr>"
    | (start) hit where "at_least ?fl hit"
      "get_event ttlMs now owner s = s\<lparr>sy_cache := ?c\<lparr>bc_inflight := (bc_inflight ?c)(owner \<mapsto> (gen_of ?c owner, ?n))\<rparr>,
         sy_loads := sy_loads s @ [?L hit], sy_waiting := sy_waiting s @ [?W ?n]\<rparr>"
    using get_cases [of s owner ttlMs now] assms by (auto simp: cache_inv_def)
  then show ?thesis
  proof cases
    case answer
    then have "?fl \<le> v" using assms map_of_ok [of _ owner stamp v "sy_floor s"] by (auto simp: cache_inv_def cached_ok_def)
    then show ?thesis
      using assms unfolding answer(2)
      by (auto simp: cache_inv_def cached_ok_def loads_ok_def inflight_ok_def waiting_ok_def gen_of_def dest: delete_set)
  next
    case join
    then have l: "l < ?n" "ld_owner (sy_loads s ! l) = owner" "ld_gen (sy_loads s ! l) = gen_of ?c owner"
      using assms by (auto simp: cache_inv_def inflight_ok_def)
    then have "load_fresh ?fl (sy_loads s ! l)"
      using assms nth_mem [OF l(1)] by (auto simp: cache_inv_def loads_ok_def)
    with assms l floor show ?thesis
      unfolding join(2) by (auto simp: cache_inv_def cached_ok_def loads_ok_def inflight_ok_def waiting_ok_def gen_of_def)
  next
    case start
    then have "load_fresh ?fl (?L hit)" by (simp add: load_fresh_def at_least_def)
    with assms floor show ?thesis
      unfolding start(2)
      by (auto simp: cache_inv_def cached_ok_def loads_ok_def inflight_ok_def waiting_ok_def gen_of_def nth_append
        less_Suc_eq)
  qed
qed


lemma finish_inv:
  assumes "cache_inv s" "l < length (sy_loads s)"
  shows "cache_inv (finish_event cap l now ok s)"
proof -
  let ?ld = "sy_loads s ! l" and ?c = "sy_cache s"
  have ld: "?ld \<in> set (sy_loads s)" using assms(2) by simp
  have wait: "\<And>w. w \<in> set (sy_waiting s) \<Longrightarrow> ca_load w = l \<Longrightarrow> load_fresh (ca_floor w) ?ld"
    using assms(1) by (auto simp: cache_inv_def waiting_ok_def)
  obtain res c where run: "load_result cap now (ld_owner ?ld) (ld_gen ?ld) (ld_hit ?ld)
      (case ld_read ?ld of Some v \<Rightarrow> if ok then Inr v else Inl () | None \<Rightarrow> Inl ()) ?c = (res, c)" by fastforce
  have res: "res = ld_read ?ld \<or> res = ld_hit ?ld"
    and c: "c = ?c \<or> (\<exists>v. ld_read ?ld = Some v \<and> c = cache_store cap now (ld_owner ?ld) v (ld_gen ?ld) ?c)"
    using run by (auto simp: load_result_def split: option.splits if_splits)
  have gen: "gen_of c = gen_of ?c" "bc_inflight c = bc_inflight ?c"
    using c by (auto simp: cache_store_def gen_of_def fun_eq_iff Let_def)
  have cached: "sy_floor s (fst e) \<le> snd (snd e)" if "e \<in> set (bc_cache c)" for e
  proof (cases "e \<in> set (bc_cache ?c)")
    case True
    with assms(1) show ?thesis by (simp add: cache_inv_def cached_ok_def)
  next
    case False
    with that c obtain v where v: "ld_read ?ld = Some v" "gen_of ?c (ld_owner ?ld) = ld_gen ?ld" "e = (ld_owner ?ld, now, v)"
      by (fastforce simp: cache_store_def Let_def split: if_splits dest!: tl_set [of _ True, simplified] delete_set)
    with assms(1) ld show ?thesis by (auto simp: cache_inv_def loads_ok_def load_fresh_def at_least_def)
  qed
  have served: "ca_floor w \<le> v" if "res = Some v" "w \<in> set (sy_waiting s)" "ca_load w = l" for w v
    using wait [OF that(2,3)] res that(1) by (auto simp: load_fresh_def at_least_def split: option.splits)
  have "finish_event cap l now ok s = s\<lparr>sy_cache := c, sy_waiting := filter (\<lambda>w. ca_load w \<noteq> l) (sy_waiting s),
      sy_served := sy_served s @ (case res of None \<Rightarrow> []
        | Some v \<Rightarrow> map (\<lambda>w. (ca_owner w, ca_floor w, v)) (filter (\<lambda>w. ca_load w = l) (sy_waiting s)))\<rparr>"
    using run by (simp add: finish_event_def Let_def)
  with assms(1) cached served gen show ?thesis
    by (auto simp: cache_inv_def cached_ok_def loads_ok_def inflight_ok_def waiting_ok_def list_all_iff
      split: option.splits)
qed

lemma read_inv:
  assumes "cache_inv s" "l < length (sy_loads s)"
  shows "cache_inv (s\<lparr>sy_loads := (sy_loads s)[l := (sy_loads s ! l)\<lparr>ld_read := Some (sy_rows s (ld_owner (sy_loads s ! l)))\<rparr>]\<rparr>)"
proof -
  let ?ld = "sy_loads s ! l"
  have ld: "?ld \<in> set (sy_loads s)" using assms(2) by simp
  let ?new = "?ld\<lparr>ld_read := Some (sy_rows s (ld_owner ?ld))\<rparr>"
  have keep: "load_fresh fl ?new" if "load_fresh fl ?ld" "fl \<le> sy_rows s (ld_owner ?ld)" for fl
    using that by (simp add: load_fresh_def at_least_def)
  have "loads_ok (s\<lparr>sy_loads := (sy_loads s)[l := ?new]\<rparr>)"
  proof -
    have "x = ?new \<or> x \<in> set (sy_loads s)" if "x \<in> set ((sy_loads s)[l := ?new])" for x
      using that set_update_subset_insert [of "sy_loads s" l ?new] by blast
    moreover have "ld_gen ?ld \<le> gen_of (sy_cache s) (ld_owner ?ld)"
      "ld_gen ?ld = gen_of (sy_cache s) (ld_owner ?ld) \<Longrightarrow> load_fresh (sy_floor s (ld_owner ?ld)) ?new"
      using assms(1) ld keep by (auto simp: cache_inv_def loads_ok_def)
    moreover have "\<forall>x \<in> set (sy_loads s). ld_gen x \<le> gen_of (sy_cache s) (ld_owner x) \<and>
        (ld_gen x = gen_of (sy_cache s) (ld_owner x) \<longrightarrow> load_fresh (sy_floor s (ld_owner x)) x)"
      using assms(1) by (simp add: cache_inv_def loads_ok_def)
    ultimately have "ld_gen x \<le> gen_of (sy_cache s) (ld_owner x) \<and>
        (ld_gen x = gen_of (sy_cache s) (ld_owner x) \<longrightarrow> load_fresh (sy_floor s (ld_owner x)) x)"
      if "x \<in> set ((sy_loads s)[l := ?new])" for x
      using that by (cases "x = ?new") auto
    then show ?thesis by (simp add: loads_ok_def)
  qed
  moreover have "waiting_ok (s\<lparr>sy_loads := (sy_loads s)[l := ?new]\<rparr>)"
    using assms keep by (auto simp: cache_inv_def waiting_ok_def nth_list_update)
  moreover have "inflight_ok (s\<lparr>sy_loads := (sy_loads s)[l := ?new]\<rparr>)"
    using assms by (auto simp: cache_inv_def inflight_ok_def nth_list_update)
  ultimately show ?thesis using assms(1) by (simp add: cache_inv_def cached_ok_def)
qed

lemma invalidate_inv:
  assumes "cache_inv s"
  shows "cache_inv (s\<lparr>sy_cache := cache_invalidate owner (sy_cache s), sy_floor := (sy_floor s)(owner := sy_rows s owner)\<rparr>)"
proof -
  let ?s = "s\<lparr>sy_cache := cache_invalidate owner (sy_cache s), sy_floor := (sy_floor s)(owner := sy_rows s owner)\<rparr>"
  have gen: "gen_of (cache_invalidate owner (sy_cache s)) x = gen_of (sy_cache s) x + (if x = owner then 1 else 0)" for x
    by (simp add: gen_of_def cache_invalidate_def)
  have "loads_ok ?s" using assms gen by (fastforce simp: cache_inv_def loads_ok_def)
  moreover have "cached_ok ?s"
    using assms by (auto simp: cache_inv_def cached_ok_def cache_invalidate_def map_delete_def)
  moreover have "inflight_ok ?s" "waiting_ok ?s"
    using assms by (auto simp: cache_inv_def inflight_ok_def waiting_ok_def cache_invalidate_def)
  ultimately show ?thesis using assms by (simp add: cache_inv_def)
qed

lemma step_inv: "cache_inv s \<Longrightarrow> cache_inv (cache_step ttlMs cap e s)"
proof (cases e)
  case (Cleared l)
  assume inv: "cache_inv s"
  define c where "c = load_cleared (ld_owner (sy_loads s ! l)) (ld_gen (sy_loads s ! l)) (sy_cache s)"
  have "gen_of c = gen_of (sy_cache s)" "bc_cache c = bc_cache (sy_cache s)"
    and sub: "\<forall>x y. bc_inflight c x = Some y \<longrightarrow> bc_inflight (sy_cache s) x = Some y"
    by (auto simp: c_def load_cleared_def gen_of_def fun_eq_iff split: option.splits if_splits)
  then have "cached_ok (s\<lparr>sy_cache := c\<rparr>)" "loads_ok (s\<lparr>sy_cache := c\<rparr>)" "waiting_ok (s\<lparr>sy_cache := c\<rparr>)"
    using inv by (simp_all add: cache_inv_def cached_ok_def loads_ok_def waiting_ok_def)
  moreover have "inflight_ok (s\<lparr>sy_cache := c\<rparr>)"
    using inv sub unfolding cache_inv_def inflight_ok_def by simp metis
  ultimately show ?thesis using inv by (simp add: Cleared c_def cache_inv_def)
next
  case (Written owner)
  assume "cache_inv s"
  then show ?thesis
    by (auto simp: Written cache_inv_def cached_ok_def loads_ok_def inflight_ok_def waiting_ok_def le_SucI)
qed (simp_all add: get_inv finish_inv read_inv invalidate_inv)

text \<open>C19 (invariant). No caller is served rows older than the last invalidation before its call: over every
  interleaving of calls, loads that succeed or fail in any order, writes, invalidations, evictions
  and expiries, each caller's rows reflect at least every write whose invalidation preceded it.\<close>

theorem no_rows_older_than_invalidation:
  "list_all (\<lambda>(owner, fl, v). fl \<le> v) (sy_served (cache_run ttlMs cap evs))"
proof -
  have "cache_inv (foldl (\<lambda>s e. cache_step ttlMs cap e s) s evs)" if "cache_inv s" for s
    using that by (induction evs arbitrary: s) (simp_all add: step_inv)
  moreover have "cache_inv cache_start"
    by (simp add: cache_inv_def cache_start_def cached_ok_def loads_ok_def inflight_ok_def waiting_ok_def)
  ultimately have "cache_inv (cache_run ttlMs cap evs)" by (simp add: cache_run_def)
  then show ?thesis by (simp add: cache_inv_def)
qed

end
