(* ===== verification/Structural.thy ===== *)
theory Structural
  imports WireJson Period
begin

text \<open>
  Layer 1, \<open>routing/structural/\<close>: the features read off a request (\<open>features.ts\<close>), the complexity band
  they score (\<open>classify.ts\<close>) and the workload class (\<open>workload.ts\<close>). Numbers are exact rationals; the
  SHA-256 stamp of the thresholds is an argument. The left side of a sum is the \<open>TypeError\<close> of
  reading the keys of a \<open>null\<close> tool schema.
\<close>

section \<open>Numbers as text\<close>

text \<open>\<open>n.toFixed(2)\<close> below \<open>10^21\<close>: the nearest hundredth, the larger one of two.\<close>

definition toFixed2 :: "rat \<Rightarrow> string" where
  "toFixed2 x =
     (let n = js_round (\<bar>x\<bar> * 100)
      in (if x < 0 then ''-'' else []) @ show_int (n div 100) @ ''.'' @ pad2 (n mod 100))"

lemma toFixed2_demo: "toFixed2 (2 / 3) = ''0.67''" "toFixed2 1 = ''1.00''" "toFixed2 (1 / 200) = ''0.01''"
  by code_simp+

section \<open>Features\<close>

record structural_features =
  effectiveInputChars :: nat
  codeBlockChars :: nat
  toolCount :: nat
  toolSchemaDemand :: bool
  multimodalPresent :: bool
  conversationDepth :: nat
  sf_maxOutputTokens :: int
  reasoningDemand :: "rat option"
  responseFormatDemand :: bool

definition RECENT_WINDOW :: nat where "RECENT_WINDOW = 6"
definition MAX_SCAN_CHARS :: nat where "MAX_SCAN_CHARS = 32000"
definition MAX_FINGERPRINT_CHARS :: nat where "MAX_FINGERPRINT_CHARS = 16000"

fun find_fence :: "string \<Rightarrow> nat option" where
  "find_fence [] = None"
| "find_fence (c # s) = (if starts_with ''```'' (c # s) then Some 0 else map_option Suc (find_fence s))"

lemma find_fence_bound: "find_fence s = Some i \<Longrightarrow> i + 3 \<le> length s"
proof (induction s arbitrary: i)
  case (Cons c s)
  show ?case
  proof (cases "starts_with ''```'' (c # s)")
    case True
    with Cons.prems show ?thesis by (auto simp: starts_with_iff)
  next
    case False
    with Cons show ?thesis by auto
  qed
qed simp

text \<open>The global match of a fence, anything, a fence: after a match the scan goes on behind it.\<close>

function codeCharsIn :: "string \<Rightarrow> nat" where
  "codeCharsIn s =
     (case find_fence s of
        None \<Rightarrow> 0
      | Some i \<Rightarrow>
          (case find_fence (drop (i + 3) s) of
             None \<Rightarrow> 0
           | Some j \<Rightarrow> j + 6 + codeCharsIn (drop (i + 3 + j + 3) s)))"
  by pat_completeness auto

termination
  by (relation "measure length") (auto dest!: find_fence_bound)

declare codeCharsIn.simps [simp del]

record scan_acc =
  acc_chars :: nat
  acc_code :: nat
  acc_multimodal :: bool
  acc_budget :: nat

fun walk_block :: "content_block \<Rightarrow> scan_acc \<Rightarrow> scan_acc"
  and walk :: "content_block list \<Rightarrow> scan_acc \<Rightarrow> scan_acc"
where
  "walk_block (TextBlock text _) acc =
     (let s = (if length text \<le> acc_budget acc then text else take (acc_budget acc) text) in
      acc\<lparr>acc_chars := acc_chars acc + length s, acc_code := acc_code acc + codeCharsIn s,
          acc_budget := acc_budget acc - length s\<rparr>)"
| "walk_block (ImageData _ _ _) acc = acc\<lparr>acc_multimodal := True\<rparr>"
| "walk_block (ImageUrl _ _) acc = acc\<lparr>acc_multimodal := True\<rparr>"
| "walk_block (ToolUse _ _ _ _) acc = acc"
| "walk_block (ToolUseRaw _ _ _ _) acc = acc"
| "walk_block (ToolResult _ content _ _) acc = walk content acc"
| "walk [] acc = acc"
| "walk (b # bs) acc = (if acc_budget acc = 0 then acc else walk bs (walk_block b acc))"

definition THINKING_SAT :: rat where "THINKING_SAT = 16000"
definition DECLARED_UNKNOWN :: rat where "DECLARED_UNKNOWN = 1 / 2"

definition OPENAI_EFFORT_DEMAND :: "(string \<times> rat) list" where
  "OPENAI_EFFORT_DEMAND =
     [(''none'', 0), (''minimal'', 1 / 4), (''low'', 1 / 2), (''medium'', 3 / 4), (''high'', 1), (''xhigh'', 1), (''max'', 1)]"

definition ANTHROPIC_EFFORT_DEMAND :: "(string \<times> rat) list" where
  "ANTHROPIC_EFFORT_DEMAND =
     [(''low'', 1 / 2), (''medium'', 3 / 4), (''high'', 1), (''xhigh'', 1), (''max'', 1)]"

definition effortDemand :: "(string \<times> rat) list \<Rightarrow> json \<Rightarrow> rat" where
  "effortDemand table v =
     (case v of
        JStr s \<Rightarrow> (case map_of table s of Some d \<Rightarrow> d | None \<Rightarrow> DECLARED_UNKNOWN)
      | _ \<Rightarrow> DECLARED_UNKNOWN)"

definition thinkingDemand :: "json \<Rightarrow> rat" where
  "thinkingDemand thinking =
     (let t = obj_prop ''type'' thinking in
      if t = Some (JStr ''disabled'') then 0
      else if t = Some (JStr ''adaptive'') then 1 / 2
      else if t = Some (JStr ''enabled'') then
        (case obj_prop ''budget_tokens'' thinking of
           Some (JNum q) \<Rightarrow> if q > 0 then max (1 / 2) (min 1 (q / THINKING_SAT)) else 1 / 2
         | _ \<Rightarrow> 1 / 2)
      else DECLARED_UNKNOWN)"

definition outputConfigSignals :: "json \<Rightarrow> rat option \<times> bool" where
  "outputConfigSignals v =
     (map_option (effortDemand ANTHROPIC_EFFORT_DEMAND) (obj_prop ''effort'' v),
      case obj_prop ''format'' v of None \<Rightarrow> False | Some f \<Rightarrow> f \<noteq> JNull)"

definition jsonResponseFormat :: "json option \<Rightarrow> bool" where
  "jsonResponseFormat rf =
     (case rf of
        None \<Rightarrow> False
      | Some v \<Rightarrow> obj_prop ''type'' v \<in> {Some (JStr ''json_schema''), Some (JStr ''json_object'')})"

definition reasoning_source :: "reasoning_control \<Rightarrow> rat" where
  "reasoning_source r =
     (case r of OpenAIEffort e \<Rightarrow> effortDemand OPENAI_EFFORT_DEMAND e | AnthropicThinking t \<Rightarrow> thinkingDemand t)"

definition reasoningDemandOf :: "normalized_request \<Rightarrow> rat option \<times> bool" where
  "reasoningDemandOf ir =
     (let oc = map_option outputConfigSignals (rq_outputConfig ir);
          demands = (case rq_reasoning ir of None \<Rightarrow> [] | Some r \<Rightarrow> [reasoning_source r]) @
            (case oc of Some (Some e, _) \<Rightarrow> [e] | _ \<Rightarrow> []);
          format = (jsonResponseFormat (rq_responseFormat ir) \<or> (case oc of Some (_, f) \<Rightarrow> f | None \<Rightarrow> False))
      in (if demands = [] then None else Some (foldl max (hd demands) (tl demands)), format))"

definition declaredStructuredOutput :: "normalized_request \<Rightarrow> bool" where
  "declaredStructuredOutput ir =
     (jsonResponseFormat (rq_responseFormat ir) \<or>
      (case rq_outputConfig ir of None \<Rightarrow> False | Some v \<Rightarrow> snd (outputConfigSignals v)))"

text \<open>\<open>Object.keys(v).length > 0\<close>, and \<open>some\<close> over the tools, which stops at the first that has keys.\<close>

definition has_keys :: "json \<Rightarrow> unit + bool" where
  "has_keys v =
     (case v of
        JNull \<Rightarrow> Inl ()
      | JObj kvs \<Rightarrow> Inr (kvs \<noteq> [])
      | JArr vs \<Rightarrow> Inr (vs \<noteq> [])
      | JStr s \<Rightarrow> Inr (s \<noteq> [])
      | _ \<Rightarrow> Inr False)"

primrec some_schema :: "normalized_tool list \<Rightarrow> unit + bool" where
  "some_schema [] = Inr False"
| "some_schema (t # ts) =
     (case has_keys (tool_parameters t) of Inl e \<Rightarrow> Inl e | Inr b \<Rightarrow> if b then Inr True else some_schema ts)"

definition extractStructuralFeatures :: "normalized_request \<Rightarrow> unit + structural_features" where
  "extractStructuralFeatures ir =
     (let messages = rq_messages ir;
          recent = (if length messages \<le> RECENT_WINDOW then messages
                    else drop (length messages - RECENT_WINDOW) messages);
          acc = foldl (\<lambda>a m. walk (msg_content m) a)
            \<lparr>acc_chars = 0, acc_code = 0, acc_multimodal = False, acc_budget = MAX_SCAN_CHARS\<rparr> recent;
          tools = (case rq_tools ir of None \<Rightarrow> [] | Some ts \<Rightarrow> ts);
          (demand, format) = reasoningDemandOf ir
      in case some_schema tools of
           Inl e \<Rightarrow> Inl e
         | Inr schema \<Rightarrow>
             Inr \<lparr>effectiveInputChars = acc_chars acc, codeBlockChars = acc_code acc, toolCount = length tools,
                  toolSchemaDemand = schema, multimodalPresent = acc_multimodal acc,
                  conversationDepth = length messages,
                  sf_maxOutputTokens = (case maxOutputTokens (rq_params ir) of Some n \<Rightarrow> if n > 0 then n else 0 | None \<Rightarrow> 0),
                  reasoningDemand = demand, responseFormatDemand = format\<rparr>)"

definition block_type :: "content_block \<Rightarrow> string" where
  "block_type b =
     (case b of TextBlock _ _ \<Rightarrow> ''text'' | ImageData _ _ _ \<Rightarrow> ''image'' | ImageUrl _ _ \<Rightarrow> ''image''
      | ToolUse _ _ _ _ \<Rightarrow> ''tool_use'' | ToolUseRaw _ _ _ _ \<Rightarrow> ''tool_use'' | ToolResult _ _ _ _ \<Rightarrow> ''tool_result'')"

primrec canonical_from :: "content_block list \<Rightarrow> string \<Rightarrow> string" where
  "canonical_from [] out = out"
| "canonical_from (b # bs) out =
     (if length out \<ge> MAX_FINGERPRINT_CHARS then out
      else canonical_from bs (out @ (case b of
        TextBlock text _ \<Rightarrow> ''text:'' @ show_nat (length text) @ text | _ \<Rightarrow> block_type b)))"

definition canonicalizeSystem :: "normalized_request \<Rightarrow> string" where
  "canonicalizeSystem ir =
     (case rq_system ir of None \<Rightarrow> [] | Some sys \<Rightarrow> take MAX_FINGERPRINT_CHARS (canonical_from sys []))"

section \<open>The band\<close>

record structural_weights =
  w_size :: rat
  w_code :: rat
  w_tools :: rat
  w_schema :: rat
  w_depth :: rat
  w_multimodal :: rat
  w_maxTokens :: rat

definition DEFAULT_STRUCTURAL_WEIGHTS :: structural_weights where
  "DEFAULT_STRUCTURAL_WEIGHTS =
     \<lparr>w_size = 3 / 10, w_code = 1 / 5, w_tools = 1 / 5, w_schema = 1 / 10, w_depth = 1 / 10,
      w_multimodal = 1 / 20, w_maxTokens = 1 / 20\<rparr>"

definition SIZE_SAT :: rat where "SIZE_SAT = 8000"
definition CODE_SAT :: rat where "CODE_SAT = 4000"
definition TOOLS_SAT :: rat where "TOOLS_SAT = 8"
definition DEPTH_SAT :: rat where "DEPTH_SAT = 20"
definition MAXTOK_SAT :: rat where "MAXTOK_SAT = 4096"
definition DEFAULT_REASONING_ADJUST :: rat where "DEFAULT_REASONING_ADJUST = 1 / 10"

record structural_thresholds =
  th_high :: rat
  th_low :: rat
  th_weights :: structural_weights
  th_reasoningAdjust :: "rat option"

datatype structural_band = BandHigh | BandLow | BandAmbiguous

record structural_verdict =
  sv_band :: structural_band
  sv_score :: rat
  sv_reason :: string
  sv_declared :: bool

definition nonNeg :: "rat \<Rightarrow> rat" where "nonNeg n = (if n > 0 then n else 0)"

definition sat :: "rat \<Rightarrow> rat \<Rightarrow> rat" where
  "sat x s = (let v = nonNeg x in if v \<le> 0 then 0 else min 1 (v / s))"

definition sub_scores :: "structural_features \<Rightarrow> rat option \<Rightarrow> structural_weights" where
  "sub_scores f baseline =
     \<lparr>w_size = sat (nonNeg (of_nat (effectiveInputChars f)) - (case baseline of None \<Rightarrow> 0 | Some e \<Rightarrow> nonNeg e)) SIZE_SAT,
      w_code = sat (of_nat (codeBlockChars f)) CODE_SAT,
      w_tools = sat (of_nat (toolCount f)) TOOLS_SAT,
      w_schema = (if toolSchemaDemand f \<or> responseFormatDemand f then 1 else 0),
      w_depth = sat (of_nat (conversationDepth f)) DEPTH_SAT,
      w_multimodal = (if multimodalPresent f then 1 else 0),
      w_maxTokens = sat (of_int (sf_maxOutputTokens f)) MAXTOK_SAT\<rparr>"

definition ambient :: "structural_weights \<Rightarrow> structural_weights \<Rightarrow> rat" where
  "ambient w sub =
     w_size w * w_size sub + w_code w * w_code sub + w_tools w * w_tools sub + w_schema w * w_schema sub
       + w_depth w * w_depth sub + w_multimodal w * w_multimodal sub + w_maxTokens w * w_maxTokens sub"

definition adjustment :: "rat option \<Rightarrow> rat \<Rightarrow> structural_thresholds \<Rightarrow> rat" where
  "adjustment demand amb opts =
     (let R = (case th_reasoningAdjust opts of None \<Rightarrow> DEFAULT_REASONING_ADJUST | Some r \<Rightarrow> r);
          a = (case demand of None \<Rightarrow> 0 | Some d \<Rightarrow> R * (2 * d - 1))
      in if a < 0 \<and> amb \<ge> th_high opts then 0 else a)"

definition band_text :: "structural_band \<Rightarrow> string" where
  "band_text b = (case b of BandHigh \<Rightarrow> ''high'' | BandLow \<Rightarrow> ''low'' | BandAmbiguous \<Rightarrow> ''ambiguous'')"

definition structural_reason ::
  "structural_band \<Rightarrow> bool \<Rightarrow> rat \<Rightarrow> structural_weights \<Rightarrow> structural_features \<Rightarrow> string" where
  "structural_reason band declaredMax score sub f =
     ''structural:'' @ band_text band @ (if declaredMax then '' declared=max'' else []) @ '' score='' @ toFixed2 score
       @ '' size='' @ toFixed2 (w_size sub) @ '' code='' @ toFixed2 (w_code sub) @ '' tools='' @ toFixed2 (w_tools sub)
       @ '' schema='' @ toFixed2 (w_schema sub) @ '' depth='' @ toFixed2 (w_depth sub)
       @ '' mm='' @ toFixed2 (w_multimodal sub) @ '' maxtok='' @ toFixed2 (w_maxTokens sub)
       @ '' think='' @ (case reasoningDemand f of None \<Rightarrow> ''--'' | Some d \<Rightarrow> toFixed2 d)
       @ '' rf='' @ (if responseFormatDemand f then ''1.00'' else ''0.00'')"

definition classifyStructural ::
  "structural_features \<Rightarrow> rat option \<Rightarrow> structural_thresholds \<Rightarrow> structural_verdict" where
  "classifyStructural f baseline opts =
     (let sub = sub_scores f baseline;
          amb = ambient (th_weights opts) sub;
          demand = reasoningDemand f;
          score = min 1 (max 0 (amb + adjustment demand amb opts));
          declaredMax = (demand = Some 1);
          band = (if declaredMax then BandHigh else if score \<ge> th_high opts then BandHigh
                  else if score \<le> th_low opts then BandLow else BandAmbiguous)
      in \<lparr>sv_band = band, sv_score = score, sv_reason = structural_reason band declaredMax score sub f,
          sv_declared = declaredMax\<rparr>)"

section \<open>The workload\<close>

record workload_thresholds =
  wt_codeShare :: rat
  wt_codeMinChars :: nat

definition DEFAULT_WORKLOAD_THRESHOLDS :: workload_thresholds where
  "DEFAULT_WORKLOAD_THRESHOLDS = \<lparr>wt_codeShare = 3 / 10, wt_codeMinChars = 200\<rparr>"

datatype structural_class = ClsVision | ClsStructured | ClsCode | ClsNone

record workload_verdict =
  wv_class :: structural_class
  wv_score :: rat
  wv_revision :: string
  wv_reason :: string

definition class_text :: "structural_class \<Rightarrow> string" where
  "class_text c = (case c of ClsVision \<Rightarrow> ''vision'' | ClsStructured \<Rightarrow> ''structured'' | ClsCode \<Rightarrow> ''code'' | ClsNone \<Rightarrow> ''none'')"

text \<open>The stamp over the canonical thresholds; \<open>sha256hex\<close> is the runtime's digest.\<close>

definition workloadRevision :: "(string \<Rightarrow> string) \<Rightarrow> workload_thresholds \<Rightarrow> string" where
  "workloadRevision sha256hex t =
     ''structural/v1/c1/'' @ take 12 (sha256hex (json_text (JObj
        [(''codeMinChars'', jnat (wt_codeMinChars t)), (''codeShare'', JNum (wt_codeShare t))])))"

definition classifyWorkload :: "structural_features \<Rightarrow> workload_thresholds \<Rightarrow> string \<Rightarrow> workload_verdict" where
  "classifyWorkload f t revision =
     (let chars = nonNeg (of_nat (effectiveInputChars f)); code = nonNeg (of_nat (codeBlockChars f));
          share = (if chars > 0 then min 1 (code / chars) else 0);
          codeFires = (share \<ge> wt_codeShare t \<and> code \<ge> of_nat (wt_codeMinChars t));
          (cls, score) =
            (if multimodalPresent f then (ClsVision, 1)
             else if responseFormatDemand f then (ClsStructured, 1)
             else if codeFires then (ClsCode, share)
             else (ClsNone, 0))
      in \<lparr>wv_class = cls, wv_score = score, wv_revision = revision,
          wv_reason = ''workload:'' @ class_text cls @ '' score='' @ toFixed2 score @ '' share='' @ toFixed2 share
            @ '' codechars='' @ show_int (js_round code) @ '' mm='' @ (if multimodalPresent f then ''1'' else ''0'')
            @ '' rf='' @ (if responseFormatDemand f then ''1'' else ''0'')\<rparr>)"

end
