(* ===== verification/StructuralFacts.thy ===== *)
theory StructuralFacts
  imports Structural
begin

text \<open>
  What Layer 1 guarantees: the scan is bounded and its code share is a share, the score is a
  fraction, a declared reasoning demand never lowers a band that heavy structure earned and never
  lowers any band by being raised, and a workload class carries the evidence its rule asks for.
\<close>

section \<open>The scan\<close>

lemma codeCharsIn_le: "codeCharsIn s \<le> length s"
proof (induction s rule: codeCharsIn.induct)
  case (1 s)
  show ?case
  proof (cases "find_fence s")
    case None
    then show ?thesis by (simp add: codeCharsIn.simps)
  next
    case (Some i)
    show ?thesis
    proof (cases "find_fence (drop (i + 3) s)")
      case None
      with Some show ?thesis by (simp add: codeCharsIn.simps)
    next
      case (Some j)
      then have "j + 3 \<le> length s - (i + 3)" using find_fence_bound [OF Some] by simp
      moreover have "i + 3 \<le> length s" using find_fence_bound [OF \<open>find_fence s = Some i\<close>] .
      ultimately show ?thesis
        using 1 [OF \<open>find_fence s = Some i\<close> Some] \<open>find_fence s = Some i\<close> Some
        by (subst codeCharsIn.simps) simp
    qed
  qed
qed

definition scan_ok :: "nat \<Rightarrow> scan_acc \<Rightarrow> bool" where
  "scan_ok n a = (acc_chars a + acc_budget a = n \<and> acc_code a \<le> acc_chars a)"

lemma walk_ok:
  "scan_ok n acc \<Longrightarrow> scan_ok n (walk_block b acc)"
  "scan_ok n acc \<Longrightarrow> scan_ok n (walk bs acc)"
proof (induction b acc and bs acc rule: walk_block_walk.induct)
  case (1 s c acc)
  then show ?case
    using codeCharsIn_le [of s] codeCharsIn_le [of "take (acc_budget acc) s"]
    by (auto simp: scan_ok_def Let_def)
qed (simp_all add: scan_ok_def)

lemma walk_messages_ok: "scan_ok n acc \<Longrightarrow> scan_ok n (foldl (\<lambda>a m. walk (msg_content m) a) acc ms)"
  by (induction ms arbitrary: acc) (simp_all add: walk_ok)

text \<open>The scan is bounded and its parts agree: the features of any request count at most the
  scan budget, and never more fenced characters than characters.\<close>

theorem scan_is_bounded:
  assumes "extractStructuralFeatures ir = Inr f"
  shows "codeBlockChars f \<le> effectiveInputChars f \<and> effectiveInputChars f \<le> MAX_SCAN_CHARS"
proof -
  define recent where "recent = (if length (rq_messages ir) \<le> RECENT_WINDOW then rq_messages ir
      else drop (length (rq_messages ir) - RECENT_WINDOW) (rq_messages ir))"
  define acc where "acc = foldl (\<lambda>a m. walk (msg_content m) a)
      \<lparr>acc_chars = 0, acc_code = 0, acc_multimodal = False, acc_budget = MAX_SCAN_CHARS\<rparr> recent"
  have "scan_ok MAX_SCAN_CHARS acc" unfolding acc_def by (rule walk_messages_ok) (simp add: scan_ok_def)
  moreover have "effectiveInputChars f = acc_chars acc" "codeBlockChars f = acc_code acc"
    using assms by (auto simp: extractStructuralFeatures_def Let_def recent_def acc_def split: prod.splits sum.splits)
  ultimately show ?thesis by (simp add: scan_ok_def)
qed

definition plain_request :: "normalized_message list \<Rightarrow> normalized_request" where
  "plain_request ms =
     \<lparr>rq_model = ''auto'', rq_system = None, rq_messages = ms, rq_tools = None, rq_toolChoice = None,
      rq_allowParallelTools = None,
      rq_params = \<lparr>maxOutputTokens = None, temperature = None, topP = None, stopSequences = None\<rparr>,
      rq_responseFormat = None, rq_reasoning = None, rq_outputConfig = None, rq_stream = None, rq_includeUsage = None\<rparr>"

theorem scan_is_bounded_witness:
  "\<exists>f. extractStructuralFeatures (plain_request [\<lparr>msg_role = RUser, msg_content = [TextBlock ''a```b```'' None]\<rparr>]) = Inr f
     \<and> codeBlockChars f \<le> effectiveInputChars f \<and> codeBlockChars f = 7"
proof -
  obtain f where f: "extractStructuralFeatures (plain_request [\<lparr>msg_role = RUser, msg_content = [TextBlock ''a```b```'' None]\<rparr>]) = Inr f"
    "codeBlockChars f = 7"
    by (simp add: extractStructuralFeatures_def plain_request_def reasoningDemandOf_def Let_def
        jsonResponseFormat_def RECENT_WINDOW_def MAX_SCAN_CHARS_def codeCharsIn.simps starts_with_def)
  with scan_is_bounded [OF f(1)] show ?thesis by blast
qed

text \<open>The header of \<open>features.ts\<close> says that the latest turn is always measured. The budget is spent from
  the oldest message of the window on, so an old message can use it up.\<close>

lemma latest_turn_unmeasured:
  "\<exists>f. extractStructuralFeatures (plain_request
      [\<lparr>msg_role = RUser, msg_content = [TextBlock (replicate 32000 CHR ''x'') None]\<rparr>,
       \<lparr>msg_role = RUser, msg_content = [ImageUrl ''u'' None, TextBlock ''look'' None]\<rparr>]) = Inr f
     \<and> \<not> multimodalPresent f"
  by (simp add: extractStructuralFeatures_def plain_request_def reasoningDemandOf_def Let_def
      jsonResponseFormat_def RECENT_WINDOW_def MAX_SCAN_CHARS_def)

section \<open>The band\<close>

lemma sat_unit: "0 < s \<Longrightarrow> 0 \<le> sat x s \<and> sat x s \<le> 1"
  by (simp add: sat_def nonNeg_def Let_def)

lemma adjustment_mono:
  assumes "0 \<le> (case th_reasoningAdjust opts of None \<Rightarrow> DEFAULT_REASONING_ADJUST | Some r \<Rightarrow> r)" "d \<le> e"
  shows "adjustment (Some d) amb opts \<le> adjustment (Some e) amb opts"
proof -
  let ?R = "case th_reasoningAdjust opts of None \<Rightarrow> DEFAULT_REASONING_ADJUST | Some r \<Rightarrow> r"
  have "?R * (2 * d - 1) \<le> ?R * (2 * e - 1)" using assms by (intro mult_left_mono) auto
  then show ?thesis by (auto simp: adjustment_def Let_def)
qed

definition band_rank :: "structural_band \<Rightarrow> nat" where
  "band_rank b = (case b of BandLow \<Rightarrow> 0 | BandAmbiguous \<Rightarrow> 1 | BandHigh \<Rightarrow> 2)"

lemma verdict_simps:
  "sv_score (classifyStructural f b opts) = min 1 (max 0 (ambient (th_weights opts) (sub_scores f b)
     + adjustment (reasoningDemand f) (ambient (th_weights opts) (sub_scores f b)) opts))"
  "sv_band (classifyStructural f b opts) =
     (if reasoningDemand f = Some 1 \<or> sv_score (classifyStructural f b opts) \<ge> th_high opts then BandHigh
      else if sv_score (classifyStructural f b opts) \<le> th_low opts then BandLow else BandAmbiguous)"
  by (auto simp: classifyStructural_def Let_def)

lemma sub_scores_demand: "sub_scores (f\<lparr>reasoningDemand := d\<rparr>) b = sub_scores f b"
  by (simp add: sub_scores_def)

text \<open>C25 (safety). A declared reasoning demand only ever steers as declared: the score is a fraction; a
  request without a declaration scores its ambient structure alone; structure at or above the high
  threshold bands high under every declaration; and raising the declaration never lowers the band.\<close>

theorem declared_demand_steers_up:
  fixes f :: structural_features and d e :: rat
  defines "amb opts b \<equiv> ambient (th_weights opts) (sub_scores f b)"
    and "verdict opts b dem \<equiv> classifyStructural (f\<lparr>reasoningDemand := dem\<rparr>) b opts"
  assumes "th_low opts < th_high opts" "th_high opts \<le> 1" "d \<le> e" "e \<le> 1"
    "0 \<le> (case th_reasoningAdjust opts of None \<Rightarrow> DEFAULT_REASONING_ADJUST | Some r \<Rightarrow> r)"
  shows "0 \<le> sv_score (verdict opts b dem) \<and> sv_score (verdict opts b dem) \<le> 1
    \<and> sv_score (verdict opts b None) = min 1 (max 0 (amb opts b))
    \<and> (th_high opts \<le> amb opts b \<longrightarrow> sv_band (verdict opts b dem) = BandHigh)
    \<and> band_rank (sv_band (verdict opts b (Some d))) \<le> band_rank (sv_band (verdict opts b (Some e)))"
proof (intro conjI impI)
  show "0 \<le> sv_score (verdict opts b dem)" "sv_score (verdict opts b dem) \<le> 1"
    by (simp_all add: verdict_def verdict_simps)
  show "sv_score (verdict opts b None) = min 1 (max 0 (amb opts b))"
    by (simp add: verdict_def verdict_simps adjustment_def amb_def sub_scores_demand)
  assume "th_high opts \<le> amb opts b"
  moreover from this have "0 \<le> adjustment dem (amb opts b) opts" by (simp add: adjustment_def Let_def)
  ultimately have "th_high opts \<le> amb opts b + adjustment dem (amb opts b) opts" by linarith
  with \<open>th_high opts \<le> 1\<close>
  show "sv_band (verdict opts b dem) = BandHigh"
    by (simp add: verdict_def verdict_simps(2) verdict_simps(1) sub_scores_demand amb_def [symmetric] le_max_iff_disj)
next
  have "sv_score (verdict opts b (Some d)) \<le> sv_score (verdict opts b (Some e))"
    using adjustment_mono [OF assms(7,5), of "amb opts b"]
    by (simp add: verdict_def verdict_simps(1) sub_scores_demand amb_def [symmetric] min_def max_def)
  moreover have "d = 1 \<Longrightarrow> e = 1" using assms(5,6) by simp
  ultimately show "band_rank (sv_band (verdict opts b (Some d))) \<le> band_rank (sv_band (verdict opts b (Some e)))"
    using assms(3) unfolding verdict_def by (subst (1 2) verdict_simps(2)) (auto simp: band_rank_def)
qed

definition light_features :: structural_features where
  "light_features =
     \<lparr>effectiveInputChars = 100, codeBlockChars = 0, toolCount = 0, toolSchemaDemand = False,
      multimodalPresent = False, conversationDepth = 1, sf_maxOutputTokens = 0, reasoningDemand = None,
      responseFormatDemand = False\<rparr>"

definition default_thresholds :: structural_thresholds where
  "default_thresholds =
     \<lparr>th_high = 3 / 5, th_low = 1 / 4, th_weights = DEFAULT_STRUCTURAL_WEIGHTS, th_reasoningAdjust = None\<rparr>"

theorem declared_demand_steers_up_witness:
  "band_rank (sv_band (classifyStructural (light_features\<lparr>reasoningDemand := Some (1 / 2)\<rparr>) None default_thresholds))
     \<le> band_rank (sv_band (classifyStructural (light_features\<lparr>reasoningDemand := Some 1\<rparr>) None default_thresholds))"
  using declared_demand_steers_up [where opts = default_thresholds and d = "1 / 2" and e = 1 and f = light_features and b = None]
  by (simp add: default_thresholds_def DEFAULT_REASONING_ADJUST_def)

section \<open>The workload\<close>

lemma workload_class_evidence:
  "case wv_class (classifyWorkload f t stamp) of
     ClsVision \<Rightarrow> multimodalPresent f
   | ClsStructured \<Rightarrow> \<not> multimodalPresent f \<and> responseFormatDemand f
   | ClsCode \<Rightarrow> \<not> multimodalPresent f \<and> \<not> responseFormatDemand f \<and> wt_codeMinChars t \<le> codeBlockChars f
       \<and> wt_codeShare t \<le> wv_score (classifyWorkload f t stamp)
   | ClsNone \<Rightarrow> \<not> multimodalPresent f \<and> \<not> responseFormatDemand f \<and> wv_score (classifyWorkload f t stamp) = 0"
  by (auto simp: classifyWorkload_def Let_def nonNeg_def split: if_splits)

lemma workload_score_unit: "0 \<le> wv_score (classifyWorkload f t stamp) \<and> wv_score (classifyWorkload f t stamp) \<le> 1"
  by (auto simp: classifyWorkload_def Let_def nonNeg_def)

end
