(* ===== verification/RoutingConfig.thy ===== *)
theory RoutingConfig
  imports Structural Budgets
begin

text \<open>
  The boot configuration of automatic routing, \<open>proxy/routing.config.ts\<close> with the rails of
  \<open>calibration/calibration.config.ts\<close>: the parsers of the two JSON overrides, the cross-field
  validation, the layers a tenant gets, and the three-level chain of complexity thresholds
  (instance, tenant, agent). A thrown \<open>Error\<close> is the left side with its message. Numbers are exact
  rationals, so no sum overflows to infinity; the sign for at-least in a message is written \<open>>=\<close>. The per-field ranges are those of the schema at the
  top of each file.
\<close>

section \<open>Four decimal places\<close>

definition r4 :: "rat \<Rightarrow> rat" where "r4 n = of_int (js_round (n * 10000)) / 10000"

definition is4dp :: "rat \<Rightarrow> bool" where "is4dp n = (r4 n = n)"

lemma js_round_of_int [simp]: "js_round (of_int i) = i"
  by (simp add: js_round_def floor_eq_iff)

lemma is4dp_iff: "is4dp n \<longleftrightarrow> (\<exists>i::int. n = of_int i / 10000)"
proof
  assume "is4dp n"
  then have "n = of_int (js_round (n * 10000)) / 10000" unfolding is4dp_def r4_def by (rule sym)
  then show "\<exists>i::int. n = of_int i / 10000" by blast
next
  assume "\<exists>i::int. n = of_int i / 10000"
  then show "is4dp n" by (auto simp: is4dp_def r4_def)
qed

lemma r4_id: "is4dp n \<Longrightarrow> r4 n = n"
  by (simp add: is4dp_def)

lemma is4dp_r4 [simp]: "is4dp (r4 n)"
  by (auto simp: is4dp_iff r4_def)

lemma is4dp_add: "is4dp a \<Longrightarrow> is4dp b \<Longrightarrow> is4dp (a + b)"
  unfolding is4dp_iff by (metis add_divide_distrib of_int_add)

lemma is4dp_diff: "is4dp a \<Longrightarrow> is4dp b \<Longrightarrow> is4dp (a - b)"
  unfolding is4dp_iff by (metis diff_divide_distrib of_int_diff)

lemma r4_mono: "a \<le> b \<Longrightarrow> r4 a \<le> r4 b"
  by (simp add: r4_def js_round_def floor_mono divide_right_mono)

section \<open>The rails\<close>

definition MIN_EDGE_SAMPLES_FLOOR :: int where "MIN_EDGE_SAMPLES_FLOOR = 50"
definition EDGE_WIDTH :: rat where "EDGE_WIDTH = 1 / 20"
definition RATE_HIGH :: rat where "RATE_HIGH = 13 / 20"
definition RATE_LOW :: rat where "RATE_LOW = 3 / 20"
definition COOLDOWN_DAYS :: int where "COOLDOWN_DAYS = 3"
definition MIN_GAP :: rat where "MIN_GAP = 1 / 10"

record calibration_env =
  CALIBRATION_SCHED_ENABLED :: string
  CALIBRATION_SCHED_CRON :: string
  CALIBRATION_WINDOW_DAYS :: int
  CALIBRATION_MIN_EDGE_SAMPLES :: int
  CALIBRATION_STEP :: rat
  CALIBRATION_MAX_DRIFT :: rat

definition calibration_schema :: "calibration_env \<Rightarrow> bool" where
  "calibration_schema env =
     (CALIBRATION_WINDOW_DAYS env \<ge> 1 \<and> CALIBRATION_MIN_EDGE_SAMPLES env \<ge> MIN_EDGE_SAMPLES_FLOOR
      \<and> CALIBRATION_STEP env > 0 \<and> CALIBRATION_STEP env \<le> 1 / 5 \<and> CALIBRATION_MAX_DRIFT env \<le> 3 / 10)"

record calibration_config =
  cb_schedEnabled :: bool
  cb_cron :: string
  cb_windowDays :: int
  cb_minEdgeSamples :: int
  cb_step :: rat
  cb_maxDrift :: rat

record calibration_rails =
  rl_maxDrift :: rat
  rl_minGap :: rat

definition buildCalibrationConfig :: "calibration_env \<Rightarrow> string + calibration_config" where
  "buildCalibrationConfig env =
     (let step = CALIBRATION_STEP env; maxDrift = CALIBRATION_MAX_DRIFT env in
      if \<not> step \<le> maxDrift then Inl ''CALIBRATION_STEP must be <= CALIBRATION_MAX_DRIFT''
      else if \<not> is4dp step then Inl ''CALIBRATION_STEP must have at most 4 decimal places''
      else if \<not> is4dp maxDrift then Inl ''CALIBRATION_MAX_DRIFT must have at most 4 decimal places''
      else Inr \<lparr>cb_schedEnabled = (CALIBRATION_SCHED_ENABLED env \<noteq> ''false''),
                cb_cron = CALIBRATION_SCHED_CRON env, cb_windowDays = CALIBRATION_WINDOW_DAYS env,
                cb_minEdgeSamples = CALIBRATION_MIN_EDGE_SAMPLES env, cb_step = step, cb_maxDrift = maxDrift\<rparr>)"

definition railsOf :: "calibration_config \<Rightarrow> calibration_rails" where
  "railsOf cfg = \<lparr>rl_maxDrift = cb_maxDrift cfg, rl_minGap = MIN_GAP\<rparr>"

definition gapAdmissible :: "rat \<Rightarrow> calibration_rails \<Rightarrow> bool" where
  "gapAdmissible gap rails = (let g = r4 gap in g \<ge> rl_minGap rails \<and> g > 2 * EDGE_WIDTH)"

record band_pair =
  bp_high :: rat
  bp_low :: rat

definition calibrationHalted :: "band_pair \<Rightarrow> band_pair \<Rightarrow> calibration_rails \<Rightarrow> bool" where
  "calibrationHalted instance effective rails =
     (\<not> gapAdmissible (bp_high instance - bp_low instance) rails
      \<or> \<not> gapAdmissible (bp_high effective - bp_low effective) rails)"

section \<open>The JSON overrides\<close>

definition json_keys :: "json \<Rightarrow> string list" where
  "json_keys v = (case v of JObj kvs \<Rightarrow> map fst kvs | _ \<Rightarrow> [])"

text \<open>The first four steps both parsers share: absent or blank, not JSON, not an object, an unknown key.\<close>

definition override_object :: "string \<Rightarrow> string list \<Rightarrow> string \<Rightarrow> string + json" where
  "override_object name known text =
     (case json_parse text of
        None \<Rightarrow> Inl (name @ '' must be valid JSON'')
      | Some v \<Rightarrow>
          if \<not> isRecord v then Inl (name @ '' must be a JSON object'')
          else (case find (\<lambda>k. k \<notin> set known) (json_keys v) of
                  Some k \<Rightarrow> Inl (name @ '' has unknown key \"'' @ k @ ''\"'')
                | None \<Rightarrow> Inr v))"

definition blank :: "string option \<Rightarrow> bool" where
  "blank s = (case s of None \<Rightarrow> True | Some t \<Rightarrow> js_trim t = [])"

definition WORKLOAD_THRESHOLD_KEYS :: "string list" where
  "WORKLOAD_THRESHOLD_KEYS = [''codeShare'', ''codeMinChars'']"

definition parse_codeShare :: "json \<Rightarrow> string + rat" where
  "parse_codeShare obj =
     (case obj_prop ''codeShare'' obj of
        None \<Rightarrow> Inr (wt_codeShare DEFAULT_WORKLOAD_THRESHOLDS)
      | Some (JNum v) \<Rightarrow>
          if v \<le> 0 \<or> v > 1 then Inl ''ROUTING_WORKLOAD_THRESHOLDS.codeShare must be a finite number in (0, 1]''
          else Inr v
      | Some _ \<Rightarrow> Inl ''ROUTING_WORKLOAD_THRESHOLDS.codeShare must be a finite number in (0, 1]'')"

definition parse_codeMinChars :: "json \<Rightarrow> string + nat" where
  "parse_codeMinChars obj =
     (case obj_prop ''codeMinChars'' obj of
        None \<Rightarrow> Inr (wt_codeMinChars DEFAULT_WORKLOAD_THRESHOLDS)
      | Some (JNum v) \<Rightarrow>
          if of_int \<lfloor>v\<rfloor> \<noteq> v \<or> v < 0 then Inl ''ROUTING_WORKLOAD_THRESHOLDS.codeMinChars must be a non-negative integer''
          else Inr (nat \<lfloor>v\<rfloor>)
      | Some _ \<Rightarrow> Inl ''ROUTING_WORKLOAD_THRESHOLDS.codeMinChars must be a non-negative integer'')"

definition parseWorkloadThresholds :: "string option \<Rightarrow> string + workload_thresholds" where
  "parseWorkloadThresholds text =
     (if blank text then Inr DEFAULT_WORKLOAD_THRESHOLDS
      else case override_object ''ROUTING_WORKLOAD_THRESHOLDS'' WORKLOAD_THRESHOLD_KEYS (the text) of
             Inl e \<Rightarrow> Inl e
           | Inr obj \<Rightarrow>
               (case parse_codeShare obj of
                  Inl e \<Rightarrow> Inl e
                | Inr share \<Rightarrow>
                    (case parse_codeMinChars obj of
                       Inl e \<Rightarrow> Inl e
                     | Inr chars \<Rightarrow> Inr \<lparr>wt_codeShare = share, wt_codeMinChars = chars\<rparr>)))"

definition STRUCTURAL_WEIGHT_KEYS :: "string list" where
  "STRUCTURAL_WEIGHT_KEYS = [''size'', ''code'', ''tools'', ''schema'', ''depth'', ''multimodal'', ''maxTokens'']"

definition weight_at :: "structural_weights \<Rightarrow> string \<Rightarrow> rat" where
  "weight_at w k =
     (if k = ''size'' then w_size w else if k = ''code'' then w_code w else if k = ''tools'' then w_tools w
      else if k = ''schema'' then w_schema w else if k = ''depth'' then w_depth w
      else if k = ''multimodal'' then w_multimodal w else w_maxTokens w)"

definition weights_from :: "(string \<Rightarrow> rat) \<Rightarrow> structural_weights" where
  "weights_from f =
     \<lparr>w_size = f ''size'', w_code = f ''code'', w_tools = f ''tools'', w_schema = f ''schema'', w_depth = f ''depth'',
      w_multimodal = f ''multimodal'', w_maxTokens = f ''maxTokens''\<rparr>"

text \<open>The merge over the built-in weights, in the order of the keys; the first bad value is reported.\<close>

primrec merge_weights :: "json \<Rightarrow> string list \<Rightarrow> (string \<Rightarrow> rat) \<Rightarrow> string + (string \<Rightarrow> rat)" where
  "merge_weights obj [] merged = Inr merged"
| "merge_weights obj (k # ks) merged =
     (case obj_prop k obj of
        None \<Rightarrow> merge_weights obj ks merged
      | Some (JNum v) \<Rightarrow>
          if v < 0 then Inl (''ROUTING_STRUCTURAL_WEIGHTS.'' @ k @ '' must be a finite number >= 0'')
          else merge_weights obj ks (merged(k := v))
      | Some _ \<Rightarrow> Inl (''ROUTING_STRUCTURAL_WEIGHTS.'' @ k @ '' must be a finite number >= 0''))"

definition parse_reasoning :: "json \<Rightarrow> string + rat" where
  "parse_reasoning obj =
     (case obj_prop ''reasoning'' obj of
        None \<Rightarrow> Inr DEFAULT_REASONING_ADJUST
      | Some (JNum r) \<Rightarrow>
          if r < 0 \<or> r > 1 / 2 then Inl ''ROUTING_STRUCTURAL_WEIGHTS.reasoning must be a finite number in [0, 0.5]''
          else Inr r
      | Some _ \<Rightarrow> Inl ''ROUTING_STRUCTURAL_WEIGHTS.reasoning must be a finite number in [0, 0.5]'')"

definition parseStructuralWeights :: "string option \<Rightarrow> string + structural_weights \<times> rat" where
  "parseStructuralWeights text =
     (if blank text then Inr (DEFAULT_STRUCTURAL_WEIGHTS, DEFAULT_REASONING_ADJUST)
      else case override_object ''ROUTING_STRUCTURAL_WEIGHTS'' (STRUCTURAL_WEIGHT_KEYS @ [''reasoning'']) (the text) of
             Inl e \<Rightarrow> Inl e
           | Inr obj \<Rightarrow>
               (case parse_reasoning obj of
                  Inl e \<Rightarrow> Inl e
                | Inr reasoningAdjust \<Rightarrow>
                    (case merge_weights obj STRUCTURAL_WEIGHT_KEYS (weight_at DEFAULT_STRUCTURAL_WEIGHTS) of
                       Inl e \<Rightarrow> Inl e
                     | Inr merged \<Rightarrow>
                         let total_weight = foldl (\<lambda>a k. a + merged k) 0 STRUCTURAL_WEIGHT_KEYS in
                         if total_weight \<le> 0 then Inl ''ROUTING_STRUCTURAL_WEIGHTS must have a positive finite sum''
                         else Inr (weights_from (\<lambda>k. merged k / total_weight), reasoningAdjust))))"

section \<open>The routing configuration\<close>

definition AUTO_LAYER_TOKENS :: "string list" where
  "AUTO_LAYER_TOKENS = [''structural'', ''cascade'', ''semantic'']"

record routing_env =
  ROUTING_AUTO_LAYERS :: string
  ROUTING_STRUCTURAL_HIGH_THRESHOLD :: rat
  ROUTING_STRUCTURAL_LOW_THRESHOLD :: rat
  ROUTING_STRUCTURAL_BASELINE_ALPHA :: rat
  ROUTING_STRUCTURAL_WEIGHTS :: "string option"
  ROUTING_WORKLOAD_THRESHOLDS :: "string option"
  ROUTING_CASCADE_QUALITY_THRESHOLD :: rat
  ROUTING_CASCADE_CHEAP_TIMEOUT_MS :: int

definition routing_schema :: "routing_env \<Rightarrow> bool" where
  "routing_schema env =
     (0 \<le> ROUTING_STRUCTURAL_HIGH_THRESHOLD env \<and> ROUTING_STRUCTURAL_HIGH_THRESHOLD env \<le> 1
      \<and> 0 \<le> ROUTING_STRUCTURAL_LOW_THRESHOLD env \<and> ROUTING_STRUCTURAL_LOW_THRESHOLD env \<le> 1
      \<and> 0 < ROUTING_STRUCTURAL_BASELINE_ALPHA env \<and> ROUTING_STRUCTURAL_BASELINE_ALPHA env \<le> 1
      \<and> 0 < ROUTING_CASCADE_QUALITY_THRESHOLD env \<and> ROUTING_CASCADE_QUALITY_THRESHOLD env \<le> 1
      \<and> 0 < ROUTING_CASCADE_CHEAP_TIMEOUT_MS env)"

record structural_config =
  sc_high :: rat
  sc_low :: rat
  sc_baselineAlpha :: rat
  sc_weights :: structural_weights
  sc_reasoningAdjust :: rat

record cascade_config =
  cd_enabled :: bool
  cd_qualityThreshold :: rat
  cd_cheapTimeoutMs :: int

record workload_config =
  wc_thresholds :: workload_thresholds
  wc_revision :: string

record routing_config =
  rc_autoLayers :: "string list"
  rc_structural :: structural_config
  rc_cascade :: cascade_config
  rc_workload :: workload_config

text \<open>A \<open>Set\<close> in insertion order.\<close>

definition set_add :: "'a \<Rightarrow> 'a list \<Rightarrow> 'a list" where
  "set_add x xs = (if x \<in> set xs then xs else xs @ [x])"

definition auto_layers :: "string \<Rightarrow> string list" where
  "auto_layers text =
     foldl (\<lambda>acc s. set_add s acc) [] (filter (\<lambda>s. s \<noteq> []) (map (\<lambda>s. js_lower (js_trim s)) (split_on CHR '','' text)))"

definition buildRoutingConfig :: "(string \<Rightarrow> string) \<Rightarrow> routing_env \<Rightarrow> string + routing_config" where
  "buildRoutingConfig sha256hex env =
     (let layers = auto_layers (ROUTING_AUTO_LAYERS env) in
      case find (\<lambda>l. l \<notin> set AUTO_LAYER_TOKENS) layers of
        Some l \<Rightarrow> Inl (''ROUTING_AUTO_LAYERS contains unknown layer \"'' @ l @ ''\" (allowed: structural, cascade, semantic)'')
      | None \<Rightarrow>
          (let layers1 = (if ''cascade'' \<in> set layers then set_add ''structural'' layers else layers);
               layers2 = (if ''semantic'' \<in> set layers1 then set_add ''structural'' layers1 else layers1);
               high = ROUTING_STRUCTURAL_HIGH_THRESHOLD env;
               low = ROUTING_STRUCTURAL_LOW_THRESHOLD env;
               alpha = ROUTING_STRUCTURAL_BASELINE_ALPHA env
           in if \<not> low < high then
                Inl ''ROUTING_STRUCTURAL_LOW_THRESHOLD must be strictly less than ROUTING_STRUCTURAL_HIGH_THRESHOLD''
              else if \<not> is4dp high \<or> \<not> is4dp low then
                Inl ''ROUTING_STRUCTURAL_*_THRESHOLD must have at most 4 decimal places''
              else if \<not> (alpha > 0 \<and> alpha \<le> 1) then Inl ''ROUTING_STRUCTURAL_BASELINE_ALPHA must be in (0, 1]''
              else (case parseStructuralWeights (ROUTING_STRUCTURAL_WEIGHTS env) of
                      Inl e \<Rightarrow> Inl e
                    | Inr (weights, reasoningAdjust) \<Rightarrow>
                        (case parseWorkloadThresholds (ROUTING_WORKLOAD_THRESHOLDS env) of
                           Inl e \<Rightarrow> Inl e
                         | Inr thresholds \<Rightarrow>
                             Inr \<lparr>rc_autoLayers = layers2,
                                  rc_structural = \<lparr>sc_high = high, sc_low = low, sc_baselineAlpha = alpha,
                                    sc_weights = weights, sc_reasoningAdjust = reasoningAdjust\<rparr>,
                                  rc_cascade = \<lparr>cd_enabled = (''cascade'' \<in> set layers2),
                                    cd_qualityThreshold = ROUTING_CASCADE_QUALITY_THRESHOLD env,
                                    cd_cheapTimeoutMs = ROUTING_CASCADE_CHEAP_TIMEOUT_MS env\<rparr>,
                                  rc_workload = \<lparr>wc_thresholds = thresholds,
                                    wc_revision = workloadRevision sha256hex thresholds\<rparr>\<rparr>))))"

record layer_flags =
  lf_structural :: bool
  lf_cascade :: bool
  lf_semantic :: bool
  lf_semanticWorkload :: bool

definition autoLayerCapability :: "routing_config \<Rightarrow> bool \<Rightarrow> bool \<Rightarrow> layer_flags" where
  "autoLayerCapability cfg classifierReady workloadReady =
     (let semantic = (''semantic'' \<in> set (rc_autoLayers cfg) \<and> classifierReady)
      in \<lparr>lf_structural = (''structural'' \<in> set (rc_autoLayers cfg)), lf_cascade = cd_enabled (rc_cascade cfg),
          lf_semantic = semantic, lf_semanticWorkload = (semantic \<and> workloadReady)\<rparr>)"

record layer_prefs =
  lp_structuralEnabled :: bool
  lp_cascadeEnabled :: bool
  lp_semanticEnabled :: "bool option"

definition effectiveAutoLayers :: "layer_flags \<Rightarrow> layer_prefs option \<Rightarrow> layer_flags" where
  "effectiveAutoLayers cap pref =
     (let semantic = (lf_semantic cap \<and> (case Option.bind pref lp_semanticEnabled of None \<Rightarrow> True | Some b \<Rightarrow> b))
      in \<lparr>lf_structural = (lf_structural cap \<and> (case pref of None \<Rightarrow> True | Some p \<Rightarrow> lp_structuralEnabled p)),
          lf_cascade = (lf_cascade cap \<and> (case pref of None \<Rightarrow> True | Some p \<Rightarrow> lp_cascadeEnabled p)),
          lf_semantic = semantic, lf_semanticWorkload = (semantic \<and> lf_semanticWorkload cap)\<rparr>)"

section \<open>The thresholds of a request\<close>

record pair_row =
  cal_high :: "rat option"
  cal_low :: "rat option"
  cal_anchorHigh :: "rat option"
  cal_anchorLow :: "rat option"

definition applyPair :: "band_pair \<Rightarrow> pair_row option \<Rightarrow> calibration_rails \<Rightarrow> band_pair option" where
  "applyPair base pref rails =
     (case pref of
        None \<Rightarrow> None
      | Some row \<Rightarrow>
          (case (cal_high row, cal_low row, cal_anchorHigh row, cal_anchorLow row) of
             (Some h, Some l, Some ah, Some al) \<Rightarrow>
               if h < 0 \<or> h > 1 \<or> l < 0 \<or> l > 1 \<or> l \<ge> h then None
               else if ah \<noteq> bp_high base \<or> al \<noteq> bp_low base then None
               else if h > ah \<or> l < al then None
               else if r4 (ah - h) > rl_maxDrift rails \<or> r4 (l - al) > rl_maxDrift rails then None
               else if \<not> gapAdmissible (r4 (h - l)) rails then None
               else Some \<lparr>bp_high = h, bp_low = l\<rparr>
           | _ \<Rightarrow> None))"

definition effectiveThresholds :: "band_pair \<Rightarrow> pair_row option \<Rightarrow> calibration_rails \<Rightarrow> band_pair" where
  "effectiveThresholds base pref rails =
     (case applyPair base pref rails of None \<Rightarrow> base | Some p \<Rightarrow> p)"

datatype threshold_scope = InstanceScope | TenantScope | AgentPairScope

definition resolveThresholds ::
  "band_pair \<Rightarrow> pair_row option \<Rightarrow> pair_row option \<Rightarrow> calibration_rails \<Rightarrow> band_pair \<times> threshold_scope" where
  "resolveThresholds instance tenantPref agentPref rails =
     (let tenantPair = applyPair instance tenantPref rails;
          tenant = (case tenantPair of None \<Rightarrow> instance | Some p \<Rightarrow> p);
          below = (case tenantPair of None \<Rightarrow> InstanceScope | Some _ \<Rightarrow> TenantScope)
      in case applyPair tenant agentPref rails of
           None \<Rightarrow> (tenant, below)
         | Some agent \<Rightarrow>
             if r4 (bp_high instance - bp_high agent) > rl_maxDrift rails
                \<or> r4 (bp_low agent - bp_low instance) > rl_maxDrift rails
             then (tenant, below)
             else (agent, AgentPairScope))"

end
