(* ===== verification/Calibration.thy ===== *)
theory Calibration
  imports RoutingConfig
begin

text \<open>
  Threshold calibration: the tables it reads and writes with their accessors
  (\<open>database/port.ts\<close>, \<open>database/analytics.queries.ts\<close>), the decision core and the sweep
  (\<open>calibration/calibration.run.ts\<close>), and the tenant's side (\<open>routing-config/auto-layers.service.ts\<close>).

  The database is one record; a transaction is a function on it whose left side is a constraint
  violation, which rolls it back. A call of the sweep takes the next entry of a script: the
  transactions of others that commit before it, and whether it is served, never arrives, or commits
  and loses its answer; the last two reject the promise. An empty script is a database nobody else
  uses and that answers. Rejections carry no text: log lines are not modelled. The arrow of a
  reason text is written \<open>->\<close>. SQL comparisons are over exact numbers.
\<close>

section \<open>The tables\<close>

datatype cal_edge = HighEdge | LowEdge
datatype cal_trigger = CalibratorTrigger | RevertTrigger | RebaseTrigger

record settings_value =
  rs_structuralEnabled :: bool
  rs_cascadeEnabled :: bool
  rs_semanticEnabled :: bool
  rs_learningEnabled :: bool
  rs_learningEpoch :: nat
  rs_learningGeneration :: nat
  rs_calibrationEnabled :: bool
  rs_pair :: pair_row
  rs_epoch :: nat
  rs_membership :: nat

record agent_row =
  ag_id :: string
  ag_owner :: string
  ag_name :: string
  ag_pair :: pair_row
  ag_epoch :: nat

record cal_event =
  ce_trigger :: cal_trigger
  ce_old :: band_pair
  ce_new :: band_pair
  ce_anchor :: band_pair
  ce_window :: "(int \<times> int) option"
  ce_edge :: "cal_edge option"
  ce_samples :: "int option"
  ce_failures :: "int option"
  ce_reason :: string

record event_row =
  er_owner :: string
  er_agent :: "string option"
  er_event :: cal_event
  er_ordinal :: nat
  er_createdAt :: int

text \<open>The columns of a request log row the calibration reads.\<close>

record log_row =
  lg_owner :: string
  lg_agent :: "string option"
  lg_createdAt :: int
  lg_status :: string
  lg_layer :: string
  lg_band :: "string option"
  lg_bandSource :: "string option"
  lg_score :: "rat option"
  lg_scope :: "string option"
  lg_epoch :: "nat option"
  lg_escalated :: bool
  lg_escalationSource :: "string option"
  lg_qualitySignal :: "rat option"

record cal_db =
  db_settings :: "(string \<times> settings_value) list"
  db_agents :: "agent_row list"
  db_events :: "event_row list"
  db_logs :: "log_row list"
  db_now :: int

type_synonym 'a tx = "cal_db \<Rightarrow> (unit + 'a) \<times> cal_db"

definition no_pair :: pair_row where
  "no_pair = \<lparr>cal_high = None, cal_low = None, cal_anchorHigh = None, cal_anchorLow = None\<rparr>"

text \<open>A quad as it is written: the pair and its anchor.\<close>

definition quad_cols :: "(band_pair \<times> band_pair) option \<Rightarrow> pair_row" where
  "quad_cols quad =
     (case quad of
        None \<Rightarrow> no_pair
      | Some (p, a) \<Rightarrow> \<lparr>cal_high = Some (bp_high p), cal_low = Some (bp_low p),
                        cal_anchorHigh = Some (bp_high a), cal_anchorLow = Some (bp_low a)\<rparr>)"

section \<open>The settings of a tenant\<close>

definition settings_check :: "settings_value \<Rightarrow> bool" where
  "settings_check v =
     ((rs_cascadeEnabled v \<longrightarrow> rs_structuralEnabled v) \<and> (rs_semanticEnabled v \<longrightarrow> rs_structuralEnabled v)
      \<and> (rs_learningEnabled v \<longrightarrow> rs_semanticEnabled v)
      \<and> (case rs_pair v of row \<Rightarrow>
           (cal_high row = None) = (cal_low row = None) \<and> (cal_high row = None) = (cal_anchorHigh row = None)
           \<and> (cal_high row = None) = (cal_anchorLow row = None)
           \<and> (case (cal_high row, cal_low row) of (Some h, Some l) \<Rightarrow> l \<ge> 0 \<and> h \<le> 1 \<and> l < h | _ \<Rightarrow> True)))"

definition settings_get :: "string \<Rightarrow> cal_db \<Rightarrow> settings_value option" where
  "settings_get owner d = map_of (db_settings d) owner"

definition settings_put :: "string \<Rightarrow> settings_value \<Rightarrow> cal_db \<Rightarrow> (unit + settings_value) \<times> cal_db" where
  "settings_put owner v d =
     (if settings_check v then (Inr v, d\<lparr>db_settings := obj_put owner v (db_settings d)\<rparr>) else (Inl (), d))"

record settings_upsert =
  up_structuralEnabled :: bool
  up_cascadeEnabled :: bool
  up_semanticEnabled :: "bool option"
  up_learningEnabled :: "bool option"
  up_calibrationEnabled :: "bool option"

definition upsert_insert :: "settings_upsert \<Rightarrow> settings_value" where
  "upsert_insert u =
     \<lparr>rs_structuralEnabled = up_structuralEnabled u, rs_cascadeEnabled = up_cascadeEnabled u,
      rs_semanticEnabled = (case up_semanticEnabled u of None \<Rightarrow> up_structuralEnabled u | Some b \<Rightarrow> b),
      rs_learningEnabled = (case up_learningEnabled u of None \<Rightarrow> False | Some b \<Rightarrow> b),
      rs_learningEpoch = 0, rs_learningGeneration = 0,
      rs_calibrationEnabled = (case up_calibrationEnabled u of None \<Rightarrow> False | Some b \<Rightarrow> b),
      rs_pair = no_pair, rs_epoch = 0, rs_membership = 0\<rparr>"

definition upsert_update :: "settings_upsert \<Rightarrow> settings_value \<Rightarrow> settings_value" where
  "upsert_update u v =
     v\<lparr>rs_structuralEnabled := up_structuralEnabled u, rs_cascadeEnabled := up_cascadeEnabled u,
       rs_semanticEnabled := (case up_semanticEnabled u of
          Some b \<Rightarrow> b | None \<Rightarrow> rs_semanticEnabled v \<and> up_structuralEnabled u),
       rs_learningEnabled := (case up_learningEnabled u of
          Some b \<Rightarrow> b
        | None \<Rightarrow> rs_learningEnabled v \<and> (case up_semanticEnabled u of
            Some b \<Rightarrow> b | None \<Rightarrow> rs_semanticEnabled v \<and> up_structuralEnabled u)),
       rs_calibrationEnabled := (case up_calibrationEnabled u of Some b \<Rightarrow> b | None \<Rightarrow> rs_calibrationEnabled v)\<rparr>"

definition settings_upsert_tx :: "string \<Rightarrow> settings_upsert \<Rightarrow> settings_value tx" where
  "settings_upsert_tx owner u d =
     settings_put owner (case settings_get owner d of None \<Rightarrow> upsert_insert u | Some v \<Rightarrow> upsert_update u v) d"

definition append_events :: "string \<Rightarrow> string option \<Rightarrow> cal_event list \<Rightarrow> cal_db \<Rightarrow> cal_db" where
  "append_events owner agent evs d =
     d\<lparr>db_events := db_events d @ map (\<lambda>(i, e). \<lparr>er_owner = owner, er_agent = agent, er_event = e,
          er_ordinal = i, er_createdAt = db_now d\<rparr>) (enumerate 0 evs)\<rparr>"

record cal_expected =
  xp_enabled :: "bool option"
  xp_pair :: pair_row
  xp_epoch :: nat
  xp_membership :: "nat option"

definition matches_expected :: "settings_value \<Rightarrow> cal_expected \<Rightarrow> bool" where
  "matches_expected row xp =
     (rs_epoch row = xp_epoch xp
      \<and> (case xp_membership xp of None \<Rightarrow> True | Some g \<Rightarrow> rs_membership row = g)
      \<and> (case xp_enabled xp of None \<Rightarrow> True | Some b \<Rightarrow> rs_calibrationEnabled row = b)
      \<and> rs_pair row = xp_pair xp)"

definition settings_setCalibrated ::
  "string \<Rightarrow> (band_pair \<times> band_pair) option \<Rightarrow> cal_expected \<Rightarrow> cal_event list \<Rightarrow> bool tx" where
  "settings_setCalibrated owner quad xp evs d =
     (case settings_get owner d of
        None \<Rightarrow> (Inr False, d)
      | Some row \<Rightarrow>
          if \<not> matches_expected row xp then (Inr False, d)
          else (case settings_put owner (row\<lparr>rs_pair := quad_cols quad, rs_epoch := rs_epoch row + length evs\<rparr>) d of
                  (Inl e, _) \<Rightarrow> (Inl e, d)
                | (Inr _, d1) \<Rightarrow> (Inr True, append_events owner None evs d1)))"

definition settings_clearCalibrated :: "string \<Rightarrow> (settings_value \<Rightarrow> cal_event) \<Rightarrow> bool tx" where
  "settings_clearCalibrated owner eventOf d =
     (case settings_get owner d of
        None \<Rightarrow> (Inr False, d)
      | Some row \<Rightarrow>
          if cal_high (rs_pair row) = None then (Inr False, d)
          else (case settings_put owner (row\<lparr>rs_pair := no_pair, rs_epoch := rs_epoch row + 1\<rparr>) d of
                  (Inl e, _) \<Rightarrow> (Inl e, d)
                | (Inr _, d1) \<Rightarrow> (Inr True, append_events owner None [eventOf row] d1)))"

definition listCalibrationEnabled :: "cal_db \<Rightarrow> (string \<times> settings_value) list" where
  "listCalibrationEnabled d = filter (\<lambda>t. rs_calibrationEnabled (snd t)) (db_settings d)"

definition settings_listWithPair :: "cal_db \<Rightarrow> (string \<times> settings_value) list" where
  "settings_listWithPair d = filter (\<lambda>t. cal_high (rs_pair (snd t)) \<noteq> None) (db_settings d)"

section \<open>The agents\<close>

definition listForCalibration :: "string \<Rightarrow> cal_db \<Rightarrow> agent_row list" where
  "listForCalibration owner d = filter (\<lambda>a. ag_owner a = owner) (db_agents d)"

definition agents_listWithPair :: "cal_db \<Rightarrow> agent_row list" where
  "agents_listWithPair d = filter (\<lambda>a. cal_high (ag_pair a) \<noteq> None) (db_agents d)"

definition activity_rows :: "string \<Rightarrow> string \<Rightarrow> int \<times> int \<Rightarrow> cal_db \<Rightarrow> int" where
  "activity_rows owner agentId win d =
     int (length (filter (\<lambda>r. lg_owner r = owner \<and> lg_agent r = Some agentId
       \<and> fst win \<le> lg_createdAt r \<and> lg_createdAt r < snd win) (db_logs d)))"

definition agent_check :: "pair_row \<Rightarrow> bool" where
  "agent_check row =
     ((cal_high row = None) = (cal_low row = None) \<and> (cal_high row = None) = (cal_anchorHigh row = None)
      \<and> (cal_high row = None) = (cal_anchorLow row = None)
      \<and> (case (cal_high row, cal_low row) of (Some h, Some l) \<Rightarrow> h > 0 \<and> h \<le> 1 \<and> l \<ge> 0 \<and> l < h | _ \<Rightarrow> True)
      \<and> (case (cal_anchorHigh row, cal_anchorLow row) of
           (Some h, Some l) \<Rightarrow> h > 0 \<and> h \<le> 1 \<and> l \<ge> 0 \<and> l < h | _ \<Rightarrow> True))"

record agent_expected =
  ax_pair :: pair_row
  ax_epoch :: nat

record tenant_pin =
  tp_high :: "rat option"
  tp_low :: "rat option"
  tp_epoch :: nat
  tp_membership :: nat

definition pin_holds :: "tenant_pin option \<Rightarrow> settings_value \<Rightarrow> bool" where
  "pin_holds pin v =
     (case pin of
        None \<Rightarrow> True
      | Some p \<Rightarrow> cal_high (rs_pair v) = tp_high p \<and> cal_low (rs_pair v) = tp_low p \<and> rs_epoch v = tp_epoch p
          \<and> rs_membership v = tp_membership p)"

definition agent_setCalibrated ::
  "string \<Rightarrow> string \<Rightarrow> (band_pair \<times> band_pair) option \<Rightarrow> agent_expected \<Rightarrow> tenant_pin option \<Rightarrow> cal_event list \<Rightarrow> bool tx" where
  "agent_setCalibrated owner agentId quad xp pin evs d =
     (case settings_get owner d of
        None \<Rightarrow> (Inr False, d)
      | Some settings \<Rightarrow>
          if \<not> pin_holds pin settings then (Inr False, d)
          else (case find (\<lambda>a. ag_id a = agentId \<and> ag_owner a = owner) (db_agents d) of
                  None \<Rightarrow> (Inr False, d)
                | Some agent \<Rightarrow>
                    if ag_pair agent \<noteq> ax_pair xp \<or> ag_epoch agent \<noteq> ax_epoch xp then (Inr False, d)
                    else if \<not> agent_check (quad_cols quad) then (Inl (), d)
                    else (let d1 = d\<lparr>db_agents := map (\<lambda>a. if ag_id a = agentId
                                 then a\<lparr>ag_pair := quad_cols quad, ag_epoch := ag_epoch agent + 1\<rparr> else a) (db_agents d)\<rparr>;
                              had = (cal_high (ag_pair agent) \<noteq> None);
                              has = (quad \<noteq> None);
                              d2 = (if had \<noteq> has
                                     then snd (settings_put owner (settings\<lparr>rs_membership := rs_membership settings + 1\<rparr>) d1)
                                     else d1)
                          in (Inr True, append_events owner (Some agentId) evs d2))))"

section \<open>The history\<close>

text \<open>Newest first, the events of one transaction in descending ordinal; \<open>scope\<close> is absent, the
  literal \<open>tenant\<close>, or an agent id.\<close>

definition events_list :: "string \<Rightarrow> nat \<Rightarrow> string option \<Rightarrow> cal_db \<Rightarrow> event_row list" where
  "events_list owner limit scope d =
     take limit (sort_key (\<lambda>e. - er_createdAt e) (sort_key (\<lambda>e. - int (er_ordinal e))
       (filter (\<lambda>e. er_owner e = owner \<and>
          (case scope of None \<Rightarrow> True
           | Some s \<Rightarrow> if s = ''tenant'' then er_agent e = None else er_agent e = Some s)) (db_events d))))"

section \<open>The evidence\<close>

definition calibrationPass :: "log_row \<Rightarrow> bool" where
  "calibrationPass r =
     (\<not> lg_escalated r \<and> lg_escalationSource r = None \<and> lg_status r \<in> {''success'', ''fallback''} \<and> lg_qualitySignal r \<noteq> None)"

definition calibrationFailure :: "log_row \<Rightarrow> bool" where
  "calibrationFailure r = (lg_escalated r \<and> lg_escalationSource r = Some ''quality_gate'')"

definition calibrationDecided :: "log_row \<Rightarrow> bool" where
  "calibrationDecided r = (calibrationPass r \<or> calibrationFailure r)"

definition calibrationShape :: "log_row \<Rightarrow> bool" where
  "calibrationShape r =
     (lg_band r = Some ''ambiguous'' \<and> lg_layer r = ''cascade'' \<and> lg_bandSource r = Some ''threshold'')"

datatype cal_membership = TenantEvidence | AgentBootstrap string | AgentEvidence string

definition tenant_scoped :: "log_row \<Rightarrow> bool" where
  "tenant_scoped r = (lg_scope r = None \<or> lg_scope r = Some ''tenant'')"

definition calibrationMembership :: "string \<Rightarrow> cal_membership \<Rightarrow> nat \<Rightarrow> cal_db \<Rightarrow> log_row \<Rightarrow> bool" where
  "calibrationMembership owner m epoch d r =
     (case m of
        AgentEvidence a \<Rightarrow> lg_agent r = Some a \<and> lg_scope r = Some ''agent'' \<and> lg_epoch r = Some epoch
      | AgentBootstrap a \<Rightarrow> lg_agent r = Some a \<and> tenant_scoped r \<and> lg_epoch r = Some epoch
      | TenantEvidence \<Rightarrow> tenant_scoped r \<and> lg_epoch r = Some epoch
          \<and> (case lg_agent r of None \<Rightarrow> True
             | Some a \<Rightarrow> \<not> list_ex (\<lambda>g. ag_id g = a \<and> ag_owner g = owner \<and> cal_high (ag_pair g) \<noteq> None) (db_agents d)))"

definition high_zone :: "band_pair \<Rightarrow> log_row \<Rightarrow> bool" where
  "high_zone g r = (case lg_score r of None \<Rightarrow> False | Some s \<Rightarrow> s \<ge> bp_high g - EDGE_WIDTH \<and> s < bp_high g)"

definition low_zone :: "band_pair \<Rightarrow> log_row \<Rightarrow> bool" where
  "low_zone g r = (case lg_score r of None \<Rightarrow> False | Some s \<Rightarrow> s > bp_low g \<and> s \<le> bp_low g + EDGE_WIDTH)"

definition middle_zone :: "band_pair \<Rightarrow> log_row \<Rightarrow> bool" where
  "middle_zone g r = (lg_score r = None \<or> (\<not> high_zone g r \<and> \<not> low_zone g r))"

definition in_range :: "string \<Rightarrow> int \<times> int \<Rightarrow> log_row \<Rightarrow> bool" where
  "in_range owner win r = (lg_owner r = owner \<and> fst win \<le> lg_createdAt r \<and> lg_createdAt r < snd win)"

record edge_stats =
  es_samples :: int
  es_failures :: int

record calibration_stats =
  cs_highEdge :: edge_stats
  cs_lowEdge :: edge_stats

definition edge_count :: "(log_row \<Rightarrow> bool) \<Rightarrow> log_row list \<Rightarrow> edge_stats" where
  "edge_count zone rows =
     \<lparr>es_samples = int (length (filter (\<lambda>r. calibrationDecided r \<and> zone r) rows)),
      es_failures = int (length (filter (\<lambda>r. calibrationFailure r \<and> zone r) rows))\<rparr>"

definition calibrationStats ::
  "string \<Rightarrow> int \<times> int \<Rightarrow> band_pair \<Rightarrow> nat \<Rightarrow> cal_membership \<Rightarrow> cal_db \<Rightarrow> calibration_stats" where
  "calibrationStats owner win geometry epoch m d =
     (let rows = filter (\<lambda>r. in_range owner win r \<and> calibrationShape r \<and> calibrationMembership owner m epoch d r) (db_logs d)
      in \<lparr>cs_highEdge = edge_count (high_zone geometry) rows, cs_lowEdge = edge_count (low_zone geometry) rows\<rparr>)"

text \<open>The figures the evidence view shows for the whole tenant: the sum of the groups, hence the counts
  over all rows of the range.\<close>

record evidence_entry =
  ee_highCurrent :: edge_stats
  ee_highWindow :: edge_stats
  ee_lowCurrent :: edge_stats
  ee_lowWindow :: edge_stats
  ee_middleCurrent :: int
  ee_middleWindow :: int

definition calibrationEvidence_total :: "string \<Rightarrow> int \<times> int \<Rightarrow> band_pair \<Rightarrow> nat \<Rightarrow> cal_db \<Rightarrow> evidence_entry" where
  "calibrationEvidence_total owner win geometry epoch d =
     (let rows = filter (\<lambda>r. in_range owner win r \<and> calibrationShape r) (db_logs d);
          current = filter (\<lambda>r. lg_epoch r = Some epoch) rows
      in \<lparr>ee_highCurrent = edge_count (high_zone geometry) current, ee_highWindow = edge_count (high_zone geometry) rows,
          ee_lowCurrent = edge_count (low_zone geometry) current, ee_lowWindow = edge_count (low_zone geometry) rows,
          ee_middleCurrent = es_samples (edge_count (middle_zone geometry) current),
          ee_middleWindow = es_samples (edge_count (middle_zone geometry) rows)\<rparr>)"

end
