(* ===== verification/Effects.thy ===== *)
theory Effects
  imports Prelude
begin

text \<open>
  Programs that await: a program maps the world to an answer or an exception and the world it leaves
  behind, and \<open>andThen\<close> is the \<open>await\<close> that lets an exception pass. \<open>keeps\<close> says that a program
  preserves an invariant whatever it answers,; a \<open>triple\<close> also says what holds of its answer.
\<close>

text \<open>What becomes of one call to a remote store.\<close>

datatype fate = Answered | NeverArrived | AnswerLost

type_synonym ('w, 'e, 'a) prog = "'w \<Rightarrow> ('e + 'a) \<times> 'w"

definition give :: "'a \<Rightarrow> ('w, 'e, 'a) prog" where "give a w = (Inr a, w)"

definition throw :: "'e \<Rightarrow> ('w, 'e, 'a) prog" where "throw e w = (Inl e, w)"

definition andThen :: "('w, 'e, 'a) prog \<Rightarrow> ('a \<Rightarrow> ('w, 'e, 'b) prog) \<Rightarrow> ('w, 'e, 'b) prog" where
  "andThen m k w = (case m w of (Inl e, w1) \<Rightarrow> (Inl e, w1) | (Inr a, w1) \<Rightarrow> k a w1)"

definition catching :: "('w, 'e, 'a) prog \<Rightarrow> ('e \<Rightarrow> ('w, 'e, 'a) prog) \<Rightarrow> ('w, 'e, 'a) prog" where
  "catching m h w = (case m w of (Inl e, w1) \<Rightarrow> h e w1 | (Inr a, w1) \<Rightarrow> (Inr a, w1))"

definition look :: "('w \<Rightarrow> ('w, 'e, 'a) prog) \<Rightarrow> ('w, 'e, 'a) prog" where "look f w = f w w"

definition change :: "('w \<Rightarrow> 'w) \<Rightarrow> ('w, 'e, unit) prog" where "change f w = (Inr (), f w)"

section \<open>Triples\<close>

named_theorems keeping

definition triple :: "('w \<Rightarrow> bool) \<Rightarrow> ('w, 'e, 'a) prog \<Rightarrow> ('a \<Rightarrow> 'w \<Rightarrow> bool) \<Rightarrow> ('w \<Rightarrow> bool) \<Rightarrow> bool" where
  "triple P m Q E \<longleftrightarrow>
     (\<forall>w. P w \<longrightarrow> (case m w of (Inl _, w1) \<Rightarrow> E w1 | (Inr a, w1) \<Rightarrow> Q a w1))"

abbreviation keeps :: "('w \<Rightarrow> bool) \<Rightarrow> ('w, 'e, 'a) prog \<Rightarrow> bool" where
  "keeps P m \<equiv> triple P m (\<lambda>_. P) P"

lemma tripleI:
  "(\<And>w e w1. P w \<Longrightarrow> m w = (Inl e, w1) \<Longrightarrow> E w1) \<Longrightarrow> (\<And>w a w1. P w \<Longrightarrow> m w = (Inr a, w1) \<Longrightarrow> Q a w1)
     \<Longrightarrow> triple P m Q E"
  by (auto simp: triple_def split: prod.split sum.split)

lemma tripleD: "triple P m Q E \<Longrightarrow> P w \<Longrightarrow> m w = (Inr a, w1) \<Longrightarrow> Q a w1"
  by (force simp: triple_def)

lemma tripleD_fault: "triple P m Q E \<Longrightarrow> P w \<Longrightarrow> m w = (Inl e, w1) \<Longrightarrow> E w1"
  by (force simp: triple_def)

lemma keepsD: "keeps P m \<Longrightarrow> P w \<Longrightarrow> P (snd (m w))"
  by (cases "m w"; cases "fst (m w)") (auto dest: tripleD tripleD_fault)

lemma triple_give [keeping]: "(\<And>w. P w \<Longrightarrow> Q a w) \<Longrightarrow> triple P (give a) Q E"
  by (simp add: triple_def give_def)

lemma triple_throw [keeping]: "(\<And>w. P w \<Longrightarrow> E w) \<Longrightarrow> triple P (throw e) Q E"
  by (simp add: triple_def throw_def)

lemma triple_andThen: "triple P m R E \<Longrightarrow> (\<And>a. triple (R a) (k a) Q E) \<Longrightarrow> triple P (andThen m k) Q E"
  by (rule tripleI)
     (auto simp: andThen_def split: prod.splits sum.splits dest: tripleD tripleD_fault)

lemma triple_catching: "triple P m Q R \<Longrightarrow> (\<And>e. triple R (h e) Q E) \<Longrightarrow> triple P (catching m h) Q E"
  by (rule tripleI)
     (auto simp: catching_def split: prod.splits sum.splits dest: tripleD tripleD_fault)

text \<open>The rules for an invariant, free of schematic assertions so that \<open>intro\<close> can chain them.\<close>

lemma keeps_andThen [keeping]: "keeps P m \<Longrightarrow> (\<And>a. keeps P (k a)) \<Longrightarrow> keeps P (andThen m k)"
  by (rule triple_andThen)

lemma keeps_catching [keeping]: "keeps P m \<Longrightarrow> (\<And>e. keeps P (h e)) \<Longrightarrow> keeps P (catching m h)"
  by (rule triple_catching)

lemma triple_look [keeping]: "(\<And>v. triple P (f v) Q E) \<Longrightarrow> triple P (look f) Q E"
  by (force simp: triple_def look_def)

lemma triple_change: "(\<And>w. P w \<Longrightarrow> Q () (f w)) \<Longrightarrow> triple P (change f) Q E"
  by (simp add: triple_def change_def)

lemma triple_weaken: "triple P' m Q' E' \<Longrightarrow> (\<And>w. P w \<Longrightarrow> P' w) \<Longrightarrow> (\<And>a w. Q' a w \<Longrightarrow> Q a w) \<Longrightarrow> (\<And>w. E' w \<Longrightarrow> E w)
    \<Longrightarrow> triple P m Q E"
  by (force simp: triple_def split: prod.split sum.split)

lemma triple_pull: "(F \<Longrightarrow> triple P m Q E) \<Longrightarrow> triple (\<lambda>w. P w \<and> F) m Q E"
  by (cases F) (auto simp: triple_def)

lemma triple_if [keeping]: "(b \<Longrightarrow> triple P m Q E) \<Longrightarrow> (\<not> b \<Longrightarrow> triple P n Q E) \<Longrightarrow> triple P (if b then m else n) Q E"
  by simp

lemma triple_case_option [keeping]:
  "(x = None \<Longrightarrow> triple P m Q E) \<Longrightarrow> (\<And>a. x = Some a \<Longrightarrow> triple P (k a) Q E)
     \<Longrightarrow> triple P (case x of None \<Rightarrow> m | Some a \<Rightarrow> k a) Q E"
  by (simp split: option.split)

lemma triple_case_sum [keeping]:
  "(\<And>e. x = Inl e \<Longrightarrow> triple P (h e) Q E) \<Longrightarrow> (\<And>a. x = Inr a \<Longrightarrow> triple P (k a) Q E)
     \<Longrightarrow> triple P (case x of Inl e \<Rightarrow> h e | Inr a \<Rightarrow> k a) Q E"
  by (simp split: sum.split)

end
