(* ===== verification/CalibrationRun.thy ===== *)
theory CalibrationRun
  imports Calibration Effects
begin

text \<open>
  The decision core of \<open>calibration/calibration.run.ts\<close> and the sweep around it, over the tables of
  theory Calibration; then the operations of \<open>routing-config/auto-layers.service.ts\<close> that touch them.
\<close>

section \<open>Numbers as text\<close>

definition pad_left :: "nat \<Rightarrow> string \<Rightarrow> string" where
  "pad_left k s = replicate (k - length s) CHR ''0'' @ s"

text \<open>\<open>n.toFixed(k)\<close> for a positive \<open>k\<close>: the nearest multiple, the larger one of two.\<close>

definition toFixed :: "nat \<Rightarrow> rat \<Rightarrow> string" where
  "toFixed k x =
     (let n = js_round (\<bar>x\<bar> * 10 ^ k)
      in (if x < 0 then ''-'' else []) @ show_int (n div 10 ^ k) @ ''.'' @ pad_left k (show_int (n mod 10 ^ k)))"

definition fmt :: "rat \<Rightarrow> string" where
  "fmt n =
     (let s = dropWhile (\<lambda>c. c = CHR ''0'') (rev (toFixed 4 n))
      in rev (case s of c # t \<Rightarrow> if c = CHR ''.'' then t else s | [] \<Rightarrow> []))"

section \<open>The decision\<close>

definition DAY_MILLIS :: int where "DAY_MILLIS = 86400000"

definition cooldownFor :: "event_row list \<Rightarrow> string option \<Rightarrow> int \<Rightarrow> cal_edge \<Rightarrow> bool" where
  "cooldownFor recent agentId now edge =
     list_ex (\<lambda>e. er_agent e = agentId \<and> ce_edge (er_event e) = Some edge
       \<and> er_createdAt e > now - COOLDOWN_DAYS * DAY_MILLIS) recent"

definition pairIsStale :: "band_pair \<Rightarrow> pair_row \<Rightarrow> calibration_rails \<Rightarrow> bool" where
  "pairIsStale instance pref rails =
     (if cal_high pref = None then False
      else let eff = effectiveThresholds instance (Some pref) rails
           in Some (bp_high eff) \<noteq> cal_high pref \<or> Some (bp_low eff) \<noteq> cal_low pref)"

record edge_decision =
  ed_edge :: cal_edge
  ed_samples :: int
  ed_failures :: int
  ed_rate :: rat
  ed_strengthNum :: rat
  ed_strengthDen :: int

record move_inputs =
  mi_base :: band_pair
  mi_eff :: band_pair
  mi_anchor :: band_pair
  mi_stats :: calibration_stats
  mi_inCooldown :: "cal_edge \<Rightarrow> bool"
  mi_cfg :: calibration_config
  mi_rails :: calibration_rails
  mi_now :: int
  mi_globalBound :: "band_pair option"

definition edge_rate :: "edge_stats \<Rightarrow> rat" where
  "edge_rate e = of_int (es_failures e) / of_int (es_samples e)"

definition edge_decision_of :: "cal_edge \<Rightarrow> edge_stats \<Rightarrow> rat \<Rightarrow> edge_decision" where
  "edge_decision_of edge e bound =
     \<lparr>ed_edge = edge, ed_samples = es_samples e, ed_failures = es_failures e, ed_rate = edge_rate e,
      ed_strengthNum = \<bar>of_int (es_failures e) * 10000 - bound * 10000 * of_int (es_samples e)\<bar>,
      ed_strengthDen = es_samples e * 10000\<rparr>"

definition high_candidate :: "move_inputs \<Rightarrow> edge_decision list" where
  "high_candidate p =
     (let he = cs_highEdge (mi_stats p); step = cb_step (mi_cfg p); high = bp_high (mi_eff p) in
      if es_samples he \<ge> cb_minEdgeSamples (mi_cfg p) \<and> edge_rate he \<ge> RATE_HIGH
         \<and> r4 (high - step) \<ge> r4 (bp_high (mi_anchor p) - cb_maxDrift (mi_cfg p))
         \<and> r4 (high - step) < high \<and> \<not> mi_inCooldown p HighEdge
      then [edge_decision_of HighEdge he RATE_HIGH] else [])"

definition low_candidate :: "move_inputs \<Rightarrow> edge_decision list" where
  "low_candidate p =
     (let le = cs_lowEdge (mi_stats p); step = cb_step (mi_cfg p); low = bp_low (mi_eff p) in
      if es_samples le \<ge> cb_minEdgeSamples (mi_cfg p) \<and> edge_rate le \<le> RATE_LOW
         \<and> r4 (low + step) \<le> r4 (bp_low (mi_anchor p) + cb_maxDrift (mi_cfg p))
         \<and> r4 (low + step) > low \<and> \<not> mi_inCooldown p LowEdge
      then [edge_decision_of LowEdge le RATE_LOW] else [])"

definition finalPair :: "band_pair \<Rightarrow> rat \<Rightarrow> edge_decision list \<Rightarrow> band_pair" where
  "finalPair eff step ds =
     \<lparr>bp_high = r4 (bp_high eff - (if list_ex (\<lambda>c. ed_edge c = HighEdge) ds then step else 0)),
      bp_low = r4 (bp_low eff + (if list_ex (\<lambda>c. ed_edge c = LowEdge) ds then step else 0))\<rparr>"

definition gapOf :: "band_pair \<Rightarrow> rat" where "gapOf p = r4 (bp_high p - bp_low p)"

text \<open>The comparators: the stronger deviation first, a tie for the high edge; and the high edge first.\<close>

definition by_strength :: "edge_decision \<Rightarrow> edge_decision \<Rightarrow> int" where
  "by_strength a b =
     (let c = ed_strengthNum b * of_int (ed_strengthDen a) - ed_strengthNum a * of_int (ed_strengthDen b)
      in if c < 0 then -1 else if c > 0 then 1 else if ed_edge a = HighEdge then -1 else 1)"

definition high_first :: "edge_decision \<Rightarrow> edge_decision \<Rightarrow> int" where
  "high_first a b = (if ed_edge a = HighEdge then -1 else 1)"

definition event_of_move :: "move_inputs \<Rightarrow> band_pair \<Rightarrow> band_pair \<Rightarrow> edge_decision \<Rightarrow> cal_event" where
  "event_of_move p cursor next_pair c =
     \<lparr>ce_trigger = CalibratorTrigger, ce_old = cursor, ce_new = next_pair, ce_anchor = mi_base p,
      ce_window = Some (mi_now p - cb_windowDays (mi_cfg p) * DAY_MILLIS, mi_now p),
      ce_edge = Some (ed_edge c), ce_samples = Some (ed_samples c), ce_failures = Some (ed_failures c),
      ce_reason = ''edge='' @ (if ed_edge c = HighEdge then ''high'' else ''low'') @ ''; n='' @ show_int (ed_samples c)
        @ ''; fail='' @ show_int (ed_failures c) @ ''; rate='' @ toFixed 3 (ed_rate c) @ ''; ''
        @ fmt (if ed_edge c = HighEdge then bp_high cursor else bp_low cursor) @ ''->''
        @ fmt (if ed_edge c = HighEdge then bp_high next_pair else bp_low next_pair)\<rparr>"

primrec move_events :: "move_inputs \<Rightarrow> band_pair \<Rightarrow> edge_decision list \<Rightarrow> cal_event list" where
  "move_events p cursor [] = []"
| "move_events p cursor (c # cs) =
     (let step = cb_step (mi_cfg p);
          next_pair = \<lparr>bp_high = (if ed_edge c = HighEdge then r4 (bp_high cursor - step) else bp_high cursor),
                       bp_low = (if ed_edge c = LowEdge then r4 (bp_low cursor + step) else bp_low cursor)\<rparr>
      in event_of_move p cursor next_pair c # move_events p next_pair cs)"

definition applied_edges :: "move_inputs \<Rightarrow> edge_decision list" where
  "applied_edges p =
     (let candidates = high_candidate p @ low_candidate p;
          pair_of = finalPair (mi_eff p) (cb_step (mi_cfg p)) in
      if \<not> gapAdmissible (gapOf (pair_of candidates)) (mi_rails p) \<and> length candidates = 2
      then [hd (js_sort by_strength candidates)] else candidates)"

definition over_global_bound :: "move_inputs \<Rightarrow> band_pair \<Rightarrow> bool" where
  "over_global_bound p goal =
     (case mi_globalBound p of
        None \<Rightarrow> False
      | Some g \<Rightarrow> r4 (bp_high g - bp_high goal) > cb_maxDrift (mi_cfg p) \<or> r4 (bp_low goal - bp_low g) > cb_maxDrift (mi_cfg p))"

text \<open>\<open>None\<close> is the outcome \<open>noop\<close>.\<close>

definition decideMove :: "move_inputs \<Rightarrow> (band_pair \<times> cal_event list) option" where
  "decideMove p =
     (if high_candidate p @ low_candidate p = [] then None
      else let used = applied_edges p; goal = finalPair (mi_eff p) (cb_step (mi_cfg p)) used in
        if \<not> gapAdmissible (gapOf goal) (mi_rails p) then None
        else if over_global_bound p goal then None
        else Some (goal, move_events p (mi_eff p) (js_sort high_first used)))"

section \<open>Calls under interference\<close>

text \<open>What other clients of the database do between two calls of the sweep: time passes, requests are
  logged, an agent appears or is deleted (its events stay: the trail has no foreign key), a tenant sets
  its layers or reverts, and a calibrated write of a tenant or of an agent, from a sweep of another
  replica, a rebase or a revert, commits with whatever it had read before. An agent's id is random, so
  a new agent never has the id of one an event names. The deletion of a whole account, which takes its
  settings and its events along, is left out.\<close>

datatype cal_act =
    ActElapse nat
  | ActLog "log_row list"
  | ActAgent string string string
  | ActDropAgent string string
  | ActUpsert string settings_upsert
  | ActRevert string band_pair
  | ActWriteTenant string "(band_pair \<times> band_pair) option" cal_expected "cal_event list"
  | ActClearAgent string string agent_expected cal_event
  | ActMoveAgent string string "band_pair \<times> band_pair" agent_expected tenant_pin "cal_event list"

definition revert_event :: "band_pair \<Rightarrow> settings_value \<Rightarrow> cal_event" where
  "revert_event instance observed =
     (let row = rs_pair observed;
          oldHigh = (case cal_high row of None \<Rightarrow> bp_high instance | Some h \<Rightarrow> h);
          oldLow = (case cal_low row of None \<Rightarrow> bp_low instance | Some l \<Rightarrow> l)
      in \<lparr>ce_trigger = RevertTrigger, ce_old = \<lparr>bp_high = oldHigh, bp_low = oldLow\<rparr>, ce_new = instance, ce_anchor = instance,
          ce_window = None, ce_edge = None, ce_samples = None, ce_failures = None,
          ce_reason = ''revert; '' @ number_text oldHigh @ ''/'' @ number_text oldLow @ ''->instance''\<rparr>)"

definition act_db :: "cal_act \<Rightarrow> cal_db \<Rightarrow> cal_db" where
  "act_db act d =
     (case act of
        ActElapse n \<Rightarrow> d\<lparr>db_now := db_now d + int n\<rparr>
      | ActLog rows \<Rightarrow> d\<lparr>db_logs := db_logs d @ rows\<rparr>
      | ActAgent i owner name \<Rightarrow>
          if list_ex (\<lambda>a. ag_id a = i) (db_agents d) \<or> list_ex (\<lambda>e. er_agent e = Some i) (db_events d) then d
          else d\<lparr>db_agents := db_agents d @ [\<lparr>ag_id = i, ag_owner = owner, ag_name = name, ag_pair = no_pair, ag_epoch = 0\<rparr>]\<rparr>
      | ActDropAgent owner i \<Rightarrow> d\<lparr>db_agents := filter (\<lambda>a. \<not> (ag_id a = i \<and> ag_owner a = owner)) (db_agents d)\<rparr>
      | ActUpsert owner u \<Rightarrow> snd (settings_upsert_tx owner u d)
      | ActRevert owner instance \<Rightarrow> snd (settings_clearCalibrated owner (revert_event instance) d)
      | ActWriteTenant owner quad xp evs \<Rightarrow> snd (settings_setCalibrated owner quad xp evs d)
      | ActClearAgent owner i xp e \<Rightarrow> snd (agent_setCalibrated owner i None xp None [e] d)
      | ActMoveAgent owner i quad xp pin evs \<Rightarrow> snd (agent_setCalibrated owner i (Some quad) xp (Some pin) evs d))"

record cal_turn =
  tn_others :: "cal_act list"
  tn_fate :: fate

record cal_world =
  cw_db :: cal_db
  cw_script :: "cal_turn list"

definition db_call :: "'a tx \<Rightarrow> cal_world \<Rightarrow> (unit + 'a) \<times> cal_world" where
  "db_call tx w =
     (case cw_script w of
        [] \<Rightarrow> (case tx (cw_db w) of (r, d) \<Rightarrow> (r, w\<lparr>cw_db := d\<rparr>))
      | turn # rest \<Rightarrow>
          (let d0 = foldl (\<lambda>d act. act_db act d) (cw_db w) (tn_others turn) in
           case tn_fate turn of
             Answered \<Rightarrow> (case tx d0 of (r, d) \<Rightarrow> (r, w\<lparr>cw_db := d, cw_script := rest\<rparr>))
           | NeverArrived \<Rightarrow> (Inl (), w\<lparr>cw_db := d0, cw_script := rest\<rparr>)
           | AnswerLost \<Rightarrow> (Inl (), w\<lparr>cw_db := snd (tx d0), cw_script := rest\<rparr>)))"

definition db_read :: "(cal_db \<Rightarrow> 'a) \<Rightarrow> cal_world \<Rightarrow> (unit + 'a) \<times> cal_world" where
  "db_read f = db_call (\<lambda>d. (Inr (f d), d))"

section \<open>One tenant\<close>

datatype move_result = Moved | Skipped | Noop

definition option_or :: "'a option \<Rightarrow> 'a \<Rightarrow> 'a" where
  "option_or x y = (case x of None \<Rightarrow> y | Some v \<Rightarrow> v)"

definition tenant_anchor :: "band_pair \<Rightarrow> pair_row \<Rightarrow> band_pair" where
  "tenant_anchor base row =
     \<lparr>bp_high = option_or (cal_anchorHigh row) (bp_high base), bp_low = option_or (cal_anchorLow row) (bp_low base)\<rparr>"

definition window_of :: "calibration_config \<Rightarrow> int \<Rightarrow> int \<times> int" where
  "window_of cfg now = (now - cb_windowDays cfg * DAY_MILLIS, now)"

definition calibrateTenant ::
  "band_pair \<Rightarrow> calibration_config \<Rightarrow> calibration_rails \<Rightarrow> int \<Rightarrow> string \<times> settings_value \<Rightarrow> cal_world
     \<Rightarrow> (unit + move_result) \<times> cal_world" where
  "calibrateTenant structural cfg rails now t w =
     (let owner = fst t; v = snd t; eff = effectiveThresholds structural (Some (rs_pair v)) rails in
      if cal_high (rs_pair v) \<noteq> None \<and> pairIsStale structural (rs_pair v) rails then (Inr Noop, w)
      else if calibrationHalted structural eff rails then (Inr Skipped, w)
      else case db_read (events_list owner 60 None) w of
        (Inl e, w1) \<Rightarrow> (Inl e, w1)
      | (Inr recent, w1) \<Rightarrow>
          (case db_read (calibrationStats owner (window_of cfg now) eff (rs_epoch v) TenantEvidence) w1 of
             (Inl e, w2) \<Rightarrow> (Inl e, w2)
           | (Inr stats, w2) \<Rightarrow>
               (case decideMove \<lparr>mi_base = structural, mi_eff = eff, mi_anchor = tenant_anchor structural (rs_pair v),
                  mi_stats = stats, mi_inCooldown = cooldownFor recent None now, mi_cfg = cfg, mi_rails = rails,
                  mi_now = now, mi_globalBound = None\<rparr> of
                  None \<Rightarrow> (Inr Noop, w2)
                | Some (goal, evs) \<Rightarrow>
                    (case db_call (settings_setCalibrated owner (Some (goal, structural))
                       \<lparr>xp_enabled = Some True, xp_pair = rs_pair v, xp_epoch = rs_epoch v, xp_membership = None\<rparr> evs) w2 of
                       (Inl e, w3) \<Rightarrow> (Inl e, w3)
                     | (Inr ok, w3) \<Rightarrow> (Inr (if ok then Moved else Skipped), w3)))))"

section \<open>The agents of a tenant\<close>

definition safeSettings :: "string \<Rightarrow> cal_world \<Rightarrow> settings_value option \<times> cal_world" where
  "safeSettings owner w =
     (case db_read (settings_get owner) w of (Inl _, w1) \<Rightarrow> (None, w1) | (Inr v, w1) \<Rightarrow> (v, w1))"

text \<open>The body of the loop over the agents; the left side is a thrown error, which the loop counts as
  a skip, and \<open>Noop\<close> a \<open>continue\<close> without counting.\<close>

definition calibrateAgent ::
  "band_pair \<Rightarrow> calibration_config \<Rightarrow> calibration_rails \<Rightarrow> int \<Rightarrow> string \<Rightarrow> settings_value \<Rightarrow> band_pair \<Rightarrow> event_row list
     \<Rightarrow> agent_row \<Rightarrow> cal_world \<Rightarrow> (unit + move_result) \<times> cal_world" where
  "calibrateAgent structural cfg rails now owner parentValue parent recent a w =
     (let promoted = (cal_high (ag_pair a) \<noteq> None);
          own = effectiveThresholds parent (Some (ag_pair a)) rails in
      if promoted \<and> bp_high own = bp_high parent \<and> bp_low own = bp_low parent then (Inr Noop, w)
      else if calibrationHalted parent own rails then (Inr Skipped, w)
      else case db_read (calibrationStats owner (window_of cfg now) own
             (if promoted then ag_epoch a else rs_epoch parentValue)
             (if promoted then AgentEvidence (ag_id a) else AgentBootstrap (ag_id a))) w of
        (Inl e, w1) \<Rightarrow> (Inl e, w1)
      | (Inr stats, w1) \<Rightarrow>
          (case decideMove \<lparr>mi_base = parent, mi_eff = own, mi_anchor = tenant_anchor parent (ag_pair a),
             mi_stats = stats, mi_inCooldown = cooldownFor recent (Some (ag_id a)) now, mi_cfg = cfg, mi_rails = rails,
             mi_now = now, mi_globalBound = Some structural\<rparr> of
             None \<Rightarrow> (Inr Noop, w1)
           | Some (goal, evs) \<Rightarrow>
               (case db_call (agent_setCalibrated owner (ag_id a) (Some (goal, parent))
                  \<lparr>ax_pair = ag_pair a, ax_epoch = ag_epoch a\<rparr>
                  (Some \<lparr>tp_high = cal_high (rs_pair parentValue), tp_low = cal_low (rs_pair parentValue),
                         tp_epoch = rs_epoch parentValue, tp_membership = rs_membership parentValue\<rparr>) evs) w1 of
                  (Inl e, w2) \<Rightarrow> (Inl e, w2)
                | (Inr ok, w2) \<Rightarrow> (Inr (if ok then Moved else Skipped), w2))))"

definition tally_agent :: "unit + move_result \<Rightarrow> nat \<times> nat \<Rightarrow> nat \<times> nat" where
  "tally_agent r c =
     (case r of
        Inl _ \<Rightarrow> (fst c, snd c + 1)
      | Inr Moved \<Rightarrow> (fst c + 1, snd c)
      | Inr Skipped \<Rightarrow> (fst c, snd c + 1)
      | Inr Noop \<Rightarrow> c)"

primrec agents_loop ::
  "(agent_row \<Rightarrow> cal_world \<Rightarrow> (unit + move_result) \<times> cal_world) \<Rightarrow> agent_row list \<Rightarrow> nat \<times> nat \<Rightarrow> cal_world
     \<Rightarrow> (nat \<times> nat) \<times> cal_world" where
  "agents_loop step [] c w = (c, w)"
| "agents_loop step (a # as) c w = (case step a w of (r, w1) \<Rightarrow> agents_loop step as (tally_agent r c) w1)"

definition calibrateAgents ::
  "band_pair \<Rightarrow> calibration_config \<Rightarrow> calibration_rails \<Rightarrow> int \<Rightarrow> string \<times> settings_value \<Rightarrow> cal_world
     \<Rightarrow> (nat \<times> nat) \<times> cal_world" where
  "calibrateAgents structural cfg rails now t w =
     (let owner = fst t in
      case safeSettings owner w of
        (current, w1) \<Rightarrow>
          (let parentValue = option_or current (snd t);
               parent = effectiveThresholds structural (Some (rs_pair parentValue)) rails in
           if calibrationHalted structural parent rails then ((0, 0), w1)
           else case db_read (listForCalibration owner) w1 of
             (Inl _, w2) \<Rightarrow> ((0, 0), w2)
           | (Inr [], w2) \<Rightarrow> ((0, 0), w2)
           | (Inr agents, w2) \<Rightarrow>
               (case db_read (events_list owner 200 None) w2 of
                  (Inl _, w3) \<Rightarrow> ((0, 0), w3)
                | (Inr recent, w3) \<Rightarrow>
                    agents_loop (calibrateAgent structural cfg rails now owner parentValue parent recent) agents (0, 0) w3)))"

section \<open>Hygiene\<close>

definition rebase_event :: "pair_row \<Rightarrow> band_pair \<Rightarrow> string \<Rightarrow> cal_event" where
  "rebase_event row base reason =
     \<lparr>ce_trigger = RebaseTrigger,
      ce_old = \<lparr>bp_high = option_or (cal_high row) (bp_high base), bp_low = option_or (cal_low row) (bp_low base)\<rparr>,
      ce_new = base, ce_anchor = base, ce_window = None, ce_edge = None, ce_samples = None, ce_failures = None,
      ce_reason = reason\<rparr>"

definition old_anchor_text :: "pair_row \<Rightarrow> string" where
  "old_anchor_text row = fmt (option_or (cal_anchorHigh row) (- 1)) @ ''/'' @ fmt (option_or (cal_anchorLow row) (- 1))"

definition rebaseTenant ::
  "band_pair \<Rightarrow> calibration_rails \<Rightarrow> string \<times> settings_value \<Rightarrow> cal_world \<Rightarrow> (unit + bool) \<times> cal_world" where
  "rebaseTenant structural rails t w =
     (let v = snd t in
      if \<not> pairIsStale structural (rs_pair v) rails then (Inr False, w)
      else db_call (settings_setCalibrated (fst t) None
             \<lparr>xp_enabled = None, xp_pair = rs_pair v, xp_epoch = rs_epoch v, xp_membership = None\<rparr>
             [rebase_event (rs_pair v) structural
               (''rebase; oldAnchor='' @ old_anchor_text (rs_pair v) @ ''; instance='' @ fmt (bp_high structural) @ ''/''
                 @ fmt (bp_low structural))]) w)"

primrec rebase_loop ::
  "(string \<times> settings_value \<Rightarrow> cal_world \<Rightarrow> (unit + bool) \<times> cal_world) \<Rightarrow> (string \<times> settings_value) list
     \<Rightarrow> nat \<times> nat \<Rightarrow> cal_world \<Rightarrow> (nat \<times> nat) \<times> cal_world" where
  "rebase_loop step [] c w = (c, w)"
| "rebase_loop step (t # ts) c w =
     (case step t w of
        (Inl _, w1) \<Rightarrow> rebase_loop step ts (fst c, snd c + 1) w1
      | (Inr ok, w1) \<Rightarrow> rebase_loop step ts (if ok then fst c + 1 else fst c, snd c) w1)"

definition starved ::
  "calibration_config \<Rightarrow> int \<Rightarrow> band_pair \<Rightarrow> agent_row \<Rightarrow> cal_world \<Rightarrow> (unit + bool) \<times> cal_world" where
  "starved cfg now used a w =
     (case db_read (calibrationStats (ag_owner a) (window_of cfg now) used (ag_epoch a) (AgentEvidence (ag_id a))) w of
        (Inl e, w1) \<Rightarrow> (Inl e, w1)
      | (Inr stats, w1) \<Rightarrow>
          if es_samples (cs_highEdge stats) + es_samples (cs_lowEdge stats) \<noteq> 0 then (Inr False, w1)
          else (case db_read (activity_rows (ag_owner a) (ag_id a) (window_of cfg now)) w1 of
                  (Inl e, w2) \<Rightarrow> (Inl e, w2)
                | (Inr rows, w2) \<Rightarrow> (Inr (rows > 0), w2)))"

definition clearAgent :: "band_pair \<Rightarrow> agent_row \<Rightarrow> string \<Rightarrow> cal_world \<Rightarrow> (unit + bool) \<times> cal_world" where
  "clearAgent parent a reason w =
     db_call (agent_setCalibrated (ag_owner a) (ag_id a) None \<lparr>ax_pair = ag_pair a, ax_epoch = ag_epoch a\<rparr> None
       [rebase_event (ag_pair a) parent
         (''agent '' @ reason @ ''; oldAnchor='' @ old_anchor_text (ag_pair a) @ ''; parent='' @ fmt (bp_high parent) @ ''/''
           @ fmt (bp_low parent))]) w"

definition hygieneAgent ::
  "band_pair \<Rightarrow> calibration_config \<Rightarrow> calibration_rails \<Rightarrow> int \<Rightarrow> settings_value option \<Rightarrow> agent_row \<Rightarrow> cal_world
     \<Rightarrow> (unit + bool) \<times> cal_world" where
  "hygieneAgent structural cfg rails now parentValue a w =
     (let parent = (case parentValue of None \<Rightarrow> structural | Some v \<Rightarrow> effectiveThresholds structural (Some (rs_pair v)) rails);
          used = effectiveThresholds parent (Some (ag_pair a)) rails in
      if bp_high used = bp_high parent \<and> bp_low used = bp_low parent then clearAgent parent a ''stale'' w
      else if \<not> (case parentValue of None \<Rightarrow> False | Some v \<Rightarrow> rs_cascadeEnabled v) then (Inr False, w)
      else case starved cfg now used a w of
        (Inl e, w1) \<Rightarrow> (Inl e, w1)
      | (Inr b, w1) \<Rightarrow> if b then clearAgent parent a ''starved'' w1 else (Inr False, w1))"

text \<open>The parents are read once per owner.\<close>

primrec hygiene_loop ::
  "(settings_value option \<Rightarrow> agent_row \<Rightarrow> cal_world \<Rightarrow> (unit + bool) \<times> cal_world) \<Rightarrow> agent_row list
     \<Rightarrow> (string \<times> settings_value option) list \<Rightarrow> nat \<Rightarrow> cal_world \<Rightarrow> nat \<times> cal_world" where
  "hygiene_loop step [] parents cleared w = (cleared, w)"
| "hygiene_loop step (a # as) parents cleared w =
     (case (case map_of parents (ag_owner a) of
              Some v \<Rightarrow> ((v, w), parents)
            | None \<Rightarrow> (case safeSettings (ag_owner a) w of (v, w1) \<Rightarrow> ((v, w1), (ag_owner a, v) # parents))) of
        ((v, w1), parents1) \<Rightarrow>
          (case step v a w1 of
             (r, w2) \<Rightarrow> hygiene_loop step as parents1 (if r = Inr True then cleared + 1 else cleared) w2))"

definition hygieneAgents ::
  "band_pair \<Rightarrow> calibration_config \<Rightarrow> calibration_rails \<Rightarrow> int \<Rightarrow> cal_world \<Rightarrow> nat \<times> cal_world" where
  "hygieneAgents structural cfg rails now w =
     (case db_read agents_listWithPair w of
        (Inl _, w1) \<Rightarrow> (0, w1)
      | (Inr agents, w1) \<Rightarrow> hygiene_loop (hygieneAgent structural cfg rails now) agents [] 0 w1)"

section \<open>The sweep\<close>

record occurrence_summary =
  os_tenants :: nat
  os_moves :: nat
  os_rebases :: nat
  os_skips :: nat

definition sweep_tenant ::
  "band_pair \<Rightarrow> calibration_config \<Rightarrow> calibration_rails \<Rightarrow> int \<Rightarrow> string \<times> settings_value
     \<Rightarrow> occurrence_summary \<times> cal_world \<Rightarrow> occurrence_summary \<times> cal_world" where
  "sweep_tenant structural cfg rails now t sw =
     (let s = fst sw in
      case calibrateTenant structural cfg rails now t (snd sw) of
        (Inl _, w1) \<Rightarrow> (s\<lparr>os_skips := os_skips s + 1\<rparr>, w1)
      | (Inr r, w1) \<Rightarrow>
          (let s1 = (case r of Moved \<Rightarrow> s\<lparr>os_moves := os_moves s + 1\<rparr> | Skipped \<Rightarrow> s\<lparr>os_skips := os_skips s + 1\<rparr> | Noop \<Rightarrow> s) in
           case calibrateAgents structural cfg rails now t w1 of
             ((moves, skips), w2) \<Rightarrow> (s1\<lparr>os_moves := os_moves s1 + moves, os_skips := os_skips s1 + skips\<rparr>, w2)))"

definition runCalibrationOccurrence ::
  "band_pair \<Rightarrow> calibration_config \<Rightarrow> calibration_rails \<Rightarrow> int \<Rightarrow> cal_world \<Rightarrow> occurrence_summary \<times> cal_world" where
  "runCalibrationOccurrence structural cfg rails now w =
     (case db_read settings_listWithPair w of
        (r, w1) \<Rightarrow>
          (let stored = (case r of Inl _ \<Rightarrow> [] | Inr ts \<Rightarrow> ts) in
           case rebase_loop (rebaseTenant structural rails) stored (0, 0) w1 of
             ((rebases, skips), w2) \<Rightarrow>
               (case hygieneAgents structural cfg rails now w2 of
                  (cleared, w3) \<Rightarrow>
                    (let s = \<lparr>os_tenants = 0, os_moves = 0, os_rebases = rebases + cleared, os_skips = skips\<rparr> in
                     case db_read listCalibrationEnabled w3 of
                       (Inl _, w4) \<Rightarrow> (s, w4)
                     | (Inr enabled, w4) \<Rightarrow>
                         foldl (\<lambda>sw t. sweep_tenant structural cfg rails now t sw)
                           (s\<lparr>os_tenants := length enabled\<rparr>, w4) enabled))))"

section \<open>The tenant's side\<close>

record auto_layers_dto =
  dto_structural :: bool
  dto_cascade :: bool
  dto_semantic :: "bool option"
  dto_semanticLearning :: "bool option"
  dto_calibration :: "bool option"

definition set_layers :: "string \<Rightarrow> auto_layers_dto \<Rightarrow> cal_world \<Rightarrow> (unit + settings_value) \<times> cal_world" where
  "set_layers owner dto w =
     db_call (settings_upsert_tx owner
       \<lparr>up_structuralEnabled = (dto_structural dto \<or> dto_cascade dto \<or> dto_semantic dto = Some True),
        up_cascadeEnabled = dto_cascade dto, up_semanticEnabled = dto_semantic dto,
        up_learningEnabled = dto_semanticLearning dto, up_calibrationEnabled = dto_calibration dto\<rparr>) w"

definition revert :: "band_pair \<Rightarrow> string \<Rightarrow> cal_world \<Rightarrow> (unit + bool) \<times> cal_world" where
  "revert instance owner w = db_call (settings_clearCalibrated owner (revert_event instance)) w"

definition agent_revert_event :: "band_pair \<Rightarrow> pair_row \<Rightarrow> cal_event" where
  "agent_revert_event parent row =
     \<lparr>ce_trigger = RevertTrigger,
      ce_old = \<lparr>bp_high = option_or (cal_high row) (bp_high parent), bp_low = option_or (cal_low row) (bp_low parent)\<rparr>,
      ce_new = parent, ce_anchor = parent, ce_window = None, ce_edge = None, ce_samples = None, ce_failures = None,
      ce_reason = ''agent revert; '' @ number_text (option_or (cal_high row) 0) @ ''/''
        @ (case cal_low row of None \<Rightarrow> ''null'' | Some l \<Rightarrow> number_text l) @ ''->inherited''\<rparr>"

text \<open>\<open>Inr None\<close>: there was no pair to revert. Each of the three calls can meet interference.\<close>

definition revertAgent ::
  "band_pair \<Rightarrow> calibration_rails \<Rightarrow> string \<Rightarrow> string \<Rightarrow> cal_world \<Rightarrow> (unit + bool option) \<times> cal_world" where
  "revertAgent structural rails owner agentId w =
     (case db_read (listForCalibration owner) w of
        (Inl e, w1) \<Rightarrow> (Inl e, w1)
      | (Inr rows, w1) \<Rightarrow>
          (case find (\<lambda>r. ag_id r = agentId) rows of
             None \<Rightarrow> (Inr None, w1)
           | Some a \<Rightarrow>
               if cal_high (ag_pair a) = None then (Inr None, w1)
               else (case db_read (settings_get owner) w1 of
                       (Inl e, w2) \<Rightarrow> (Inl e, w2)
                     | (Inr pref, w2) \<Rightarrow>
                         (case db_call (agent_setCalibrated owner agentId None
                            \<lparr>ax_pair = ag_pair a, ax_epoch = ag_epoch a\<rparr> None
                            [agent_revert_event (effectiveThresholds structural (map_option rs_pair pref) rails) (ag_pair a)]) w2 of
                            (Inl e, w3) \<Rightarrow> (Inl e, w3)
                          | (Inr ok, w3) \<Rightarrow> (Inr (Some ok), w3)))))"

end
