(* ===== verification/RoutingConfigFacts.thy ===== *)
theory RoutingConfigFacts
  imports RoutingConfig StructuralFacts
begin

text \<open>
  What boot accepts, and which thresholds a request is banded against: the parsed configuration is
  well formed, and the three-level chain always ends inside the envelope of the instance.
\<close>

section \<open>The overrides\<close>

definition weights_ok :: "structural_weights \<Rightarrow> bool" where
  "weights_ok w =
     (0 \<le> w_size w \<and> 0 \<le> w_code w \<and> 0 \<le> w_tools w \<and> 0 \<le> w_schema w \<and> 0 \<le> w_depth w \<and> 0 \<le> w_multimodal w
      \<and> 0 \<le> w_maxTokens w
      \<and> w_size w + w_code w + w_tools w + w_schema w + w_depth w + w_multimodal w + w_maxTokens w = 1)"

lemma default_weights_ok: "weights_ok DEFAULT_STRUCTURAL_WEIGHTS"
  by (simp add: weights_ok_def DEFAULT_STRUCTURAL_WEIGHTS_def)

lemma merge_weights_nonneg:
  "merge_weights obj ks merged = Inr m \<Longrightarrow> (\<And>k. 0 \<le> merged k) \<Longrightarrow> 0 \<le> m k"
proof (induction ks arbitrary: merged)
  case (Cons k' ks)
  show ?case
  proof (cases "obj_prop k' obj")
    case None
    with Cons show ?thesis by simp
  next
    case (Some v)
    with Cons.prems(1) obtain q where q: "v = JNum q" "0 \<le> q" "merge_weights obj ks (merged(k' := q)) = Inr m"
      by (cases v) (auto split: if_splits)
    from Cons.IH [OF q(3)] q(2) Cons.prems(2) show ?thesis by simp
  qed
qed simp

lemma default_weight_nonneg: "0 \<le> weight_at DEFAULT_STRUCTURAL_WEIGHTS k"
  by (simp add: weight_at_def DEFAULT_STRUCTURAL_WEIGHTS_def)

lemma normalized_weights_ok:
  assumes "\<And>k. 0 \<le> m k" "0 < foldl (\<lambda>a k. a + m k) 0 STRUCTURAL_WEIGHT_KEYS"
  shows "weights_ok (weights_from (\<lambda>k. m k / foldl (\<lambda>a k. a + m k) 0 STRUCTURAL_WEIGHT_KEYS))"
proof -
  define s where "s = foldl (\<lambda>a k. a + m k) 0 STRUCTURAL_WEIGHT_KEYS"
  have s: "s = m ''size'' + m ''code'' + m ''tools'' + m ''schema'' + m ''depth'' + m ''multimodal'' + m ''maxTokens''"
    by (simp add: s_def STRUCTURAL_WEIGHT_KEYS_def)
  have "0 < s" using assms(2) by (simp add: s_def)
  then have "m ''size'' / s + m ''code'' / s + m ''tools'' / s + m ''schema'' / s + m ''depth'' / s
      + m ''multimodal'' / s + m ''maxTokens'' / s = 1"
    using s by (simp add: add_divide_distrib [symmetric])
  then show ?thesis
    using assms(1) \<open>0 < s\<close> unfolding s_def [symmetric] by (simp add: weights_ok_def weights_from_def)
qed

lemma parsed_weights_ok:
  assumes "parseStructuralWeights t = Inr (w, R)"
  shows "weights_ok w \<and> 0 \<le> R \<and> R \<le> 1 / 2"
proof (cases "blank t")
  case True
  with assms show ?thesis
    by (simp add: parseStructuralWeights_def default_weights_ok DEFAULT_REASONING_ADJUST_def)
next
  case False
  let ?over = "override_object ''ROUTING_STRUCTURAL_WEIGHTS'' (STRUCTURAL_WEIGHT_KEYS @ [''reasoning'']) (the t)"
  from False assms obtain obj where obj: "?over = Inr obj"
    by (cases ?over) (simp_all add: parseStructuralWeights_def)
  from False obj assms obtain r where r: "parse_reasoning obj = Inr r"
    by (cases "parse_reasoning obj") (simp_all add: parseStructuralWeights_def)
  let ?merge = "merge_weights obj STRUCTURAL_WEIGHT_KEYS (weight_at DEFAULT_STRUCTURAL_WEIGHTS)"
  from False obj r assms obtain m where m: "?merge = Inr m"
    by (cases ?merge) (simp_all add: parseStructuralWeights_def)
  let ?s = "foldl (\<lambda>a k. a + m k) 0 STRUCTURAL_WEIGHT_KEYS"
  from False obj r m assms have pos: "0 < ?s"
    and w: "w = weights_from (\<lambda>k. m k / ?s)" and R: "R = r"
    by (simp_all add: parseStructuralWeights_def Let_def split: if_splits)
  have "0 \<le> m k" for k
    by (rule merge_weights_nonneg [OF m]) (rule default_weight_nonneg)
  with pos have "weights_ok w" unfolding w by (intro normalized_weights_ok)
  moreover from r have "0 \<le> r \<and> r \<le> 1 / 2"
    by (auto simp: parse_reasoning_def DEFAULT_REASONING_ADJUST_def split: option.splits json.splits if_splits)
  ultimately show ?thesis by (simp add: R)
qed

lemma parsed_thresholds_ok:
  assumes "parseWorkloadThresholds t = Inr th"
  shows "0 < wt_codeShare th \<and> wt_codeShare th \<le> 1"
proof (cases "blank t")
  case True
  with assms show ?thesis by (auto simp: parseWorkloadThresholds_def DEFAULT_WORKLOAD_THRESHOLDS_def)
next
  case False
  let ?over = "override_object ''ROUTING_WORKLOAD_THRESHOLDS'' WORKLOAD_THRESHOLD_KEYS (the t)"
  from False assms obtain obj where obj: "?over = Inr obj"
    by (cases ?over) (simp_all add: parseWorkloadThresholds_def)
  from False obj assms obtain share where share: "parse_codeShare obj = Inr share"
    by (cases "parse_codeShare obj") (simp_all add: parseWorkloadThresholds_def)
  with False obj assms have "wt_codeShare th = share"
    by (auto simp: parseWorkloadThresholds_def split: sum.splits)
  with share show ?thesis
    by (auto simp: parse_codeShare_def DEFAULT_WORKLOAD_THRESHOLDS_def split: option.splits json.splits if_splits)
qed

section \<open>The layers\<close>

lemma set_add_simps [simp]: "set (set_add x xs) = insert x (set xs)" "distinct (set_add x xs) = distinct xs"
  by (auto simp: set_add_def)

lemma auto_layers_distinct: "distinct (auto_layers t)"
proof -
  have "distinct acc \<Longrightarrow> distinct (foldl (\<lambda>acc s. set_add s acc) acc xs)" for acc and xs :: "string list"
    by (induction xs arbitrary: acc) auto
  then show ?thesis by (simp add: auto_layers_def)
qed

definition layers_ok :: "string list \<Rightarrow> bool" where
  "layers_ok ls =
     (distinct ls \<and> set ls \<subseteq> set AUTO_LAYER_TOKENS
      \<and> (''cascade'' \<in> set ls \<or> ''semantic'' \<in> set ls \<longrightarrow> ''structural'' \<in> set ls))"

definition routing_config_ok :: "routing_config \<Rightarrow> bool" where
  "routing_config_ok cfg =
     (let s = rc_structural cfg in
      layers_ok (rc_autoLayers cfg) \<and> cd_enabled (rc_cascade cfg) = (''cascade'' \<in> set (rc_autoLayers cfg))
      \<and> 0 \<le> sc_low s \<and> sc_low s < sc_high s \<and> sc_high s \<le> 1 \<and> is4dp (sc_high s) \<and> is4dp (sc_low s)
      \<and> 0 < sc_baselineAlpha s \<and> sc_baselineAlpha s \<le> 1
      \<and> weights_ok (sc_weights s) \<and> 0 \<le> sc_reasoningAdjust s \<and> sc_reasoningAdjust s \<le> 1 / 2
      \<and> 0 < wt_codeShare (wc_thresholds (rc_workload cfg)) \<and> wt_codeShare (wc_thresholds (rc_workload cfg)) \<le> 1)"

lemma sub_scores_unit:
  "0 \<le> w_size (sub_scores f b) \<and> w_size (sub_scores f b) \<le> 1"
  "0 \<le> w_code (sub_scores f b) \<and> w_code (sub_scores f b) \<le> 1"
  "0 \<le> w_tools (sub_scores f b) \<and> w_tools (sub_scores f b) \<le> 1"
  "0 \<le> w_schema (sub_scores f b) \<and> w_schema (sub_scores f b) \<le> 1"
  "0 \<le> w_depth (sub_scores f b) \<and> w_depth (sub_scores f b) \<le> 1"
  "0 \<le> w_multimodal (sub_scores f b) \<and> w_multimodal (sub_scores f b) \<le> 1"
  "0 \<le> w_maxTokens (sub_scores f b) \<and> w_maxTokens (sub_scores f b) \<le> 1"
  by (simp_all add: sub_scores_def sat_unit SIZE_SAT_def CODE_SAT_def TOOLS_SAT_def DEPTH_SAT_def MAXTOK_SAT_def)

lemma ambient_unit:
  assumes "weights_ok w"
  shows "0 \<le> ambient w (sub_scores f b) \<and> ambient w (sub_scores f b) \<le> 1"
proof -
  let ?s = "sub_scores f b"
  have m: "0 \<le> x \<Longrightarrow> 0 \<le> y \<and> y \<le> 1 \<Longrightarrow> 0 \<le> x * y \<and> x * y \<le> (x::rat)" for x y
    by (simp add: mult_left_le)
  have w: "0 \<le> w_size w" "0 \<le> w_code w" "0 \<le> w_tools w" "0 \<le> w_schema w" "0 \<le> w_depth w" "0 \<le> w_multimodal w"
    "0 \<le> w_maxTokens w"
    "w_size w + w_code w + w_tools w + w_schema w + w_depth w + w_multimodal w + w_maxTokens w = 1"
    using assms by (auto simp: weights_ok_def)
  note parts = m [OF w(1) sub_scores_unit(1) [of f b]] m [OF w(2) sub_scores_unit(2) [of f b]]
    m [OF w(3) sub_scores_unit(3) [of f b]] m [OF w(4) sub_scores_unit(4) [of f b]]
    m [OF w(5) sub_scores_unit(5) [of f b]] m [OF w(6) sub_scores_unit(6) [of f b]]
    m [OF w(7) sub_scores_unit(7) [of f b]]
  show ?thesis unfolding ambient_def using parts w(8) by linarith
qed

text \<open>C26 (type). Whatever the two JSON overrides and the layer list hold, boot either rejects them or
  ends with a well-formed configuration: known layers with \<open>structural\<close> under the two layers that
  need it, ordered thresholds in the unit interval with four decimals, non-negative weights with sum
  1, a bounded reasoning magnitude, a code share in \<open>(0, 1]\<close>; and with those weights the ambient
  score of every request is a fraction.\<close>

theorem accepted_config_well_formed:
  assumes "routing_schema env" "buildRoutingConfig sha256hex env = Inr cfg"
  shows "routing_config_ok cfg
    \<and> (\<forall>f b. 0 \<le> ambient (sc_weights (rc_structural cfg)) (sub_scores f b)
            \<and> ambient (sc_weights (rc_structural cfg)) (sub_scores f b) \<le> 1)"
proof -
  let ?ls = "auto_layers (ROUTING_AUTO_LAYERS env)"
  from assms(2) have known: "find (\<lambda>l. l \<notin> set AUTO_LAYER_TOKENS) ?ls = None"
    by (cases "find (\<lambda>l. l \<notin> set AUTO_LAYER_TOKENS) ?ls") (simp_all add: buildRoutingConfig_def Let_def)
  then have sub: "set ?ls \<subseteq> set AUTO_LAYER_TOKENS" by (auto simp: find_None_iff)
  from assms(2) known obtain w R where w: "parseStructuralWeights (ROUTING_STRUCTURAL_WEIGHTS env) = Inr (w, R)"
    by (auto simp: buildRoutingConfig_def Let_def split: if_splits sum.splits)
  from assms(2) known w obtain th where th: "parseWorkloadThresholds (ROUTING_WORKLOAD_THRESHOLDS env) = Inr th"
    by (auto simp: buildRoutingConfig_def Let_def split: if_splits sum.splits)
  define l1 where "l1 = (if ''cascade'' \<in> set ?ls then set_add ''structural'' ?ls else ?ls)"
  define l2 where "l2 = (if ''semantic'' \<in> set l1 then set_add ''structural'' l1 else l1)"
  from assms(2) known w th
  have cfg: "rc_autoLayers cfg = l2" "cd_enabled (rc_cascade cfg) = (''cascade'' \<in> set l2)"
    "rc_structural cfg = \<lparr>sc_high = ROUTING_STRUCTURAL_HIGH_THRESHOLD env, sc_low = ROUTING_STRUCTURAL_LOW_THRESHOLD env,
       sc_baselineAlpha = ROUTING_STRUCTURAL_BASELINE_ALPHA env, sc_weights = w, sc_reasoningAdjust = R\<rparr>"
    "wc_thresholds (rc_workload cfg) = th"
    and ordered: "ROUTING_STRUCTURAL_LOW_THRESHOLD env < ROUTING_STRUCTURAL_HIGH_THRESHOLD env"
    "is4dp (ROUTING_STRUCTURAL_HIGH_THRESHOLD env)" "is4dp (ROUTING_STRUCTURAL_LOW_THRESHOLD env)"
    by (auto simp: buildRoutingConfig_def Let_def l1_def l2_def split: if_splits)
  have "layers_ok l2"
    using sub auto_layers_distinct [of "ROUTING_AUTO_LAYERS env"]
    by (auto simp: layers_ok_def l1_def l2_def AUTO_LAYER_TOKENS_def)
  with cfg ordered assms(1) parsed_weights_ok [OF w] parsed_thresholds_ok [OF th] have "routing_config_ok cfg"
    by (simp add: routing_config_ok_def routing_schema_def Let_def)
  moreover from cfg(3) parsed_weights_ok [OF w] have "weights_ok (sc_weights (rc_structural cfg))" by simp
  ultimately show ?thesis using ambient_unit by blast
qed

definition sample_env :: routing_env where
  "sample_env =
     \<lparr>ROUTING_AUTO_LAYERS = ''Cascade'', ROUTING_STRUCTURAL_HIGH_THRESHOLD = 3 / 5,
      ROUTING_STRUCTURAL_LOW_THRESHOLD = 1 / 4, ROUTING_STRUCTURAL_BASELINE_ALPHA = 1 / 5,
      ROUTING_STRUCTURAL_WEIGHTS = None,
      ROUTING_WORKLOAD_THRESHOLDS = None, ROUTING_CASCADE_QUALITY_THRESHOLD = 1 / 2,
      ROUTING_CASCADE_CHEAP_TIMEOUT_MS = 30000\<rparr>"

lemma sample_env_layers: "auto_layers (ROUTING_AUTO_LAYERS sample_env) = [''cascade'']"
  by (simp add: auto_layers_def sample_env_def) code_simp

theorem accepted_config_well_formed_witness:
  "\<exists>cfg. buildRoutingConfig (\<lambda>_. []) sample_env = Inr cfg \<and> routing_config_ok cfg
     \<and> rc_autoLayers cfg = [''cascade'', ''structural'']"
proof -
  have dp: "is4dp (3 / 5)" "is4dp (1 / 4)" by code_simp+
  obtain cfg where cfg: "buildRoutingConfig (\<lambda>_. []) sample_env = Inr cfg" "rc_autoLayers cfg = [''cascade'', ''structural'']"
    unfolding buildRoutingConfig_def sample_env_layers
    by (simp add: sample_env_def AUTO_LAYER_TOKENS_def set_add_def dp parseStructuralWeights_def
        parseWorkloadThresholds_def blank_def)
  moreover have "routing_schema sample_env" by (simp add: routing_schema_def sample_env_def)
  ultimately show ?thesis using accepted_config_well_formed by blast
qed

section \<open>The chain of thresholds\<close>

lemma applyPair_SomeD:
  assumes "applyPair base pref rails = Some p"
  shows "0 \<le> bp_low p" "bp_low p < bp_high p" "bp_high p \<le> 1" "bp_high p \<le> bp_high base" "bp_low base \<le> bp_low p"
    "r4 (bp_high base - bp_high p) \<le> rl_maxDrift rails" "r4 (bp_low p - bp_low base) \<le> rl_maxDrift rails"
    "gapAdmissible (r4 (bp_high p - bp_low p)) rails"
    "pref = Some \<lparr>cal_high = Some (bp_high p), cal_low = Some (bp_low p),
       cal_anchorHigh = Some (bp_high base), cal_anchorLow = Some (bp_low base)\<rparr>"
proof -
  from assms obtain row where row: "pref = Some row" by (cases pref) (simp_all add: applyPair_def)
  obtain h l ah al where cols: "cal_high row = Some h" "cal_low row = Some l" "cal_anchorHigh row = Some ah"
    "cal_anchorLow row = Some al"
    using assms row by (auto simp: applyPair_def split: option.splits)
  note facts = assms [unfolded row applyPair_def, simplified, unfolded cols, simplified]
  have p: "p = \<lparr>bp_high = h, bp_low = l\<rparr>" "ah = bp_high base" "al = bp_low base"
    and rest: "0 \<le> l" "l < h" "h \<le> 1" "h \<le> ah" "al \<le> l" "r4 (ah - h) \<le> rl_maxDrift rails"
      "r4 (l - al) \<le> rl_maxDrift rails" "gapAdmissible (r4 (h - l)) rails"
    using facts by (auto split: if_splits)
  show "0 \<le> bp_low p" "bp_low p < bp_high p" "bp_high p \<le> 1" "bp_high p \<le> bp_high base" "bp_low base \<le> bp_low p"
    "r4 (bp_high base - bp_high p) \<le> rl_maxDrift rails" "r4 (bp_low p - bp_low base) \<le> rl_maxDrift rails"
    "gapAdmissible (r4 (bp_high p - bp_low p)) rails"
    using rest p by simp_all
  show "pref = Some \<lparr>cal_high = Some (bp_high p), cal_low = Some (bp_low p),
       cal_anchorHigh = Some (bp_high base), cal_anchorLow = Some (bp_low base)\<rparr>"
    unfolding row using cols p by simp
qed

lemma effectiveThresholds_cases:
  obtains (base) "effectiveThresholds base pref rails = base" "applyPair base pref rails = None"
  | (stored) p where "applyPair base pref rails = Some p" "effectiveThresholds base pref rails = p"
  by (cases "applyPair base pref rails") (auto simp: effectiveThresholds_def)

definition within_envelope :: "band_pair \<Rightarrow> calibration_rails \<Rightarrow> band_pair \<Rightarrow> bool" where
  "within_envelope instance rails p =
     (bp_low instance \<le> bp_low p \<and> bp_low p < bp_high p \<and> bp_high p \<le> bp_high instance
      \<and> r4 (bp_high instance - bp_high p) \<le> rl_maxDrift rails \<and> r4 (bp_low p - bp_low instance) \<le> rl_maxDrift rails
      \<and> (p \<noteq> instance \<longrightarrow> gapAdmissible (r4 (bp_high p - bp_low p)) rails))"

lemma r4_zero [simp]: "r4 0 = 0"
  by (simp add: r4_def js_round_def floor_eq_iff)

text \<open>C24 (safety). Whatever rows are stored, stale, partial or poisoned, a request is banded against an
  ordered pair inside the instance thresholds, no further from them than the drift cap although the
  two levels could compound, and wide enough for both edge zones unless it is the instance pair
  itself; and an agent pair that cannot be used falls to what its tenant gets, never past it.\<close>

theorem thresholds_inside_envelope:
  assumes "bp_low inst < bp_high inst" "0 \<le> rl_maxDrift rails"
  shows "within_envelope inst rails (fst (resolveThresholds inst tenantRow agentRow rails))
    \<and> (snd (resolveThresholds inst tenantRow agentRow rails) = AgentPairScope
       \<or> resolveThresholds inst tenantRow agentRow rails = resolveThresholds inst tenantRow None rails)
    \<and> (snd (resolveThresholds inst tenantRow None rails) = TenantScope
       \<longleftrightarrow> applyPair inst tenantRow rails \<noteq> None)
    \<and> fst (resolveThresholds inst tenantRow None rails) = effectiveThresholds inst tenantRow rails"
proof -
  let ?tenant = "effectiveThresholds inst tenantRow rails"
  have tenant: "within_envelope inst rails ?tenant"
    by (cases inst tenantRow rails rule: effectiveThresholds_cases)
      (use assms in \<open>auto simp: within_envelope_def dest: applyPair_SomeD\<close>)
  have none: "fst (resolveThresholds inst tenantRow None rails) = ?tenant"
    "snd (resolveThresholds inst tenantRow None rails) = (if applyPair inst tenantRow rails = None then InstanceScope else TenantScope)"
    by (auto simp: resolveThresholds_def Let_def effectiveThresholds_def applyPair_def [of _ None] split: option.splits)
  show ?thesis
  proof (cases "snd (resolveThresholds inst tenantRow agentRow rails) = AgentPairScope")
    case False
    then have "resolveThresholds inst tenantRow agentRow rails = resolveThresholds inst tenantRow None rails"
      by (auto simp: resolveThresholds_def Let_def applyPair_def [of _ None] split: option.splits if_splits)
    with tenant none show ?thesis by simp
  next
    case True
    then obtain a where a: "applyPair ?tenant agentRow rails = Some a"
      "r4 (bp_high inst - bp_high a) \<le> rl_maxDrift rails" "r4 (bp_low a - bp_low inst) \<le> rl_maxDrift rails"
      "fst (resolveThresholds inst tenantRow agentRow rails) = a"
      by (auto simp: resolveThresholds_def Let_def effectiveThresholds_def split: option.splits if_splits)
    from tenant applyPair_SomeD [OF a(1)] a(2,3) have "within_envelope inst rails a"
      by (auto simp: within_envelope_def)
    with True none a(4) show ?thesis by auto
  qed
qed

definition sample_instance :: band_pair where
  "sample_instance = \<lparr>bp_high = 3 / 5, bp_low = 1 / 4\<rparr>"

definition sample_rails :: calibration_rails where
  "sample_rails = \<lparr>rl_maxDrift = 1 / 10, rl_minGap = MIN_GAP\<rparr>"

definition quad_row :: "rat \<Rightarrow> rat \<Rightarrow> rat \<Rightarrow> rat \<Rightarrow> pair_row" where
  "quad_row h l ah al = \<lparr>cal_high = Some h, cal_low = Some l, cal_anchorHigh = Some ah, cal_anchorLow = Some al\<rparr>"

text \<open>A tenant at the drift cap and an agent a step further: the agent's pair is refused.\<close>

theorem thresholds_inside_envelope_witness:
  "within_envelope sample_instance sample_rails (fst (resolveThresholds sample_instance
      (Some (quad_row (1 / 2) (1 / 4) (3 / 5) (1 / 4))) (Some (quad_row (12 / 25) (1 / 4) (1 / 2) (1 / 4))) sample_rails))
   \<and> resolveThresholds sample_instance
      (Some (quad_row (1 / 2) (1 / 4) (3 / 5) (1 / 4))) (Some (quad_row (12 / 25) (1 / 4) (1 / 2) (1 / 4))) sample_rails
     = (\<lparr>bp_high = 1 / 2, bp_low = 1 / 4\<rparr>, TenantScope)"
proof -
  have "resolveThresholds sample_instance
      (Some (quad_row (1 / 2) (1 / 4) (3 / 5) (1 / 4))) (Some (quad_row (12 / 25) (1 / 4) (1 / 2) (1 / 4))) sample_rails
     = (\<lparr>bp_high = 1 / 2, bp_low = 1 / 4\<rparr>, TenantScope)"
    by code_simp
  moreover have "bp_low sample_instance < bp_high sample_instance" "0 \<le> rl_maxDrift sample_rails"
    by (simp_all add: sample_instance_def sample_rails_def)
  ultimately show ?thesis using thresholds_inside_envelope by blast
qed

end
