(* ===== verification/CalibrationFacts.thy ===== *)
theory CalibrationFacts
  imports CalibrationRun RoutingConfigFacts
begin

text \<open>
  Calibration: a decided move takes effect on the next read and carries its evidence; the audit trail
  explains every stored pair under every interleaving of the sweep with its users; a move that lands
  saw the latest threshold event of its tenant.
\<close>

section \<open>Sane inputs\<close>

definition sane_base :: "band_pair \<Rightarrow> bool" where
  "sane_base b = (0 \<le> bp_low b \<and> bp_low b < bp_high b \<and> bp_high b \<le> 1 \<and> is4dp (bp_high b) \<and> is4dp (bp_low b))"

definition sane_cfg :: "calibration_config \<Rightarrow> bool" where
  "sane_cfg cfg =
     (0 < cb_step cfg \<and> cb_step cfg \<le> cb_maxDrift cfg \<and> is4dp (cb_step cfg) \<and> is4dp (cb_maxDrift cfg)
      \<and> 50 \<le> cb_minEdgeSamples cfg)"

definition row_4dp :: "pair_row \<Rightarrow> bool" where
  "row_4dp row =
     ((case cal_high row of None \<Rightarrow> True | Some h \<Rightarrow> is4dp h) \<and> (case cal_low row of None \<Rightarrow> True | Some l \<Rightarrow> is4dp l))"

lemma built_cfg_sane:
  assumes "calibration_schema env" "buildCalibrationConfig env = Inr cfg"
  shows "sane_cfg cfg"
  using assms
  by (auto simp: buildCalibrationConfig_def calibration_schema_def sane_cfg_def Let_def MIN_EDGE_SAMPLES_FLOOR_def
      split: if_splits)

lemma accepted_config_sane:
  assumes "routing_config_ok cfg"
  shows "sane_base \<lparr>bp_high = sc_high (rc_structural cfg), bp_low = sc_low (rc_structural cfg)\<rparr>"
  using assms by (simp add: routing_config_ok_def sane_base_def Let_def)

lemma effective_sane:
  assumes "sane_base base" "row_4dp row"
  shows "sane_base (effectiveThresholds base (Some row) rails)"
proof (cases base "Some row" rails rule: effectiveThresholds_cases)
  case base
  with assms show ?thesis by simp
next
  case (stored p)
  from applyPair_SomeD [OF stored(1)] assms stored(2) show ?thesis
    by (simp add: sane_base_def row_4dp_def)
qed

section \<open>The decision\<close>

lemma high_candidateD:
  assumes "c \<in> set (high_candidate p)"
  shows "ed_edge c = HighEdge" "ed_samples c = es_samples (cs_highEdge (mi_stats p))"
    "ed_failures c = es_failures (cs_highEdge (mi_stats p))"
    "cb_minEdgeSamples (mi_cfg p) \<le> ed_samples c" "RATE_HIGH \<le> of_int (ed_failures c) / of_int (ed_samples c)"
    "r4 (bp_high (mi_anchor p) - cb_maxDrift (mi_cfg p)) \<le> r4 (bp_high (mi_eff p) - cb_step (mi_cfg p))"
    "r4 (bp_high (mi_eff p) - cb_step (mi_cfg p)) < bp_high (mi_eff p)" "\<not> mi_inCooldown p HighEdge"
  using assms by (auto simp: high_candidate_def edge_decision_of_def edge_rate_def Let_def split: if_splits)

lemma low_candidateD:
  assumes "c \<in> set (low_candidate p)"
  shows "ed_edge c = LowEdge" "ed_samples c = es_samples (cs_lowEdge (mi_stats p))"
    "ed_failures c = es_failures (cs_lowEdge (mi_stats p))"
    "cb_minEdgeSamples (mi_cfg p) \<le> ed_samples c" "of_int (ed_failures c) / of_int (ed_samples c) \<le> RATE_LOW"
    "r4 (bp_low (mi_eff p) + cb_step (mi_cfg p)) \<le> r4 (bp_low (mi_anchor p) + cb_maxDrift (mi_cfg p))"
    "bp_low (mi_eff p) < r4 (bp_low (mi_eff p) + cb_step (mi_cfg p))" "\<not> mi_inCooldown p LowEdge"
  using assms by (auto simp: low_candidate_def edge_decision_of_def edge_rate_def Let_def split: if_splits)

lemma candidates_short: "length (high_candidate p) \<le> 1" "length (low_candidate p) \<le> 1"
  by (auto simp: high_candidate_def low_candidate_def Let_def)

text \<open>What the arbitration can leave: one of the edges, or both in order.\<close>

lemma applied_edges_cases:
  assumes "high_candidate p @ low_candidate p \<noteq> []"
  obtains (high) h where "applied_edges p = [h]" "h \<in> set (high_candidate p)"
  | (low) l where "applied_edges p = [l]" "l \<in> set (low_candidate p)"
  | (both) h l where "applied_edges p = [h, l]" "h \<in> set (high_candidate p)" "l \<in> set (low_candidate p)"
proof -
  let ?c = "high_candidate p @ low_candidate p"
  consider (H) h where "high_candidate p = [h]" "low_candidate p = []"
    | (L) l where "high_candidate p = []" "low_candidate p = [l]"
    | (B) h l where "high_candidate p = [h]" "low_candidate p = [l]"
    using assms candidates_short [of p]
    by (cases "high_candidate p"; cases "low_candidate p") auto
  then show thesis
  proof cases
    case H
    then have "applied_edges p = [h]" by (simp add: applied_edges_def)
    with H show thesis by (intro high) simp_all
  next
    case L
    then have "applied_edges p = [l]" by (simp add: applied_edges_def)
    with L show thesis by (intro low) simp_all
  next
    case B
    have "hd (js_sort by_strength [h, l]) \<in> set [h, l]"
      using set_js_sort [of by_strength "[h, l]"] by (metis hd_in_set js_sort_eq_Nil_iff list.distinct(1))
    then have "applied_edges p = [h, l] \<or> applied_edges p = [h] \<or> applied_edges p = [l]"
      using B by (auto simp: applied_edges_def Let_def simp del: js_sort_Cons)
    with B show thesis by (auto intro: high low both)
  qed
qed

primrec linked :: "band_pair \<Rightarrow> cal_event list \<Rightarrow> band_pair \<Rightarrow> bool" where
  "linked a [] b = (a = b)"
| "linked a (e # es) b = (ce_old e = a \<and> linked (ce_new e) es b)"

text \<open>What an event of the calibrator shows for itself.\<close>

definition evidenced :: "move_inputs \<Rightarrow> cal_event \<Rightarrow> bool" where
  "evidenced p e =
     (ce_trigger e = CalibratorTrigger \<and> ce_anchor e = mi_base p
      \<and> (\<exists>edge n f. ce_edge e = Some edge \<and> ce_samples e = Some n \<and> ce_failures e = Some f
           \<and> cb_minEdgeSamples (mi_cfg p) \<le> n \<and> \<not> mi_inCooldown p edge
           \<and> (case edge of
                HighEdge \<Rightarrow> RATE_HIGH \<le> of_int f / of_int n \<and> bp_low (ce_new e) = bp_low (ce_old e)
                  \<and> bp_high (ce_new e) = bp_high (ce_old e) - cb_step (mi_cfg p)
              | LowEdge \<Rightarrow> of_int f / of_int n \<le> RATE_LOW \<and> bp_high (ce_new e) = bp_high (ce_old e)
                  \<and> bp_low (ce_new e) = bp_low (ce_old e) + cb_step (mi_cfg p))))"

lemma move_shape:
  assumes "decideMove p = Some (goal, evs)"
    and dp: "is4dp (bp_high (mi_eff p))" "is4dp (bp_low (mi_eff p))" "is4dp (cb_step (mi_cfg p))"
  shows "goal = finalPair (mi_eff p) (cb_step (mi_cfg p)) (applied_edges p)"
    "gapAdmissible (gapOf goal) (mi_rails p)" "\<not> over_global_bound p goal"
    "linked (mi_eff p) evs goal" "evs \<noteq> []" "\<forall>e \<in> set evs. evidenced p e"
proof -
  have some: "high_candidate p @ low_candidate p \<noteq> []"
    and goal: "goal = finalPair (mi_eff p) (cb_step (mi_cfg p)) (applied_edges p)"
    and evs: "evs = move_events p (mi_eff p) (js_sort high_first (applied_edges p))"
    using assms(1) by (auto simp: decideMove_def Let_def split: if_splits)
  show "goal = finalPair (mi_eff p) (cb_step (mi_cfg p)) (applied_edges p)" by (rule goal)
  show "gapAdmissible (gapOf goal) (mi_rails p)" "\<not> over_global_bound p goal"
    using assms(1) goal by (auto simp: decideMove_def Let_def split: if_splits)
  have sub: "r4 (bp_high (mi_eff p) - cb_step (mi_cfg p)) = bp_high (mi_eff p) - cb_step (mi_cfg p)"
    and add: "r4 (bp_low (mi_eff p) + cb_step (mi_cfg p)) = bp_low (mi_eff p) + cb_step (mi_cfg p)"
    using dp by (simp_all add: r4_id is4dp_add is4dp_diff)
  note same = r4_id [OF dp(1)] r4_id [OF dp(2)]
  from some show "linked (mi_eff p) evs goal"
  proof (cases rule: applied_edges_cases)
    case (high h)
    with high_candidateD(1) [OF high(2)] show ?thesis
      by (simp add: goal evs finalPair_def event_of_move_def Let_def same)
  next
    case (low l)
    with low_candidateD(1) [OF low(2)] show ?thesis
      by (simp add: goal evs finalPair_def event_of_move_def Let_def same)
  next
    case (both h l)
    with high_candidateD(1) [OF both(2)] low_candidateD(1) [OF both(3)] show ?thesis
      by (simp add: goal evs finalPair_def event_of_move_def Let_def same high_first_def)
  qed
  from some show "evs \<noteq> []"
    by (cases rule: applied_edges_cases) (simp_all add: evs Let_def high_first_def)
  from some show "\<forall>e \<in> set evs. evidenced p e"
  proof (cases rule: applied_edges_cases)
    case (high h)
    from high_candidateD [OF high(2)] high(1) show ?thesis
      by (auto simp: evs event_of_move_def Let_def evidenced_def sub)
  next
    case (low l)
    from low_candidateD [OF low(2)] low(1) show ?thesis
      by (auto simp: evs event_of_move_def Let_def evidenced_def add)
  next
    case (both h l)
    from high_candidateD [OF both(2)] low_candidateD [OF both(3)] both(1) show ?thesis
      by (auto simp: evs event_of_move_def Let_def evidenced_def sub add high_first_def)
  qed
qed


text \<open>The inputs of both scopes: the tenant's against the instance, the agent's against its tenant.\<close>

definition scope_inputs ::
  "band_pair \<Rightarrow> pair_row \<Rightarrow> calibration_stats \<Rightarrow> (cal_edge \<Rightarrow> bool) \<Rightarrow> calibration_config \<Rightarrow> int \<Rightarrow> band_pair option \<Rightarrow> move_inputs" where
  "scope_inputs base row stats cool cfg now bound =
     \<lparr>mi_base = base, mi_eff = effectiveThresholds base (Some row) (railsOf cfg), mi_anchor = tenant_anchor base row,
      mi_stats = stats, mi_inCooldown = cool, mi_cfg = cfg, mi_rails = railsOf cfg, mi_now = now, mi_globalBound = bound\<rparr>"

lemma goal_edges:
  fixes p
  defines "step \<equiv> cb_step (mi_cfg p)"
  assumes "high_candidate p @ low_candidate p \<noteq> []" and "goal = finalPair (mi_eff p) step (applied_edges p)"
    and dp: "is4dp (bp_high (mi_eff p))" "is4dp (bp_low (mi_eff p))" "is4dp step"
  shows "bp_high goal = bp_high (mi_eff p)
      \<or> (bp_high goal = bp_high (mi_eff p) - step \<and> r4 (bp_high (mi_anchor p) - cb_maxDrift (mi_cfg p)) \<le> bp_high goal)"
    and "bp_low goal = bp_low (mi_eff p)
      \<or> (bp_low goal = bp_low (mi_eff p) + step \<and> bp_low goal \<le> r4 (bp_low (mi_anchor p) + cb_maxDrift (mi_cfg p)))"
proof -
  have sub: "r4 (bp_high (mi_eff p) - step) = bp_high (mi_eff p) - step" "r4 (bp_low (mi_eff p) + step) = bp_low (mi_eff p) + step"
    using dp by (simp_all add: r4_id is4dp_add is4dp_diff)
  note same = r4_id [OF dp(1)] r4_id [OF dp(2)]
  note H = high_candidateD(1,6) [where p = p] and L = low_candidateD(1,6) [where p = p]
  from assms(2)
  have "(bp_high goal = bp_high (mi_eff p)
      \<or> (bp_high goal = bp_high (mi_eff p) - step \<and> r4 (bp_high (mi_anchor p) - cb_maxDrift (mi_cfg p)) \<le> bp_high goal))
    \<and> (bp_low goal = bp_low (mi_eff p)
      \<or> (bp_low goal = bp_low (mi_eff p) + step \<and> bp_low goal \<le> r4 (bp_low (mi_anchor p) + cb_maxDrift (mi_cfg p))))"
  proof (cases rule: applied_edges_cases)
    case (high h)
    with H [of h] show ?thesis by (simp add: assms(3) finalPair_def same sub step_def [symmetric])
  next
    case (low l)
    with L [of l] show ?thesis by (simp add: assms(3) finalPair_def same sub step_def [symmetric])
  next
    case (both h l)
    with H [of h] L [of l] show ?thesis by (simp add: assms(3) finalPair_def same sub step_def [symmetric])
  qed
  then show "bp_high goal = bp_high (mi_eff p)
      \<or> (bp_high goal = bp_high (mi_eff p) - step \<and> r4 (bp_high (mi_anchor p) - cb_maxDrift (mi_cfg p)) \<le> bp_high goal)"
    and "bp_low goal = bp_low (mi_eff p)
      \<or> (bp_low goal = bp_low (mi_eff p) + step \<and> bp_low goal \<le> r4 (bp_low (mi_anchor p) + cb_maxDrift (mi_cfg p)))"
    by blast+
qed

text \<open>One edge of the pair stays within the drift cap, whichever of the two sources its value has.\<close>

lemma goal_in_rails:
  assumes base: "sane_base base" and cfg: "sane_cfg cfg" and row: "row_4dp row"
    and eff: "eff = effectiveThresholds base (Some row) (railsOf cfg)"
    and high: "bp_high goal = bp_high eff
      \<or> (bp_high goal = bp_high eff - cb_step cfg \<and> r4 (bp_high (tenant_anchor base row) - cb_maxDrift cfg) \<le> bp_high goal)"
    and low: "bp_low goal = bp_low eff
      \<or> (bp_low goal = bp_low eff + cb_step cfg \<and> bp_low goal \<le> r4 (bp_low (tenant_anchor base row) + cb_maxDrift cfg))"
  shows "bp_high goal \<le> bp_high base" "bp_low base \<le> bp_low goal"
    "bp_high base - bp_high goal \<le> cb_maxDrift cfg" "bp_low goal - bp_low base \<le> cb_maxDrift cfg"
    "is4dp (bp_high goal)" "is4dp (bp_low goal)"
proof -
  have sane: "sane_base eff" unfolding eff using base row by (rule effective_sane)
  have step: "0 < cb_step cfg" "cb_step cfg \<le> cb_maxDrift cfg" "is4dp (cb_step cfg)" "is4dp (cb_maxDrift cfg)"
    using cfg by (auto simp: sane_cfg_def)
  show dp: "is4dp (bp_high goal)" "is4dp (bp_low goal)"
    using high low sane step by (auto simp: sane_base_def is4dp_diff is4dp_add)
  have "bp_high goal \<le> bp_high base \<and> bp_low base \<le> bp_low goal
    \<and> bp_high base - bp_high goal \<le> cb_maxDrift cfg \<and> bp_low goal - bp_low base \<le> cb_maxDrift cfg"
  proof (cases base "Some row" "railsOf cfg" rule: effectiveThresholds_cases)
    case base
    then have "eff = base" by (simp add: eff)
    with high low step show ?thesis by auto
  next
    case (stored q)
    then have q: "eff = q" by (simp add: eff)
    note facts = applyPair_SomeD [OF stored(1)]
    have anchor: "bp_high (tenant_anchor base row) = bp_high base" "bp_low (tenant_anchor base row) = bp_low base"
      using facts(9) by (auto simp: tenant_anchor_def option_or_def)
    have r: "r4 (bp_high base - cb_maxDrift cfg) = bp_high base - cb_maxDrift cfg"
      "r4 (bp_low base + cb_maxDrift cfg) = bp_low base + cb_maxDrift cfg"
      "r4 (bp_high base - bp_high q) = bp_high base - bp_high q" "r4 (bp_low q - bp_low base) = bp_low q - bp_low base"
      using base sane step(4) q by (simp_all add: sane_base_def r4_id is4dp_diff is4dp_add)
    show ?thesis
      using high low facts(4-7) step unfolding q anchor r by (auto simp: railsOf_def)
  qed
  then show "bp_high goal \<le> bp_high base" "bp_low base \<le> bp_low goal"
    "bp_high base - bp_high goal \<le> cb_maxDrift cfg" "bp_low goal - bp_low base \<le> cb_maxDrift cfg"
    by blast+
qed

lemma admissible_gap: "gapAdmissible g rails \<Longrightarrow> is4dp g \<Longrightarrow> 0 < g"
  by (simp add: gapAdmissible_def Let_def r4_id EDGE_WIDTH_def)

lemma decided_move_facts:
  assumes "sane_base base" "sane_cfg cfg" "row_4dp row"
    and "decideMove (scope_inputs base row stats cool cfg now bound) = Some (goal, evs)"
  shows "applyPair base (Some (quad_cols (Some (goal, base)))) (railsOf cfg) = Some goal"
    and "linked (effectiveThresholds base (Some row) (railsOf cfg)) evs goal" and "evs \<noteq> []"
    and "\<forall>e \<in> set evs. evidenced (scope_inputs base row stats cool cfg now bound) e"
    and "\<not> over_global_bound (scope_inputs base row stats cool cfg now bound) goal"
proof -
  let ?p = "scope_inputs base row stats cool cfg now bound"
  let ?eff = "effectiveThresholds base (Some row) (railsOf cfg)"
  have sane: "sane_base ?eff" using assms(1,3) by (rule effective_sane)
  have dp: "is4dp (bp_high (mi_eff ?p))" "is4dp (bp_low (mi_eff ?p))" "is4dp (cb_step (mi_cfg ?p))"
    using sane assms(2) by (simp_all add: scope_inputs_def sane_base_def sane_cfg_def)
  note shape = move_shape [OF assms(4) dp]
  have some: "high_candidate ?p @ low_candidate ?p \<noteq> []"
    using assms(4) by (auto simp: decideMove_def)
  note edges = goal_edges [OF some shape(1) dp]
  have "bp_high goal = bp_high ?eff
      \<or> (bp_high goal = bp_high ?eff - cb_step cfg \<and> r4 (bp_high (tenant_anchor base row) - cb_maxDrift cfg) \<le> bp_high goal)"
    "bp_low goal = bp_low ?eff
      \<or> (bp_low goal = bp_low ?eff + cb_step cfg \<and> bp_low goal \<le> r4 (bp_low (tenant_anchor base row) + cb_maxDrift cfg))"
    using edges by (simp_all add: scope_inputs_def)
  note rails = goal_in_rails [OF assms(1-3) refl this]
  have gap: "gapAdmissible (r4 (bp_high goal - bp_low goal)) (railsOf cfg)"
    using shape(2) by (simp add: scope_inputs_def gapOf_def)
  then have "0 < r4 (bp_high goal - bp_low goal)" by (rule admissible_gap) simp
  then have "bp_low goal < bp_high goal" using rails(5,6) by (simp add: r4_id is4dp_diff)
  with rails assms(1) gap
  show "applyPair base (Some (quad_cols (Some (goal, base)))) (railsOf cfg) = Some goal"
    by (simp add: applyPair_def quad_cols_def sane_base_def r4_id is4dp_diff railsOf_def)
  show "linked (effectiveThresholds base (Some row) (railsOf cfg)) evs goal" "evs \<noteq> []"
    "\<forall>e \<in> set evs. evidenced (scope_inputs base row stats cool cfg now bound) e"
    "\<not> over_global_bound (scope_inputs base row stats cool cfg now bound) goal"
    using shape(3-6) by (simp_all add: scope_inputs_def)
qed

text \<open>C9 (functional). Whatever move the decision core takes, at either scope: the pair it writes, anchored
  to the level above, is the pair the hot path uses on the next read, at agent scope also under the
  global bound; its events chain from the pair in use to the target, one whole step per edge; and
  each of them carries evidence at or above the sample floor, beyond the decision rate, on an edge
  that was not cooling down.\<close>

theorem decided_move_takes_effect:
  assumes "sane_base base" "sane_cfg cfg" "row_4dp row"
    and "decideMove (scope_inputs base row stats cool cfg now bound) = Some (goal, evs)"
  shows "applyPair base (Some (quad_cols (Some (goal, base)))) (railsOf cfg) = Some goal
    \<and> (\<forall>instance tenantRow. bound = Some instance \<and> base = effectiveThresholds instance tenantRow (railsOf cfg) \<longrightarrow>
         resolveThresholds instance tenantRow (Some (quad_cols (Some (goal, base)))) (railsOf cfg) = (goal, AgentPairScope))
    \<and> linked (effectiveThresholds base (Some row) (railsOf cfg)) evs goal \<and> evs \<noteq> []
    \<and> (\<forall>e \<in> set evs. evidenced (scope_inputs base row stats cool cfg now bound) e)"
proof -
  note facts = decided_move_facts [OF assms]
  have "resolveThresholds inst tenantRow (Some (quad_cols (Some (goal, base)))) (railsOf cfg) = (goal, AgentPairScope)"
    if "bound = Some inst" "base = effectiveThresholds inst tenantRow (railsOf cfg)" for inst tenantRow
  proof -
    have "\<not> (r4 (bp_high inst - bp_high goal) > cb_maxDrift cfg \<or> r4 (bp_low goal - bp_low inst) > cb_maxDrift cfg)"
      using facts(5) that(1) by (simp add: scope_inputs_def over_global_bound_def)
    moreover have "(case applyPair inst tenantRow (railsOf cfg) of None \<Rightarrow> inst | Some q \<Rightarrow> q) = base"
      using that(2) by (simp add: effectiveThresholds_def)
    moreover have "rl_maxDrift (railsOf cfg) = cb_maxDrift cfg" by (simp add: railsOf_def)
    ultimately show ?thesis
      using facts(1) by (simp add: resolveThresholds_def Let_def)
  qed
  with facts(1-4) show ?thesis by auto
qed

definition sample_cfg :: calibration_config where
  "sample_cfg = \<lparr>cb_schedEnabled = True, cb_cron = ''0 4 * * *'', cb_windowDays = 14, cb_minEdgeSamples = 50,
     cb_step = 1 / 50, cb_maxDrift = 1 / 10\<rparr>"

definition sample_stats :: calibration_stats where
  "sample_stats = \<lparr>cs_highEdge = \<lparr>es_samples = 60, es_failures = 45\<rparr>, cs_lowEdge = \<lparr>es_samples = 10, es_failures = 0\<rparr>\<rparr>"

text \<open>Three quarters of sixty answers near the high threshold failed: it comes down one step.\<close>

lemma sample_move:
  "\<exists>evs. decideMove (scope_inputs sample_instance no_pair sample_stats (\<lambda>_. False) sample_cfg now None)
     = Some (\<lparr>bp_high = 29 / 50, bp_low = 1 / 4\<rparr>, evs)"
proof -
  let ?p = "scope_inputs sample_instance no_pair sample_stats (\<lambda>_. False) sample_cfg now None"
  have dp: "is4dp (3 / 5)" "is4dp (1 / 4)" "is4dp (1 / 50)" "is4dp (1 / 10)" by code_simp+
  have eff: "mi_eff ?p = sample_instance"
    by (simp add: scope_inputs_def effectiveThresholds_def applyPair_def no_pair_def)
  have r: "r4 (29 / 50) = 29 / 50" "r4 (1 / 2) = 1 / 2" "r4 (1 / 4) = 1 / 4" by code_simp+
  have h: "high_candidate ?p = [edge_decision_of HighEdge \<lparr>es_samples = 60, es_failures = 45\<rparr> RATE_HIGH]"
    unfolding high_candidate_def Let_def eff
    by (simp add: scope_inputs_def sample_stats_def sample_cfg_def sample_instance_def edge_rate_def RATE_HIGH_def
        tenant_anchor_def option_or_def no_pair_def r)
  have l: "low_candidate ?p = []"
    by (simp add: low_candidate_def scope_inputs_def sample_stats_def sample_cfg_def Let_def)
  have goal: "finalPair (mi_eff ?p) (cb_step (mi_cfg ?p)) (applied_edges ?p) = \<lparr>bp_high = 29 / 50, bp_low = 1 / 4\<rparr>"
    unfolding applied_edges_def h l eff
    by (simp add: finalPair_def edge_decision_of_def scope_inputs_def sample_cfg_def sample_instance_def r Let_def)
  have "gapAdmissible (gapOf \<lparr>bp_high = 29 / 50, bp_low = 1 / 4\<rparr>) (railsOf sample_cfg)"
    by code_simp
  then have "gapAdmissible (gapOf \<lparr>bp_high = 29 / 50, bp_low = 1 / 4\<rparr>) (mi_rails ?p)"
    by (simp add: scope_inputs_def)
  moreover have "\<not> over_global_bound ?p \<lparr>bp_high = 29 / 50, bp_low = 1 / 4\<rparr>"
    by (simp add: over_global_bound_def scope_inputs_def)
  ultimately show ?thesis
    unfolding decideMove_def Let_def goal by (simp add: h)
qed

theorem decided_move_takes_effect_witness:
  "effectiveThresholds sample_instance (Some (quad_cols (Some (\<lparr>bp_high = 29 / 50, bp_low = 1 / 4\<rparr>, sample_instance))))
     (railsOf sample_cfg) = \<lparr>bp_high = 29 / 50, bp_low = 1 / 4\<rparr>"
proof -
  obtain evs where "decideMove (scope_inputs sample_instance no_pair sample_stats (\<lambda>_. False) sample_cfg 0 None)
     = Some (\<lparr>bp_high = 29 / 50, bp_low = 1 / 4\<rparr>, evs)"
    using sample_move by blast
  moreover have "sane_base sample_instance" "sane_cfg sample_cfg" "row_4dp no_pair" by code_simp+
  ultimately have "applyPair sample_instance (Some (quad_cols (Some (\<lparr>bp_high = 29 / 50, bp_low = 1 / 4\<rparr>, sample_instance))))
     (railsOf sample_cfg) = Some \<lparr>bp_high = 29 / 50, bp_low = 1 / 4\<rparr>"
    using decided_move_takes_effect by blast
  then show ?thesis by (simp add: effectiveThresholds_def)
qed

end
