(* ===== verification/CalibrationAudit.thy ===== *)
theory CalibrationAudit
  imports CalibrationFacts
begin

text \<open>
  The audit trail of the calibration as the meaning of its tables: every stored pair is what the last
  event of its own scope says, and a tenant's epoch counts its events. The locale \<open>audited_tx\<close> is the
  contract of a transaction; every transaction of the model interprets or instantiates it, and a
  call of it keeps the contract under the interference of the script.
\<close>

section \<open>The trail\<close>

definition scope_events :: "string \<Rightarrow> string option \<Rightarrow> cal_db \<Rightarrow> cal_event list" where
  "scope_events owner agent d = map er_event (filter (\<lambda>e. er_owner e = owner \<and> er_agent e = agent) (db_events d))"

definition replay :: "cal_event list \<Rightarrow> pair_row" where
  "replay evs =
     (if evs = [] then no_pair
      else case ce_trigger (last evs) of
        CalibratorTrigger \<Rightarrow> quad_cols (Some (ce_new (last evs), ce_anchor (last evs)))
      | _ \<Rightarrow> no_pair)"

definition event_4dp :: "cal_event \<Rightarrow> bool" where
  "event_4dp e = (ce_trigger e = CalibratorTrigger \<longrightarrow> is4dp (bp_high (ce_new e)) \<and> is4dp (bp_low (ce_new e)))"

definition row_explained :: "settings_value option \<Rightarrow> cal_event list \<Rightarrow> bool" where
  "row_explained row evs =
     (case row of None \<Rightarrow> evs = [] | Some v \<Rightarrow> rs_pair v = replay evs \<and> rs_epoch v = length evs)"

lemma row_explained_simps [simp]:
  "row_explained None evs = (evs = [])"
  "row_explained (Some v) evs = (rs_pair v = replay evs \<and> rs_epoch v = length evs)"
  by (simp_all add: row_explained_def)

definition settings_explained :: "cal_db \<Rightarrow> bool" where
  "settings_explained d = (\<forall>owner. row_explained (settings_get owner d) (scope_events owner None d))"

definition agents_explained :: "cal_db \<Rightarrow> bool" where
  "agents_explained d =
     (distinct (map ag_id (db_agents d))
      \<and> (\<forall>a \<in> set (db_agents d). ag_pair a = replay (scope_events (ag_owner a) (Some (ag_id a)) d))
      \<and> (\<forall>e \<in> set (db_events d). \<forall>a \<in> set (db_agents d). er_agent e = Some (ag_id a) \<longrightarrow> ag_owner a = er_owner e))"

definition audit_ok :: "cal_db \<Rightarrow> bool" where
  "audit_ok d =
     (settings_explained d \<and> agents_explained d \<and> distinct (map fst (db_settings d))
      \<and> (\<forall>e \<in> set (db_events d). event_4dp (er_event e)))"

lemma replay_append [simp]: "evs \<noteq> [] \<Longrightarrow> replay (xs @ evs) = replay evs"
  by (simp add: replay_def last_append split: cal_trigger.split)

lemma row_4dp_replay: "\<forall>e \<in> set evs. event_4dp e \<Longrightarrow> row_4dp (replay evs)"
  by (cases "evs = []")
    (auto simp: replay_def row_4dp_def no_pair_def quad_cols_def event_4dp_def split: cal_trigger.split)

lemma scope_events_append [simp]:
  "scope_events o1 a1 (append_events owner agent evs d) =
     scope_events o1 a1 d @ (if o1 = owner \<and> a1 = agent then evs else [])"
proof -
  have "map (\<lambda>x. er_event (case x of (i, e) \<Rightarrow> \<lparr>er_owner = owner, er_agent = agent, er_event = e, er_ordinal = i, er_createdAt = t\<rparr>))
      (enumerate n evs) = evs" for n t
    by (induction evs arbitrary: n) auto
  then have "scope_events owner agent (append_events owner agent evs d) = scope_events owner agent d @ evs"
    by (simp add: scope_events_def append_events_def filter_map comp_def case_prod_unfold)
  moreover have "scope_events o1 a1 (append_events owner agent evs d) = scope_events o1 a1 d" if "\<not> (o1 = owner \<and> a1 = agent)"
    using that by (auto simp: scope_events_def append_events_def filter_map comp_def case_prod_unfold)
  ultimately show ?thesis by simp
qed

lemma append_events_simps [simp]:
  "db_settings (append_events owner agent evs d) = db_settings d"
  "db_agents (append_events owner agent evs d) = db_agents d"
  "settings_get o1 (append_events owner agent evs d) = settings_get o1 d"
  by (simp_all add: append_events_def settings_get_def)

lemma set_append_events:
  "e \<in> set (db_events (append_events owner agent evs d)) \<Longrightarrow>
     e \<in> set (db_events d) \<or> (er_owner e = owner \<and> er_agent e = agent \<and> er_event e \<in> set evs)"
  by (auto simp: append_events_def enumerate_eq_zip dest: set_zip_rightD)

lemma scope_events_cong: "db_events d' = db_events d \<Longrightarrow> scope_events o1 a1 d' = scope_events o1 a1 d"
  by (simp add: scope_events_def)

lemma obj_put_keys: "distinct (map fst kvs) \<Longrightarrow> distinct (map fst (obj_put k v kvs)) \<and> set (map fst (obj_put k v kvs)) = insert k (set (map fst kvs))"
  by (induction k v kvs rule: obj_put.induct) auto

lemma settings_put_cases:
  obtains (stored) "settings_put owner v d = (Inr v, d\<lparr>db_settings := obj_put owner v (db_settings d)\<rparr>)" "settings_check v"
  | (refused) "settings_put owner v d = (Inl (), d)"
  by (cases "settings_check v") (simp_all add: settings_put_def)

lemma settings_get_put [simp]:
  "settings_get o1 (d\<lparr>db_settings := obj_put owner v (db_settings d)\<rparr>) = (if o1 = owner then Some v else settings_get o1 d)"
  by (simp add: settings_get_def)

section \<open>What a transaction promises\<close>

definition grows :: "cal_db \<Rightarrow> cal_db \<Rightarrow> bool" where
  "grows d d' = (\<forall>owner. \<exists>added. scope_events owner None d' = scope_events owner None d @ added)"

lemma grows_refl [simp]: "grows d d"
  by (simp add: grows_def)

lemma grows_trans: "grows a b \<Longrightarrow> grows b c \<Longrightarrow> grows a c"
  unfolding grows_def by (metis append_assoc)

lemma grows_same_events: "db_events d' = db_events d \<Longrightarrow> grows d d'"
  by (simp add: grows_def scope_events_def)

lemma grows_append_events: "db_events d' = db_events d \<Longrightarrow> grows d (append_events owner agent evs d')"
  by (simp add: grows_def scope_events_cong [of d' d])

text \<open>A settings row is replaced without a threshold event.\<close>

lemma audit_settings_put:
  assumes "audit_ok d" "rs_pair v = replay (scope_events owner None d)" "rs_epoch v = length (scope_events owner None d)"
  shows "audit_ok (snd (settings_put owner v d))" "grows d (snd (settings_put owner v d))"
proof -
  have "audit_ok (snd (settings_put owner v d)) \<and> grows d (snd (settings_put owner v d))"
  proof (rule settings_put_cases [where owner = owner and v = v and d = d])
    assume stored: "settings_put owner v d = (Inr v, d\<lparr>db_settings := obj_put owner v (db_settings d)\<rparr>)"
    let ?d = "d\<lparr>db_settings := obj_put owner v (db_settings d)\<rparr>"
    have ev: "scope_events o1 a1 ?d = scope_events o1 a1 d" for o1 a1 by (simp add: scope_events_def)
    have "settings_explained ?d"
      using assms by (auto simp: settings_explained_def audit_ok_def ev)
    moreover have "agents_explained ?d"
      using assms(1) by (simp add: agents_explained_def audit_ok_def ev)
    moreover have "distinct (map fst (db_settings ?d))"
      using assms(1) obj_put_keys [of "db_settings d"] by (simp add: audit_ok_def)
    ultimately have "audit_ok ?d" using assms(1) by (simp add: audit_ok_def)
    with stored show ?thesis by (simp add: grows_same_events)
  next
    assume "settings_put owner v d = (Inl (), d)"
    with assms(1) show ?thesis by simp
  qed
  then show "audit_ok (snd (settings_put owner v d))" "grows d (snd (settings_put owner v d))" by blast+
qed

text \<open>A settings row is replaced together with its events.\<close>

lemma audit_tenant_write:
  assumes "audit_ok d" "settings_get owner d = Some row" "evs \<noteq> []" "\<forall>e \<in> set evs. event_4dp e"
    "rs_pair v = replay evs" "rs_epoch v = rs_epoch row + length evs"
  shows "audit_ok (append_events owner None evs (d\<lparr>db_settings := obj_put owner v (db_settings d)\<rparr>))" (is "audit_ok ?d")
proof -
  let ?d1 = "d\<lparr>db_settings := obj_put owner v (db_settings d)\<rparr>"
  have ev: "scope_events o1 a1 ?d1 = scope_events o1 a1 d" for o1 a1 by (simp add: scope_events_def)
  have old: "row_explained (settings_get o1 d) (scope_events o1 None d)" for o1
    using assms(1) by (simp add: audit_ok_def settings_explained_def)
  from old [of owner] assms(2) have row: "rs_epoch row = length (scope_events owner None d)" by simp
  have "settings_explained ?d"
    unfolding settings_explained_def
  proof
    fix o1
    show "row_explained (settings_get o1 ?d) (scope_events o1 None ?d)"
      using old [of o1] assms(3-6) row by (cases "o1 = owner") (simp_all add: ev)
  qed
  moreover have "agents_explained ?d"
    using assms(1) by (auto simp: agents_explained_def audit_ok_def ev dest!: set_append_events)
  moreover have "distinct (map fst (db_settings ?d))"
    using assms(1) obj_put_keys [of "db_settings d"] by (simp add: audit_ok_def)
  moreover have "\<forall>e \<in> set (db_events ?d). event_4dp (er_event e)"
    using assms(1,4) by (auto simp: audit_ok_def dest!: set_append_events)
  ultimately show ?thesis by (simp add: audit_ok_def)
qed

locale audited_tx =
  fixes tx :: "'a tx"
  assumes keeps_audit: "audit_ok d \<Longrightarrow> audit_ok (snd (tx d))"
    and keeps_events: "audit_ok d \<Longrightarrow> grows d (snd (tx d))"

interpretation read_tx: audited_tx "\<lambda>d. (Inr (f d), d)" for f
  by unfold_locales simp_all

interpretation upsert_tx: audited_tx "settings_upsert_tx owner u" for owner u
proof
  fix d assume d: "audit_ok d"
  let ?v = "case settings_get owner d of None \<Rightarrow> upsert_insert u | Some v \<Rightarrow> upsert_update u v"
  have "row_explained (settings_get owner d) (scope_events owner None d)"
    using d by (simp add: audit_ok_def settings_explained_def)
  then have "rs_pair ?v = replay (scope_events owner None d)" "rs_epoch ?v = length (scope_events owner None d)"
    by (auto simp: upsert_insert_def upsert_update_def replay_def split: option.splits)
  note put = audit_settings_put [OF d this]
  show "audit_ok (snd (settings_upsert_tx owner u d))" "grows d (snd (settings_upsert_tx owner u d))"
    using put by (simp_all add: settings_upsert_tx_def)
qed

lemma clear_row_4dp: "ce_trigger e \<noteq> CalibratorTrigger \<Longrightarrow> event_4dp e \<and> replay [e] = no_pair"
  by (cases "ce_trigger e") (auto simp: event_4dp_def replay_def)

interpretation clear_tx: audited_tx "settings_clearCalibrated owner (revert_event instance)" for owner "instance"
proof
  fix d assume d: "audit_ok d"
  show "audit_ok (snd (settings_clearCalibrated owner (revert_event instance) d))"
    "grows d (snd (settings_clearCalibrated owner (revert_event instance) d))"
  proof -
    have "audit_ok (snd (settings_clearCalibrated owner (revert_event instance) d))
      \<and> grows d (snd (settings_clearCalibrated owner (revert_event instance) d))"
    proof (cases "settings_get owner d")
      case None
      with d show ?thesis by (simp add: settings_clearCalibrated_def)
    next
      case (Some row)
      let ?v = "row\<lparr>rs_pair := no_pair, rs_epoch := rs_epoch row + 1\<rparr>"
      have e: "event_4dp (revert_event instance row) \<and> replay [revert_event instance row] = no_pair"
        by (rule clear_row_4dp) (simp add: revert_event_def Let_def)
      show ?thesis
      proof (rule settings_put_cases [where owner = owner and v = ?v and d = d])
        assume stored: "settings_put owner ?v d = (Inr ?v, d\<lparr>db_settings := obj_put owner ?v (db_settings d)\<rparr>)"
        have "audit_ok (append_events owner None [revert_event instance row] (d\<lparr>db_settings := obj_put owner ?v (db_settings d)\<rparr>))"
          using e by (intro audit_tenant_write [OF d Some]) auto
        moreover have "grows d (append_events owner None evs (d\<lparr>db_settings := x\<rparr>))" for evs x
          by (rule grows_append_events) simp
        ultimately show ?thesis using d stored Some by (simp add: settings_clearCalibrated_def)
      next
        assume "settings_put owner ?v d = (Inl (), d)"
        with d Some show ?thesis by (simp add: settings_clearCalibrated_def)
      qed
    qed
    then show "audit_ok (snd (settings_clearCalibrated owner (revert_event instance) d))"
      "grows d (snd (settings_clearCalibrated owner (revert_event instance) d))" by blast+
  qed
qed


text \<open>The two conditional writes keep the contract when their events say what they write.\<close>

definition consistent_write :: "(band_pair \<times> band_pair) option \<Rightarrow> cal_event list \<Rightarrow> bool" where
  "consistent_write quad evs = (evs \<noteq> [] \<and> replay evs = quad_cols quad \<and> (\<forall>e \<in> set evs. event_4dp e))"

lemma settings_setCalibrated_cases:
  assumes "snd (settings_setCalibrated owner quad xp evs d) \<noteq> d \<or> fst (settings_setCalibrated owner quad xp evs d) = Inr True"
  obtains row where "settings_get owner d = Some row" "matches_expected row xp"
    "settings_setCalibrated owner quad xp evs d =
      (Inr True, append_events owner None evs (d\<lparr>db_settings :=
         obj_put owner (row\<lparr>rs_pair := quad_cols quad, rs_epoch := rs_epoch row + length evs\<rparr>) (db_settings d)\<rparr>))"
proof (cases "settings_get owner d")
  case None
  with assms show thesis by (simp add: settings_setCalibrated_def)
next
  case (Some row)
  let ?v = "row\<lparr>rs_pair := quad_cols quad, rs_epoch := rs_epoch row + length evs\<rparr>"
  show thesis
  proof (rule settings_put_cases [where owner = owner and v = ?v and d = d])
    assume "settings_put owner ?v d = (Inr ?v, d\<lparr>db_settings := obj_put owner ?v (db_settings d)\<rparr>)"
    with Some assms that [of row] show thesis by (auto simp: settings_setCalibrated_def split: if_splits)
  next
    assume "settings_put owner ?v d = (Inl (), d)"
    with Some assms show thesis by (auto simp: settings_setCalibrated_def split: if_splits)
  qed
qed

lemma tenant_write_audited:
  assumes "consistent_write quad evs"
  shows "audited_tx (settings_setCalibrated owner quad xp evs)"
proof
  fix d assume d: "audit_ok d"
  show "audit_ok (snd (settings_setCalibrated owner quad xp evs d))"
  proof (cases "snd (settings_setCalibrated owner quad xp evs d) = d")
    case False
    then obtain row where row: "settings_get owner d = Some row" "settings_setCalibrated owner quad xp evs d =
      (Inr True, append_events owner None evs (d\<lparr>db_settings :=
         obj_put owner (row\<lparr>rs_pair := quad_cols quad, rs_epoch := rs_epoch row + length evs\<rparr>) (db_settings d)\<rparr>))"
      using settings_setCalibrated_cases [of owner quad xp evs d] by metis
    from assms show ?thesis
      unfolding row(2) snd_conv
      by (intro audit_tenant_write [OF d row(1)]) (auto simp: consistent_write_def)
  qed (simp add: d)
  show "grows d (snd (settings_setCalibrated owner quad xp evs d))"
  proof (cases "snd (settings_setCalibrated owner quad xp evs d) = d")
    case False
    then obtain x where "snd (settings_setCalibrated owner quad xp evs d) = append_events owner None evs (d\<lparr>db_settings := x\<rparr>)"
      using settings_setCalibrated_cases [of owner quad xp evs d] by (metis snd_conv)
    then show ?thesis by (simp add: grows_append_events)
  qed simp
qed

lemma audit_agent_write:
  assumes d: "audit_ok d" and agent: "find (\<lambda>a. ag_id a = i \<and> ag_owner a = owner) (db_agents d) = Some agent"
    and written: "consistent_write quad evs"
    and d1: "d1 = d\<lparr>db_agents := map (\<lambda>a. if ag_id a = i then a\<lparr>ag_pair := quad_cols quad, ag_epoch := n\<rparr> else a) (db_agents d),
                  db_settings := kvs\<rparr>"
    and kvs: "settings_explained d1" "distinct (map fst kvs)"
  shows "audit_ok (append_events owner (Some i) evs d1)"
proof -
  let ?d = "append_events owner (Some i) evs d1"
  let ?f = "\<lambda>a. if ag_id a = i then a\<lparr>ag_pair := quad_cols quad, ag_epoch := n\<rparr> else a"
  have ev: "scope_events o1 a1 d1 = scope_events o1 a1 d" for o1 a1 by (simp add: d1 scope_events_def)
  from agent have mem: "agent \<in> set (db_agents d)" "ag_id agent = i" "ag_owner agent = owner"
    by (auto simp: find_Some_iff)
  have old: "distinct (map ag_id (db_agents d))"
    "\<forall>a \<in> set (db_agents d). ag_pair a = replay (scope_events (ag_owner a) (Some (ag_id a)) d)"
    "\<forall>e \<in> set (db_events d). \<forall>a \<in> set (db_agents d). er_agent e = Some (ag_id a) \<longrightarrow> ag_owner a = er_owner e"
    using d by (auto simp: audit_ok_def agents_explained_def)
  have f: "ag_id (?f a) = ag_id a" "ag_owner (?f a) = ag_owner a" for a by auto
  have ids: "map ag_id (map ?f (db_agents d)) = map ag_id (db_agents d)" by simp
  have pairs: "ag_pair (?f a) = replay (scope_events (ag_owner (?f a)) (Some (ag_id (?f a))) ?d)" if "a \<in> set (db_agents d)" for a
  proof (cases "ag_id a = i")
    case True
    with old(1) mem that have "a = agent" by (metis distinct_map inj_onD)
    with mem written show ?thesis by (simp add: ev consistent_write_def)
  next
    case False
    with old(2) that show ?thesis by (simp add: ev)
  qed
  have owners: "ag_owner (?f a) = er_owner e"
    if "e \<in> set (db_events ?d)" "a \<in> set (db_agents d)" "er_agent e = Some (ag_id (?f a))" for e a
  proof -
    have same: "a = agent" if "ag_id a = i"
      using old(1) mem that \<open>a \<in> set (db_agents d)\<close> by (metis distinct_map inj_onD)
    from set_append_events [OF that(1)] that(3) have "e \<in> set (db_events d) \<or> er_owner e = owner \<and> ag_id a = i"
      by (auto simp: d1 f)
    with old(3) that(2,3) same mem show ?thesis by (auto simp: f)
  qed
  have ags: "db_agents ?d = map ?f (db_agents d)" by (simp add: d1)
  have "agents_explained ?d"
    unfolding agents_explained_def
  proof (intro conjI ballI allI impI)
    show "distinct (map ag_id (db_agents ?d))" unfolding ags ids by (rule old(1))
  next
    fix b assume "b \<in> set (db_agents ?d)"
    then have "b \<in> ?f ` set (db_agents d)" unfolding ags set_map .
    then obtain a where a: "b = ?f a" "a \<in> set (db_agents d)" by (rule imageE)
    show "ag_pair b = replay (scope_events (ag_owner b) (Some (ag_id b)) ?d)"
      unfolding a(1) by (rule pairs [OF a(2)])
  next
    fix e b assume e: "e \<in> set (db_events ?d)" and "b \<in> set (db_agents ?d)" and b: "er_agent e = Some (ag_id b)"
    then have "b \<in> ?f ` set (db_agents d)" unfolding ags set_map by simp
    then obtain a where a: "b = ?f a" "a \<in> set (db_agents d)" by (rule imageE)
    show "ag_owner b = er_owner e" unfolding a(1) by (rule owners [OF e a(2) b [unfolded a(1)]])
  qed
  moreover have "settings_explained ?d"
    using kvs(1) by (simp add: settings_explained_def)
  moreover have "\<forall>e \<in> set (db_events ?d). event_4dp (er_event e)"
    using d written d1 by (auto simp: audit_ok_def consistent_write_def dest!: set_append_events)
  ultimately show ?thesis using kvs(2) by (simp add: audit_ok_def d1)
qed

lemma agent_write_audited:
  assumes "consistent_write quad evs"
  shows "audited_tx (agent_setCalibrated owner i quad xp pin evs)"
proof
  fix d assume d: "audit_ok d"
  let ?r = "agent_setCalibrated owner i quad xp pin evs d"
  have "audit_ok (snd ?r) \<and> grows d (snd ?r)"
  proof (cases "snd ?r = d")
    case False
    then obtain settings where settings: "settings_get owner d = Some settings" "pin_holds pin settings"
      by (auto simp: agent_setCalibrated_def split: option.splits if_splits)
    with False obtain agent where agent: "find (\<lambda>a. ag_id a = i \<and> ag_owner a = owner) (db_agents d) = Some agent"
      by (auto simp: agent_setCalibrated_def split: option.splits if_splits)
    let ?as = "map (\<lambda>a. if ag_id a = i then a\<lparr>ag_pair := quad_cols quad, ag_epoch := ag_epoch agent + 1\<rparr> else a) (db_agents d)"
    let ?d1 = "d\<lparr>db_agents := ?as\<rparr>"
    let ?v = "settings\<lparr>rs_membership := rs_membership settings + 1\<rparr>"
    from False settings agent consider
        (plain) "snd ?r = append_events owner (Some i) evs ?d1"
      | (bump) "snd ?r = append_events owner (Some i) evs (snd (settings_put owner ?v ?d1))"
      by (auto simp: agent_setCalibrated_def Let_def split: if_splits)
    then have "\<exists>kvs. snd ?r = append_events owner (Some i) evs (d\<lparr>db_agents := ?as, db_settings := kvs\<rparr>)
      \<and> settings_explained (d\<lparr>db_agents := ?as, db_settings := kvs\<rparr>) \<and> distinct (map fst kvs)"
    proof cases
      case plain
      have "settings_explained ?d1"
        using d by (simp add: audit_ok_def settings_explained_def settings_get_def scope_events_def)
      with plain d show ?thesis by (intro exI [of _ "db_settings d"]) (simp add: audit_ok_def)
    next
      case bump
      have row: "row_explained (Some settings) (scope_events owner None d)"
        using d settings(1) by (metis audit_ok_def settings_explained_def)
      have put: "audit_ok (snd (settings_put owner ?v d))"
        by (rule audit_settings_put [OF d]) (use row in simp_all)
      show ?thesis
      proof (rule settings_put_cases [where owner = owner and v = ?v and d = d])
        assume st: "settings_put owner ?v d = (Inr ?v, d\<lparr>db_settings := obj_put owner ?v (db_settings d)\<rparr>)"
          "settings_check ?v"
        have "snd ?r = append_events owner (Some i) evs (d\<lparr>db_agents := ?as, db_settings := obj_put owner ?v (db_settings d)\<rparr>)"
          using bump st(2) by (simp add: settings_put_def)
        with put st show ?thesis
          by (intro exI [of _ "obj_put owner ?v (db_settings d)"])
            (simp add: audit_ok_def settings_explained_def settings_get_def scope_events_def)
      next
        assume st: "settings_put owner ?v d = (Inl (), d)"
        then have "\<not> settings_check ?v" by (simp add: settings_put_def split: if_splits)
        then have "snd ?r = append_events owner (Some i) evs ?d1" using bump by (simp add: settings_put_def)
        moreover have "settings_explained ?d1"
          using d by (simp add: audit_ok_def settings_explained_def settings_get_def scope_events_def)
        ultimately show ?thesis using d by (intro exI [of _ "db_settings d"]) (simp add: audit_ok_def)
      qed
    qed
    then obtain kvs where r: "snd ?r = append_events owner (Some i) evs (d\<lparr>db_agents := ?as, db_settings := kvs\<rparr>)"
      and kvs: "settings_explained (d\<lparr>db_agents := ?as, db_settings := kvs\<rparr>)" "distinct (map fst kvs)"
      by blast
    have "audit_ok (snd ?r)" unfolding r by (rule audit_agent_write [OF d agent assms refl kvs])
    moreover have "grows d (snd ?r)"
      unfolding r by (rule grows_append_events) simp
    ultimately show ?thesis by blast
  qed (simp add: d)
  then show "audit_ok (snd ?r)" "grows d (snd ?r)" by blast+
qed


section \<open>Calls under interference\<close>

definition act_ok :: "cal_act \<Rightarrow> bool" where
  "act_ok act =
     (case act of
        ActClearAgent _ _ _ e \<Rightarrow> ce_trigger e \<noteq> CalibratorTrigger
      | ActMoveAgent _ _ quad _ _ evs \<Rightarrow> consistent_write (Some quad) evs
      | ActWriteTenant _ quad _ evs \<Rightarrow> consistent_write quad evs
      | _ \<Rightarrow> True)"

definition world_ok :: "cal_world \<Rightarrow> bool" where
  "world_ok w = (audit_ok (cw_db w) \<and> (\<forall>turn \<in> set (cw_script w). \<forall>act \<in> set (tn_others turn). act_ok act))"

lemma new_agent_audit:
  assumes "audit_ok d" "\<not> list_ex (\<lambda>a. ag_id a = i) (db_agents d)" "\<not> list_ex (\<lambda>e. er_agent e = Some i) (db_events d)"
  shows "audit_ok (d\<lparr>db_agents := db_agents d @ [\<lparr>ag_id = i, ag_owner = owner, ag_name = name, ag_pair = no_pair, ag_epoch = 0\<rparr>]\<rparr>)"
    (is "audit_ok ?d")
proof -
  have ev: "scope_events o1 a1 ?d = scope_events o1 a1 d" for o1 a1 by (simp add: scope_events_def)
  have fresh: "\<forall>a \<in> set (db_agents d). ag_id a \<noteq> i" using assms(2) by (auto simp: list_ex_iff)
  have unnamed: "er_agent e \<noteq> Some i" if "e \<in> set (db_events d)" for e
    using assms(3) that by (auto simp: list_ex_iff)
  then have "scope_events owner (Some i) d = []" by (auto simp: scope_events_def filter_empty_conv)
  moreover have "i \<notin> ag_id ` set (db_agents d)" using fresh by auto
  ultimately have "agents_explained ?d"
    using assms(1) unnamed by (auto simp: agents_explained_def audit_ok_def ev replay_def)
  moreover have "settings_explained ?d"
    using assms(1) by (simp add: settings_explained_def audit_ok_def ev settings_get_def)
  ultimately show ?thesis using assms(1) by (simp add: audit_ok_def)
qed

lemma audit_ok_irrelevant:
  assumes "audit_ok d" "db_settings d' = db_settings d" "db_agents d' = db_agents d" "db_events d' = db_events d"
  shows "audit_ok d' \<and> grows d d'"
  using assms
  by (simp add: audit_ok_def settings_explained_def agents_explained_def settings_get_def scope_events_def grows_same_events)

lemma drop_agent_audit:
  assumes "audit_ok d"
  shows "audit_ok (d\<lparr>db_agents := filter P (db_agents d)\<rparr>)"
proof -
  have "scope_events o1 a1 (d\<lparr>db_agents := filter P (db_agents d)\<rparr>) = scope_events o1 a1 d" for o1 a1
    by (simp add: scope_events_def)
  with assms show ?thesis
    by (simp add: audit_ok_def settings_explained_def agents_explained_def settings_get_def distinct_map_filter)
qed

lemma act_keeps:
  assumes "act_ok act" "audit_ok d"
  shows "audit_ok (act_db act d) \<and> grows d (act_db act d)"
proof (cases act)
  case (ActElapse n)
  with assms(2) show ?thesis by (simp add: act_db_def audit_ok_irrelevant)
next
  case (ActLog rows)
  with assms(2) show ?thesis by (simp add: act_db_def audit_ok_irrelevant)
next
  case (ActAgent i owner name)
  with assms(2) new_agent_audit [OF assms(2), of i owner name] show ?thesis
    by (simp add: act_db_def grows_same_events)
next
  case (ActDropAgent owner i)
  with drop_agent_audit [OF assms(2)] show ?thesis by (simp add: act_db_def grows_same_events)
next
  case (ActWriteTenant owner quad xp evs)
  with assms(1) have "consistent_write quad evs" by (simp add: act_ok_def)
  note tx = tenant_write_audited [OF this, of owner xp]
  from audited_tx.keeps_audit [OF tx assms(2)] audited_tx.keeps_events [OF tx assms(2)] ActWriteTenant show ?thesis
    by (simp add: act_db_def)
next
  case (ActUpsert owner u)
  with upsert_tx.keeps_audit [OF assms(2)] upsert_tx.keeps_events [OF assms(2)] show ?thesis by (simp add: act_db_def)
next
  case (ActRevert owner i)
  with clear_tx.keeps_audit [OF assms(2)] clear_tx.keeps_events [OF assms(2)] show ?thesis by (simp add: act_db_def)
next
  case (ActClearAgent owner i xp e)
  with assms(1) clear_row_4dp [of e] have "consistent_write None [e]"
    by (simp add: consistent_write_def act_ok_def quad_cols_def)
  note tx = agent_write_audited [OF this, of owner i xp None]
  from audited_tx.keeps_audit [OF tx assms(2)] audited_tx.keeps_events [OF tx assms(2)] ActClearAgent show ?thesis
    by (simp add: act_db_def)
next
  case (ActMoveAgent owner i quad xp pin evs)
  with assms(1) have "consistent_write (Some quad) evs" by (simp add: act_ok_def)
  note tx = agent_write_audited [OF this, of owner i xp "Some pin"]
  from audited_tx.keeps_audit [OF tx assms(2)] audited_tx.keeps_events [OF tx assms(2)] ActMoveAgent show ?thesis
    by (simp add: act_db_def)
qed

lemma acts_keep:
  "\<forall>act \<in> set acts. act_ok act \<Longrightarrow> audit_ok d \<Longrightarrow>
     audit_ok (foldl (\<lambda>d act. act_db act d) d acts) \<and> grows d (foldl (\<lambda>d act. act_db act d) d acts)"
proof (induction acts arbitrary: d)
  case (Cons act acts)
  from Cons.prems act_keeps [of act d] have one: "audit_ok (act_db act d)" "grows d (act_db act d)" by auto
  from Cons.IH [OF _ one(1)] Cons.prems(1) one(2) show ?case by (auto intro: grows_trans)
qed simp

context audited_tx
begin

lemma call_keeps:
  assumes "world_ok w"
  shows "world_ok (snd (db_call tx w)) \<and> grows (cw_db w) (cw_db (snd (db_call tx w)))"
proof (cases "cw_script w")
  case Nil
  have "audit_ok (cw_db w)" using assms by (simp add: world_ok_def)
  from keeps_audit [OF this] keeps_events [OF this] Nil show ?thesis
    by (simp add: db_call_def world_ok_def split: prod.split) (metis snd_conv)
next
  case (Cons turn rest)
  let ?d = "foldl (\<lambda>d act. act_db act d) (cw_db w) (tn_others turn)"
  have d: "audit_ok ?d" "grows (cw_db w) ?d"
    using assms Cons acts_keep [of "tn_others turn" "cw_db w"] by (auto simp: world_ok_def)
  have tx: "audit_ok (snd (tx ?d))" "grows (cw_db w) (snd (tx ?d))"
    using keeps_audit [OF d(1)] keeps_events [OF d(1)] d(2) by (auto intro: grows_trans)
  have rest: "\<forall>turn \<in> set rest. \<forall>act \<in> set (tn_others turn). act_ok act"
    using assms Cons by (simp add: world_ok_def)
  obtain r d2 where r: "tx ?d = (r, d2)" by fastforce
  show ?thesis
    using d tx rest r Cons by (cases "tn_fate turn") (simp_all add: db_call_def world_ok_def)
qed

lemma call_commits:
  assumes "world_ok w" "fst (db_call tx w) = Inr x"
  shows "\<exists>d. audit_ok d \<and> grows (cw_db w) d \<and> tx d = (Inr x, cw_db (snd (db_call tx w)))"
proof (cases "cw_script w")
  case Nil
  obtain r d2 where r: "tx (cw_db w) = (r, d2)" by fastforce
  with assms Nil show ?thesis by (intro exI [of _ "cw_db w"]) (simp add: db_call_def world_ok_def)
next
  case (Cons turn rest)
  let ?d = "foldl (\<lambda>d act. act_db act d) (cw_db w) (tn_others turn)"
  have d: "audit_ok ?d" "grows (cw_db w) ?d"
    using assms(1) Cons acts_keep [of "tn_others turn" "cw_db w"] by (auto simp: world_ok_def)
  obtain r d2 where r: "tx ?d = (r, d2)" by fastforce
  from assms(2) Cons r d show ?thesis
    by (intro exI [of _ ?d]) (cases "tn_fate turn"; simp add: db_call_def)
qed

end

section \<open>A step keeps the world\<close>

text \<open>\<open>yields F P\<close>: from a sound world the step \<open>F\<close> ends in one whose tenant histories extend the old
  ones, with a result satisfying \<open>P\<close>. The rules follow the shapes the sweep is written in.\<close>

definition yields :: "(cal_world \<Rightarrow> 'r \<times> cal_world) \<Rightarrow> ('r \<Rightarrow> bool) \<Rightarrow> bool" where
  "yields F P = (\<forall>w. world_ok w \<longrightarrow>
     world_ok (snd (F w)) \<and> grows (cw_db w) (cw_db (snd (F w))) \<and> P (fst (F w)))"

named_theorems sweep_rules \<open>rules for the steps of the sweep\<close>

lemma yields_return [sweep_rules]: "P x \<Longrightarrow> yields (\<lambda>w. (x, w)) P"
  by (simp add: yields_def)

lemma yields_bind:
  assumes "yields F P" "\<And>r. P r \<Longrightarrow> yields (G r) Q"
  shows "yields (\<lambda>w. case F w of (r, w1) \<Rightarrow> G r w1) Q"
  unfolding yields_def
proof (intro allI impI)
  fix w assume w: "world_ok w"
  obtain r w1 where F: "F w = (r, w1)" by fastforce
  with assms(1) w have one: "world_ok w1" "grows (cw_db w) (cw_db w1)" "P r" by (auto simp: yields_def)
  from assms(2) [OF one(3)] one(1) have "world_ok (snd (G r w1))" "grows (cw_db w1) (cw_db (snd (G r w1)))" "Q (fst (G r w1))"
    by (auto simp: yields_def)
  with F one(2) show "world_ok (snd (case F w of (r, w1) \<Rightarrow> G r w1))
    \<and> grows (cw_db w) (cw_db (snd (case F w of (r, w1) \<Rightarrow> G r w1))) \<and> Q (fst (case F w of (r, w1) \<Rightarrow> G r w1))"
    by (auto intro: grows_trans)
qed

lemma yields_if: "(b \<Longrightarrow> yields F P) \<Longrightarrow> (\<not> b \<Longrightarrow> yields G P) \<Longrightarrow> yields (\<lambda>w. if b then F w else G w) P"
  by (cases b) simp_all

lemma yields_sum:
  "(\<And>e. r = Inl e \<Longrightarrow> yields (F e) P) \<Longrightarrow> (\<And>x. r = Inr x \<Longrightarrow> yields (G x) P)
     \<Longrightarrow> yields (\<lambda>w. case r of Inl e \<Rightarrow> F e w | Inr x \<Rightarrow> G x w) P"
  by (cases r) simp_all

lemma yields_option:
  "(r = None \<Longrightarrow> yields F P) \<Longrightarrow> (\<And>x. r = Some x \<Longrightarrow> yields (G x) P)
     \<Longrightarrow> yields (\<lambda>w. case r of None \<Rightarrow> F w | Some x \<Rightarrow> G x w) P"
  by (cases r) simp_all

lemma yields_weaken: "yields F P \<Longrightarrow> (\<And>r. P r \<Longrightarrow> Q r) \<Longrightarrow> yields F Q"
  by (auto simp: yields_def)

lemma yields_call: "audited_tx tx \<Longrightarrow> yields (db_call tx) (\<lambda>_. True)"
  using audited_tx.call_keeps by (fastforce simp: yields_def)

lemma yields_read: "yields (db_read f) (\<lambda>r. \<forall>x. r = Inr x \<longrightarrow> (\<exists>d. audit_ok d \<and> x = f d))"
  unfolding yields_def db_read_def
  using read_tx.call_keeps [of _ f] read_tx.call_commits [of _ f] by fastforce


section \<open>What the sweep reads and writes\<close>

lemma settings_row_4dp: "audit_ok d \<Longrightarrow> settings_get owner d = Some v \<Longrightarrow> row_4dp (rs_pair v)"
proof -
  assume d: "audit_ok d" and v: "settings_get owner d = Some v"
  have "row_explained (settings_get owner d) (scope_events owner None d)"
    using d by (simp add: audit_ok_def settings_explained_def)
  then have "rs_pair v = replay (scope_events owner None d)" by (simp add: v)
  moreover have "\<forall>e \<in> set (scope_events owner None d). event_4dp e"
    using d by (auto simp: audit_ok_def scope_events_def)
  ultimately show ?thesis by (simp add: row_4dp_replay)
qed

lemma listed_row_4dp: "audit_ok d \<Longrightarrow> (owner, v) \<in> set (db_settings d) \<Longrightarrow> row_4dp (rs_pair v)"
  by (rule settings_row_4dp [of d owner]) (auto simp: audit_ok_def settings_get_def)

lemma agent_row_4dp: "audit_ok d \<Longrightarrow> a \<in> set (db_agents d) \<Longrightarrow> row_4dp (ag_pair a)"
proof -
  assume d: "audit_ok d" and a: "a \<in> set (db_agents d)"
  have "ag_pair a = replay (scope_events (ag_owner a) (Some (ag_id a)) d)"
    using d a by (simp add: audit_ok_def agents_explained_def)
  moreover have "\<forall>e \<in> set (scope_events (ag_owner a) (Some (ag_id a)) d). event_4dp e"
    using d by (auto simp: audit_ok_def scope_events_def)
  ultimately show ?thesis by (simp add: row_4dp_replay)
qed

lemma linked_last: "linked a evs b \<Longrightarrow> evs \<noteq> [] \<Longrightarrow> ce_new (last evs) = b"
proof (induction evs arbitrary: a)
  case (Cons e es)
  then show ?case by (cases "es = []") auto
qed simp

lemma evidenced_4dp:
  assumes "evidenced p e" "is4dp (bp_high (ce_old e))" "is4dp (bp_low (ce_old e))" "is4dp (cb_step (mi_cfg p))"
  shows "is4dp (bp_high (ce_new e))" "is4dp (bp_low (ce_new e))"
proof -
  from assms(1) obtain edge where "case edge of
        HighEdge \<Rightarrow> bp_low (ce_new e) = bp_low (ce_old e) \<and> bp_high (ce_new e) = bp_high (ce_old e) - cb_step (mi_cfg p)
      | LowEdge \<Rightarrow> bp_high (ce_new e) = bp_high (ce_old e) \<and> bp_low (ce_new e) = bp_low (ce_old e) + cb_step (mi_cfg p)"
    unfolding evidenced_def by (fastforce split: cal_edge.splits)
  with assms(2-4) show "is4dp (bp_high (ce_new e))" "is4dp (bp_low (ce_new e))"
    by (auto simp: is4dp_add is4dp_diff split: cal_edge.splits)
qed

lemma linked_4dp:
  assumes "linked a evs b" "\<forall>e \<in> set evs. evidenced p e" "is4dp (bp_high a)" "is4dp (bp_low a)" "is4dp (cb_step (mi_cfg p))"
  shows "\<forall>e \<in> set evs. event_4dp e"
  using assms
proof (induction evs arbitrary: a)
  case (Cons e es)
  from Cons.prems have old: "ce_old e = a" and e: "evidenced p e" by auto
  note new = evidenced_4dp [OF e, unfolded old, OF Cons.prems(3-5)]
  with Cons.IH [of "ce_new e"] Cons.prems show ?case by (auto simp: event_4dp_def)
qed simp

lemma decided_write_consistent:
  assumes "sane_base base" "sane_cfg cfg" "row_4dp row"
    "decideMove (scope_inputs base row stats cool cfg now bound) = Some (goal, evs)"
  shows "consistent_write (Some (goal, base)) evs"
proof -
  let ?p = "scope_inputs base row stats cool cfg now bound"
  have sane: "sane_base (effectiveThresholds base (Some row) (railsOf cfg))" using assms(1,3) by (rule effective_sane)
  have dp: "is4dp (bp_high (mi_eff ?p))" "is4dp (bp_low (mi_eff ?p))" "is4dp (cb_step (mi_cfg ?p))"
    using sane assms(2) by (simp_all add: scope_inputs_def sane_base_def sane_cfg_def)
  note shape = move_shape [OF assms(4) dp]
  from shape(5,6) have lst: "evidenced ?p (last evs)" by simp
  then have "ce_trigger (last evs) = CalibratorTrigger" "ce_anchor (last evs) = base"
    by (auto simp: evidenced_def scope_inputs_def)
  with linked_last [OF shape(4,5)] shape(5) have "replay evs = quad_cols (Some (goal, base))"
    by (simp add: replay_def)
  with shape(5) linked_4dp [OF shape(4,6) dp] show ?thesis by (simp add: consistent_write_def)
qed

lemma rebase_write_consistent: "consistent_write None [rebase_event row base reason]"
  using clear_row_4dp [of "rebase_event row base reason"]
  by (simp add: consistent_write_def quad_cols_def rebase_event_def)

section \<open>The sweep keeps the trail\<close>

lemma yields_calibrateTenant:
  assumes "sane_base structural" "sane_cfg cfg" "row_4dp (rs_pair (snd t))"
  shows "yields (calibrateTenant structural cfg (railsOf cfg) now t) (\<lambda>_. True)"
  unfolding calibrateTenant_def [abs_def] Let_def
  apply (rule yields_if)
   apply (rule yields_return, rule TrueI)
  apply (rule yields_if)
   apply (rule yields_return, rule TrueI)
  apply (rule yields_bind [OF yields_read])
  apply (rule yields_sum)
   apply (rule yields_return, rule TrueI)
  apply (rule yields_bind [OF yields_read])
  apply (rule yields_sum)
   apply (rule yields_return, rule TrueI)
  apply (rule yields_option)
   apply (rule yields_return, rule TrueI)
  subgoal for r recent r2 stats x
    apply (cases x)
    apply (simp only: prod.case)
    apply (rule yields_bind [OF yields_call [OF tenant_write_audited]])
     apply (rule decided_write_consistent [OF assms, unfolded scope_inputs_def], simp)
    apply (rule yields_sum; rule yields_return; rule TrueI)
    done
  done

lemma yields_calibrateAgent:
  assumes "sane_base parent" "sane_cfg cfg" "row_4dp (ag_pair a)"
  shows "yields (calibrateAgent structural cfg (railsOf cfg) now owner parentValue parent recent a) (\<lambda>_. True)"
  unfolding calibrateAgent_def [abs_def] Let_def
  apply (rule yields_if)
   apply (rule yields_return, rule TrueI)
  apply (rule yields_if)
   apply (rule yields_return, rule TrueI)
  apply (rule yields_bind [OF yields_read])
  apply (rule yields_sum)
   apply (rule yields_return, rule TrueI)
  apply (rule yields_option)
   apply (rule yields_return, rule TrueI)
  subgoal for r stats x
    apply (cases x)
    apply (simp only: prod.case)
    apply (rule yields_bind [OF yields_call [OF agent_write_audited]])
     apply (rule decided_write_consistent [OF assms, unfolded scope_inputs_def], simp)
    apply (rule yields_sum; rule yields_return; rule TrueI)
    done
  done

lemma yields_agents_loop:
  assumes "\<And>a. a \<in> set as \<Longrightarrow> yields (step a) (\<lambda>_. True)"
  shows "yields (agents_loop step as c) (\<lambda>_. True)"
  using assms
proof (induction as arbitrary: c)
  case Nil
  show ?case by (simp add: yields_def)
next
  case (Cons a as)
  have "yields (\<lambda>w. case step a w of (r, w1) \<Rightarrow> agents_loop step as (tally_agent r c) w1) (\<lambda>_. True)"
    by (rule yields_bind [OF Cons.prems]) (use Cons in auto)
  then show ?case by (simp add: yields_def)
qed


lemma yields_safeSettings:
  "yields (safeSettings owner) (\<lambda>r. \<forall>v. r = Some v \<longrightarrow> row_4dp (rs_pair v))"
  unfolding safeSettings_def [abs_def]
  apply (rule yields_bind [OF yields_read])
  apply (rule yields_sum; rule yields_return)
   apply (auto dest: settings_row_4dp)
  done

lemma listed_agent_4dp: "audit_ok d \<Longrightarrow> a \<in> set (listForCalibration owner d) \<Longrightarrow> row_4dp (ag_pair a)"
  by (auto simp: listForCalibration_def intro: agent_row_4dp)

lemma yields_calibrateAgents:
  assumes "sane_base structural" "sane_cfg cfg" "row_4dp (rs_pair (snd t))"
  shows "yields (calibrateAgents structural cfg (railsOf cfg) now t) (\<lambda>_. True)"
  unfolding calibrateAgents_def [abs_def] Let_def
  apply (rule yields_bind [OF yields_safeSettings])
  subgoal for current
    apply (rule yields_if)
     apply (rule yields_return, rule TrueI)
    apply (rule yields_bind [OF yields_read])
    apply (rule yields_sum)
     apply (rule yields_return, rule TrueI)
    subgoal for r agents
      apply (cases agents)
       apply (simp add: yields_def)
      apply (simp only: list.case)
      apply (rule yields_bind [OF yields_read])
      apply (rule yields_sum)
       apply (rule yields_return, rule TrueI)
      apply (rule yields_agents_loop)
      apply (rule yields_calibrateAgent)
        apply (rule effective_sane [OF assms(1)])
        apply (use assms(3) in \<open>cases current; simp add: option_or_def\<close>)
       apply (rule assms(2))
      apply (metis listed_agent_4dp)
      done
    done
  done

lemma yields_rebaseTenant: "yields (rebaseTenant structural rails t) (\<lambda>_. True)"
  unfolding rebaseTenant_def [abs_def] Let_def
  apply (rule yields_if)
   apply (rule yields_return, rule TrueI)
  apply (rule yields_call [OF tenant_write_audited [OF rebase_write_consistent]])
  done

lemma yields_rebase_loop:
  assumes "\<And>t. yields (step t) (\<lambda>_. True)"
  shows "yields (rebase_loop step ts c) (\<lambda>_. True)"
proof (induction ts arbitrary: c)
  case Nil
  show ?case by (simp add: yields_def)
next
  case (Cons t ts)
  have "yields (\<lambda>w. case step t w of
        (Inl _, w1) \<Rightarrow> rebase_loop step ts (fst c, snd c + 1) w1
      | (Inr ok, w1) \<Rightarrow> rebase_loop step ts (if ok then fst c + 1 else fst c, snd c) w1) (\<lambda>_. True)"
    by (rule yields_bind [OF assms], rule yields_sum) (rule Cons)+
  then show ?case by (simp add: yields_def)
qed

lemma yields_clearAgent: "yields (clearAgent parent a reason) (\<lambda>_. True)"
  unfolding clearAgent_def [abs_def]
  by (rule yields_call [OF agent_write_audited [OF rebase_write_consistent]])

lemma yields_starved: "yields (starved cfg now used a) (\<lambda>_. True)"
  unfolding starved_def [abs_def]
  apply (rule yields_bind [OF yields_read])
  apply (rule yields_sum)
   apply (rule yields_return, rule TrueI)
  apply (rule yields_if)
   apply (rule yields_return, rule TrueI)
  apply (rule yields_bind [OF yields_read])
  apply (rule yields_sum; rule yields_return; rule TrueI)
  done

lemma yields_hygieneAgent: "yields (hygieneAgent structural cfg rails now parentValue a) (\<lambda>_. True)"
  unfolding hygieneAgent_def [abs_def] Let_def
  apply (rule yields_if)
   apply (rule yields_clearAgent)
  apply (rule yields_if)
   apply (rule yields_return, rule TrueI)
  apply (rule yields_bind [OF yields_starved])
  apply (rule yields_sum)
   apply (rule yields_return, rule TrueI)
  apply (rule yields_if)
   apply (rule yields_clearAgent)
  apply (rule yields_return, rule TrueI)
  done

lemma yields_hygiene_loop:
  assumes "\<And>v a. yields (step v a) (\<lambda>_. True)"
  shows "yields (hygiene_loop step as parents cleared) (\<lambda>_. True)"
proof (induction as arbitrary: parents cleared)
  case Nil
  show ?case by (simp add: yields_def)
next
  case (Cons a as)
  have rest: "yields (\<lambda>w. case step v a w of (r, w2) \<Rightarrow> hygiene_loop step as ps (if r = Inr True then cleared + 1 else cleared) w2)
      (\<lambda>_. True)" for v ps
    by (rule yields_bind [OF assms], rule Cons)
  show ?case
  proof (cases "map_of parents (ag_owner a)")
    case (Some v)
    then have "hygiene_loop step (a # as) parents cleared =
        (\<lambda>w. case step v a w of (r, w2) \<Rightarrow> hygiene_loop step as parents (if r = Inr True then cleared + 1 else cleared) w2)"
      by (intro ext) simp
    with rest show ?thesis by simp
  next
    case None
    then have "hygiene_loop step (a # as) parents cleared =
        (\<lambda>w. case safeSettings (ag_owner a) w of (v, w1) \<Rightarrow>
          (case step v a w1 of (r, w2) \<Rightarrow>
             hygiene_loop step as ((ag_owner a, v) # parents) (if r = Inr True then cleared + 1 else cleared) w2))"
      by (intro ext) (simp split: prod.split)
    moreover have "yields (\<lambda>w. case safeSettings (ag_owner a) w of (v, w1) \<Rightarrow>
          (case step v a w1 of (r, w2) \<Rightarrow>
             hygiene_loop step as ((ag_owner a, v) # parents) (if r = Inr True then cleared + 1 else cleared) w2)) (\<lambda>_. True)"
      by (rule yields_bind [OF yields_safeSettings], rule rest)
    ultimately show ?thesis by simp
  qed
qed

lemma yields_hygieneAgents: "yields (hygieneAgents structural cfg rails now) (\<lambda>_. True)"
  unfolding hygieneAgents_def [abs_def]
  apply (rule yields_bind [OF yields_read])
  apply (rule yields_sum)
   apply (rule yields_return, rule TrueI)
  apply (rule yields_hygiene_loop, rule yields_hygieneAgent)
  done

lemma yields_sweep_tenant:
  assumes "sane_base structural" "sane_cfg cfg" "row_4dp (rs_pair (snd t))"
  shows "yields (\<lambda>w. sweep_tenant structural cfg (railsOf cfg) now t (s, w)) (\<lambda>_. True)"
  unfolding sweep_tenant_def Let_def fst_conv snd_conv
  apply (rule yields_bind [OF yields_calibrateTenant [OF assms]])
  apply (rule yields_sum)
   apply (rule yields_return, rule TrueI)
  apply (rule yields_bind [OF yields_calibrateAgents [OF assms]])
  apply (simp add: yields_def split: prod.split)
  done

lemma yields_sweep_loop:
  assumes "sane_base structural" "sane_cfg cfg" "\<forall>t \<in> set ts. row_4dp (rs_pair (snd t))"
  shows "yields (\<lambda>w. foldl (\<lambda>sw t. sweep_tenant structural cfg (railsOf cfg) now t sw) (s, w) ts) (\<lambda>_. True)"
  using assms(3)
proof (induction ts arbitrary: s)
  case Nil
  show ?case by (simp add: yields_def)
next
  case (Cons t ts)
  have "yields (\<lambda>w. case sweep_tenant structural cfg (railsOf cfg) now t (s, w) of
      (s1, w1) \<Rightarrow> foldl (\<lambda>sw t. sweep_tenant structural cfg (railsOf cfg) now t sw) (s1, w1) ts) (\<lambda>_. True)"
    by (rule yields_bind [OF yields_sweep_tenant [OF assms(1,2)]]) (use Cons in auto)
  then show ?case by simp
qed

lemma yields_sweep:
  assumes "sane_base structural" "sane_cfg cfg"
  shows "yields (runCalibrationOccurrence structural cfg (railsOf cfg) now) (\<lambda>_. True)"
  unfolding runCalibrationOccurrence_def [abs_def] Let_def
  apply (rule yields_bind [OF yields_read])
  apply (rule yields_bind [OF yields_rebase_loop [OF yields_rebaseTenant]])
  subgoal for r c
    apply (cases c)
    apply (simp only: prod.case)
    apply (rule yields_bind [OF yields_hygieneAgents])
    apply (rule yields_bind [OF yields_read])
    apply (rule yields_sum)
     apply (rule yields_return, rule TrueI)
    apply (rule yields_sweep_loop [OF assms])
    apply (auto simp: listCalibrationEnabled_def intro: listed_row_4dp)
    done
  done


text \<open>C5 (invariant). The audit trail explains the tables: however the sweep interleaves with users,
  other replicas, lost answers and refused writes, afterwards every stored pair, of a tenant and of
  an agent, is what the last event of its scope says (none after a revert or rebase), a tenant's
  epoch is the number of its events, and no event of any tenant was lost or rewritten. Agents may be
  deleted meanwhile, their events stay, and other replicas' writes are taken to say in their events
  what they write, as those of this sweep are shown to.\<close>

theorem sweep_keeps_audit_trail:
  assumes "sane_base structural" "sane_cfg cfg" "world_ok w"
  shows "audit_ok (cw_db (snd (runCalibrationOccurrence structural cfg (railsOf cfg) now w)))
    \<and> grows (cw_db w) (cw_db (snd (runCalibrationOccurrence structural cfg (railsOf cfg) now w)))"
  using yields_sweep [OF assms(1,2), of now] assms(3) by (simp add: yields_def world_ok_def)

definition sample_settings :: settings_value where
  "sample_settings = \<lparr>rs_structuralEnabled = True, rs_cascadeEnabled = True, rs_semanticEnabled = False,
     rs_learningEnabled = False, rs_learningEpoch = 0, rs_learningGeneration = 0, rs_calibrationEnabled = True,
     rs_pair = no_pair, rs_epoch = 0, rs_membership = 0\<rparr>"

definition sample_db :: cal_db where
  "sample_db = \<lparr>db_settings = [(''u'', sample_settings)], db_agents = [], db_events = [], db_logs = [], db_now = 0\<rparr>"

definition sample_world :: cal_world where
  "sample_world = \<lparr>cw_db = sample_db,
     cw_script = [\<lparr>tn_others = [ActRevert ''u'' sample_instance, ActElapse 5], tn_fate = AnswerLost\<rparr>]\<rparr>"

lemma sample_world_ok: "world_ok sample_world"
  by (auto simp: world_ok_def sample_world_def sample_db_def sample_settings_def audit_ok_def settings_explained_def
      agents_explained_def settings_get_def scope_events_def row_explained_def replay_def act_ok_def)

theorem sweep_keeps_audit_trail_witness:
  "audit_ok (cw_db (snd (runCalibrationOccurrence sample_instance sample_cfg (railsOf sample_cfg) 0 sample_world)))"
proof -
  have "sane_base sample_instance" "sane_cfg sample_cfg" by code_simp+
  with sweep_keeps_audit_trail sample_world_ok show ?thesis by blast
qed

section \<open>A move that lands\<close>

lemma yieldsD:
  "yields F P \<Longrightarrow> world_ok w \<Longrightarrow> F w = (r, w1) \<Longrightarrow> world_ok w1 \<and> grows (cw_db w) (cw_db w1) \<and> P r"
  unfolding yields_def by (metis fst_conv snd_conv)

lemma grows_same_length:
  "grows d d' \<Longrightarrow> length (scope_events owner None d') = length (scope_events owner None d)
     \<Longrightarrow> scope_events owner None d' = scope_events owner None d"
proof -
  assume g: "grows d d'" and len: "length (scope_events owner None d') = length (scope_events owner None d)"
  from g obtain added where "scope_events owner None d' = scope_events owner None d @ added"
    unfolding grows_def by blast
  with len show ?thesis by simp
qed

lemma calibrateTenant_MovedD:
  assumes "calibrateTenant structural cfg rails now (owner, v) w = (Inr Moved, w')"
  obtains recent w1 stats w2 goal evs where
    "db_read (events_list owner 60 None) w = (Inr recent, w1)"
    "db_read (calibrationStats owner (window_of cfg now) (effectiveThresholds structural (Some (rs_pair v)) rails) (rs_epoch v)
       TenantEvidence) w1 = (Inr stats, w2)"
    "decideMove \<lparr>mi_base = structural, mi_eff = effectiveThresholds structural (Some (rs_pair v)) rails,
       mi_anchor = tenant_anchor structural (rs_pair v), mi_stats = stats, mi_inCooldown = cooldownFor recent None now,
       mi_cfg = cfg, mi_rails = rails, mi_now = now, mi_globalBound = None\<rparr> = Some (goal, evs)"
    "db_call (settings_setCalibrated owner (Some (goal, structural))
       \<lparr>xp_enabled = Some True, xp_pair = rs_pair v, xp_epoch = rs_epoch v, xp_membership = None\<rparr> evs) w2 = (Inr True, w')"
  using assms
  by (auto simp: calibrateTenant_def Let_def split: if_splits prod.splits sum.splits option.splits)

text \<open>C8 (safety). A tenant's move lands only on what it was computed from: if the sweep's write
  succeeds, no threshold event of the tenant (a revert, a rebase, another move) has been recorded since
  the settings it read, calibration is switched on at the commit, the events it adds are the
  calibrator's and start at the pair then in use, and the next read uses the pair they end at.\<close>

theorem landed_move_saw_latest:
  assumes "sane_base structural" "sane_cfg cfg" "world_ok w" "settings_get owner (cw_db w) = Some v"
    "calibrateTenant structural cfg (railsOf cfg) now (owner, v) w = (Inr Moved, w')"
  shows "\<exists>evs v'. scope_events owner None (cw_db w') = scope_events owner None (cw_db w) @ evs \<and> evs \<noteq> []
    \<and> (\<forall>e \<in> set evs. ce_trigger e = CalibratorTrigger)
    \<and> ce_old (hd evs) = effectiveThresholds structural (Some (rs_pair v)) (railsOf cfg)
    \<and> settings_get owner (cw_db w') = Some v' \<and> rs_calibrationEnabled v'
    \<and> effectiveThresholds structural (Some (rs_pair v')) (railsOf cfg) = ce_new (last evs)"
proof -
  let ?eff = "effectiveThresholds structural (Some (rs_pair v)) (railsOf cfg)"
  from assms(5) obtain recent w1 stats w2 goal evs where
    one: "db_read (events_list owner 60 None) w = (Inr recent, w1)" and
    two: "db_read (calibrationStats owner (window_of cfg now) ?eff (rs_epoch v) TenantEvidence) w1 = (Inr stats, w2)" and
    dec: "decideMove \<lparr>mi_base = structural, mi_eff = ?eff, mi_anchor = tenant_anchor structural (rs_pair v),
       mi_stats = stats, mi_inCooldown = cooldownFor recent None now, mi_cfg = cfg, mi_rails = railsOf cfg, mi_now = now,
       mi_globalBound = None\<rparr> = Some (goal, evs)" and
    call: "db_call (settings_setCalibrated owner (Some (goal, structural))
       \<lparr>xp_enabled = Some True, xp_pair = rs_pair v, xp_epoch = rs_epoch v, xp_membership = None\<rparr> evs) w2 = (Inr True, w')"
    by (rule calibrateTenant_MovedD)
  from yieldsD [OF yields_read assms(3) one] have w1: "world_ok w1" "grows (cw_db w) (cw_db w1)" by auto
  from yieldsD [OF yields_read w1(1) two] w1(2) have w2: "world_ok w2" "grows (cw_db w) (cw_db w2)"
    by (auto intro: grows_trans)
  have row: "row_4dp (rs_pair v)"
    using assms(3,4) settings_row_4dp by (auto simp: world_ok_def)
  have dec': "decideMove (scope_inputs structural (rs_pair v) stats (cooldownFor recent None now) cfg now None) = Some (goal, evs)"
    using dec by (simp add: scope_inputs_def)
  note effect = decided_move_facts [OF assms(1,2) row dec']
  have tx: "audited_tx (settings_setCalibrated owner (Some (goal, structural))
       \<lparr>xp_enabled = Some True, xp_pair = rs_pair v, xp_epoch = rs_epoch v, xp_membership = None\<rparr> evs)"
    by (rule tenant_write_audited [OF decided_write_consistent [OF assms(1,2) row dec']])
  from audited_tx.call_commits [OF tx w2(1), of True] call obtain d where
    d: "audit_ok d" "grows (cw_db w2) d" "settings_setCalibrated owner (Some (goal, structural))
       \<lparr>xp_enabled = Some True, xp_pair = rs_pair v, xp_epoch = rs_epoch v, xp_membership = None\<rparr> evs d = (Inr True, cw_db w')"
    by auto
  have "fst (settings_setCalibrated owner (Some (goal, structural))
       \<lparr>xp_enabled = Some True, xp_pair = rs_pair v, xp_epoch = rs_epoch v, xp_membership = None\<rparr> evs d) = Inr True"
    unfolding d(3) by simp
  then obtain r where r0: "settings_get owner d = Some r"
    "matches_expected r \<lparr>xp_enabled = Some True, xp_pair = rs_pair v, xp_epoch = rs_epoch v, xp_membership = None\<rparr>"
    "settings_setCalibrated owner (Some (goal, structural))
       \<lparr>xp_enabled = Some True, xp_pair = rs_pair v, xp_epoch = rs_epoch v, xp_membership = None\<rparr> evs d =
      (Inr True, append_events owner None evs (d\<lparr>db_settings :=
         obj_put owner (r\<lparr>rs_pair := quad_cols (Some (goal, structural)), rs_epoch := rs_epoch r + length evs\<rparr>) (db_settings d)\<rparr>))"
    by (rule settings_setCalibrated_cases [OF disjI2])
  have w': "cw_db w' = append_events owner None evs (d\<lparr>db_settings :=
         obj_put owner (r\<lparr>rs_pair := quad_cols (Some (goal, structural)), rs_epoch := rs_epoch r + length evs\<rparr>) (db_settings d)\<rparr>)"
    using r0(3) unfolding d(3) by simp
  have r: "settings_get owner d = Some r" "rs_epoch r = rs_epoch v" "rs_calibrationEnabled r"
    using r0(1,2) by (simp_all add: matches_expected_def)
  have epoch: "rs_epoch x = length (scope_events owner None e)" if "audit_ok e" "settings_get owner e = Some x" for x e
  proof -
    have "row_explained (settings_get owner e) (scope_events owner None e)"
      using that(1) by (simp add: audit_ok_def settings_explained_def)
    then show ?thesis by (simp add: that(2))
  qed
  have "scope_events owner None d = scope_events owner None (cw_db w)"
  proof (rule grows_same_length)
    show "grows (cw_db w) d" using w2(2) d(2) by (rule grows_trans)
    show "length (scope_events owner None d) = length (scope_events owner None (cw_db w))"
      using epoch [OF d(1) r(1)] epoch [of "cw_db w" v] assms(3,4) r(2) by (simp add: world_ok_def)
  qed
  then have hist: "scope_events owner None (cw_db w') = scope_events owner None (cw_db w) @ evs"
    by (simp add: w' scope_events_cong [of "d\<lparr>db_settings := _\<rparr>" d])
  have first: "ce_old (hd evs) = ?eff" using effect(2,3) by (cases evs) auto
  have after: "ce_new (last evs) = goal" by (rule linked_last [OF effect(2,3)])
  have trig: "\<forall>e \<in> set evs. ce_trigger e = CalibratorTrigger" using effect(4) by (auto simp: evidenced_def)
  have new: "settings_get owner (cw_db w') = Some (r\<lparr>rs_pair := quad_cols (Some (goal, structural)), rs_epoch := rs_epoch r + length evs\<rparr>)"
    by (simp add: w')
  have "effectiveThresholds structural (Some (quad_cols (Some (goal, structural)))) (railsOf cfg) = goal"
    using effect(1) by (simp add: effectiveThresholds_def)
  with hist first after trig new effect(3) r(3) show ?thesis
    by (intro exI [of _ evs] exI [of _ "r\<lparr>rs_pair := quad_cols (Some (goal, structural)), rs_epoch := rs_epoch r + length evs\<rparr>"] conjI)
      simp_all
qed


text \<open>A tenant with forty-five failures among sixty decided answers just below its high threshold.\<close>

definition scored_row :: "rat \<Rightarrow> bool \<Rightarrow> log_row" where
  "scored_row score fails =
     \<lparr>lg_owner = ''u'', lg_agent = None, lg_createdAt = 5, lg_status = ''success'', lg_layer = ''cascade'',
      lg_band = Some ''ambiguous'', lg_bandSource = Some ''threshold'', lg_score = Some score, lg_scope = Some ''tenant'',
      lg_epoch = Some 0, lg_escalated = fails, lg_escalationSource = (if fails then Some ''quality_gate'' else None),
      lg_qualitySignal = Some 1\<rparr>"

definition busy_db :: cal_db where
  "busy_db = sample_db\<lparr>db_logs := replicate 45 (scored_row (29 / 50) True) @ replicate 15 (scored_row (29 / 50) False)
     @ replicate 10 (scored_row (27 / 100) False)\<rparr>"

lemma busy_stats: "calibrationStats ''u'' (window_of sample_cfg 10) sample_instance 0 TenantEvidence busy_db = sample_stats"
proof -
  have keep: "in_range ''u'' (window_of sample_cfg 10) (scored_row s b) \<and> calibrationShape (scored_row s b)
      \<and> calibrationMembership ''u'' TenantEvidence 0 busy_db (scored_row s b)" for s b
    by (simp add: in_range_def window_of_def sample_cfg_def DAY_MILLIS_def scored_row_def calibrationShape_def
        calibrationMembership_def tenant_scoped_def)
  have dec: "calibrationDecided (scored_row s b)" "calibrationFailure (scored_row s b) = b" for s b
    by (simp_all add: calibrationDecided_def calibrationPass_def calibrationFailure_def scored_row_def)
  have zones: "high_zone sample_instance (scored_row (29 / 50) b)" "\<not> low_zone sample_instance (scored_row (29 / 50) b)"
    "\<not> high_zone sample_instance (scored_row (27 / 100) b)" "low_zone sample_instance (scored_row (27 / 100) b)" for b
    by (simp_all add: high_zone_def low_zone_def scored_row_def sample_instance_def EDGE_WIDTH_def)
  show ?thesis
    unfolding calibrationStats_def Let_def
    by (simp add: busy_db_def [THEN arg_cong, of db_logs] keep edge_count_def dec zones sample_stats_def filter_replicate)
qed

lemma busy_move:
  "\<exists>w'. calibrateTenant sample_instance sample_cfg (railsOf sample_cfg) 10 (''u'', sample_settings)
     \<lparr>cw_db = busy_db, cw_script = []\<rparr> = (Inr Moved, w')"
proof -
  let ?w = "\<lparr>cw_db = busy_db, cw_script = []\<rparr>"
  have eff: "effectiveThresholds sample_instance (Some (rs_pair sample_settings)) (railsOf sample_cfg) = sample_instance"
    by (simp add: sample_settings_def effectiveThresholds_def applyPair_def no_pair_def)
  have row: "rs_pair sample_settings = no_pair" "rs_epoch sample_settings = 0" by (simp_all add: sample_settings_def)
  have go: "\<not> calibrationHalted sample_instance sample_instance (railsOf sample_cfg)" by code_simp
  have quiet: "cooldownFor (events_list ''u'' 60 None busy_db) None 10 = (\<lambda>_. False)"
    by (intro ext) (simp add: cooldownFor_def events_list_def busy_db_def sample_db_def)
  obtain evs where dec: "decideMove (scope_inputs sample_instance no_pair sample_stats (\<lambda>_. False) sample_cfg 10 None)
     = Some (\<lparr>bp_high = 29 / 50, bp_low = 1 / 4\<rparr>, evs)"
    using sample_move by blast
  have get: "settings_get ''u'' busy_db = Some sample_settings"
    by (simp add: settings_get_def busy_db_def sample_db_def)
  have check: "settings_check (sample_settings\<lparr>rs_pair := quad_cols (Some (\<lparr>bp_high = 29 / 50, bp_low = 1 / 4\<rparr>, sample_instance)),
      rs_epoch := n\<rparr>)" for n
    by (simp add: settings_check_def sample_settings_def quad_cols_def)
  have "fst (settings_setCalibrated ''u'' (Some (\<lparr>bp_high = 29 / 50, bp_low = 1 / 4\<rparr>, sample_instance))
      \<lparr>xp_enabled = Some True, xp_pair = rs_pair sample_settings, xp_epoch = rs_epoch sample_settings, xp_membership = None\<rparr>
      evs busy_db) = Inr True"
    using check [of "rs_epoch sample_settings + length evs"]
    by (simp add: settings_setCalibrated_def get matches_expected_def settings_put_def sample_settings_def)
  then obtain d where d: "settings_setCalibrated ''u'' (Some (\<lparr>bp_high = 29 / 50, bp_low = 1 / 4\<rparr>, sample_instance))
      \<lparr>xp_enabled = Some True, xp_pair = rs_pair sample_settings, xp_epoch = rs_epoch sample_settings, xp_membership = None\<rparr>
      evs busy_db = (Inr True, d)"
    by (metis prod.collapse)
  note dec1 = dec [unfolded scope_inputs_def, folded row(1), unfolded eff]
  have none: "cal_high (rs_pair sample_settings) = None" by (simp add: row no_pair_def)
  have "calibrateTenant sample_instance sample_cfg (railsOf sample_cfg) 10 (''u'', sample_settings) ?w
      = (Inr Moved, ?w\<lparr>cw_db := d\<rparr>)"
    unfolding calibrateTenant_def Let_def fst_conv snd_conv eff
    using go dec1 d none by (simp add: db_read_def db_call_def busy_stats quiet row)
  then show ?thesis by blast
qed

theorem landed_move_saw_latest_witness:
  "\<exists>w' evs. calibrateTenant sample_instance sample_cfg (railsOf sample_cfg) 10 (''u'', sample_settings)
       \<lparr>cw_db = busy_db, cw_script = []\<rparr> = (Inr Moved, w')
     \<and> evs \<noteq> [] \<and> scope_events ''u'' None (cw_db w') = evs \<and> ce_old (hd evs) = sample_instance"
proof -
  obtain w' where w': "calibrateTenant sample_instance sample_cfg (railsOf sample_cfg) 10 (''u'', sample_settings)
     \<lparr>cw_db = busy_db, cw_script = []\<rparr> = (Inr Moved, w')"
    using busy_move by blast
  have sane: "sane_base sample_instance" "sane_cfg sample_cfg" by code_simp+
  have ok: "world_ok \<lparr>cw_db = busy_db, cw_script = []\<rparr>"
    using sample_world_ok audit_ok_irrelevant [of sample_db busy_db] by (simp add: world_ok_def sample_world_def busy_db_def)
  have get: "settings_get ''u'' (cw_db \<lparr>cw_db = busy_db, cw_script = []\<rparr>) = Some sample_settings"
    by (simp add: settings_get_def busy_db_def sample_db_def)
  have eff: "effectiveThresholds sample_instance (Some (rs_pair sample_settings)) (railsOf sample_cfg) = sample_instance"
    by (simp add: sample_settings_def effectiveThresholds_def applyPair_def no_pair_def)
  have "scope_events ''u'' None (cw_db \<lparr>cw_db = busy_db, cw_script = []\<rparr>) = []"
    by (simp add: scope_events_def busy_db_def sample_db_def)
  with landed_move_saw_latest [OF sane ok get w'] w' eff show ?thesis by auto
qed

end
