(* ===== verification/CalibrationLimits.thy ===== *)
theory CalibrationLimits
  imports CalibrationAudit
begin

text \<open>
  Where calibration does not do what its comments say, each shown on a small instance.
\<close>

text \<open>A pair whose anchor is stale but which equals the new instance thresholds is not seen as stale,
  although the hot path does not use it; its old anchor goes on bounding the drift, so after an
  operator adopts a pair at the cap the high edge never moves again.\<close>

definition adopted_instance :: band_pair where
  "adopted_instance = \<lparr>bp_high = 1 / 2, bp_low = 1 / 4\<rparr>"

definition adopted_row :: pair_row where
  "adopted_row = quad_row (1 / 2) (1 / 4) (3 / 5) (1 / 4)"

lemma stale_anchor_not_seen:
  "\<not> pairIsStale adopted_instance adopted_row (railsOf sample_cfg)"
  "applyPair adopted_instance (Some adopted_row) (railsOf sample_cfg) = None"
  "high_candidate (scope_inputs adopted_instance adopted_row stats cool sample_cfg now bound) = []"
proof -
  show "\<not> pairIsStale adopted_instance adopted_row (railsOf sample_cfg)" by code_simp
  show none: "applyPair adopted_instance (Some adopted_row) (railsOf sample_cfg) = None" by code_simp
  have eff: "mi_eff (scope_inputs adopted_instance adopted_row stats cool sample_cfg now bound) = adopted_instance"
    by (simp add: scope_inputs_def effectiveThresholds_def none)
  have "r4 (bp_high adopted_instance - cb_step sample_cfg)
      < r4 (bp_high (tenant_anchor adopted_instance adopted_row) - cb_maxDrift sample_cfg)" by code_simp
  then show "high_candidate (scope_inputs adopted_instance adopted_row stats cool sample_cfg now bound) = []"
    unfolding high_candidate_def Let_def eff by (simp add: scope_inputs_def)
qed

text \<open>The cooldown of a tenant is read off its sixty newest events of all scopes: sixty agent events
  push its own, a moment old, out of sight.\<close>

definition plain_event :: "cal_edge \<Rightarrow> cal_event" where
  "plain_event edge = \<lparr>ce_trigger = CalibratorTrigger, ce_old = sample_instance, ce_new = sample_instance,
     ce_anchor = sample_instance, ce_window = None, ce_edge = Some edge, ce_samples = None, ce_failures = None, ce_reason = []\<rparr>"

definition crowded_db :: cal_db where
  "crowded_db = sample_db\<lparr>db_now := 1000, db_events :=
     \<lparr>er_owner = ''u'', er_agent = None, er_event = plain_event HighEdge, er_ordinal = 0, er_createdAt = 900\<rparr>
     # replicate 60 \<lparr>er_owner = ''u'', er_agent = Some ''a'', er_event = plain_event LowEdge, er_ordinal = 0, er_createdAt = 950\<rparr>\<rparr>"

lemma sort_key_replicate: "sort_key f (replicate n x) = replicate n x"
  by (induction n) (auto intro: insort_is_Cons)

lemma sort_key_after: "f y > f x \<Longrightarrow> sort_key f (y # replicate n x) = replicate n x @ [y]"
proof -
  assume less: "f y > f x"
  have "insort_key f y (replicate n x) = replicate n x @ [y]"
    using less by (induction n) auto
  then show ?thesis by (simp add: sort_key_replicate)
qed

lemma cooldown_forgotten:
  "cooldownFor (events_list ''u'' 60 (Some ''tenant'') crowded_db) None 1000 HighEdge"
  "\<not> cooldownFor (events_list ''u'' 60 None crowded_db) None 1000 HighEdge"
proof -
  let ?t = "\<lparr>er_owner = ''u'', er_agent = None, er_event = plain_event HighEdge, er_ordinal = 0, er_createdAt = 900\<rparr>"
  let ?a = "\<lparr>er_owner = ''u'', er_agent = Some ''a'', er_event = plain_event LowEdge, er_ordinal = 0, er_createdAt = 950\<rparr>"
  have ev: "db_events crowded_db = ?t # replicate 60 ?a" by (simp add: crowded_db_def)
  have "sort_key (\<lambda>e. - int (er_ordinal e)) (?t # replicate 60 ?a) = ?t # replicate 60 ?a"
    by (simp add: sort_key_replicate insort_is_Cons)
  moreover have "sort_key (\<lambda>e. - er_createdAt e) (?t # replicate 60 ?a) = replicate 60 ?a @ [?t]"
    by (rule sort_key_after) simp
  ultimately have "events_list ''u'' 60 None crowded_db = replicate 60 ?a"
    by (simp add: events_list_def ev filter_replicate)
  then show "\<not> cooldownFor (events_list ''u'' 60 None crowded_db) None 1000 HighEdge"
    by (simp add: cooldownFor_def list_ex_iff)
  show "cooldownFor (events_list ''u'' 60 (Some ''tenant'') crowded_db) None 1000 HighEdge"
    by (simp add: events_list_def ev filter_replicate cooldownFor_def plain_event_def COOLDOWN_DAYS_def DAY_MILLIS_def)
qed

text \<open>An agent pair the global bound refuses still applies on top of its tenant, which is what the
  settings view calls active.\<close>

lemma unused_pair_shown_active:
  "applyPair \<lparr>bp_high = 1 / 2, bp_low = 1 / 4\<rparr> (Some (quad_row (12 / 25) (1 / 4) (1 / 2) (1 / 4))) sample_rails \<noteq> None"
  "snd (resolveThresholds sample_instance (Some (quad_row (1 / 2) (1 / 4) (3 / 5) (1 / 4)))
     (Some (quad_row (12 / 25) (1 / 4) (1 / 2) (1 / 4))) sample_rails) = TenantScope"
  by code_simp+

text \<open>The revert of an agent names the pair it read: a move that lands in between turns it into a
  no-op, and the pair stays.\<close>

definition paired_db :: cal_db where
  "paired_db = sample_db\<lparr>db_agents := [\<lparr>ag_id = ''a'', ag_owner = ''u'', ag_name = ''n'',
     ag_pair = quad_row (29 / 50) (1 / 4) (3 / 5) (1 / 4), ag_epoch = 1\<rparr>]\<rparr>"

definition racing_move :: cal_act where
  "racing_move = ActMoveAgent ''u'' ''a'' (\<lparr>bp_high = 14 / 25, bp_low = 1 / 4\<rparr>, sample_instance)
     \<lparr>ax_pair = quad_row (29 / 50) (1 / 4) (3 / 5) (1 / 4), ax_epoch = 1\<rparr>
     \<lparr>tp_high = None, tp_low = None, tp_epoch = 0, tp_membership = 0\<rparr> [plain_event HighEdge]"

lemma revert_agent_lost:
  fixes turns
  defines "turns \<equiv> [\<lparr>tn_others = [], tn_fate = Answered\<rparr>, \<lparr>tn_others = [], tn_fate = Answered\<rparr>,
      \<lparr>tn_others = [racing_move], tn_fate = Answered\<rparr>]"
  shows "fst (revertAgent sample_instance sample_rails ''u'' ''a'' \<lparr>cw_db = paired_db, cw_script = turns\<rparr>) = Inr (Some False)"
  by (simp add: turns_def revertAgent_def db_read_def db_call_def listForCalibration_def paired_db_def sample_db_def
      quad_row_def racing_move_def act_db_def agent_setCalibrated_def settings_get_def sample_settings_def pin_holds_def
      no_pair_def agent_check_def quad_cols_def sample_instance_def Let_def append_events_def)

text \<open>The evidence view counts rows its figures are compared with the calibrator's over, but without the
  membership: an agent's own rows under an equal epoch appear in the tenant's total.\<close>

lemma evidence_counts_agent_rows:
  fixes d
  defines "d \<equiv> sample_db\<lparr>db_logs := [scored_row (29 / 50) True \<lparr>lg_scope := Some ''agent'', lg_agent := Some ''a''\<rparr>]\<rparr>"
  shows "es_samples (cs_highEdge (calibrationStats ''u'' (0, 10) sample_instance 0 TenantEvidence d)) = 0"
    "es_samples (ee_highCurrent (calibrationEvidence_total ''u'' (0, 10) sample_instance 0 d)) = 1"
  by (simp_all add: d_def calibrationStats_def calibrationEvidence_total_def Let_def in_range_def calibrationShape_def
      calibrationMembership_def tenant_scoped_def scored_row_def edge_count_def calibrationDecided_def
      calibrationFailure_def high_zone_def sample_instance_def EDGE_WIDTH_def)

text \<open>Learning switched on together with semantic switched off is not normalized: the row's check
  refuses it.\<close>

lemma learning_not_normalized:
  "fst (set_layers ''u'' \<lparr>dto_structural = True, dto_cascade = False, dto_semantic = Some False,
     dto_semanticLearning = Some True, dto_calibration = None\<rparr> \<lparr>cw_db = sample_db, cw_script = []\<rparr>) = Inl ()"
  by (simp add: set_layers_def db_call_def settings_upsert_tx_def settings_get_def sample_db_def upsert_update_def
      settings_put_def settings_check_def sample_settings_def)

text \<open>A tenant's write does not compare the membership generation, and an agent's does not look at the
  tenant's switch.\<close>

lemma tenant_write_ignores_membership:
  "matches_expected (row\<lparr>rs_membership := g\<rparr>)
     \<lparr>xp_enabled = Some True, xp_pair = rs_pair v, xp_epoch = rs_epoch v, xp_membership = None\<rparr>
   = matches_expected row
     \<lparr>xp_enabled = Some True, xp_pair = rs_pair v, xp_epoch = rs_epoch v, xp_membership = None\<rparr>"
  by (simp add: matches_expected_def)

lemma agent_write_ignores_switch: "pin_holds pin (v\<lparr>rs_calibrationEnabled := b\<rparr>) = pin_holds pin v"
  by (simp add: pin_holds_def split: option.split)

end
