(* ===== verification/Batch.thy ===== *)
theory Batch
  imports Budgets Pricing ProviderErrors
begin

text \<open>
  Asynchronous batch jobs, the data: \<open>shared/batch-jobs.ts\<close> (the vocabulary), the \<open>batch_job\<close> table
  with its row checks, the statements of \<open>database/batch-jobs.queries.ts\<close>, the spend ceiling of
  \<open>batch/batch-ceiling.ts\<close> and the item rows a settlement writes (\<open>batch/batch-settlement.ts\<close>).

  The job table is a map from job id to row and the ledger the list of inserted item rows. A
  statement takes the time of its \<open>new Date()\<close> and answers \<open>Inl\<close> when the database refuses the row;
  then nothing is written. Instants are epoch milliseconds, rates are exact rationals. The digest
  that names an item row is the parameter \<open>digest\<close>. The columns \<open>org_id\<close>, \<open>protocol\<close> and \<open>price_mode\<close>,
  written once and read by none of this code, are left out.
\<close>

section \<open>Vocabulary\<close>

datatype job_status =
    JSubmitting | JSubmissionUnknown | JValidating | JInProgress | JFinalizing
  | JCompleted | JFailed | JExpired | JCancelling | JCancelled

definition BATCH_JOB_TERMINAL_STATUSES :: "job_status list" where
  "BATCH_JOB_TERMINAL_STATUSES = [JCompleted, JFailed, JExpired, JCancelled]"

definition isBatchJobTerminal :: "job_status \<Rightarrow> bool" where
  "isBatchJobTerminal s \<longleftrightarrow> s \<in> set BATCH_JOB_TERMINAL_STATUSES"

datatype job_endpoint = ChatCompletions | Messages

datatype job_error =
    EAuth | EPermission | ERateLimit | EUnavailable | EBadRequest | EUnknownModel | EInsufficientFunds
  | EContentPolicy | EPolicyBlock | EUpstreamRejected | EOversizedResponse | ECredential
  | ESubmitLost | ESubmitUnresolved | EUpstreamStatusUnknown | EProviderMissing

definition BATCH_KIND_OF :: "provider_error_kind \<Rightarrow> job_error" where
  "BATCH_KIND_OF k =
     (case k of
        auth \<Rightarrow> EAuth | permission \<Rightarrow> EPermission | rate_limit \<Rightarrow> ERateLimit | unavailable \<Rightarrow> EUnavailable
      | bad_request \<Rightarrow> EBadRequest | unknown_model \<Rightarrow> EUnknownModel | insufficient_funds \<Rightarrow> EInsufficientFunds
      | content_policy \<Rightarrow> EContentPolicy | policy_block \<Rightarrow> EPolicyBlock | upstream_rejected \<Rightarrow> EUpstreamRejected
      | oversized_response \<Rightarrow> EOversizedResponse | credential \<Rightarrow> ECredential
      | quota_exhausted \<Rightarrow> EUpstreamRejected | risk_control \<Rightarrow> EUpstreamRejected
      | plan_entitlement \<Rightarrow> EUpstreamRejected | plan_inactive \<Rightarrow> EUpstreamRejected)"

section \<open>The job table\<close>

record job_row =
  bj_id :: string
  bj_owner :: string
  bj_agentId :: string
  bj_providerId :: string
  bj_modelId :: string
  bj_tierAssigned :: "string option"
  bj_upstreamBatchId :: "string option"
  bj_endpoint :: job_endpoint
  bj_providerKind :: "provider_kind option"
  bj_status :: job_status
  bj_itemCount :: int
  bj_completedCount :: int
  bj_failedCount :: int
  bj_estimatedInputTokens :: int
  bj_inputPrice :: "rat option"
  bj_outputPrice :: "rat option"
  bj_cacheReadPrice :: "rat option"
  bj_cacheWritePrice :: "rat option"
  bj_priceVersionId :: "string option"
  bj_priceSource :: "price_source option"
  bj_reservedCeilingMicros :: "int option"
  bj_settledCostMicros :: "int option"
  bj_cancelRequested :: bool
  bj_completionWindowMs :: int
  bj_submittedAt :: int
  bj_updatedAt :: int
  bj_lastPolledAt :: "int option"
  bj_stalledSince :: "int option"
  bj_terminalAt :: "int option"
  bj_resultsExpireAt :: "int option"
  bj_errorKind :: "job_error option"

text \<open>The row checks of the table that the columns above can break.\<close>

definition jobs_check :: "job_row \<Rightarrow> bool" where
  "jobs_check r \<longleftrightarrow>
     bj_itemCount r > 0
   \<and> bj_completedCount r \<ge> 0 \<and> bj_failedCount r \<ge> 0 \<and> bj_completedCount r + bj_failedCount r \<le> bj_itemCount r
   \<and> bj_estimatedInputTokens r \<ge> 0
   \<and> ((bj_inputPrice r = None) = (bj_outputPrice r = None)) \<and> ((bj_inputPrice r = None) = (bj_priceSource r = None))
   \<and> (case bj_priceSource r of None \<Rightarrow> True | Some s \<Rightarrow> s \<in> set [PsBundled, PsRefresh, PsManual, PsNativeFamily, PsListed])
   \<and> (case bj_reservedCeilingMicros r of None \<Rightarrow> True | Some m \<Rightarrow> m \<ge> 0)
   \<and> (case bj_settledCostMicros r of None \<Rightarrow> True | Some m \<Rightarrow> m \<ge> 0)
   \<and> bj_completionWindowMs r > 0
   \<and> (bj_terminalAt r = None \<longleftrightarrow> \<not> isBatchJobTerminal (bj_status r))"

type_synonym job_table = "string \<rightharpoonup> job_row"
type_synonym 'a job_stmt = "job_table \<Rightarrow> (unit + 'a) \<times> job_table"

definition store_job :: "job_row \<Rightarrow> job_table \<Rightarrow> (unit + job_row option) \<times> job_table" where
  "store_job r db = (if jobs_check r then (Inr (Some r), db(bj_id r \<mapsto> r)) else (Inl (), db))"

text \<open>The row a principal's statement addresses: by id, under the ownership predicate.\<close>

definition owned_job :: "string \<Rightarrow> string \<Rightarrow> job_table \<Rightarrow> job_row option" where
  "owned_job owner i db = (case db i of None \<Rightarrow> None | Some r \<Rightarrow> if bj_owner r = owner then Some r else None)"

record job_insert =
  ji_id :: string
  ji_agentId :: string
  ji_providerId :: string
  ji_modelId :: string
  ji_tierAssigned :: "string option"
  ji_endpoint :: job_endpoint
  ji_providerKind :: "provider_kind option"
  ji_itemCount :: int
  ji_estimatedInputTokens :: int
  ji_inputPrice :: "rat option"
  ji_outputPrice :: "rat option"
  ji_cacheReadPrice :: "rat option"
  ji_cacheWritePrice :: "rat option"
  ji_priceVersionId :: "string option"
  ji_priceSource :: "price_source option"
  ji_reservedCeilingMicros :: "int option"
  ji_completionWindowMs :: int

definition row_of_insert :: "string \<Rightarrow> job_insert \<Rightarrow> int \<Rightarrow> job_row" where
  "row_of_insert owner v now =
     \<lparr>bj_id = ji_id v, bj_owner = owner, bj_agentId = ji_agentId v, bj_providerId = ji_providerId v,
      bj_modelId = ji_modelId v, bj_tierAssigned = ji_tierAssigned v, bj_upstreamBatchId = None,
      bj_endpoint = ji_endpoint v, bj_providerKind = ji_providerKind v, bj_status = JSubmitting,
      bj_itemCount = ji_itemCount v, bj_completedCount = 0, bj_failedCount = 0,
      bj_estimatedInputTokens = ji_estimatedInputTokens v, bj_inputPrice = ji_inputPrice v,
      bj_outputPrice = ji_outputPrice v, bj_cacheReadPrice = ji_cacheReadPrice v,
      bj_cacheWritePrice = ji_cacheWritePrice v, bj_priceVersionId = ji_priceVersionId v,
      bj_priceSource = ji_priceSource v, bj_reservedCeilingMicros = ji_reservedCeilingMicros v,
      bj_settledCostMicros = None, bj_cancelRequested = False, bj_completionWindowMs = ji_completionWindowMs v,
      bj_submittedAt = now, bj_updatedAt = now, bj_lastPolledAt = None, bj_stalledSince = None,
      bj_terminalAt = None, bj_resultsExpireAt = None, bj_errorKind = None\<rparr>"

definition jobs_insert :: "string \<Rightarrow> job_insert \<Rightarrow> int \<Rightarrow> job_row job_stmt" where
  "jobs_insert owner v now db =
     (let r = row_of_insert owner v now in
      if db (ji_id v) = None \<and> jobs_check r then (Inr r, db(ji_id v \<mapsto> r)) else (Inl (), db))"

text \<open>A patch names the columns it sets.\<close>

record job_patch =
  jp_status :: "job_status option"
  jp_upstreamBatchId :: "string option option"
  jp_completedCount :: "int option"
  jp_failedCount :: "int option"
  jp_cancelRequested :: "bool option"
  jp_errorKind :: "job_error option option"
  jp_lastPolledAt :: "int option option"
  jp_stalledSince :: "int option option"
  jp_resultsExpireAt :: "int option option"

definition empty_patch :: job_patch where
  "empty_patch =
     \<lparr>jp_status = None, jp_upstreamBatchId = None, jp_completedCount = None, jp_failedCount = None,
      jp_cancelRequested = None, jp_errorKind = None, jp_lastPolledAt = None, jp_stalledSince = None,
      jp_resultsExpireAt = None\<rparr>"

definition patched :: "'a option \<Rightarrow> 'a \<Rightarrow> 'a" where
  "patched p old = (case p of None \<Rightarrow> old | Some v \<Rightarrow> v)"

definition patch_row :: "job_patch \<Rightarrow> int \<Rightarrow> job_row \<Rightarrow> job_row" where
  "patch_row p now r =
     r\<lparr>bj_status := patched (jp_status p) (bj_status r),
       bj_upstreamBatchId := patched (jp_upstreamBatchId p) (bj_upstreamBatchId r),
       bj_completedCount := patched (jp_completedCount p) (bj_completedCount r),
       bj_failedCount := patched (jp_failedCount p) (bj_failedCount r),
       bj_cancelRequested := patched (jp_cancelRequested p) (bj_cancelRequested r),
       bj_errorKind := patched (jp_errorKind p) (bj_errorKind r),
       bj_lastPolledAt := patched (jp_lastPolledAt p) (bj_lastPolledAt r),
       bj_stalledSince := patched (jp_stalledSince p) (bj_stalledSince r),
       bj_resultsExpireAt := patched (jp_resultsExpireAt p) (bj_resultsExpireAt r),
       bj_updatedAt := now\<rparr>"

definition jobs_update ::
  "string \<Rightarrow> string \<Rightarrow> job_patch \<Rightarrow> job_status list option \<Rightarrow> int \<Rightarrow> job_row option job_stmt" where
  "jobs_update owner i p whenStatusIn now db =
     (case owned_job owner i db of
        None \<Rightarrow> (Inr None, db)
      | Some r \<Rightarrow>
          if (case whenStatusIn of None \<Rightarrow> True | Some ss \<Rightarrow> bj_status r \<in> set ss)
          then store_job (patch_row p now r) db else (Inr None, db))"

record job_settlement =
  js_status :: job_status
  js_completedCount :: int
  js_failedCount :: int
  js_settledCostMicros :: int
  js_terminalAt :: int
  js_errorKind :: "job_error option"
  js_resultsExpireAt :: "int option"

definition settle_row :: "job_settlement \<Rightarrow> int \<Rightarrow> job_row \<Rightarrow> job_row" where
  "settle_row s now r =
     r\<lparr>bj_status := js_status s, bj_completedCount := js_completedCount s, bj_failedCount := js_failedCount s,
       bj_settledCostMicros := Some (js_settledCostMicros s), bj_terminalAt := Some (js_terminalAt s),
       bj_errorKind := js_errorKind s, bj_resultsExpireAt := js_resultsExpireAt s,
       bj_stalledSince := None, bj_updatedAt := now\<rparr>"

definition jobs_settle ::
  "string \<Rightarrow> string \<Rightarrow> job_settlement \<Rightarrow> job_status list option \<Rightarrow> int \<Rightarrow> job_row option job_stmt" where
  "jobs_settle owner i s whenStatusIn now db =
     (let allowed = (case whenStatusIn of None \<Rightarrow> [JFinalizing, JCancelling] | Some ss \<Rightarrow> ss) in
      case owned_job owner i db of
        None \<Rightarrow> (Inr None, db)
      | Some r \<Rightarrow>
          if bj_status r \<in> set allowed \<and> bj_terminalAt r = None
          then store_job (settle_row s now r) db else (Inr None, db))"

definition jobs_discard :: "string \<Rightarrow> string \<Rightarrow> bool job_stmt" where
  "jobs_discard owner i db =
     (case owned_job owner i db of
        None \<Rightarrow> (Inr False, db)
      | Some r \<Rightarrow>
          if bj_status r = JSubmitting \<and> bj_upstreamBatchId r = None then (Inr True, db(i := None))
          else (Inr False, db))"

definition fail_row :: "job_error \<Rightarrow> int \<Rightarrow> job_row \<Rightarrow> job_row" where
  "fail_row e now r =
     r\<lparr>bj_status := JFailed, bj_errorKind := Some e, bj_settledCostMicros := Some 0,
       bj_terminalAt := Some now, bj_stalledSince := None, bj_updatedAt := now\<rparr>"

definition jobs_fail :: "string \<Rightarrow> string \<Rightarrow> job_error \<Rightarrow> int \<Rightarrow> job_row option job_stmt" where
  "jobs_fail owner i e now db =
     (case owned_job owner i db of
        None \<Rightarrow> (Inr None, db)
      | Some r \<Rightarrow> if isBatchJobTerminal (bj_status r) then (Inr None, db) else store_job (fail_row e now r) db)"

section \<open>The spend ceiling\<close>

record ceiling_item =
  ci_chars :: int
  ci_maxOutputTokens :: "int option"

record batch_rate =
  br_input :: rat
  br_output :: rat

datatype unbounded_reason = UnknownRate | NoOutputCap

datatype spend_ceiling = BoundedBy int int | UnboundedBy unbounded_reason int   \<comment> \<open>micro-dollars or reason, estimated input tokens\<close>

definition estimateInputTokens :: "int \<Rightarrow> int" where
  "estimateInputTokens chars = (max 0 chars + 3) div 4"

definition item_cap :: "int option \<Rightarrow> ceiling_item \<Rightarrow> int option" where
  "item_cap catalogMax it = (case ci_maxOutputTokens it of Some c \<Rightarrow> Some c | None \<Rightarrow> catalogMax)"

primrec ceiling_loop :: "int option \<Rightarrow> ceiling_item list \<Rightarrow> int \<times> int \<times> bool \<Rightarrow> int \<times> int \<times> bool" where
  "ceiling_loop catalogMax [] acc = acc"
| "ceiling_loop catalogMax (it # items) acc =
     (case acc of (inSum, outSum, uncapped) \<Rightarrow>
        ceiling_loop catalogMax items
          (let inT = inSum + estimateInputTokens (ci_chars it) in
           case item_cap catalogMax it of
             None \<Rightarrow> (inT, outSum, True)
           | Some c \<Rightarrow> if c \<le> 0 then (inT, outSum, True) else (inT, outSum + c, uncapped)))"

definition computeCeiling :: "ceiling_item list \<Rightarrow> batch_rate option \<Rightarrow> int option \<Rightarrow> spend_ceiling" where
  "computeCeiling items rate catalogMax =
     (case ceiling_loop catalogMax items (0, 0, False) of (inSum, outSum, uncapped) \<Rightarrow>
        case rate of
          None \<Rightarrow> UnboundedBy UnknownRate inSum
        | Some r \<Rightarrow>
            if uncapped then UnboundedBy NoOutputCap inSum
            else BoundedBy \<lceil>of_int inSum * br_input r + of_int outSum * br_output r\<rceil> inSum)"

section \<open>The item rows of a settlement\<close>

text \<open>One line of a result stream: the usage of a completed item (absent when the upstream gave none),
  or the kind and status of a failed one.\<close>

datatype item_verdict = ItemOk "normalized_usage option" | ItemFailed provider_error_kind "int option"

record batch_outcome =
  bo_customId :: string
  bo_verdict :: item_verdict

record item_row =
  ir_id :: string
  ir_agentId :: string
  ir_providerId :: string
  ir_modelId :: string
  ir_tierAssigned :: "string option"
  ir_routingReason :: string
  ir_inputTokens :: int
  ir_outputTokens :: int
  ir_cacheReadTokens :: "int option"
  ir_cacheWriteTokens :: "int option"
  ir_inputPrice :: "rat option"
  ir_outputPrice :: "rat option"
  ir_cacheReadPrice :: "rat option"
  ir_cacheWritePrice :: "rat option"
  ir_priceVersionId :: "string option"
  ir_priceSource :: "price_source option"
  ir_batchId :: string
  ir_providerKind :: "provider_kind option"
  ir_usageEstimated :: bool
  ir_cost :: "rat option"
  ir_durationMs :: int
  ir_success :: bool
  ir_errorKind :: "provider_error_kind option"
  ir_errorStatus :: "int option"

definition snapshotOf :: "job_row \<Rightarrow> price_snapshot option" where
  "snapshotOf job =
     (case (bj_inputPrice job, bj_outputPrice job) of
        (Some i, Some out) \<Rightarrow>
          Some \<lparr>ps_priceVersionId = bj_priceVersionId job, ps_modelKey = None, inputPricePer1m = i,
                outputPricePer1m = out, cacheReadPricePer1m = bj_cacheReadPrice job,
                cacheWritePricePer1m = bj_cacheWritePrice job, isFree = (i = 0 \<and> out = 0),
                ps_source = (case bj_priceSource job of Some s \<Rightarrow> s | None \<Rightarrow> PsBundled),
                ps_validFrom = None, ps_mode = PriceBatch\<rparr>
      | _ \<Rightarrow> None)"

definition perItemInput :: "job_row \<Rightarrow> int" where
  "perItemInput job =
     (if bj_itemCount job > 0 then \<lceil>rat_of_int (bj_estimatedInputTokens job) / of_int (bj_itemCount job)\<rceil> else 0)"

definition usageOf :: "int \<Rightarrow> normalized_usage option \<Rightarrow> resolved_usage" where
  "usageOf perItem u =
     (case u of
        None \<Rightarrow> \<lparr>ru_inputTokens = perItem, ru_outputTokens = 0, ru_cacheReadTokens = None,
                 ru_cacheWriteTokens = None, estimated = True\<rparr>
      | Some u \<Rightarrow> \<lparr>ru_inputTokens = inputTokens u, ru_outputTokens = outputTokens u,
                 ru_cacheReadTokens = cacheReadTokens u, ru_cacheWriteTokens = cacheWriteTokens u, estimated = False\<rparr>)"

definition outcome_usage :: "int \<Rightarrow> batch_outcome \<Rightarrow> resolved_usage" where
  "outcome_usage perItem x =
     (case bo_verdict x of
        ItemOk u \<Rightarrow> usageOf perItem u
      | ItemFailed _ _ \<Rightarrow> \<lparr>ru_inputTokens = perItem, ru_outputTokens = 0, ru_cacheReadTokens = None,
                          ru_cacheWriteTokens = None, estimated = True\<rparr>)"

definition reasonFor :: "job_row \<Rightarrow> string" where
  "reasonFor job =
     (case bj_tierAssigned job of None \<Rightarrow> ''explicit model'' | Some t \<Rightarrow> ''explicit tier '' @ t) @ '' batch''"

definition is_ok :: "batch_outcome \<Rightarrow> bool" where
  "is_ok x = (case bo_verdict x of ItemOk _ \<Rightarrow> True | ItemFailed _ _ \<Rightarrow> False)"

definition item_cost :: "job_row \<Rightarrow> batch_outcome \<Rightarrow> rat option" where
  "item_cost job x = computeCost (outcome_usage (perItemInput job) x) (snapshotOf job)"

definition item_row_of :: "(string \<Rightarrow> string \<Rightarrow> string) \<Rightarrow> job_row \<Rightarrow> int \<Rightarrow> batch_outcome \<Rightarrow> item_row" where
  "item_row_of digest job settledAt x =
     (let u = outcome_usage (perItemInput job) x in
      \<lparr>ir_id = digest (bj_id job) (bo_customId x), ir_agentId = bj_agentId job, ir_providerId = bj_providerId job,
       ir_modelId = bj_modelId job, ir_tierAssigned = bj_tierAssigned job, ir_routingReason = reasonFor job,
       ir_inputTokens = ru_inputTokens u, ir_outputTokens = ru_outputTokens u,
       ir_cacheReadTokens = ru_cacheReadTokens u, ir_cacheWriteTokens = ru_cacheWriteTokens u,
       ir_inputPrice = bj_inputPrice job, ir_outputPrice = bj_outputPrice job,
       ir_cacheReadPrice = bj_cacheReadPrice job, ir_cacheWritePrice = bj_cacheWritePrice job,
       ir_priceVersionId = bj_priceVersionId job, ir_priceSource = bj_priceSource job, ir_batchId = bj_id job,
       ir_providerKind = bj_providerKind job, ir_usageEstimated = estimated u, ir_cost = item_cost job x,
       ir_durationMs = max 0 (settledAt - bj_submittedAt job), ir_success = is_ok x,
       ir_errorKind = (case bo_verdict x of ItemOk _ \<Rightarrow> None | ItemFailed k _ \<Rightarrow> Some k),
       ir_errorStatus = (case bo_verdict x of ItemOk _ \<Rightarrow> None | ItemFailed _ s \<Rightarrow> s)\<rparr>)"

text \<open>Insert-once: a row whose id is taken does not land, also within one statement.\<close>

primrec insert_once :: "item_row list \<Rightarrow> item_row list \<Rightarrow> string list \<times> item_row list" where
  "insert_once [] landed = ([], landed)"
| "insert_once (r # rs) landed =
     (if ir_id r \<in> set (map ir_id landed) then insert_once rs landed
      else case insert_once rs (landed @ [r]) of (ids, rest) \<Rightarrow> (ir_id r # ids, rest))"

end
