(* ===== verification/BatchRun.thy ===== *)
theory BatchRun
  imports Batch Effects
begin

text \<open>
  Batch jobs, the behaviour: the settlement of \<open>batch/batch-settlement.ts\<close>, the poller of
  \<open>batch/batch.poller.ts\<close> and the submission, cancel and results guard of \<open>batch/batch.service.ts\<close>,
  over the table and the ledger of theory Batch and the reservations of theory Budgets.

  The program awaits at every statement and every upstream call. There the script \<open>bw_turns\<close> says what
  other processes (a second poller, a submission, a cancel) did to the shared tables in the meantime
  and, for a statement, whether it and its answer arrived. What the upstream answers is the argument
  \<open>upstream\<close>; its exceptions are \<open>upstream_fault\<close>. Two logs are not program state: \<open>bw_released\<close> records
  who released the reservation of which job, \<open>bw_stalls\<close> the notifications. Dashboard events, metrics and
  log lines are left out, and so is the queue around the sweep.
\<close>

section \<open>World and awaits\<close>

datatype releaser = ByPoller | BySubmit

datatype upstream_fault = UpProvider provider_error_kind "nat option" | UpNotFound | UpCancelled | UpOther

datatype batch_code =
    BatchNotSupported | BatchInvalid | BatchUnbounded | BatchNotFound | BatchNotReady | BatchResultsExpired

datatype batch_fault =
    DbFault | UpstreamFault upstream_fault | SeamFault | BatchError batch_code
  | BudgetBlocked budget_hit rat | BudgetsUnavailable | ServiceUnavailable

text \<open>Writes of other processes; \<open>ActFinish\<close> is another poller ending a job.\<close>

datatype batch_act =
    ActPause nat
  | ActInsert string job_insert
  | ActUpdate string string job_patch "job_status list option"
  | ActFinish string string job_settlement "job_status list option"
  | ActFail string string job_error
  | ActDiscard string string
  | ActItems "item_row list"

record batch_turn =
  bt_others :: "batch_act list"
  bt_fate :: fate

record batch_world =
  bw_jobs :: job_table
  bw_ledger :: "item_row list"
  bw_budgets :: world
  bw_turns :: "batch_turn list"
  bw_released :: "(string \<times> releaser) list"
  bw_stalls :: "(string \<times> job_error option) list"

type_synonym 'a bprog = "(batch_world, batch_fault, 'a) prog"

definition now_of :: "batch_world \<Rightarrow> int" where "now_of w = w_clock (bw_budgets w)"

definition with_jobs :: "'a job_stmt \<Rightarrow> batch_world \<Rightarrow> (unit + 'a) \<times> batch_world" where
  "with_jobs stmt w = (case stmt (bw_jobs w) of (a, db) \<Rightarrow> (a, w\<lparr>bw_jobs := db\<rparr>))"

definition note_release :: "string \<Rightarrow> releaser \<Rightarrow> batch_world \<Rightarrow> batch_world" where
  "note_release i who w = w\<lparr>bw_released := bw_released w @ [(i, who)]\<rparr>"

definition act_world :: "batch_act \<Rightarrow> batch_world \<Rightarrow> batch_world" where
  "act_world act w =
     (case act of
        ActPause n \<Rightarrow> w\<lparr>bw_budgets := (bw_budgets w)\<lparr>w_clock := w_clock (bw_budgets w) + int n\<rparr>\<rparr>
      | ActInsert owner v \<Rightarrow> snd (with_jobs (jobs_insert owner v (now_of w)) w)
      | ActUpdate owner i p ss \<Rightarrow> snd (with_jobs (jobs_update owner i p ss (now_of w)) w)
      | ActFinish owner i s ss \<Rightarrow>
          (case with_jobs (jobs_settle owner i s ss (now_of w)) w of
             (Inr (Some _), w1) \<Rightarrow> note_release i ByPoller w1
           | (_, w1) \<Rightarrow> w1)
      | ActFail owner i e \<Rightarrow> snd (with_jobs (jobs_fail owner i e (now_of w)) w)
      | ActDiscard owner i \<Rightarrow> snd (with_jobs (jobs_discard owner i) w)
      | ActItems rs \<Rightarrow> w\<lparr>bw_ledger := snd (insert_once rs (bw_ledger w))\<rparr>)"

definition interfere :: "batch_act list \<Rightarrow> batch_world \<Rightarrow> batch_world" where
  "interfere acts w = foldl (\<lambda>v act. act_world act v) w acts"

definition landed :: "(batch_world \<Rightarrow> (unit + 'a) \<times> batch_world) \<Rightarrow> 'a bprog" where
  "landed st w = (case st w of (Inl _, w1) \<Rightarrow> (Inl DbFault, w1) | (Inr a, w1) \<Rightarrow> (Inr a, w1))"

definition statement :: "(batch_world \<Rightarrow> (unit + 'a) \<times> batch_world) \<Rightarrow> 'a bprog" where
  "statement st w =
     (case bw_turns w of
        [] \<Rightarrow> landed st w
      | turn # rest \<Rightarrow>
          (let w0 = interfere (bt_others turn) (w\<lparr>bw_turns := rest\<rparr>) in
           case bt_fate turn of
             Answered \<Rightarrow> landed st w0
           | NeverArrived \<Rightarrow> (Inl DbFault, w0)
           | AnswerLost \<Rightarrow> (Inl DbFault, snd (st w0))))"

text \<open>The program stamps a statement with its own clock when it sends it.\<close>

definition jobs :: "(int \<Rightarrow> 'a job_stmt) \<Rightarrow> 'a bprog" where
  "jobs stmt = look (\<lambda>w. statement (with_jobs (stmt (now_of w))))"

text \<open>Every other await: time passes and others act, then the program goes on.\<close>

definition pausing :: "unit bprog" where
  "pausing w =
     (case bw_turns w of
        [] \<Rightarrow> (Inr (), w)
      | turn # rest \<Rightarrow> (Inr (), interfere (bt_others turn) (w\<lparr>bw_turns := rest\<rparr>)))"

definition upstream_call :: "upstream_fault + 'a \<Rightarrow> 'a bprog" where
  "upstream_call answer =
     andThen pausing (\<lambda>_. case answer of Inl f \<Rightarrow> throw (UpstreamFault f) | Inr a \<Rightarrow> give a)"

definition budget_call :: "(world \<Rightarrow> 'a \<times> world) \<Rightarrow> 'a bprog" where
  "budget_call f =
     andThen pausing (\<lambda>_ w. case f (bw_budgets w) of (a, b) \<Rightarrow> (Inr a, w\<lparr>bw_budgets := b\<rparr>))"

section \<open>Settlement\<close>

definition CHUNK_SIZE :: nat where "CHUNK_SIZE = 250"

record settle_acc =
  sa_seen :: "string list"
  sa_completed :: int
  sa_failed :: int
  sa_costMicros :: int
  sa_inserted :: nat
  sa_pending :: "item_row list"

definition flush :: "settle_acc \<Rightarrow> settle_acc bprog" where
  "flush acc =
     (if sa_pending acc = [] then give acc
      else andThen
        (statement (\<lambda>w. case insert_once (sa_pending acc) (bw_ledger w) of (ids, rows) \<Rightarrow> (Inr ids, w\<lparr>bw_ledger := rows\<rparr>)))
        (\<lambda>ids. give (acc\<lparr>sa_inserted := sa_inserted acc + length ids, sa_pending := []\<rparr>)))"

definition cost_micros :: "rat option \<Rightarrow> int" where
  "cost_micros c = (case c of None \<Rightarrow> 0 | Some v \<Rightarrow> js_round (v * 1000000))"

definition take_outcome ::
  "(string \<Rightarrow> string \<Rightarrow> string) \<Rightarrow> job_row \<Rightarrow> int \<Rightarrow> batch_outcome \<Rightarrow> settle_acc \<Rightarrow> settle_acc" where
  "take_outcome digest job settledAt x acc =
     acc\<lparr>sa_seen := bo_customId x # sa_seen acc,
         sa_completed := sa_completed acc + (if is_ok x then 1 else 0),
         sa_failed := sa_failed acc + (if is_ok x then 0 else 1),
         sa_costMicros := sa_costMicros acc + cost_micros (item_cost job x),
         sa_pending := sa_pending acc @ [item_row_of digest job settledAt x]\<rparr>"

text \<open>The stream yields its outcomes and then ends or throws.\<close>

primrec settle_loop ::
  "(string \<Rightarrow> string \<Rightarrow> string) \<Rightarrow> job_row \<Rightarrow> int \<Rightarrow> upstream_fault option \<Rightarrow> batch_outcome list \<Rightarrow> settle_acc \<Rightarrow> settle_acc bprog" where
  "settle_loop digest job settledAt broken [] acc =
     (case broken of None \<Rightarrow> flush acc | Some f \<Rightarrow> throw (UpstreamFault f))"
| "settle_loop digest job settledAt broken (x # xs) acc =
     (if bo_customId x \<in> set (sa_seen acc) then settle_loop digest job settledAt broken xs acc
      else let acc1 = take_outcome digest job settledAt x acc in
        if length (sa_pending acc1) \<ge> CHUNK_SIZE
        then andThen (flush acc1) (settle_loop digest job settledAt broken xs)
        else settle_loop digest job settledAt broken xs acc1)"

definition empty_acc :: settle_acc where
  "empty_acc = \<lparr>sa_seen = [], sa_completed = 0, sa_failed = 0, sa_costMicros = 0, sa_inserted = 0, sa_pending = []\<rparr>"

definition settle ::
  "(string \<Rightarrow> string \<Rightarrow> string) \<Rightarrow> job_row \<Rightarrow> batch_outcome list \<times> upstream_fault option \<Rightarrow> int \<Rightarrow> settle_acc bprog" where
  "settle digest job results settledAt =
     andThen pausing (\<lambda>_. settle_loop digest job settledAt (snd results) (fst results) empty_acc)"

section \<open>The poller\<close>

definition SUBMITTING_GRACE_MS :: int where "SUBMITTING_GRACE_MS = 120000"
definition STALL_NOTIFY_MS :: int where "STALL_NOTIFY_MS = 900000"
definition SUBMISSION_UNKNOWN_WINDOW_MS :: int where "SUBMISSION_UNKNOWN_WINDOW_MS = 6 * 3600000"

definition NON_TERMINAL :: "job_status list" where
  "NON_TERMINAL = [JSubmitting, JSubmissionUnknown, JValidating, JInProgress, JFinalizing, JCancelling]"

record status_view =
  sv_status :: "job_status option"
  sv_counts :: "(int \<times> int) option"   \<comment> \<open>completed, failed\<close>
  sv_resultsExpireAt :: "int option"

record list_entry =
  le_upstreamId :: string
  le_jobId :: "string option"
  le_status :: "job_status option"

text \<open>What the world outside answers while one job is advanced: whether its provider row exists, whether a
  seam can be built for it, and what the seam's calls answer.\<close>

record upstream =
  up_provider :: bool
  up_seam :: bool
  up_list :: "upstream_fault + list_entry list"
  up_status :: "upstream_fault + status_view"
  up_results :: "batch_outcome list \<times> upstream_fault option"
  up_cancel :: "upstream_fault + unit"

text \<open>The configuration the subsystem reads, with the budgets of each owner.\<close>

record batch_ctx =
  bc_enabled :: bool
  bc_windowMarginMs :: int
  bc_failOpen :: bool
  bc_staleMs :: int
  bc_budgets :: "string \<Rightarrow> unit + budget_row list"
  bc_digest :: "string \<Rightarrow> string \<Rightarrow> string"

record advance_result =
  adv_settled :: bool
  adv_terminal :: "job_status option"

definition still :: advance_result where "still = \<lparr>adv_settled = False, adv_terminal = None\<rparr>"

definition release_call :: "batch_ctx \<Rightarrow> releaser \<Rightarrow> job_row \<Rightarrow> int \<Rightarrow> unit bprog" where
  "release_call ctx who job micros =
     andThen (budget_call (\<lambda>b. ((), releaseForBatch (bj_owner job) (bc_budgets ctx (bj_owner job)) (Some (bj_agentId job))
                                   (bj_submittedAt job) (of_int micros) b)))
       (\<lambda>_. change (note_release (bj_id job) who))"

text \<open>Counts are completed, failed and the settled cost in micro-dollars.\<close>

definition finish ::
  "batch_ctx \<Rightarrow> job_row \<Rightarrow> job_status \<Rightarrow> job_error option \<Rightarrow> int \<times> int \<times> int \<Rightarrow> advance_result bprog" where
  "finish ctx job status errorKind counts =
     (case counts of (completed, failed, cost) \<Rightarrow>
        andThen
          (jobs (\<lambda>now. jobs_settle (bj_owner job) (bj_id job)
             \<lparr>js_status = status, js_completedCount = completed, js_failedCount = failed, js_settledCostMicros = cost,
              js_terminalAt = now, js_errorKind = errorKind, js_resultsExpireAt = None\<rparr>
             (if completed + failed > 0 then None else Some NON_TERMINAL) now))
          (\<lambda>done. case done of
             None \<Rightarrow> give still
           | Some _ \<Rightarrow>
               andThen (case bj_reservedCeilingMicros job of None \<Rightarrow> give () | Some m \<Rightarrow> release_call ctx ByPoller job m)
                 (\<lambda>_. give \<lparr>adv_settled = (completed + failed > 0), adv_terminal = Some status\<rparr>)))"

definition expiredOrLost :: "batch_ctx \<Rightarrow> job_row \<Rightarrow> advance_result bprog" where
  "expiredOrLost ctx row =
     look (\<lambda>w. if now_of w \<ge> bj_submittedAt row + bj_completionWindowMs row + bc_windowMarginMs ctx
               then finish ctx row JExpired None (0, 0, 0)
               else finish ctx row JFailed (Some ESubmitLost) (0, 0, 0))"

definition tryCancel :: "upstream \<Rightarrow> unit bprog" where
  "tryCancel up =
     catching (upstream_call (up_cancel up)) (\<lambda>e. if e = UpstreamFault UpOther then throw e else give ())"

definition notifyStall :: "job_row \<Rightarrow> job_error option \<Rightarrow> int \<Rightarrow> unit bprog" where
  "notifyStall row kind stalledForMs =
     (if stalledForMs < STALL_NOTIFY_MS then give ()
      else change (\<lambda>w. w\<lparr>bw_stalls := bw_stalls w @ [(bj_id row, kind)]\<rparr>))"

definition since_stall :: "job_row \<Rightarrow> int \<Rightarrow> int" where
  "since_stall row now = now - (case bj_stalledSince row of Some t \<Rightarrow> t | None \<Rightarrow> bj_submittedAt row)"

definition reconcileSubmission :: "batch_ctx \<Rightarrow> upstream \<Rightarrow> job_row \<Rightarrow> advance_result bprog" where
  "reconcileSubmission ctx up row =
     andThen (upstream_call (up_list up)) (\<lambda>entries.
       case find (\<lambda>e. le_jobId e = Some (bj_id row)) entries of
         Some found \<Rightarrow>
           andThen
             (jobs (\<lambda>now. jobs_update (bj_owner row) (bj_id row)
                (empty_patch\<lparr>jp_status := Some (patched (le_status found) JInProgress),
                             jp_upstreamBatchId := Some (Some (le_upstreamId found)),
                             jp_errorKind := Some None, jp_stalledSince := Some None\<rparr>) None now))
             (\<lambda>adopted. case adopted of
                None \<Rightarrow> give still
              | Some r \<Rightarrow>
                  if bj_cancelRequested r then andThen (tryCancel up) (\<lambda>_. give still) else give still)
       | None \<Rightarrow>
           look (\<lambda>w.
             if since_stall row (now_of w) \<ge> SUBMISSION_UNKNOWN_WINDOW_MS
             then finish ctx row JFailed (Some (if bj_cancelRequested row then ESubmitLost else ESubmitUnresolved)) (0, 0, 0)
             else andThen (notifyStall row None (since_stall row (now_of w))) (\<lambda>_. give still)))"

definition settleAndFinish ::
  "batch_ctx \<Rightarrow> upstream \<Rightarrow> job_row \<Rightarrow> job_status \<Rightarrow> advance_result bprog" where
  "settleAndFinish ctx up job terminal =
     andThen
       (case bj_upstreamBatchId job of
          None \<Rightarrow> give (0, 0, 0)
        | Some _ \<Rightarrow>
            catching
              (andThen (look (\<lambda>w. settle (bc_digest ctx) job (up_results up) (now_of w)))
                 (\<lambda>acc. give (sa_completed acc, sa_failed acc, sa_costMicros acc)))
              (\<lambda>e. if e = UpstreamFault UpNotFound then give (0, 0, 0) else throw e))
       (finish ctx job (if terminal = JCancelled \<or> bj_status job = JCancelling then JCancelled else terminal) None)"

definition POLLED :: "job_status list" where
  "POLLED = [JValidating, JInProgress, JFinalizing, JCancelling, JSubmissionUnknown]"

definition counts_patch :: "status_view \<Rightarrow> job_patch \<Rightarrow> job_patch" where
  "counts_patch view p =
     (case sv_counts view of None \<Rightarrow> p | Some (c, f) \<Rightarrow> p\<lparr>jp_completedCount := Some c, jp_failedCount := Some f\<rparr>)"

definition expiry_patch :: "status_view \<Rightarrow> job_patch \<Rightarrow> job_patch" where
  "expiry_patch view p =
     (case sv_resultsExpireAt view of None \<Rightarrow> p | Some t \<Rightarrow> p\<lparr>jp_resultsExpireAt := Some (Some t)\<rparr>)"

definition applyStatus :: "batch_ctx \<Rightarrow> upstream \<Rightarrow> job_row \<Rightarrow> status_view \<Rightarrow> advance_result bprog" where
  "applyStatus ctx up row view =
     (case sv_status view of
        None \<Rightarrow>
          look (\<lambda>w. let since = patched (bj_stalledSince row) (now_of w) in
            andThen
              (jobs (jobs_update (bj_owner row) (bj_id row)
                 (expiry_patch view (empty_patch\<lparr>jp_errorKind := Some (Some EUpstreamStatusUnknown),
                                                 jp_stalledSince := Some (Some since)\<rparr>)) None))
              (\<lambda>_. andThen (look (\<lambda>w1. notifyStall row (Some EUpstreamStatusUnknown) (now_of w1 - since))) (\<lambda>_. give still)))
      | Some s \<Rightarrow>
          if \<not> isBatchJobTerminal s then
            andThen
              (jobs (jobs_update (bj_owner row) (bj_id row)
                 (expiry_patch view (counts_patch view
                    (empty_patch\<lparr>jp_status := Some s, jp_errorKind := Some None, jp_stalledSince := Some None\<rparr>))) (Some POLLED)))
              (\<lambda>_. give still)
          else
            andThen
              (jobs (jobs_update (bj_owner row) (bj_id row)
                 (expiry_patch view
                    (empty_patch\<lparr>jp_status := Some (if bj_status row = JCancelling \<or> s = JCancelled then JCancelling else JFinalizing),
                                 jp_errorKind := Some None, jp_stalledSince := Some None\<rparr>)) (Some POLLED)))
              (\<lambda>finalizing. settleAndFinish ctx up (patched finalizing row) s))"

definition advance :: "batch_ctx \<Rightarrow> upstream \<Rightarrow> job_row \<Rightarrow> advance_result bprog" where
  "advance ctx up row =
     andThen (statement (\<lambda>w. (Inr (), w))) (\<lambda>_.
     if \<not> up_provider up then finish ctx row JFailed (Some EProviderMissing) (0, 0, 0)
     else
       andThen (jobs (\<lambda>now. jobs_update (bj_owner row) (bj_id row) (empty_patch\<lparr>jp_lastPolledAt := Some (Some now)\<rparr>) None now)) (\<lambda>_.
       if bj_status row = JSubmitting then
         look (\<lambda>w.
           if now_of w - bj_submittedAt row < SUBMITTING_GRACE_MS then give still
           else andThen
             (jobs (\<lambda>now. jobs_update (bj_owner row) (bj_id row)
                (empty_patch\<lparr>jp_status := Some JSubmissionUnknown, jp_errorKind := Some None, jp_stalledSince := Some (Some now)\<rparr>)
                (Some [JSubmitting]) now)) (\<lambda>_. give still))
       else if \<not> up_seam up then throw SeamFault
       else if bj_status row = JSubmissionUnknown \<or> bj_upstreamBatchId row = None then reconcileSubmission ctx up row
       else
         andThen
           (if bj_cancelRequested row \<and> bj_status row \<noteq> JCancelling then
              andThen (tryCancel up) (\<lambda>_. andThen
                (jobs (jobs_update (bj_owner row) (bj_id row) (empty_patch\<lparr>jp_status := Some JCancelling\<rparr>)
                   (Some [JValidating, JInProgress, JFinalizing]))) (\<lambda>_. give ()))
            else give ())
           (\<lambda>_. andThen
              (catching (andThen (upstream_call (up_status up)) (\<lambda>v. give (Some v)))
                 (\<lambda>e. if e = UpstreamFault UpNotFound then give None else throw e))
              (\<lambda>view. case view of None \<Rightarrow> expiredOrLost ctx row | Some v \<Rightarrow> applyStatus ctx up row v))))"

text \<open>One occurrence over the rows it listed; a job another occurrence of this process is on is skipped.\<close>

primrec sweep_rows :: "batch_ctx \<Rightarrow> (string \<Rightarrow> upstream) \<Rightarrow> string list \<Rightarrow> job_row list \<Rightarrow> unit bprog" where
  "sweep_rows ctx up busy [] = give ()"
| "sweep_rows ctx up busy (row # rows) =
     (if bj_id row \<in> set busy then sweep_rows ctx up busy rows
      else andThen (catching (advance ctx (up (bj_id row)) row) (\<lambda>_. give still)) (\<lambda>_. sweep_rows ctx up busy rows))"

section \<open>The service\<close>

record submit_result =
  su_upstreamId :: string
  su_status :: "job_status option"
  su_resultsExpireAt :: "int option"

text \<open>A parsed and routed submission: the items' sizes, the target, the price snapshot and the model's
  output cap.\<close>

record submission =
  sm_jobId :: string
  sm_items :: "ceiling_item list"
  sm_endpoint :: job_endpoint
  sm_providerId :: string
  sm_providerKind :: provider_kind
  sm_modelId :: string
  sm_tier :: "string option"
  sm_snapshot :: "price_snapshot option"
  sm_maxOutputTokens :: "int option"
  sm_windowMs :: int

definition rate_of :: "price_snapshot option \<Rightarrow> batch_rate option" where
  "rate_of = map_option (\<lambda>p. \<lparr>br_input = inputPricePer1m p, br_output = outputPricePer1m p\<rparr>)"

definition ceiling_of :: "submission \<Rightarrow> spend_ceiling" where
  "ceiling_of s = computeCeiling (sm_items s) (rate_of (sm_snapshot s)) (sm_maxOutputTokens s)"

definition ceiling_micros :: "spend_ceiling \<Rightarrow> int option" where
  "ceiling_micros c = (case c of BoundedBy m _ \<Rightarrow> Some m | UnboundedBy _ _ \<Rightarrow> None)"

definition ceiling_tokens :: "spend_ceiling \<Rightarrow> int" where
  "ceiling_tokens c = (case c of BoundedBy _ n \<Rightarrow> n | UnboundedBy _ n \<Rightarrow> n)"

definition insert_of :: "string \<Rightarrow> submission \<Rightarrow> job_insert" where
  "insert_of agentId s =
     \<lparr>ji_id = sm_jobId s, ji_agentId = agentId, ji_providerId = sm_providerId s, ji_modelId = sm_modelId s,
      ji_tierAssigned = sm_tier s, ji_endpoint = sm_endpoint s, ji_providerKind = Some (sm_providerKind s),
      ji_itemCount = int (length (sm_items s)), ji_estimatedInputTokens = ceiling_tokens (ceiling_of s),
      ji_inputPrice = map_option inputPricePer1m (sm_snapshot s),
      ji_outputPrice = map_option outputPricePer1m (sm_snapshot s),
      ji_cacheReadPrice = Option.bind (sm_snapshot s) cacheReadPricePer1m,
      ji_cacheWritePrice = Option.bind (sm_snapshot s) cacheWritePricePer1m,
      ji_priceVersionId = Option.bind (sm_snapshot s) ps_priceVersionId,
      ji_priceSource = map_option ps_source (sm_snapshot s),
      ji_reservedCeilingMicros = ceiling_micros (ceiling_of s), ji_completionWindowMs = sm_windowMs s\<rparr>"

definition discard_then :: "string \<Rightarrow> string \<Rightarrow> batch_fault \<Rightarrow> 'a bprog" where
  "discard_then owner i e = andThen (jobs (\<lambda>_. jobs_discard owner i)) (\<lambda>_. throw e)"

text \<open>Step 2 of the submission answers whether something was reserved.\<close>

definition reserve_step :: "batch_ctx \<Rightarrow> string \<Rightarrow> string \<Rightarrow> submission \<Rightarrow> job_row \<Rightarrow> bool bprog" where
  "reserve_step ctx owner agentId s row =
     (case ceiling_micros (ceiling_of s) of
        Some micros \<Rightarrow>
          andThen (budget_call (reserveForBatch (bc_failOpen ctx) (bc_staleMs ctx) owner (bc_budgets ctx owner) (Some agentId)
                     (bj_submittedAt row) (of_int micros)))
            (\<lambda>r. case r of
               Inl _ \<Rightarrow> discard_then owner (sm_jobId s) BudgetsUnavailable
             | Inr (Rejected hit m) \<Rightarrow> discard_then owner (sm_jobId s) (BudgetBlocked hit m)
             | Inr (Reserved _) \<Rightarrow> give True
             | Inr _ \<Rightarrow> give False)
      | None \<Rightarrow>
          andThen (budget_call (hasBlockBudget (bc_failOpen ctx) (bc_budgets ctx owner) (Some agentId)))
            (\<lambda>r. case r of
               Inl _ \<Rightarrow> discard_then owner (sm_jobId s) BudgetsUnavailable
             | Inr b \<Rightarrow> if b then discard_then owner (sm_jobId s) (BatchError BatchUnbounded) else give False))"

definition create_failed ::
  "batch_ctx \<Rightarrow> string \<Rightarrow> submission \<Rightarrow> job_row \<Rightarrow> bool \<Rightarrow> upstream_fault \<Rightarrow> job_row bprog" where
  "create_failed ctx owner s row reserved f =
     (case f of
        UpProvider kind (Some st) \<Rightarrow>
          andThen (jobs (jobs_fail owner (sm_jobId s) (BATCH_KIND_OF kind))) (\<lambda>_.
          andThen (if reserved then release_call ctx BySubmit row (patched (ceiling_micros (ceiling_of s)) 0) else give ())
            (\<lambda>_. throw (UpstreamFault f)))
      | UpCancelled \<Rightarrow> throw ServiceUnavailable
      | _ \<Rightarrow> throw (UpstreamFault f))"

definition submit ::
  "batch_ctx \<Rightarrow> string \<Rightarrow> string option \<Rightarrow> batch_fault + submission \<Rightarrow> upstream_fault + submit_result \<Rightarrow> job_row bprog" where
  "submit ctx owner agent parsed created =
     (if \<not> bc_enabled ctx then throw (BatchError BatchNotSupported)
      else case agent of
        None \<Rightarrow> throw (BatchError BatchInvalid)
      | Some agentId \<Rightarrow>
          (case parsed of
             Inl e \<Rightarrow> throw e
           | Inr s \<Rightarrow>
               andThen (statement (\<lambda>w. with_jobs (jobs_insert owner (insert_of agentId s) (now_of w)) w)) (\<lambda>row.
               andThen (reserve_step ctx owner agentId s row) (\<lambda>reserved.
               andThen pausing (\<lambda>_.
                 case created of
                   Inl f \<Rightarrow> create_failed ctx owner s row reserved f
                 | Inr res \<Rightarrow>
                     andThen
                       (jobs (jobs_update owner (sm_jobId s)
                          (empty_patch\<lparr>jp_status := Some (patched (su_status res) JValidating),
                                       jp_upstreamBatchId := Some (Some (su_upstreamId res)),
                                       jp_resultsExpireAt := Some (su_resultsExpireAt res)\<rparr>) (Some [JSubmitting])))
                       (\<lambda>updated. give (patched updated row)))))))"

definition cancelJob ::
  "upstream \<Rightarrow> string \<Rightarrow> string option \<Rightarrow> string \<Rightarrow> (job_row \<times> bool) bprog" where
  "cancelJob up owner agentId i =
     andThen (jobs (\<lambda>_ db. (Inr (Option.bind (owned_job owner i db)
                (\<lambda>r. if agentId = None \<or> agentId = Some (bj_agentId r) then Some r else None)), db))) (\<lambda>loaded.
       case loaded of
         None \<Rightarrow> throw (BatchError BatchNotFound)
       | Some row \<Rightarrow>
           (let intent = andThen (jobs (jobs_update owner i (empty_patch\<lparr>jp_cancelRequested := Some True\<rparr>) None))
                           (\<lambda>updated. give (patched updated row, True)) in
            if isBatchJobTerminal (bj_status row) then give (row, False)
            else if bj_upstreamBatchId row = None then intent
            else if bj_status row = JCancelling then give (row, False)
            else andThen (statement (\<lambda>w. (Inr (), w))) (\<lambda>_.
              if \<not> up_provider up then intent
              else if \<not> up_seam up then throw SeamFault
              else andThen (upstream_call (up_cancel up)) (\<lambda>_.
                andThen (jobs (jobs_update owner i (empty_patch\<lparr>jp_status := Some JCancelling, jp_cancelRequested := Some True\<rparr>)
                           (Some [JValidating, JInProgress, JFinalizing])))
                  (\<lambda>updated. give (patched updated row, True))))))"

text \<open>The checks before a results stream is opened; the answer is the job whose lines are read.\<close>

definition results_guard :: "upstream \<Rightarrow> string \<Rightarrow> string \<Rightarrow> string \<Rightarrow> job_row bprog" where
  "results_guard up owner agentId i =
     andThen (jobs (\<lambda>_ db. (Inr (Option.bind (owned_job owner i db) (\<lambda>r. if bj_agentId r = agentId then Some r else None)), db)))
       (\<lambda>loaded. case loaded of
          None \<Rightarrow> throw (BatchError BatchNotFound)
        | Some job \<Rightarrow>
            if \<not> isBatchJobTerminal (bj_status job) then throw (BatchError BatchNotReady)
            else if bj_upstreamBatchId job = None then throw (BatchError BatchResultsExpired)
            else look (\<lambda>w. case bj_resultsExpireAt job of
              Some t \<Rightarrow> if t \<le> now_of w then throw (BatchError BatchResultsExpired)
                        else andThen (statement (\<lambda>v. (Inr (), v))) (\<lambda>_.
                          if \<not> up_provider up then throw (BatchError BatchResultsExpired)
                          else if up_seam up then give job else throw SeamFault)
            | None \<Rightarrow> andThen (statement (\<lambda>v. (Inr (), v))) (\<lambda>_.
                          if \<not> up_provider up then throw (BatchError BatchResultsExpired)
                          else if up_seam up then give job else throw SeamFault)))"

end
