(* ===== verification/BatchFacts.thy ===== *)
theory BatchFacts
  imports BatchRun "HOL-Library.Multiset"
begin

text \<open>
  What holds of batch jobs under any interleaving with other processes: an ended job stays ended with
  its cost, its reservation is released by a poller at most once and only after it ended, and a
  reservation is held while the upstream has not given a verdict. The locale \<open>job_invariant\<close> states the laws
  an invariant of the shared tables must obey to survive every program of theory BatchRun.
\<close>

section \<open>The statements keep the table\<close>

definition table_ok :: "job_table \<Rightarrow> bool" where
  "table_ok db \<longleftrightarrow> (\<forall>i r. db i = Some r \<longrightarrow> bj_id r = i \<and> jobs_check r)"

definition ended :: "job_row \<Rightarrow> bool" where "ended r \<longleftrightarrow> bj_terminalAt r \<noteq> None"

text \<open>Every ended row is still there, with the instant it ended at and the cost it was settled for.\<close>

definition final_kept :: "job_table \<Rightarrow> job_table \<Rightarrow> bool" where
  "final_kept db db1 \<longleftrightarrow>
     (\<forall>i r. db i = Some r \<and> ended r \<longrightarrow>
        (\<exists>r1. db1 i = Some r1 \<and> bj_terminalAt r1 = bj_terminalAt r \<and> bj_settledCostMicros r1 = bj_settledCostMicros r))"

lemma final_kept_refl [simp, intro]: "final_kept db db"
  by (simp add: final_kept_def)

lemma final_kept_trans: "final_kept a b \<Longrightarrow> final_kept b c \<Longrightarrow> final_kept a c"
  unfolding final_kept_def ended_def by metis

lemma owned_job_someD: "owned_job owner i db = Some r \<Longrightarrow> db i = Some r \<and> bj_owner r = owner"
  by (auto simp: owned_job_def split: option.splits if_splits)

lemma ended_status: "jobs_check r \<Longrightarrow> ended r = isBatchJobTerminal (bj_status r)"
  by (simp add: jobs_check_def ended_def)

lemma table_okD: "table_ok db \<Longrightarrow> db i = Some r \<Longrightarrow> bj_id r = i \<and> jobs_check r"
  by (simp add: table_ok_def)

definition good_stmt :: "job_table \<Rightarrow> job_table \<Rightarrow> bool" where
  "good_stmt db db1 \<longleftrightarrow> (table_ok db \<longrightarrow> table_ok db1 \<and> final_kept db db1)"

lemma good_same [simp, intro]: "good_stmt db db"
  by (simp add: good_stmt_def)

text \<open>A write that puts a row back under its id, and touches neither the end nor the cost of an ended one.\<close>

lemma good_store:
  assumes "db i = Some r" and "bj_id r1 = bj_id r"
    and "ended r \<Longrightarrow> bj_terminalAt r1 = bj_terminalAt r \<and> bj_settledCostMicros r1 = bj_settledCostMicros r"
  shows "good_stmt db (snd (store_job r1 db))"
  using assms by (auto simp: good_stmt_def store_job_def table_ok_def final_kept_def)

lemma good_update: "good_stmt db (snd (jobs_update owner i p ss now db))"
  unfolding jobs_update_def
  by (auto split: option.splits simp: patch_row_def dest!: owned_job_someD intro!: good_store)

lemma good_settle: "good_stmt db (snd (jobs_settle owner i s ss now db))"
  unfolding jobs_settle_def Let_def
  by (auto split: option.splits simp: settle_row_def ended_def dest!: owned_job_someD intro!: good_store)

lemma good_fail: "good_stmt db (snd (jobs_fail owner i e now db))"
proof (cases "table_ok db")
  case True
  then show ?thesis
    unfolding jobs_fail_def
    by (auto split: option.splits simp: fail_row_def ended_status dest!: owned_job_someD dest: table_okD intro!: good_store)
qed (simp add: good_stmt_def)

lemma good_discard: "good_stmt db (snd (jobs_discard owner i db))"
proof (cases "table_ok db")
  case True
  then show ?thesis
    by (auto simp: jobs_discard_def good_stmt_def table_ok_def final_kept_def isBatchJobTerminal_def
        BATCH_JOB_TERMINAL_STATUSES_def ended_status split: option.split dest!: owned_job_someD)
qed (simp add: good_stmt_def)

lemma good_insert: "good_stmt db (snd (jobs_insert owner v now db))"
  by (auto simp: jobs_insert_def Let_def good_stmt_def table_ok_def final_kept_def row_of_insert_def)

lemmas good_stmts = good_update good_settle good_fail good_discard good_insert

text \<open>A settlement that answers with a row ended it: it had not ended before.\<close>

lemma settle_won:
  assumes "jobs_settle owner i s ss now db = (Inr (Some r), db1)" and "table_ok db"
  shows "\<exists>r0. db i = Some r0 \<and> \<not> ended r0" and "\<exists>r1. db1 i = Some r1 \<and> ended r1"
proof -
  obtain r0 where r0: "owned_job owner i db = Some r0" "bj_terminalAt r0 = None"
    "store_job (settle_row s now r0) db = (Inr (Some r), db1)"
    using assms(1) by (auto simp: jobs_settle_def Let_def split: option.splits if_splits)
  have at: "db i = Some r0" "bj_id r0 = i"
    using owned_job_someD[OF r0(1)] table_okD[OF assms(2)] by auto
  show "\<exists>r0. db i = Some r0 \<and> \<not> ended r0" using at r0(2) by (simp add: ended_def)
  show "\<exists>r1. db1 i = Some r1 \<and> ended r1"
    using r0(3) at by (auto simp: store_job_def settle_row_def ended_def split: if_splits)
qed

section \<open>Invariants under interference\<close>

locale awaiting =
  fixes I :: "batch_world \<Rightarrow> bool"
  assumes interfered: "I w \<Longrightarrow> bw_turns w = turn # rest \<Longrightarrow> I (interfere (bt_others turn) (w\<lparr>bw_turns := rest\<rparr>))"
    and budgets: "I w \<Longrightarrow> I (w\<lparr>bw_budgets := b\<rparr>)"
    and rows: "I w \<Longrightarrow> I (w\<lparr>bw_ledger := l\<rparr>)"
    and stalls: "I w \<Longrightarrow> I (w\<lparr>bw_stalls := n\<rparr>)"
    and inserted: "I w \<Longrightarrow> I (snd (with_jobs (jobs_insert owner v t) w))"
    and updated: "I w \<Longrightarrow> I (snd (with_jobs (jobs_update owner i p ss t) w))"
    and failed: "I w \<Longrightarrow> I (snd (with_jobs (jobs_fail owner i e t) w))"
    and discarded: "I w \<Longrightarrow> I (snd (with_jobs (jobs_discard owner i) w))"
begin

text \<open>A statement whose every run keeps \<open>I\<close> and whose answer brings \<open>Q\<close>.\<close>

lemma statement_rule:
  assumes "\<And>w. I w \<Longrightarrow> I (snd (st w))" and "\<And>w a w1. I w \<Longrightarrow> st w = (Inr a, w1) \<Longrightarrow> Q a w1"
  shows "triple I (statement st) Q I"
proof (rule tripleI)
  fix w e w1
  assume I: "I w" and run: "statement st w = (Inl e, w1)"
  show "I w1"
  proof (cases "bw_turns w")
    case Nil
    then show ?thesis
      using run assms(1)[OF I] by (auto simp: statement_def landed_def split: prod.splits sum.splits)
  next
    case (Cons turn rest)
    have "I (interfere (bt_others turn) (w\<lparr>bw_turns := rest\<rparr>))"
      using interfered[OF I] Cons by simp
    note here = this assms(1)[OF this]
    show ?thesis
      using run Cons here
      by (auto simp: statement_def landed_def Let_def split: prod.splits sum.splits fate.splits)
  qed
next
  fix w a w1
  assume I: "I w" and run: "statement st w = (Inr a, w1)"
  show "Q a w1"
  proof (cases "bw_turns w")
    case Nil
    then show ?thesis
      using run assms(2)[OF I] by (auto simp: statement_def landed_def split: prod.splits sum.splits)
  next
    case (Cons turn rest)
    have "I (interfere (bt_others turn) (w\<lparr>bw_turns := rest\<rparr>))"
      using interfered[OF I] Cons by simp
    from assms(2)[OF this] show ?thesis
      using run Cons by (auto simp: statement_def landed_def Let_def split: prod.splits sum.splits fate.splits)
  qed
qed

lemma statement_keeps: "(\<And>w. I w \<Longrightarrow> I (snd (st w))) \<Longrightarrow> keeps I (statement st)"
  by (rule statement_rule) (auto, metis snd_conv)

lemma pausing_keeps [keeping]: "keeps I pausing"
  by (auto simp: triple_def pausing_def intro: interfered split: list.split)

lemma reading_keeps [keeping]: "keeps I (statement (\<lambda>w. (Inr (f w), w)))"
  by (rule statement_keeps) simp

lemma jobs_keeps: "(\<And>t w. I w \<Longrightarrow> I (snd (with_jobs (stmt t) w))) \<Longrightarrow> keeps I (jobs stmt)"
  unfolding jobs_def by (intro triple_look statement_keeps)

lemma update_keeps [keeping]: "keeps I (jobs (\<lambda>t. jobs_update owner i (p t) ss t))"
  by (rule jobs_keeps) (rule updated)

lemma fail_keeps [keeping]: "keeps I (jobs (jobs_fail owner i e))"
  by (rule jobs_keeps) (rule failed)

lemma discard_keeps [keeping]: "keeps I (jobs (\<lambda>_. jobs_discard owner i))"
  by (rule jobs_keeps) (rule discarded)

lemma read_keeps [keeping]: "keeps I (jobs (\<lambda>_ db. (Inr (f db), db)))"
  by (rule jobs_keeps) (simp add: with_jobs_def)

lemma upstream_keeps [keeping]: "keeps I (upstream_call x)"
  unfolding upstream_call_def by (cases x) (auto intro: keeping)

lemma upstream_rule: "triple I (upstream_call x) (\<lambda>a w. I w \<and> x = Inr a) I"
  unfolding upstream_call_def
  by (rule triple_andThen[where R = "\<lambda>_. I"], rule pausing_keeps)
    (auto split: sum.split intro: triple_give triple_throw)

lemma upstream_then: "(\<And>a. x = Inr a \<Longrightarrow> keeps I (k a)) \<Longrightarrow> keeps I (andThen (upstream_call x) k)"
  by (rule triple_andThen[where R = "\<lambda>a w. I w \<and> x = Inr a"], rule triple_weaken[OF upstream_rule])
    (auto intro: triple_pull)

lemma budget_keeps [keeping]: "keeps I (budget_call f)"
  unfolding budget_call_def
  by (rule triple_andThen[OF pausing_keeps]) (auto simp: triple_def intro: budgets split: prod.split)

lemma flush_keeps [keeping]: "keeps I (flush acc)"
proof -
  have "keeps I (statement (\<lambda>w. case insert_once (sa_pending acc) (bw_ledger w) of (ids, r) \<Rightarrow> (Inr ids, w\<lparr>bw_ledger := r\<rparr>)))"
    by (rule statement_keeps) (auto intro: rows split: prod.split)
  then show ?thesis
    unfolding flush_def by (auto intro!: keeping)
qed

lemma settle_loop_keeps [keeping]: "keeps I (settle_loop digest job t broken xs acc)"
proof (induction xs arbitrary: acc)
  case Nil
  then show ?case by (auto intro!: keeping)
next
  case (Cons x xs)
  then show ?case by (auto simp: Let_def intro!: keeping)
qed

lemma settle_keeps [keeping]: "keeps I (settle digest job results t)"
  unfolding settle_def by (intro keeping)

lemma tryCancel_keeps [keeping]: "keeps I (tryCancel up)"
  unfolding tryCancel_def by (intro keeping)

lemma notify_keeps [keeping]: "keeps I (notifyStall row kind n)"
  unfolding notifyStall_def by (auto intro!: keeping triple_change stalls)

end

text \<open>\<open>won i\<close> is the state of a process between the settlement that ended job \<open>i\<close> and the release it owes.\<close>

locale job_invariant =
  fixes I :: "batch_world \<Rightarrow> bool" and won :: "string \<Rightarrow> batch_world \<Rightarrow> bool"
  assumes turns: "I w \<Longrightarrow> I (w\<lparr>bw_turns := ts\<rparr>)"
    and on_budgets: "I w \<Longrightarrow> I (w\<lparr>bw_budgets := b\<rparr>)"
    and on_rows: "I w \<Longrightarrow> I (w\<lparr>bw_ledger := l\<rparr>)"
    and on_stalls: "I w \<Longrightarrow> I (w\<lparr>bw_stalls := n\<rparr>)"
    and on_insert: "I w \<Longrightarrow> I (snd (with_jobs (jobs_insert owner v t) w))"
    and on_update: "I w \<Longrightarrow> I (snd (with_jobs (jobs_update owner i p ss t) w))"
    and on_fail: "I w \<Longrightarrow> I (snd (with_jobs (jobs_fail owner i e t) w))"
    and on_discard: "I w \<Longrightarrow> I (snd (with_jobs (jobs_discard owner i) w))"
    and settle_lost: "I w \<Longrightarrow> fst (with_jobs (jobs_settle owner i s ss t) w) \<in> {Inl (), Inr None}
          \<Longrightarrow> I (snd (with_jobs (jobs_settle owner i s ss t) w))"
    and settle_wins: "I w \<Longrightarrow> fst (with_jobs (jobs_settle owner i s ss t) w) = Inr (Some r)
          \<Longrightarrow> won i (snd (with_jobs (jobs_settle owner i s ss t) w))"
    and won_keeps: "won i w \<Longrightarrow> I w"
    and won_turns: "won i w \<Longrightarrow> won i (w\<lparr>bw_turns := ts\<rparr>)"
    and won_budgets: "won i w \<Longrightarrow> won i (w\<lparr>bw_budgets := b\<rparr>)"
    and won_act: "won i w \<Longrightarrow> won i (act_world act w)"
    and released: "won i w \<Longrightarrow> I (note_release i ByPoller w)"
    and submit_released: "I w \<Longrightarrow> I (note_release i BySubmit w)"
begin

lemma settled: "I w \<Longrightarrow> I (snd (with_jobs (jobs_settle owner i s ss t) w))"
proof (cases "fst (with_jobs (jobs_settle owner i s ss t) w)")
  case (Inr a)
  assume "I w"
  with Inr show ?thesis
    by (cases a) (auto intro: settle_lost dest: settle_wins won_keeps)
qed (simp add: settle_lost)

lemma act: "I w \<Longrightarrow> I (act_world a w)"
proof (cases a)
  case (ActFinish owner i s ss)
  assume I: "I w"
  obtain x w1 where run: "with_jobs (jobs_settle owner i s ss (now_of w)) w = (x, w1)" by fastforce
  have "I w1" using settled[OF I, of owner i s ss "now_of w"] run by simp
  moreover have "x = Inr (Some r) \<Longrightarrow> won i w1" for r
    using settle_wins[OF I, of owner i s ss "now_of w" r] run by simp
  ultimately show ?thesis
    using ActFinish run by (auto simp: act_world_def split: sum.split option.split intro: released)
qed (auto simp: act_world_def intro: on_budgets on_insert on_update on_fail on_discard on_rows)

lemma others: "I w \<Longrightarrow> I (interfere as w)"
  by (induction as arbitrary: w) (auto simp: interfere_def intro: act)

lemma won_others: "won i w \<Longrightarrow> won i (interfere as w)"
  by (induction as arbitrary: w) (auto simp: interfere_def intro: won_act)

end

sublocale job_invariant \<subseteq> awaiting I
  by unfold_locales (auto intro: others turns on_budgets on_rows on_stalls on_insert on_update on_fail on_discard)

context job_invariant begin

lemma pausing_won: "triple (won i) pausing (\<lambda>_. won i) E"
  by (auto simp: triple_def pausing_def intro: won_others won_turns split: list.split)

lemma budget_won: "triple (won i) (budget_call f) (\<lambda>_. won i) E"
  unfolding budget_call_def
  by (rule triple_andThen[OF pausing_won]) (auto simp: triple_def intro: won_budgets split: prod.split)

subsection \<open>The programs\<close>

lemma settle_rule:
  "triple I (jobs (\<lambda>t. jobs_settle owner i (s t) ss t)) (\<lambda>d w. I w \<and> (d \<noteq> None \<longrightarrow> won i w)) I"
  unfolding jobs_def
proof (intro triple_look statement_rule settled)
  fix v w a w1
  assume I: "I w" and run: "with_jobs (jobs_settle owner i (s (now_of v)) ss (now_of v)) w = (Inr a, w1)"
  show "I w1 \<and> (a \<noteq> None \<longrightarrow> won i w1)"
    using settled[OF I, of owner i "s (now_of v)" ss "now_of v"]
      settle_wins[OF I, of owner i "s (now_of v)" ss "now_of v"] run by auto
qed

lemma release_rule: "triple (won (bj_id job)) (release_call ctx ByPoller job m) (\<lambda>_. I) E"
  unfolding release_call_def
  by (rule triple_andThen[OF budget_won]) (auto intro: triple_change released)

lemma finish_keeps [keeping]: "keeps I (finish ctx job status e counts)"
  unfolding finish_def
proof (cases counts, simp only: prod.case, rule triple_andThen[OF settle_rule])
  fix completed failed cost :: int and d
  let ?rest = "case d of None \<Rightarrow> give still
    | Some _ \<Rightarrow> andThen (case bj_reservedCeilingMicros job of None \<Rightarrow> give () | Some m \<Rightarrow> release_call ctx ByPoller job m)
        (\<lambda>_. give \<lparr>adv_settled = 0 < completed + failed, adv_terminal = Some status\<rparr>)"
  show "triple (\<lambda>w. I w \<and> (d \<noteq> None \<longrightarrow> won (bj_id job) w)) ?rest (\<lambda>_. I) I"
  proof (cases d)
    case None
    then show ?thesis by (auto intro: triple_give)
  next
    case (Some r)
    have "triple (won (bj_id job)) (case bj_reservedCeilingMicros job of None \<Rightarrow> give () | Some m \<Rightarrow> release_call ctx ByPoller job m)
            (\<lambda>_. I) I"
      by (auto intro!: triple_case_option triple_give release_rule dest: won_keeps)
    then have "triple (won (bj_id job)) ?rest (\<lambda>_. I) I"
      unfolding Some option.case by (rule triple_andThen) (auto intro: triple_give)
    then show ?thesis by (rule triple_weaken) (auto simp: Some)
  qed
qed

lemma submit_release_keeps [keeping]: "keeps I (release_call ctx BySubmit job m)"
  unfolding release_call_def
  by (rule triple_andThen[OF budget_keeps]) (auto intro: triple_change submit_released)

lemma expired_keeps [keeping]: "keeps I (expiredOrLost ctx row)"
  unfolding expiredOrLost_def by (intro keeping)

lemma reconcile_keeps [keeping]: "keeps I (reconcileSubmission ctx up row)"
  unfolding reconcileSubmission_def by (intro keeping)

lemma settleAndFinish_keeps [keeping]: "keeps I (settleAndFinish ctx up job s)"
  unfolding settleAndFinish_def by (intro keeping)

lemma applyStatus_keeps [keeping]: "keeps I (applyStatus ctx up row view)"
  unfolding applyStatus_def Let_def by (intro keeping)

lemma advance_keeps [keeping]: "keeps I (advance ctx up row)"
  unfolding advance_def by (intro keeping)

lemma sweep_keeps: "keeps I (sweep_rows ctx up busy rs)"
  by (induction rs) (auto intro!: keeping)

lemma discard_then_keeps [keeping]: "keeps I (discard_then owner i e)"
  unfolding discard_then_def by (intro keeping)

lemma create_failed_keeps [keeping]: "keeps I (create_failed ctx owner s row reserved f)"
  unfolding create_failed_def
  by (auto split: upstream_fault.split option.split intro!: keeping)

lemma reserve_keeps [keeping]: "keeps I (reserve_step ctx owner agentId s row)"
  unfolding reserve_step_def
  by (intro keeping; auto split: batch_reservation.split intro!: keeping)

lemma insert_keeps [keeping]: "keeps I (statement (\<lambda>w. with_jobs (jobs_insert owner v (now_of w)) w))"
  by (rule statement_keeps) (rule inserted)

lemma submit_keeps: "keeps I (submit ctx owner agent parsed created)"
  unfolding submit_def by (intro keeping)

lemma cancel_keeps: "keeps I (cancelJob up owner agentId i)"
  unfolding cancelJob_def Let_def by (intro keeping)

end

section \<open>Runs of the subsystem\<close>

datatype batch_call =
    DoSweep "string \<Rightarrow> upstream" "string list" "job_row list"
  | DoSubmit string "string option" "batch_fault + submission" "upstream_fault + submit_result"
  | DoCancel upstream string "string option" string

definition run_call :: "batch_ctx \<Rightarrow> batch_call \<Rightarrow> batch_world \<Rightarrow> batch_world" where
  "run_call ctx c w =
     (case c of
        DoSweep up busy rs \<Rightarrow> snd (sweep_rows ctx up busy rs w)
      | DoSubmit owner agent parsed created \<Rightarrow> snd (submit ctx owner agent parsed created w)
      | DoCancel up owner agentId i \<Rightarrow> snd (cancelJob up owner agentId i w))"

definition run_calls :: "batch_ctx \<Rightarrow> batch_call list \<Rightarrow> batch_world \<Rightarrow> batch_world" where
  "run_calls ctx cs w = foldl (\<lambda>v c. run_call ctx c v) w cs"

context job_invariant begin

lemma run_keeps: "I w \<Longrightarrow> I (run_calls ctx cs w)"
proof (induction cs arbitrary: w)
  case (Cons c cs)
  have "I (run_call ctx c w)"
    using keepsD[OF sweep_keeps Cons.prems] keepsD[OF submit_keeps Cons.prems] keepsD[OF cancel_keeps Cons.prems]
    by (simp add: run_call_def split: batch_call.split)
  then show ?case using Cons.IH by (simp add: run_calls_def)
qed (simp add: run_calls_def)

end

definition some_ended :: "string \<Rightarrow> job_table \<Rightarrow> bool" where
  "some_ended i db \<longleftrightarrow> (\<exists>r. db i = Some r \<and> ended r)"

lemma some_ended_kept: "good_stmt db db1 \<Longrightarrow> table_ok db \<Longrightarrow> some_ended i db \<Longrightarrow> some_ended i db1"
  unfolding good_stmt_def final_kept_def some_ended_def ended_def by metis

definition releases_ok :: "batch_world \<Rightarrow> bool" where
  "releases_ok w \<longleftrightarrow>
     table_ok (bw_jobs w)
   \<and> (\<forall>i. count_list (bw_released w) (i, ByPoller) \<le> 1)
   \<and> (\<forall>i. (i, ByPoller) \<in> set (bw_released w) \<longrightarrow> some_ended i (bw_jobs w))"

definition unreleased_end :: "string \<Rightarrow> batch_world \<Rightarrow> bool" where
  "unreleased_end i w \<longleftrightarrow> releases_ok w \<and> (i, ByPoller) \<notin> set (bw_released w) \<and> some_ended i (bw_jobs w)"

lemma with_jobs_parts [simp]:
  "bw_jobs (snd (with_jobs stmt w)) = snd (stmt (bw_jobs w))"
  "bw_released (snd (with_jobs stmt w)) = bw_released w"
  "fst (with_jobs stmt w) = fst (stmt (bw_jobs w))"
  by (simp_all add: with_jobs_def split: prod.split)

lemma releases_ok_stmt:
  "releases_ok w \<Longrightarrow> good_stmt (bw_jobs w) (snd (stmt (bw_jobs w))) \<Longrightarrow> releases_ok (snd (with_jobs stmt w))"
  unfolding releases_ok_def by (auto simp: good_stmt_def intro: some_ended_kept[unfolded good_stmt_def])

lemma unreleased_stmt:
  "unreleased_end i w \<Longrightarrow> good_stmt (bw_jobs w) (snd (stmt (bw_jobs w))) \<Longrightarrow> unreleased_end i (snd (with_jobs stmt w))"
  unfolding unreleased_end_def
  using releases_ok_stmt some_ended_kept by (auto simp: releases_ok_def)

lemma settle_only_live:
  "table_ok db \<Longrightarrow> fst (jobs_settle owner i s ss t db) = Inr (Some r) \<Longrightarrow>
     \<not> some_ended i db \<and> some_ended i (snd (jobs_settle owner i s ss t db))"
  by (cases "jobs_settle owner i s ss t db") (auto simp: some_ended_def dest: settle_won)

lemma release_noted: "unreleased_end i w \<Longrightarrow> releases_ok (note_release i ByPoller w)"
  by (auto simp: unreleased_end_def releases_ok_def note_release_def count_list_0_iff)

lemma other_release_noted: "unreleased_end i w \<Longrightarrow> unreleased_end j w \<Longrightarrow> j \<noteq> i \<Longrightarrow> unreleased_end i (note_release j ByPoller w)"
  using release_noted[of j w] by (auto simp: unreleased_end_def note_release_def)

lemma unreleased_act: "unreleased_end i w \<Longrightarrow> unreleased_end i (act_world a w)"
proof (cases a)
  case (ActFinish owner j s ss)
  assume here: "unreleased_end i w"
  then have ok: "table_ok (bw_jobs w)" by (simp add: unreleased_end_def releases_ok_def)
  let ?stmt = "jobs_settle owner j s ss (now_of w)"
  obtain x w1 where run: "with_jobs ?stmt w = (x, w1)" by fastforce
  have kept: "unreleased_end i w1"
    using unreleased_stmt[where stmt = ?stmt, OF here] run by (simp add: good_settle)
  have "unreleased_end i (note_release j ByPoller w1)" if won: "x = Inr (Some r)" for r
  proof (rule other_release_noted[OF kept])
    have "fst (?stmt (bw_jobs w)) = Inr (Some r)" "bw_jobs w1 = snd (?stmt (bw_jobs w))" "bw_released w1 = bw_released w"
      using run won with_jobs_parts[of ?stmt w] by auto
    with settle_only_live[OF ok] have step: "\<not> some_ended j (bw_jobs w)" "some_ended j (bw_jobs w1)"
      by (metis)+
    then show "j \<noteq> i" using here by (auto simp: unreleased_end_def)
    show "unreleased_end j w1"
      using step kept here \<open>bw_released w1 = _\<close> by (auto simp: unreleased_end_def releases_ok_def)
  qed
  with kept run ActFinish show ?thesis
    by (auto simp: act_world_def split: sum.split option.split)
qed (auto simp: act_world_def intro: unreleased_stmt good_stmts, auto simp: unreleased_end_def releases_ok_def)

interpretation releases: job_invariant releases_ok unreleased_end
proof unfold_locales
  fix w owner i s ss t r
  assume "releases_ok w" and "fst (with_jobs (jobs_settle owner i s ss t) w) = Inr (Some r)"
  moreover from this have "\<not> some_ended i (bw_jobs w) \<and> some_ended i (snd (jobs_settle owner i s ss t (bw_jobs w)))"
    by (intro settle_only_live) (auto simp: releases_ok_def)
  moreover have "releases_ok (snd (with_jobs (jobs_settle owner i s ss t) w))"
    using calculation(1) by (rule releases_ok_stmt) (rule good_settle)
  ultimately show "unreleased_end i (snd (with_jobs (jobs_settle owner i s ss t) w))"
    by (auto simp: unreleased_end_def releases_ok_def)
qed (auto intro: releases_ok_stmt good_stmts unreleased_act release_noted,
     auto simp: unreleased_end_def releases_ok_def note_release_def)

interpretation ends: job_invariant
  "\<lambda>w. table_ok (bw_jobs w) \<and> final_kept db0 (bw_jobs w)" "\<lambda>_ w. table_ok (bw_jobs w) \<and> final_kept db0 (bw_jobs w)"
  for db0
proof -
  let ?I = "\<lambda>w. table_ok (bw_jobs w) \<and> final_kept db0 (bw_jobs w)"
  have stmt: "?I w \<Longrightarrow> good_stmt (bw_jobs w) (snd (st (bw_jobs w))) \<Longrightarrow> ?I (snd (with_jobs st w))" for st :: "'a job_stmt" and w
    by (auto simp: good_stmt_def intro: final_kept_trans)
  have settle: "?I w \<Longrightarrow> ?I (snd (with_jobs (jobs_settle owner i s ss t) w))" for w owner i s ss t
    using good_settle[of "bw_jobs w" owner i s ss t] by (auto simp: good_stmt_def intro: final_kept_trans)
  have others: "?I w \<Longrightarrow> ?I (snd (with_jobs (jobs_update owner i p ss t) w))"
      "?I w \<Longrightarrow> ?I (snd (with_jobs (jobs_insert owner v t) w))" "?I w \<Longrightarrow> ?I (snd (with_jobs (jobs_fail owner i e t) w))"
      "?I w \<Longrightarrow> ?I (snd (with_jobs (jobs_discard owner i) w))" for w owner i p ss t v e
    using good_update[of "bw_jobs w" owner i p ss t] good_insert[of "bw_jobs w" owner v t]
      good_fail[of "bw_jobs w" owner i e t] good_discard[of "bw_jobs w" owner i]
    by (auto simp: good_stmt_def intro: final_kept_trans)
  have act: "?I w \<Longrightarrow> ?I (act_world a w)" for w a
  proof (cases a)
    case (ActFinish owner i s ss)
    assume I: "?I w"
    obtain x w1 where run: "with_jobs (jobs_settle owner i s ss (now_of w)) w = (x, w1)" by fastforce
    have "?I w1" using settle[OF I, of owner i s ss "now_of w"] run by simp
    then show ?thesis
      using ActFinish run by (auto simp: act_world_def note_release_def split: sum.split option.split)
  next
    case (ActUpdate owner i p ss) assume "?I w" with ActUpdate show ?thesis by (simp only: act_world_def batch_act.case others)
  next
    case (ActInsert owner v) assume "?I w" with ActInsert show ?thesis by (simp only: act_world_def batch_act.case others)
  next
    case (ActFail owner i e) assume "?I w" with ActFail show ?thesis by (simp only: act_world_def batch_act.case others)
  next
    case (ActDiscard owner i) assume "?I w" with ActDiscard show ?thesis by (simp only: act_world_def batch_act.case others)
  qed (auto simp: act_world_def)
  show "job_invariant ?I (\<lambda>_. ?I)"
    by (unfold_locales; (rule settle | rule others | rule act | simp add: note_release_def); assumption?)
qed

section \<open>Properties\<close>

definition sample_row :: job_row where
  "sample_row =
     \<lparr>bj_id = ''j'', bj_owner = ''u'', bj_agentId = ''a'', bj_providerId = ''p'', bj_modelId = ''m'', bj_tierAssigned = None,
      bj_upstreamBatchId = Some ''up'', bj_endpoint = ChatCompletions, bj_providerKind = Some ApiKeyKind,
      bj_status = JInProgress, bj_itemCount = 2, bj_completedCount = 0, bj_failedCount = 0,
      bj_estimatedInputTokens = 100, bj_inputPrice = Some 1, bj_outputPrice = Some 2, bj_cacheReadPrice = None,
      bj_cacheWritePrice = None, bj_priceVersionId = None, bj_priceSource = Some PsBundled,
      bj_reservedCeilingMicros = Some 500, bj_settledCostMicros = None, bj_cancelRequested = False,
      bj_completionWindowMs = 86400000, bj_submittedAt = 1000, bj_updatedAt = 1000, bj_lastPolledAt = None,
      bj_stalledSince = None, bj_terminalAt = None, bj_resultsExpireAt = Some 5000, bj_errorKind = None\<rparr>"

definition batch_sample :: batch_world where
  "batch_sample =
     \<lparr>bw_jobs = [''j'' \<mapsto> sample_row], bw_ledger = [], bw_budgets = sample_world, bw_turns = [],
      bw_released = [], bw_stalls = []\<rparr>"

definition sample_upstream :: upstream where
  "sample_upstream =
     \<lparr>up_provider = True, up_seam = True, up_list = Inr [],
      up_status = Inr \<lparr>sv_status = Some JCompleted, sv_counts = None, sv_resultsExpireAt = Some 9000\<rparr>,
      up_results = ([\<lparr>bo_customId = ''x'', bo_verdict = ItemOk None\<rparr>], None), up_cancel = Inr ()\<rparr>"

definition sample_ctx :: batch_ctx where
  "sample_ctx =
     \<lparr>bc_enabled = True, bc_windowMarginMs = 0, bc_failOpen = False, bc_staleMs = 5000,
      bc_budgets = (\<lambda>_. Inr []), bc_digest = (\<lambda>a b. a @ b)\<rparr>"

lemma sample_table_ok: "table_ok (bw_jobs batch_sample)"
  by (simp add: table_ok_def batch_sample_def sample_row_def jobs_check_def isBatchJobTerminal_def
      BATCH_JOB_TERMINAL_STATUSES_def)

text \<open>C2 (safety). 
  C0 (safety). The reservation of a batch job is released by the pollers at most once, and only after the job has ended:
  whatever sweeps, submissions and cancels run, with whatever stale rows they listed, while other pollers,
  submissions and cancels write the same tables between any two of their statements, statements get lost or lose
  their answers, and the upstream answers anything.
\<close>

theorem reservation_released_once:
  assumes "table_ok (bw_jobs w)" and "bw_released w = []"
  shows "count_list (bw_released (run_calls ctx cs w)) (i, ByPoller) \<le> 1
    \<and> ((i, ByPoller) \<in> set (bw_released (run_calls ctx cs w))
        \<longrightarrow> (\<exists>r. bw_jobs (run_calls ctx cs w) i = Some r \<and> isBatchJobTerminal (bj_status r)))"
proof -
  have "releases_ok w" using assms by (simp add: releases_ok_def)
  from releases.run_keeps[OF this] show ?thesis
    unfolding releases_ok_def some_ended_def by (metis ended_status table_okD)
qed

definition providerless :: upstream where
  "providerless = sample_upstream\<lparr>up_provider := False\<rparr>"

lemma sample_releases:
  "bw_released (run_calls sample_ctx [DoSweep (\<lambda>_. providerless) [] [sample_row]] batch_sample) = [(''j'', ByPoller)]"
  by code_simp

theorem reservation_released_once_witness:
  "count_list (bw_released (run_calls sample_ctx [DoSweep (\<lambda>_. providerless) [] [sample_row]] batch_sample)) (''j'', ByPoller) \<le> 1
   \<and> (\<exists>r. bw_jobs (run_calls sample_ctx [DoSweep (\<lambda>_. providerless) [] [sample_row]] batch_sample) ''j'' = Some r
        \<and> isBatchJobTerminal (bj_status r))"
proof -
  have "bw_released batch_sample = []" by (simp add: batch_sample_def)
  from reservation_released_once[OF sample_table_ok this, of sample_ctx "[DoSweep (\<lambda>_. providerless) [] [sample_row]]" "''j''"]
  show ?thesis using sample_releases by simp
qed

text \<open>An ended row is untouched by every statement that carries a guard: a settlement, a failure, a
  discard, and an update conditional on live statuses.\<close>

lemma ended_row_guarded:
  assumes "table_ok db" and "db i = Some r" and "isBatchJobTerminal (bj_status r)"
  shows "snd (jobs_settle owner i s ss now db) = db"
    and "snd (jobs_fail owner i e now db) = db"
    and "snd (jobs_discard owner i db) = db"
    and "\<not> list_ex isBatchJobTerminal sts \<Longrightarrow> snd (jobs_update owner i p (Some sts) now db) = db"
proof -
  have end_set: "bj_terminalAt r \<noteq> None"
    using table_okD[OF assms(1,2)] assms(3) by (simp add: jobs_check_def)
  have row: "owned_job owner i db = Some r1 \<Longrightarrow> r1 = r" for r1
    using assms(2) by (auto dest: owned_job_someD)
  show "snd (jobs_settle owner i s ss now db) = db"
    using end_set row by (auto simp: jobs_settle_def Let_def split: option.split)
  show "snd (jobs_fail owner i e now db) = db"
    using assms(3) row by (auto simp: jobs_fail_def split: option.split)
  show "snd (jobs_discard owner i db) = db"
    using assms(3) row
    by (auto simp: jobs_discard_def isBatchJobTerminal_def BATCH_JOB_TERMINAL_STATUSES_def split: option.split)
  show "snd (jobs_update owner i p (Some sts) now db) = db" if "\<not> list_ex isBatchJobTerminal sts"
    using that assms(3) row by (auto simp: jobs_update_def list_ex_iff split: option.split)
qed

text \<open>C4 (invariant). A batch job that has ended stays ended: under the same interleavings its row stays in
  the table, in one of the terminal statuses, with the instant it ended at and the cost it was settled
  for. Which terminal status it shows is kept by every statement with a guard: a settlement, a failure, a
  discard and an update conditional on live statuses leave the ended row exactly as it is. Only an
  update without a status guard can rewrite it, and the adoption of a found job is one
  (\<open>adoption_overwrites_end\<close> of theory BatchLimits). The checks of the table hold of every row throughout.\<close>

theorem ended_job_stays_ended:
  assumes "table_ok (bw_jobs w)" and "bw_jobs w i = Some r" and "isBatchJobTerminal (bj_status r)"
  shows "table_ok (bw_jobs (run_calls ctx cs w))
    \<and> (\<exists>r1. bw_jobs (run_calls ctx cs w) i = Some r1 \<and> isBatchJobTerminal (bj_status r1)
          \<and> bj_terminalAt r1 = bj_terminalAt r \<and> bj_settledCostMicros r1 = bj_settledCostMicros r
          \<and> snd (jobs_settle owner i s ss now (bw_jobs (run_calls ctx cs w))) i = Some r1
          \<and> snd (jobs_fail owner i e now (bw_jobs (run_calls ctx cs w))) i = Some r1
          \<and> snd (jobs_discard owner i (bw_jobs (run_calls ctx cs w))) i = Some r1
          \<and> (\<not> list_ex isBatchJobTerminal sts \<longrightarrow>
               snd (jobs_update owner i p (Some sts) now (bw_jobs (run_calls ctx cs w))) i = Some r1))"
proof -
  have "table_ok (bw_jobs (run_calls ctx cs w)) \<and> final_kept (bw_jobs w) (bw_jobs (run_calls ctx cs w))"
    by (rule ends.run_keeps) (simp add: assms(1))
  then have ok: "table_ok (bw_jobs (run_calls ctx cs w))" and kept: "final_kept (bw_jobs w) (bw_jobs (run_calls ctx cs w))"
    by blast+
  have old: "ended r" using ended_status[of r] table_okD[OF assms(1,2)] assms(3) by simp
  obtain r1 where r1: "bw_jobs (run_calls ctx cs w) i = Some r1" "bj_terminalAt r1 = bj_terminalAt r"
    "bj_settledCostMicros r1 = bj_settledCostMicros r"
    using kept old assms(2) by (auto simp: final_kept_def)
  then have final: "isBatchJobTerminal (bj_status r1)"
    using ended_status[of r1] table_okD[OF ok r1(1)] old by (simp add: ended_def)
  from ok r1 final ended_row_guarded[OF ok r1(1) final] show ?thesis by simp
qed

text \<open>A second poller holds a row from before the job ended and the upstream now says something else.\<close>

theorem ended_job_stays_ended_witness:
  "\<exists>r1. bw_jobs (run_calls sample_ctx [DoSweep (\<lambda>_. providerless) [] [sample_row]]
            (batch_sample\<lparr>bw_jobs := [''j'' \<mapsto> fail_row EAuth 7 sample_row]\<rparr>)) ''j'' = Some r1
      \<and> isBatchJobTerminal (bj_status r1) \<and> bj_terminalAt r1 = Some 7 \<and> bj_settledCostMicros r1 = Some 0"
proof -
  let ?w = "batch_sample\<lparr>bw_jobs := [''j'' \<mapsto> fail_row EAuth 7 sample_row]\<rparr>"
  have "table_ok (bw_jobs ?w)"
    by (simp add: table_ok_def fail_row_def sample_row_def jobs_check_def isBatchJobTerminal_def BATCH_JOB_TERMINAL_STATUSES_def)
  moreover have "bw_jobs ?w ''j'' = Some (fail_row EAuth 7 sample_row)" by simp
  moreover have "isBatchJobTerminal (bj_status (fail_row EAuth 7 sample_row))" by code_simp
  ultimately obtain r1 where "bw_jobs (run_calls sample_ctx [DoSweep (\<lambda>_. providerless) [] [sample_row]] ?w) ''j'' = Some r1"
    "isBatchJobTerminal (bj_status r1)" "bj_terminalAt r1 = bj_terminalAt (fail_row EAuth 7 sample_row)"
    "bj_settledCostMicros r1 = bj_settledCostMicros (fail_row EAuth 7 sample_row)"
    using ended_job_stays_ended[of ?w "''j''" _ sample_ctx "[DoSweep (\<lambda>_. providerless) [] [sample_row]]"] by blast
  then show ?thesis by (intro exI[of _ r1]) (simp add: fail_row_def)
qed

text \<open>Before any verdict: the upstream knows the job and calls it live, calls it something this program cannot map,
  or does not answer; and a job without an upstream id is on the upstream's list, or the list does not come.\<close>

definition no_verdict :: "upstream \<Rightarrow> job_row \<Rightarrow> bool" where
  "no_verdict up row \<longleftrightarrow>
     up_provider up
   \<and> (if bj_status row = JSubmissionUnknown \<or> bj_upstreamBatchId row = None
      then (case up_list up of Inl _ \<Rightarrow> True | Inr es \<Rightarrow> \<exists>e \<in> set es. le_jobId e = Some (bj_id row))
      else (case up_status up of
              Inl f \<Rightarrow> f \<noteq> UpNotFound
            | Inr v \<Rightarrow> (case sv_status v of None \<Rightarrow> True | Some st \<Rightarrow> \<not> isBatchJobTerminal st)))"

fun finishing_act :: "batch_act \<Rightarrow> bool" where
  "finishing_act (ActFinish owner i s ss) = True"
| "finishing_act _ = False"

definition unfinished_script :: "batch_world \<Rightarrow> bool" where
  "unfinished_script w \<longleftrightarrow> (\<forall>turn \<in> set (bw_turns w). \<forall>a \<in> set (bt_others turn). \<not> finishing_act a)"

lemma quiet_act: "\<not> finishing_act a \<Longrightarrow> bw_released (act_world a w) = bw_released w \<and> bw_turns (act_world a w) = bw_turns w"
  by (cases a) (simp_all add: act_world_def with_jobs_def split: prod.split)

lemma quiet_others:
  "\<forall>a \<in> set as. \<not> finishing_act a \<Longrightarrow> bw_released (interfere as w) = bw_released w \<and> bw_turns (interfere as w) = bw_turns w"
  by (induction as arbitrary: w) (simp_all add: interfere_def quiet_act)

interpretation quiet: awaiting "\<lambda>w. bw_released w = L \<and> unfinished_script w" for L
  by unfold_locales
    (auto simp: unfinished_script_def quiet_others with_jobs_def split: prod.split)

lemma quiet_reconcile:
  assumes "no_verdict up row" and "bj_status row = JSubmissionUnknown \<or> bj_upstreamBatchId row = None"
  shows "keeps (\<lambda>w. bw_released w = L \<and> unfinished_script w) (reconcileSubmission ctx up row)"
  unfolding reconcileSubmission_def
proof (rule quiet.upstream_then)
  fix es
  assume "up_list up = Inr es"
  then obtain e where "e \<in> set es" "le_jobId e = Some (bj_id row)"
    using assms by (auto simp: no_verdict_def)
  then obtain found where "find (\<lambda>e. le_jobId e = Some (bj_id row)) es = Some found"
    by (cases "find (\<lambda>e. le_jobId e = Some (bj_id row)) es") (auto simp: find_None_iff)
  then show "keeps (\<lambda>w. bw_released w = L \<and> unfinished_script w)
     (case find (\<lambda>e. le_jobId e = Some (bj_id row)) es of
        Some found \<Rightarrow>
           andThen
             (jobs (\<lambda>now. jobs_update (bj_owner row) (bj_id row)
                (empty_patch\<lparr>jp_status := Some (patched (le_status found) JInProgress),
                             jp_upstreamBatchId := Some (Some (le_upstreamId found)),
                             jp_errorKind := Some None, jp_stalledSince := Some None\<rparr>) None now))
             (\<lambda>adopted. case adopted of
                None \<Rightarrow> give still
              | Some r \<Rightarrow>
                  if bj_cancelRequested r then andThen (tryCancel up) (\<lambda>_. give still) else give still)
       | None \<Rightarrow>
           look (\<lambda>w.
             if since_stall row (now_of w) \<ge> SUBMISSION_UNKNOWN_WINDOW_MS
             then finish ctx row JFailed (Some (if bj_cancelRequested row then ESubmitLost else ESubmitUnresolved)) (0, 0, 0)
             else andThen (notifyStall row None (since_stall row (now_of w))) (\<lambda>_. give still)))"
    by (simp only: option.case) (intro keeping)
qed

lemma quiet_status:
  assumes "case sv_status v of None \<Rightarrow> True | Some st \<Rightarrow> \<not> isBatchJobTerminal st"
  shows "keeps (\<lambda>w. bw_released w = L \<and> unfinished_script w) (applyStatus ctx up row v)"
proof (cases "sv_status v")
  case None
  show ?thesis unfolding applyStatus_def Let_def None option.case by (intro keeping)
next
  case (Some st)
  with assms have "isBatchJobTerminal st = False" by simp
  then show ?thesis
    unfolding applyStatus_def Let_def Some option.case by (simp only: not_False_eq_True if_True) (intro keeping)
qed

lemma status_probe:
  "catching (andThen (upstream_call x) (\<lambda>v. give (Some v)))
      (\<lambda>e. if e = UpstreamFault UpNotFound then give None else throw e)
   = andThen pausing (\<lambda>_. case x of Inl f \<Rightarrow> if f = UpNotFound then give None else throw (UpstreamFault f)
                                  | Inr v \<Rightarrow> give (Some v))"
proof (rule ext)
  fix w
  obtain w1 where "pausing w = (Inr (), w1)"
    by (cases "bw_turns w") (auto simp: pausing_def)
  then show "catching (andThen (upstream_call x) (\<lambda>v. give (Some v)))
      (\<lambda>e. if e = UpstreamFault UpNotFound then give None else throw e) w
   = andThen pausing (\<lambda>_. case x of Inl f \<Rightarrow> if f = UpNotFound then give None else throw (UpstreamFault f)
                                  | Inr v \<Rightarrow> give (Some v)) w"
    by (cases x) (simp_all add: catching_def andThen_def upstream_call_def throw_def give_def)
qed

lemma quiet_view:
  assumes "case up_status up of Inl f \<Rightarrow> f \<noteq> UpNotFound
       | Inr v \<Rightarrow> (case sv_status v of None \<Rightarrow> True | Some st \<Rightarrow> \<not> isBatchJobTerminal st)"
  shows "keeps (\<lambda>w. bw_released w = L \<and> unfinished_script w)
     (andThen
        (catching (andThen (upstream_call (up_status up)) (\<lambda>v. give (Some v)))
           (\<lambda>e. if e = UpstreamFault UpNotFound then give None else throw e))
        (\<lambda>view. case view of None \<Rightarrow> expiredOrLost ctx row | Some v \<Rightarrow> applyStatus ctx up row v))"
    (is "keeps ?I _")
proof -
  have "triple ?I (case up_status up of Inl f \<Rightarrow> if f = UpNotFound then give None else throw (UpstreamFault f)
                       | Inr v \<Rightarrow> give (Some v)) (\<lambda>a w. ?I w \<and> (\<exists>v. up_status up = Inr v \<and> a = Some v)) ?I"
    using assms by (cases "up_status up") (auto intro: triple_give triple_throw)
  with quiet.pausing_keeps have "triple ?I (andThen pausing (\<lambda>_. case up_status up of
      Inl f \<Rightarrow> if f = UpNotFound then give None else throw (UpstreamFault f) | Inr v \<Rightarrow> give (Some v)))
      (\<lambda>a w. ?I w \<and> (\<exists>v. up_status up = Inr v \<and> a = Some v)) ?I"
    by (rule triple_andThen)
  then show ?thesis
    unfolding status_probe
    by (rule triple_andThen) (rule triple_pull, use assms in \<open>auto intro: quiet_status\<close>)
qed

text \<open>C12 (safety). 
  C0 (safety). While the upstream has given no verdict on a job (it calls it live, reports a status this program cannot map,
  refuses or cannot be reached) advancing the job never releases its reservation, however long it has been
  stalled, whatever statements fail and whatever other processes write meanwhile.
\<close>

theorem reservation_held_without_verdict:
  assumes "no_verdict up row" and "unfinished_script w"
  shows "bw_released (snd (advance ctx up row w)) = bw_released w"
proof -
  let ?I = "\<lambda>v. bw_released v = bw_released w \<and> unfinished_script v"
  have provider: "up_provider up" using assms(1) by (simp add: no_verdict_def)
  have live: "\<not> (bj_status row = JSubmissionUnknown \<or> bj_upstreamBatchId row = None) \<Longrightarrow>
      (case up_status up of Inl f \<Rightarrow> f \<noteq> UpNotFound
       | Inr v \<Rightarrow> (case sv_status v of None \<Rightarrow> True | Some st \<Rightarrow> \<not> isBatchJobTerminal st))"
    using assms(1) by (simp add: no_verdict_def)
  have "keeps ?I (advance ctx up row)"
    unfolding advance_def
    by (simp only: provider not_True_eq_False if_False)
      (intro keeping quiet_reconcile[OF assms(1)] quiet_view live; assumption?)
  from keepsD[OF this] assms(2) show ?thesis by auto
qed

text \<open>An upstream status without a mapping, two weeks after the job was stalled.\<close>

theorem reservation_held_without_verdict_witness:
  "bw_released (snd (advance sample_ctx
      (sample_upstream\<lparr>up_status := Inr \<lparr>sv_status = None, sv_counts = None, sv_resultsExpireAt = None\<rparr>\<rparr>)
      (sample_row\<lparr>bj_stalledSince := Some (-1209600000)\<rparr>) batch_sample)) = []"
proof -
  let ?up = "sample_upstream\<lparr>up_status := Inr \<lparr>sv_status = None, sv_counts = None, sv_resultsExpireAt = None\<rparr>\<rparr>"
  have "no_verdict ?up (sample_row\<lparr>bj_stalledSince := Some (-1209600000)\<rparr>)"
    by (simp add: no_verdict_def sample_upstream_def sample_row_def)
  moreover have "unfinished_script batch_sample" by (simp add: unfinished_script_def batch_sample_def)
  ultimately have "bw_released (snd (advance sample_ctx ?up (sample_row\<lparr>bj_stalledSince := Some (-1209600000)\<rparr>) batch_sample))
      = bw_released batch_sample"
    by (rule reservation_held_without_verdict)
  then show ?thesis by (simp add: batch_sample_def)
qed

end
