(* ===== verification/BatchMoney.thy ===== *)
theory BatchMoney
  imports BatchFacts
begin

text \<open>
  The money of batch jobs: a settlement that crashed and was resumed any number of times records the cost
  that its rows in the ledger add up to, and a bounded ceiling covers what the items may cost.
\<close>

section \<open>Sums over matching lists\<close>

lemma sum_over_matching:
  fixes f :: "'a \<Rightarrow> 'c::comm_monoid_add"
  assumes "distinct (map a rs)" and "distinct (map b xs)" and "a ` set rs = b ` set xs"
    and "\<And>r x. r \<in> set rs \<Longrightarrow> x \<in> set xs \<Longrightarrow> a r = b x \<Longrightarrow> f r = h x"
  shows "sum_list (map f rs) = sum_list (map h xs)"
proof -
  let ?g = "\<lambda>i. h (inv_into (set xs) b i)"
  have inj: "inj_on b (set xs)" using assms(2) by (simp add: distinct_map)
  have left: "map f rs = map ?g (map a rs)"
  proof -
    have "f r = ?g (a r)" if "r \<in> set rs" for r
    proof (rule assms(4)[OF that])
      have "a r \<in> b ` set xs" using that assms(3) by blast
      then show "inv_into (set xs) b (a r) \<in> set xs" "a r = b (inv_into (set xs) b (a r))"
        by (auto intro: inv_into_into simp: f_inv_into_f)
    qed
    then show ?thesis by simp
  qed
  have right: "map h xs = map ?g (map b xs)"
    using inj by (simp add: inv_into_f_f)
  have "mset (map a rs) = mset (map b xs)"
    using assms(3) by (intro iffD1[OF set_eq_iff_mset_eq_distinct[OF assms(1,2)]]) simp
  then have "mset (map ?g (map a rs)) = mset (map ?g (map b xs))"
    by (metis mset_map)
  then show ?thesis
    unfolding left right by (metis sum_mset_sum_list)
qed

section \<open>What a settlement inserts\<close>

fun firsts :: "string list \<Rightarrow> batch_outcome list \<Rightarrow> batch_outcome list" where
  "firsts seen [] = []"
| "firsts seen (x # xs) =
     (if bo_customId x \<in> set seen then firsts seen xs else x # firsts (bo_customId x # seen) xs)"

lemma firsts_subset: "set (firsts seen xs) \<subseteq> set xs"
  by (induction xs arbitrary: seen) auto

lemma firsts_unseen: "x \<in> set (firsts seen xs) \<Longrightarrow> bo_customId x \<notin> set seen"
proof (induction xs arbitrary: seen)
  case (Cons y xs)
  then show ?case using Cons.IH[of "bo_customId y # seen"] by (auto split: if_splits)
qed simp

lemma firsts_distinct: "distinct (map bo_customId (firsts seen xs))"
  by (induction xs arbitrary: seen) (auto dest: firsts_unseen)

lemma firsts_take: "set (firsts seen (take k xs)) \<subseteq> set (firsts seen xs)"
proof (induction xs arbitrary: seen k)
  case (Cons x xs)
  then show ?case by (cases k) auto
qed simp

lemma insert_once_step:
  "snd (insert_once (r # rs) L) = (if ir_id r \<in> ir_id ` set L then snd (insert_once rs L) else snd (insert_once rs (L @ [r])))"
  by (simp split: prod.split)

lemma insert_once_none: "snd (insert_once [] L) = L"
  by simp

lemmas insert_once_simps = insert_once_step insert_once_none

declare insert_once.simps [simp del]

lemma insert_once_append: "snd (insert_once (a @ b) L) = snd (insert_once b (snd (insert_once a L)))"
  by (induction a arbitrary: L) (simp_all add: insert_once_simps)

lemma insert_once_rows: "set (snd (insert_once rs L)) \<subseteq> set L \<union> set rs"
proof (induction rs arbitrary: L)
  case (Cons r rs)
  from Cons[of L] Cons[of "L @ [r]"] show ?case by (auto simp: insert_once_simps)
qed (simp add: insert_once_simps)

lemma insert_once_ids: "ir_id ` set (snd (insert_once rs L)) = ir_id ` set L \<union> ir_id ` set rs"
proof (induction rs arbitrary: L)
  case (Cons r rs)
  from Cons[of L] Cons[of "L @ [r]"] show ?case by (auto simp: insert_once_simps)
qed (simp add: insert_once_simps)

lemma insert_once_distinct: "distinct (map ir_id L) \<Longrightarrow> distinct (map ir_id (snd (insert_once rs L)))"
proof (induction rs arbitrary: L)
  case (Cons r rs)
  from Cons.IH[of L] Cons.IH[of "L @ [r]"] Cons.prems show ?case by (auto simp: insert_once_simps)
qed (simp add: insert_once_simps)

lemma flush_alone:
  assumes "bw_turns w = []"
  shows "\<exists>n. flush acc w = (Inr (acc\<lparr>sa_inserted := n, sa_pending := []\<rparr>),
                       w\<lparr>bw_ledger := snd (insert_once (sa_pending acc) (bw_ledger w))\<rparr>)"
proof (cases "sa_pending acc = []")
  case True
  then have "acc = acc\<lparr>sa_inserted := sa_inserted acc, sa_pending := []\<rparr>" by simp
  then show ?thesis using True by (auto simp: flush_def give_def insert_once_simps intro: exI[of _ "sa_inserted acc"])
next
  case False
  then show ?thesis
    using assms by (auto simp: flush_def give_def andThen_def statement_def landed_def split: prod.split)
qed

text \<open>The loop alone: its counts and cost are those of the first outcomes, and what reached the ledger is a
  prefix of their rows, all of them when the stream ended well.\<close>

definition cost_sum :: "job_row \<Rightarrow> batch_outcome list \<Rightarrow> int" where
  "cost_sum job xs = (\<Sum>x\<leftarrow>xs. cost_micros (item_cost job x))"

lemma take_outcome_parts [simp]:
  "sa_seen (take_outcome digest job t x acc) = bo_customId x # sa_seen acc"
  "sa_completed (take_outcome digest job t x acc) = sa_completed acc + (if is_ok x then 1 else 0)"
  "sa_failed (take_outcome digest job t x acc) = sa_failed acc + (if is_ok x then 0 else 1)"
  "sa_costMicros (take_outcome digest job t x acc) = sa_costMicros acc + cost_micros (item_cost job x)"
  "sa_pending (take_outcome digest job t x acc) = sa_pending acc @ [item_row_of digest job t x]"
  by (simp_all add: take_outcome_def)

lemma settle_loop_alone:
  assumes "bw_turns w = []"
  shows "\<exists>k r. settle_loop digest job t broken xs acc w = (r, w\<lparr>bw_ledger := snd (insert_once
             (take k (sa_pending acc @ map (item_row_of digest job t) (firsts (sa_seen acc) xs))) (bw_ledger w))\<rparr>)
     \<and> (broken = None \<longrightarrow> k = length (sa_pending acc) + length (firsts (sa_seen acc) xs)
          \<and> (\<exists>acc1. r = Inr acc1
              \<and> sa_completed acc1 = sa_completed acc + int (length (filter is_ok (firsts (sa_seen acc) xs)))
              \<and> sa_failed acc1 = sa_failed acc + int (length (filter (\<lambda>x. \<not> is_ok x) (firsts (sa_seen acc) xs)))
              \<and> sa_costMicros acc1 = sa_costMicros acc + cost_sum job (firsts (sa_seen acc) xs)))"
  using assms
proof (induction xs arbitrary: acc w)
  case Nil
  obtain n where fl: "flush acc w = (Inr (acc\<lparr>sa_inserted := n, sa_pending := []\<rparr>),
      w\<lparr>bw_ledger := snd (insert_once (sa_pending acc) (bw_ledger w))\<rparr>)"
    using flush_alone[OF Nil] by blast
  show ?case
  proof (cases broken)
    case None
    with fl show ?thesis by (intro exI[of _ "length (sa_pending acc)"]) (simp add: cost_sum_def)
  next
    case (Some f)
    then show ?thesis by (intro exI[of _ 0]) (simp add: throw_def insert_once_simps)
  qed
next
  case (Cons x xs)
  let ?acc = "take_outcome digest job t x acc"
  show ?case
  proof (cases "bo_customId x \<in> set (sa_seen acc)")
    case True
    then show ?thesis using Cons.IH[OF Cons.prems, of acc] by simp
  next
    case new: False
    show ?thesis
    proof (cases "length (sa_pending ?acc) \<ge> CHUNK_SIZE")
      case False
      let ?rest = "map (item_row_of digest job t) (firsts (bo_customId x # sa_seen acc) xs)"
      from Cons.IH[OF Cons.prems, of ?acc, unfolded take_outcome_parts]
      obtain k r where run: "settle_loop digest job t broken xs ?acc w =
            (r, w\<lparr>bw_ledger := snd (insert_once (take k ((sa_pending acc @ [item_row_of digest job t x]) @ ?rest)) (bw_ledger w))\<rparr>)"
        and full: "broken = None \<longrightarrow> k = length (sa_pending acc @ [item_row_of digest job t x]) + length (firsts (bo_customId x # sa_seen acc) xs)
          \<and> (\<exists>acc1. r = Inr acc1
              \<and> sa_completed acc1 = sa_completed acc + (if is_ok x then 1 else 0) + int (length (filter is_ok (firsts (bo_customId x # sa_seen acc) xs)))
              \<and> sa_failed acc1 = sa_failed acc + (if is_ok x then 0 else 1) + int (length (filter (\<lambda>x. \<not> is_ok x) (firsts (bo_customId x # sa_seen acc) xs)))
              \<and> sa_costMicros acc1 = sa_costMicros acc + cost_micros (item_cost job x) + cost_sum job (firsts (bo_customId x # sa_seen acc) xs))"
        by blast
      have "settle_loop digest job t broken (x # xs) acc w = (r, w\<lparr>bw_ledger := snd (insert_once
             (take k (sa_pending acc @ map (item_row_of digest job t) (firsts (sa_seen acc) (x # xs)))) (bw_ledger w))\<rparr>)"
        using False new run by (simp add: Let_def)
      then show ?thesis
        using full new by (intro exI[of _ k] exI[of _ r]) (auto simp: cost_sum_def)
    next
      case True
      obtain n where fl: "flush ?acc w = (Inr (?acc\<lparr>sa_inserted := n, sa_pending := []\<rparr>),
          w\<lparr>bw_ledger := snd (insert_once (sa_pending ?acc) (bw_ledger w))\<rparr>)"
        using flush_alone[OF Cons.prems] by blast
      let ?w = "w\<lparr>bw_ledger := snd (insert_once (sa_pending ?acc) (bw_ledger w))\<rparr>"
      let ?rest = "map (item_row_of digest job t) (firsts (bo_customId x # sa_seen acc) xs)"
      from Cons.IH[of ?w "?acc\<lparr>sa_inserted := n, sa_pending := []\<rparr>"] Cons.prems
      obtain k r where run: "settle_loop digest job t broken xs (?acc\<lparr>sa_inserted := n, sa_pending := []\<rparr>) ?w =
            (r, w\<lparr>bw_ledger := snd (insert_once (take k ?rest) (snd (insert_once (sa_pending ?acc) (bw_ledger w))))\<rparr>)"
        and full: "broken = None \<longrightarrow> k = length ?rest
          \<and> (\<exists>acc1. r = Inr acc1
              \<and> sa_completed acc1 = sa_completed ?acc + int (length (filter is_ok (firsts (bo_customId x # sa_seen acc) xs)))
              \<and> sa_failed acc1 = sa_failed ?acc + int (length (filter (\<lambda>x. \<not> is_ok x) (firsts (bo_customId x # sa_seen acc) xs)))
              \<and> sa_costMicros acc1 = sa_costMicros ?acc + cost_sum job (firsts (bo_customId x # sa_seen acc) xs))"
        by simp blast
      have "settle_loop digest job t broken (x # xs) acc w = (r, w\<lparr>bw_ledger := snd (insert_once
             (take (length (sa_pending ?acc) + k) (sa_pending acc @ map (item_row_of digest job t) (firsts (sa_seen acc) (x # xs))))
             (bw_ledger w))\<rparr>)"
        using True new run by (simp add: Let_def andThen_def fl insert_once_append[symmetric])
      then show ?thesis
        using full new by (intro exI[of _ "length (sa_pending ?acc) + k"] exI[of _ r]) (auto simp: cost_sum_def)
    qed
  qed
qed

section \<open>Crash and resume\<close>

definition job_rows :: "string \<Rightarrow> item_row list \<Rightarrow> item_row list" where
  "job_rows i rows = filter (\<lambda>r. ir_batchId r = i) rows"

text \<open>The ledger between attempts: the rows of the job are first outcomes of its stream, and no other row
  has an id of theirs.\<close>

definition ledger_fits ::
  "(string \<Rightarrow> string \<Rightarrow> string) \<Rightarrow> job_row \<Rightarrow> batch_outcome list \<Rightarrow> item_row list \<Rightarrow> bool" where
  "ledger_fits digest job xs L \<longleftrightarrow>
     distinct (map ir_id L)
   \<and> (\<forall>r \<in> set L. if ir_batchId r = bj_id job
        then \<exists>x \<in> set (firsts [] xs). \<exists>t. r = item_row_of digest job t x
        else ir_id r \<notin> digest (bj_id job) ` bo_customId ` set xs)"

lemma item_row_parts [simp]:
  "ir_id (item_row_of digest job t x) = digest (bj_id job) (bo_customId x)"
  "ir_batchId (item_row_of digest job t x) = bj_id job"
  "ir_cost (item_row_of digest job t x) = item_cost job x"
  "ir_success (item_row_of digest job t x) = is_ok x"
  by (simp_all add: item_row_of_def Let_def)

lemma ledger_fits_insert:
  assumes "ledger_fits digest job xs L" and "set ys \<subseteq> set (firsts [] xs)"
  shows "ledger_fits digest job xs (snd (insert_once (map (item_row_of digest job t) ys) L))"
proof -
  let ?L = "snd (insert_once (map (item_row_of digest job t) ys) L)"
  have "if ir_batchId r = bj_id job then \<exists>x \<in> set (firsts [] xs). \<exists>t. r = item_row_of digest job t x
        else ir_id r \<notin> digest (bj_id job) ` bo_customId ` set xs" if "r \<in> set ?L" for r
  proof -
    have "r \<in> set L \<or> (\<exists>x \<in> set ys. r = item_row_of digest job t x)"
      using that insert_once_rows[of "map (item_row_of digest job t) ys" L] by auto
    then show ?thesis
    proof
      assume "r \<in> set L"
      then show ?thesis using assms(1) by (simp add: ledger_fits_def)
    next
      assume "\<exists>x \<in> set ys. r = item_row_of digest job t x"
      then show ?thesis using assms(2) by auto
    qed
  qed
  moreover have "distinct (map ir_id ?L)"
    using assms(1) by (intro insert_once_distinct) (simp add: ledger_fits_def)
  ultimately show ?thesis by (simp add: ledger_fits_def)
qed

lemma settle_alone:
  assumes "bw_turns w = []"
  shows "\<exists>k r. settle digest job (xs, broken) t w = (r, w\<lparr>bw_ledger := snd (insert_once
             (map (item_row_of digest job t) (take k (firsts [] xs))) (bw_ledger w))\<rparr>)
     \<and> (broken = None \<longrightarrow> k = length (firsts [] xs)
          \<and> (\<exists>acc1. r = Inr acc1
              \<and> sa_completed acc1 = int (length (filter is_ok (firsts [] xs)))
              \<and> sa_failed acc1 = int (length (filter (\<lambda>x. \<not> is_ok x) (firsts [] xs)))
              \<and> sa_costMicros acc1 = cost_sum job (firsts [] xs)))"
  using settle_loop_alone[OF assms, of digest job t broken xs empty_acc]
  by (simp add: settle_def andThen_def pausing_def assms empty_acc_def take_map)

text \<open>Earlier attempts: each read the stream up to some outcome, at some instant, and then broke off.\<close>

definition broken_attempts ::
  "(string \<Rightarrow> string \<Rightarrow> string) \<Rightarrow> job_row \<Rightarrow> batch_outcome list \<Rightarrow> (nat \<times> upstream_fault \<times> int) list \<Rightarrow> batch_world \<Rightarrow> batch_world" where
  "broken_attempts digest job xs attempts w =
     foldl (\<lambda>v (k, f, t). snd (settle digest job (take k xs, Some f) t v)) w attempts"

lemma attempts_fit:
  "bw_turns w = [] \<Longrightarrow> ledger_fits digest job xs (bw_ledger w) \<Longrightarrow>
     bw_turns (broken_attempts digest job xs attempts w) = []
   \<and> ledger_fits digest job xs (bw_ledger (broken_attempts digest job xs attempts w))"
proof (induction attempts arbitrary: w)
  case (Cons a attempts)
  obtain k f t where a: "a = (k, f, t)" by (cases a)
  obtain n r where run: "settle digest job (take k xs, Some f) t w = (r, w\<lparr>bw_ledger := snd (insert_once
       (map (item_row_of digest job t) (take n (firsts [] (take k xs)))) (bw_ledger w))\<rparr>)"
    using settle_alone[OF Cons.prems(1), of digest job "take k xs" "Some f" t] by blast
  have "set (take n (firsts [] (take k xs))) \<subseteq> set (firsts [] xs)"
    using firsts_take[of "[]" k xs] set_take_subset[of n "firsts [] (take k xs)"] by blast
  from ledger_fits_insert[OF Cons.prems(2) this, of t]
  have "ledger_fits digest job xs (bw_ledger (snd (settle digest job (take k xs, Some f) t w)))"
    "bw_turns (snd (settle digest job (take k xs, Some f) t w)) = []"
    using run Cons.prems(1) by simp_all
  then show ?case using Cons.IH by (simp add: broken_attempts_def a)
qed (simp add: broken_attempts_def)

text \<open>Once all the rows have landed, the rows of the job and the first outcomes correspond one to one.\<close>

lemma landed_sums:
  fixes f :: "item_row \<Rightarrow> 'c::comm_monoid_add"
  assumes fits: "ledger_fits digest job xs L"
    and full: "ir_id ` set L \<supseteq> digest (bj_id job) ` bo_customId ` set (firsts [] xs)"
    and inj: "inj_on (digest (bj_id job)) (bo_customId ` set xs)"
    and same: "\<And>t x. f (item_row_of digest job t x) = h x"
  shows "sum_list (map f (job_rows (bj_id job) L)) = sum_list (map h (firsts [] xs))"
proof (rule sum_over_matching[where a = ir_id and b = "\<lambda>x. digest (bj_id job) (bo_customId x)"])
  have sub: "set (firsts [] xs) \<subseteq> set xs" by (rule firsts_subset)
  have names: "inj_on bo_customId (set (firsts [] xs))" "distinct (firsts [] xs)"
    using firsts_distinct[of "[]" xs] by (simp_all add: distinct_map)
  have did: "inj_on (\<lambda>x. digest (bj_id job) (bo_customId x)) (set (firsts [] xs))"
  proof (rule inj_onI)
    fix x y
    assume xy: "x \<in> set (firsts [] xs)" "y \<in> set (firsts [] xs)" "digest (bj_id job) (bo_customId x) = digest (bj_id job) (bo_customId y)"
    then have "bo_customId x = bo_customId y" using inj sub by (auto dest: inj_onD)
    with names(1) xy show "x = y" by (auto dest: inj_onD)
  qed
  show "distinct (map ir_id (job_rows (bj_id job) L))"
    using fits by (auto simp: ledger_fits_def job_rows_def intro: distinct_map_filter)
  show "distinct (map (\<lambda>x. digest (bj_id job) (bo_customId x)) (firsts [] xs))"
    using did names(2) by (simp add: distinct_map)
  have row: "\<exists>x \<in> set (firsts [] xs). \<exists>t. r = item_row_of digest job t x" if "r \<in> set (job_rows (bj_id job) L)" for r
    using fits that by (auto simp: ledger_fits_def job_rows_def)
  show "ir_id ` set (job_rows (bj_id job) L) = (\<lambda>x. digest (bj_id job) (bo_customId x)) ` set (firsts [] xs)"
  proof (intro equalityI subsetI)
    fix i
    assume "i \<in> ir_id ` set (job_rows (bj_id job) L)"
    then show "i \<in> (\<lambda>x. digest (bj_id job) (bo_customId x)) ` set (firsts [] xs)"
      using row by fastforce
  next
    fix i
    assume "i \<in> (\<lambda>x. digest (bj_id job) (bo_customId x)) ` set (firsts [] xs)"
    then obtain x where x: "x \<in> set (firsts [] xs)" "i = digest (bj_id job) (bo_customId x)" by auto
    then obtain r where r: "r \<in> set L" "ir_id r = i" using full by (metis imageE image_eqI subsetD)
    have "i \<in> digest (bj_id job) ` bo_customId ` set xs" using x sub by auto
    moreover have "if ir_batchId r = bj_id job then \<exists>x \<in> set (firsts [] xs). \<exists>t. r = item_row_of digest job t x
        else ir_id r \<notin> digest (bj_id job) ` bo_customId ` set xs"
      using fits r(1) unfolding ledger_fits_def by blast
    ultimately have "ir_batchId r = bj_id job" using r(2) by metis
    with r show "i \<in> ir_id ` set (job_rows (bj_id job) L)" by (auto simp: job_rows_def)
  qed
  show "f r = h x" if "r \<in> set (job_rows (bj_id job) L)" "x \<in> set (firsts [] xs)"
    "ir_id r = digest (bj_id job) (bo_customId x)" for r x
  proof -
    note here = that
    obtain y t where y: "y \<in> set (firsts [] xs)" "r = item_row_of digest job t y" using row[OF here(1)] by blast
    then have "y = x" using here(2,3) did by (auto dest: inj_onD)
    with y same show ?thesis by simp
  qed
qed

lemma length_as_sum: "int (length (filter P xs)) = (\<Sum>x\<leftarrow>xs. if P x then 1 else 0)"
  by (induction xs) auto

text \<open>C3 (equivalence). 
  C0 (equivalence). A settlement that broke off any number of times, anywhere in the stream, and was started again agrees with
  the ledger once it runs through: the counts it reports are those of the rows the ledger holds for the job,
  and the cost it records is what those rows add up to. The ids of the rows come from a digest that does not
  collide on this job's items.
\<close>

theorem resumed_settlement_agrees:
  assumes "bw_turns w = []" and "distinct (map ir_id (bw_ledger w))"
    and "inj_on (digest (bj_id job)) (bo_customId ` set xs)"
    and "\<forall>r \<in> set (bw_ledger w). ir_batchId r \<noteq> bj_id job \<and> ir_id r \<notin> digest (bj_id job) ` bo_customId ` set xs"
  shows "\<exists>acc v. settle digest job (xs, None) t (broken_attempts digest job xs attempts w) = (Inr acc, v)
    \<and> sa_costMicros acc = (\<Sum>r\<leftarrow>job_rows (bj_id job) (bw_ledger v). cost_micros (ir_cost r))
    \<and> sa_completed acc = int (length (filter ir_success (job_rows (bj_id job) (bw_ledger v))))
    \<and> sa_failed acc = int (length (filter (\<lambda>r. \<not> ir_success r) (job_rows (bj_id job) (bw_ledger v))))"
proof -
  have "ledger_fits digest job xs (bw_ledger w)"
    using assms(2,4) by (auto simp: ledger_fits_def)
  from attempts_fit[OF assms(1) this, of attempts]
  have alone: "bw_turns (broken_attempts digest job xs attempts w) = []"
    and fits: "ledger_fits digest job xs (bw_ledger (broken_attempts digest job xs attempts w))" by blast+
  let ?L = "snd (insert_once (map (item_row_of digest job t) (firsts [] xs)) (bw_ledger (broken_attempts digest job xs attempts w)))"
  obtain acc v where run: "settle digest job (xs, None) t (broken_attempts digest job xs attempts w) = (Inr acc, v)" "bw_ledger v = ?L"
    "sa_completed acc = int (length (filter is_ok (firsts [] xs)))"
    "sa_failed acc = int (length (filter (\<lambda>x. \<not> is_ok x) (firsts [] xs)))"
    "sa_costMicros acc = cost_sum job (firsts [] xs)"
    using settle_alone[OF alone, of digest job xs None t] by auto
  have fitsL: "ledger_fits digest job xs ?L" by (rule ledger_fits_insert[OF fits]) simp
  have full: "ir_id ` set ?L \<supseteq> digest (bj_id job) ` bo_customId ` set (firsts [] xs)"
    by (auto simp: insert_once_ids image_image)
  note sums = landed_sums[OF fitsL full assms(3)]
  show ?thesis
    using run sums[of "\<lambda>r. cost_micros (ir_cost r)" "\<lambda>x. cost_micros (item_cost job x)"]
      sums[of "\<lambda>r. if ir_success r then 1 else 0 :: int" "\<lambda>x. if is_ok x then 1 else 0"]
      sums[of "\<lambda>r. if \<not> ir_success r then 1 else 0 :: int" "\<lambda>x. if \<not> is_ok x then 1 else 0"]
    by (simp add: cost_sum_def length_as_sum)
qed

definition sample_stream :: "batch_outcome list" where
  "sample_stream =
     [\<lparr>bo_customId = ''x'', bo_verdict = ItemOk (Some \<lparr>inputTokens = 10, outputTokens = 4, cacheReadTokens = None, cacheWriteTokens = None\<rparr>)\<rparr>,
      \<lparr>bo_customId = ''y'', bo_verdict = ItemFailed rate_limit (Some 429)\<rparr>,
      \<lparr>bo_customId = ''x'', bo_verdict = ItemFailed unavailable None\<rparr>]"

theorem resumed_settlement_agrees_witness:
  "\<exists>acc v. settle (bc_digest sample_ctx) sample_row (sample_stream, None) 9000
        (broken_attempts (bc_digest sample_ctx) sample_row sample_stream [(1, UpOther, 7000), (2, UpCancelled, 8000)] batch_sample) = (Inr acc, v)
    \<and> sa_costMicros acc = (\<Sum>r\<leftarrow>job_rows ''j'' (bw_ledger v). cost_micros (ir_cost r))"
proof -
  have "inj_on (bc_digest sample_ctx (bj_id sample_row)) (bo_customId ` set sample_stream)"
    by (simp add: sample_ctx_def inj_on_def)
  from resumed_settlement_agrees[of batch_sample "bc_digest sample_ctx" sample_row sample_stream 9000
      "[(1, UpOther, 7000), (2, UpCancelled, 8000)]", OF _ _ this]
  have "\<exists>acc v. settle (bc_digest sample_ctx) sample_row (sample_stream, None) 9000
        (broken_attempts (bc_digest sample_ctx) sample_row sample_stream [(1, UpOther, 7000), (2, UpCancelled, 8000)] batch_sample) = (Inr acc, v)
    \<and> sa_costMicros acc = (\<Sum>r\<leftarrow>job_rows (bj_id sample_row) (bw_ledger v). cost_micros (ir_cost r))"
    by (auto simp: batch_sample_def)
  then show ?thesis by (simp add: sample_row_def)
qed

section \<open>The ceiling\<close>

lemma ceiling_loop_sums:
  assumes "ceiling_loop catalogMax items (i, n, b) = (inSum, outSum, False)"
  shows "\<not> b \<and> inSum = i + (\<Sum>it\<leftarrow>items. estimateInputTokens (ci_chars it))
    \<and> outSum = n + (\<Sum>it\<leftarrow>items. case item_cap catalogMax it of Some c \<Rightarrow> c | None \<Rightarrow> 0)
    \<and> (\<forall>it \<in> set items. \<exists>c > 0. item_cap catalogMax it = Some c)"
  using assms
proof (induction items arbitrary: i n b)
  case (Cons it items)
  show ?case
  proof (cases "item_cap catalogMax it")
    case None
    then show ?thesis using Cons.IH[of "i + estimateInputTokens (ci_chars it)" n True] Cons.prems by (simp add: Let_def)
  next
    case (Some c)
    show ?thesis
    proof (cases "c \<le> 0")
      case True
      then show ?thesis
        using Some Cons.IH[of "i + estimateInputTokens (ci_chars it)" n True] Cons.prems by (simp add: Let_def)
    next
      case False
      then show ?thesis
        using Some Cons.IH[of "i + estimateInputTokens (ci_chars it)" "n + c" b] Cons.prems by (auto simp: Let_def)
    qed
  qed
qed auto

text \<open>An item that used no more input than its estimate, no more output than its cap, and no cache.\<close>

definition within_estimate :: "int option \<Rightarrow> ceiling_item \<Rightarrow> resolved_usage \<Rightarrow> bool" where
  "within_estimate catalogMax it u \<longleftrightarrow>
     ru_inputTokens u \<le> estimateInputTokens (ci_chars it)
   \<and> (\<forall>c. item_cap catalogMax it = Some c \<longrightarrow> ru_outputTokens u \<le> c)
   \<and> opt0 (ru_cacheReadTokens u) \<le> 0 \<and> opt0 (ru_cacheWriteTokens u) \<le> 0"

definition cost_of :: "price_snapshot \<Rightarrow> resolved_usage \<Rightarrow> rat" where
  "cost_of p u = (case computeCost u (Some p) of Some c \<Rightarrow> c | None \<Rightarrow> 0)"

lemma cost_bound:
  assumes "within_estimate catalogMax it u" "item_cap catalogMax it = Some c" "0 < c"
    and "0 \<le> inputPricePer1m p" "0 \<le> outputPricePer1m p"
  shows "1000000 * cost_of p u \<le> of_int (estimateInputTokens (ci_chars it)) * inputPricePer1m p + of_int c * outputPricePer1m p"
proof -
  have est: "0 \<le> estimateInputTokens (ci_chars it)" by (simp add: estimateInputTokens_def)
  have i: "of_int (ru_inputTokens u) * inputPricePer1m p \<le> of_int (estimateInputTokens (ci_chars it)) * inputPricePer1m p"
    using assms(1,4) by (intro mult_right_mono) (simp_all add: within_estimate_def)
  have n: "of_int (ru_outputTokens u) * outputPricePer1m p \<le> of_int c * outputPricePer1m p"
    using assms(1,2,5) by (intro mult_right_mono) (simp_all add: within_estimate_def)
  have "0 \<le> of_int (estimateInputTokens (ci_chars it)) * inputPricePer1m p + of_int c * outputPricePer1m p"
    using est assms(3,4,5) by simp
  moreover have "1000000 * cost_of p u \<in> {0, of_int (ru_inputTokens u) * inputPricePer1m p + of_int (ru_outputTokens u) * outputPricePer1m p}"
    using assms(1) by (auto simp: cost_of_def computeCost_def within_estimate_def Let_def)
  ultimately show ?thesis using i n by auto
qed

lemma cost_sum_bound:
  assumes "list_all2 (within_estimate catalogMax) items us" "\<forall>it \<in> set items. \<exists>c > 0. item_cap catalogMax it = Some c"
    and "0 \<le> inputPricePer1m p" "0 \<le> outputPricePer1m p"
  shows "(\<Sum>u\<leftarrow>us. 1000000 * cost_of p u)
     \<le> of_int (\<Sum>it\<leftarrow>items. estimateInputTokens (ci_chars it)) * inputPricePer1m p
       + of_int (\<Sum>it\<leftarrow>items. case item_cap catalogMax it of Some c \<Rightarrow> c | None \<Rightarrow> 0) * outputPricePer1m p"
  using assms(1,2)
proof (induction rule: list_all2_induct)
  case (Cons it items u us)
  then obtain c where c: "item_cap catalogMax it = Some c" "0 < c" by auto
  from cost_bound[OF Cons(1) c assms(3,4)] Cons(3,4) c show ?case by (simp add: algebra_simps)
qed simp

lemma rounded_sum: "of_int (\<Sum>u\<leftarrow>us. js_round (f u)) \<le> (\<Sum>u\<leftarrow>us. f u) + rat_of_nat (length us) / 2"
proof (induction us)
  case (Cons u us)
  have "rat_of_int (js_round (f u)) \<le> f u + 1 / 2" by (simp add: js_round_def)
  with Cons show ?case by (simp add: add_divide_distrib)
qed simp

text \<open>C13 (bounds). 
  C0 (bounds). A bounded ceiling covers the batch: when no item uses more input than its estimate, more output than its cap, or a
  cache, the items together cost at most the reserved micro-dollars, and the settled cost, in which every item is
  rounded to a whole micro-dollar, exceeds the ceiling by at most half a micro-dollar per item.
\<close>

theorem ceiling_covers_batch:
  assumes "computeCeiling items (rate_of (Some p)) catalogMax = BoundedBy micros est"
    and "list_all2 (within_estimate catalogMax) items us"
    and "0 \<le> inputPricePer1m p" and "0 \<le> outputPricePer1m p"
  shows "(\<Sum>u\<leftarrow>us. 1000000 * cost_of p u) \<le> of_int micros
    \<and> (\<Sum>u\<leftarrow>us. cost_micros (Some (cost_of p u))) \<le> micros + int (length us) div 2"
proof -
  obtain inSum outSum where loop: "ceiling_loop catalogMax items (0, 0, False) = (inSum, outSum, False)"
    and micros: "micros = \<lceil>of_int inSum * inputPricePer1m p + of_int outSum * outputPricePer1m p\<rceil>"
    using assms(1) by (auto simp: computeCeiling_def rate_of_def split: prod.splits if_splits)
  note sums = ceiling_loop_sums[OF loop]
  have "(\<Sum>u\<leftarrow>us. 1000000 * cost_of p u) \<le> of_int inSum * inputPricePer1m p + of_int outSum * outputPricePer1m p"
    using cost_sum_bound[OF assms(2) _ assms(3,4)] sums by simp
  then have exact: "(\<Sum>u\<leftarrow>us. 1000000 * cost_of p u) \<le> of_int micros"
    unfolding micros by (rule order_trans) (rule le_of_int_ceiling)
  have "rat_of_int (\<Sum>u\<leftarrow>us. cost_micros (Some (cost_of p u))) \<le> of_int micros + rat_of_nat (length us) / 2"
    using rounded_sum[of "\<lambda>u. 1000000 * cost_of p u" us] exact by (simp add: cost_micros_def mult.commute)
  then have "2 * (\<Sum>u\<leftarrow>us. cost_micros (Some (cost_of p u))) \<le> 2 * micros + int (length us)"
    by (simp add: of_int_le_iff[where 'a = rat, symmetric] del: of_int_le_iff)
  then have "(\<Sum>u\<leftarrow>us. cost_micros (Some (cost_of p u))) \<le> micros + int (length us) div 2"
    by linarith
  with exact show ?thesis by blast
qed

definition sample_price :: price_snapshot where
  "sample_price =
     \<lparr>ps_priceVersionId = None, ps_modelKey = None, inputPricePer1m = 1, outputPricePer1m = 2,
      cacheReadPricePer1m = None, cacheWritePricePer1m = None, isFree = False, ps_source = PsBundled,
      ps_validFrom = None, ps_mode = PriceBatch\<rparr>"

theorem ceiling_covers_batch_witness:
  "computeCeiling [\<lparr>ci_chars = 40, ci_maxOutputTokens = Some 4\<rparr>] (rate_of (Some sample_price)) None = BoundedBy 18 10
   \<and> 1000000 * cost_of sample_price \<lparr>ru_inputTokens = 9, ru_outputTokens = 4, ru_cacheReadTokens = None,
        ru_cacheWriteTokens = None, estimated = False\<rparr> \<le> 18"
proof -
  have bounded: "computeCeiling [\<lparr>ci_chars = 40, ci_maxOutputTokens = Some 4\<rparr>] (rate_of (Some sample_price)) None = BoundedBy 18 10"
    by (simp add: computeCeiling_def rate_of_def sample_price_def estimateInputTokens_def item_cap_def Let_def)
  have "list_all2 (within_estimate None) [\<lparr>ci_chars = 40, ci_maxOutputTokens = Some 4\<rparr>]
     [\<lparr>ru_inputTokens = 9, ru_outputTokens = 4, ru_cacheReadTokens = None, ru_cacheWriteTokens = None, estimated = False\<rparr>]"
    by (simp add: within_estimate_def estimateInputTokens_def item_cap_def opt0_def)
  from ceiling_covers_batch[OF bounded this] bounded show ?thesis by (simp add: sample_price_def)
qed

end
