(* ===== verification/BatchLimits.thy ===== *)
theory BatchLimits
  imports BatchMoney
begin

text \<open>
  Where the batch subsystem falls short of what its comments say, as runs of the model.
\<close>

section \<open>The retention deadline\<close>

text \<open>The write that ends a job passes no retention deadline and so clears the one the row had; the guard that
  would refuse an expired read has nothing left to compare with, at any later time.\<close>

lemma retention_deadline_forgotten:
  "bj_resultsExpireAt sample_row = Some 5000
   \<and> map_option bj_resultsExpireAt (bw_jobs (snd (finish sample_ctx (sample_row\<lparr>bj_status := JFinalizing\<rparr>) JCompleted None (1, 0, 50)
        (batch_sample\<lparr>bw_jobs := [''j'' \<mapsto> sample_row\<lparr>bj_status := JFinalizing\<rparr>]\<rparr>))) ''j'') = Some None"
  by code_simp

lemma expired_read_allowed:
  assumes "bw_jobs w i = Some r" "bj_owner r = owner" "bj_agentId r = agentId" "isBatchJobTerminal (bj_status r)"
    and "bj_upstreamBatchId r = Some u" "bj_resultsExpireAt r = None" "bw_turns w = []" "up_provider up" "up_seam up"
  shows "fst (results_guard up owner agentId i w) = Inr r"
  using assms
  by (simp add: results_guard_def jobs_def statement_def landed_def with_jobs_def look_def andThen_def give_def owned_job_def)

section \<open>Lost submissions\<close>

definition unknown_row :: job_row where
  "unknown_row = sample_row\<lparr>bj_status := JSubmissionUnknown, bj_upstreamBatchId := None, bj_stalledSince := Some 2000\<rparr>"

definition finished_listing :: upstream where
  "finished_listing = sample_upstream\<lparr>up_list := Inr [\<lparr>le_upstreamId = ''up'', le_jobId = Some ''j'', le_status = Some JCompleted\<rparr>]\<rparr>"

text \<open>A submission whose answer was lost and whose batch has finished by the time it is looked for is never
  adopted: the adopting statement writes a terminal status without the instant that the table demands, so it
  is refused, on this sweep and on every later one, and the row keeps its reservation and no upstream id.\<close>

lemma early_finisher_never_adopted:
  "fst (advance sample_ctx finished_listing unknown_row (batch_sample\<lparr>bw_jobs := [''j'' \<mapsto> unknown_row]\<rparr>)) = Inl DbFault
   \<and> map_option (\<lambda>r. (bj_status r, bj_upstreamBatchId r))
       (bw_jobs (snd (advance sample_ctx finished_listing unknown_row (batch_sample\<lparr>bw_jobs := [''j'' \<mapsto> unknown_row]\<rparr>))) ''j'')
     = Some (JSubmissionUnknown, None)"
  by code_simp

text \<open>The adopting statement is not a compare-and-set: a job that another poller has ended as failed while the
  listing was fetched becomes completed, its error erased.\<close>

definition other_gives_up :: batch_act where
  "other_gives_up =
     ActFinish ''u'' ''j'' \<lparr>js_status = JFailed, js_completedCount = 0, js_failedCount = 0, js_settledCostMicros = 0,
       js_terminalAt = 3000, js_errorKind = Some ESubmitUnresolved, js_resultsExpireAt = None\<rparr> (Some NON_TERMINAL)"

definition quiet_turn :: batch_turn where "quiet_turn = \<lparr>bt_others = [], bt_fate = Answered\<rparr>"

lemma adoption_overwrites_end:
  "map_option (\<lambda>r. (bj_status r, bj_errorKind r, bj_terminalAt r))
     (bw_jobs (snd (advance sample_ctx finished_listing unknown_row
        (batch_sample\<lparr>bw_jobs := [''j'' \<mapsto> unknown_row], bw_turns := [quiet_turn, quiet_turn, quiet_turn\<lparr>bt_others := [other_gives_up]\<rparr>]\<rparr>))) ''j'')
   = Some (JCompleted, None, Some 3000)"
  by code_simp

section \<open>Settled cost\<close>

text \<open>An earlier attempt had landed the row of an item before the write that ends the job was lost; on this attempt
  the upstream no longer has the results, and the job ends with no items and no cost.\<close>

definition half_settled :: batch_world where
  "half_settled =
     batch_sample\<lparr>bw_jobs := [''j'' \<mapsto> sample_row\<lparr>bj_status := JFinalizing\<rparr>],
       bw_ledger := [item_row_of (bc_digest sample_ctx) sample_row 8000 \<lparr>bo_customId = ''x'', bo_verdict = ItemOk None\<rparr>]\<rparr>"

definition vanished_end :: batch_world where
  "vanished_end =
     snd (settleAndFinish sample_ctx (sample_upstream\<lparr>up_results := ([], Some UpNotFound)\<rparr>)
       (sample_row\<lparr>bj_status := JFinalizing\<rparr>) JCompleted half_settled)"

lemma cost_lost_when_results_vanish:
  "map_option (\<lambda>r. (bj_status r, bj_completedCount r, bj_settledCostMicros r)) (bw_jobs vanished_end ''j'') = Some (JCompleted, 0, Some 0)"
  by code_simp

lemma landed_cost_stays:
  "map (\<lambda>r. cost_micros (ir_cost r)) (job_rows ''j'' (bw_ledger vanished_end)) = [50]"
  by code_simp

text \<open>Rounding up the whole does not cover rounding each item: three items of half a micro-dollar.\<close>

definition half_micro :: price_snapshot where
  "half_micro = sample_price\<lparr>inputPricePer1m := 1 / 2, outputPricePer1m := 0\<rparr>"

definition one_token :: resolved_usage where
  "one_token = \<lparr>ru_inputTokens = 1, ru_outputTokens = 0, ru_cacheReadTokens = None, ru_cacheWriteTokens = None, estimated = False\<rparr>"

lemma rounding_exceeds_ceiling:
  "computeCeiling (replicate 3 \<lparr>ci_chars = 4, ci_maxOutputTokens = Some 1\<rparr>) (rate_of (Some half_micro)) None = BoundedBy 2 3
   \<and> (\<Sum>u\<leftarrow>replicate 3 one_token. cost_micros (Some (cost_of half_micro u))) = 3"
  by (simp add: computeCeiling_def rate_of_def half_micro_def sample_price_def estimateInputTokens_def item_cap_def Let_def
      one_token_def cost_of_def computeCost_def cost_micros_def js_round_def opt0_def numeral_3_eq_3 ceiling_eq_iff)

end
