(* ===== verification/Ssrf.thy ===== *)
theory Ssrf
  imports Budgets Json Effects "HOL-Library.Word"
begin

unbundle bit_operations_syntax

text \<open>
  The outbound guard of \<open>shared/server/security/ssrf.ts\<close>: the address tiers, the allowlist check, the
  validation of a URL and the guarded fetch with its connector and redirects.

  An address is the word its text denotes. The reading of texts (\<open>isIP\<close> and the parser inside
  \<open>BlockList\<close>, both Node's) is the parameter \<open>pton\<close>, so the source's own conversions between texts and
  big integers are the identity here; a prefix on a \<open>BlockList\<close> is a comparison of leading bits. \<open>new URL\<close> is
  given as its result. The network is a script: every resolution and every connection takes the next
  entry, so a name may resolve differently each time it is asked for. Every hop opens a connection of its
  own; the client may keep one alive for a later hop of the same origin, which opens fewer.
\<close>

section \<open>Addresses and tiers\<close>

datatype ip = V4 "32 word" | V6 "128 word"

datatype ip_family = IPv4 | IPv6

definition family_of :: "ip \<Rightarrow> ip_family" where
  "family_of a = (case a of V4 _ \<Rightarrow> IPv4 | V6 _ \<Rightarrow> IPv6)"

text \<open>One \<open>addSubnet\<close> rule: the leading bits agree.\<close>

definition in_net :: "'a::len word \<times> nat \<Rightarrow> 'a word \<Rightarrow> bool" where
  "in_net r x = (drop_bit (LENGTH('a) - snd r) x = drop_bit (LENGTH('a) - snd r) (fst r))"

definition in_list :: "('a::len word \<times> nat) list \<Rightarrow> 'a word \<Rightarrow> bool" where
  "in_list rs x = list_ex (\<lambda>r. in_net r x) rs"

definition LOOPBACK_V4 :: "(32 word \<times> nat) list" where "LOOPBACK_V4 = [(0x7F000000, 8)]"
definition LOOPBACK_V6 :: "(128 word \<times> nat) list" where "LOOPBACK_V6 = [(1, 128)]"

definition HARD_V4 :: "(32 word \<times> nat) list" where
  "HARD_V4 =
     [(0x00000000, 8), (0xA9FE0000, 16), (0xC0000000, 24), (0xC0000200, 24), (0xC0586300, 24), (0xC6120000, 15),
      (0xC6336400, 24), (0xCB007100, 24), (0xE0000000, 4), (0xF0000000, 4), (0xFFFFFFFF, 32)]"

definition HARD_V6 :: "(128 word \<times> nat) list" where
  "HARD_V6 =
     [(0, 128), (0, 96),
      (0x00000000000000000000FFFF00000000, 96),
      (0x0064FF9B000000000000000000000000, 96),
      (0x0064FF9B000100000000000000000000, 48),
      (0x01000000000000000000000000000000, 64),
      (0x20010000000000000000000000000000, 23),
      (0x20010DB8000000000000000000000000, 32),
      (0x20020000000000000000000000000000, 16),
      (0x3FFF0000000000000000000000000000, 20),
      (0x5F000000000000000000000000000000, 16),
      (0xFE800000000000000000000000000000, 10),
      (0xFEC00000000000000000000000000000, 10),
      (0xFF000000000000000000000000000000, 8)]"

definition SOFT_V4 :: "(32 word \<times> nat) list" where
  "SOFT_V4 = [(0x0A000000, 8), (0xAC100000, 12), (0xC0A80000, 16), (0x64400000, 10)]"
definition SOFT_V6 :: "(128 word \<times> nat) list" where
  "SOFT_V6 = [(0xFC000000000000000000000000000000, 7)]"

definition is_loopback :: "ip \<Rightarrow> bool" where
  "is_loopback a = (case a of V4 x \<Rightarrow> in_list LOOPBACK_V4 x | V6 x \<Rightarrow> in_list LOOPBACK_V6 x)"
definition is_hard :: "ip \<Rightarrow> bool" where
  "is_hard a = (case a of V4 x \<Rightarrow> in_list HARD_V4 x | V6 x \<Rightarrow> in_list HARD_V6 x)"
definition is_soft :: "ip \<Rightarrow> bool" where
  "is_soft a = (case a of V4 x \<Rightarrow> in_list SOFT_V4 x | V6 x \<Rightarrow> in_list SOFT_V6 x)"

section \<open>Texts of ranges\<close>

type_synonym pton = "string \<Rightarrow> ip option"

datatype ssrf_code = BadProtocol | NotHttps | BlockedIp | Unresolvable | TooManyRedirects | CrossOriginRedirect

text \<open>A typed refusal, or another exception (a malformed extra range, a failed connection or resolution).\<close>

datatype guard_fault = Refused ssrf_code | ConfigFault | NetworkFault

definition max_prefix :: "ip_family \<Rightarrow> nat" where
  "max_prefix f = (case f of IPv4 \<Rightarrow> 32 | IPv6 \<Rightarrow> 128)"

definition in_cidr :: "ip \<Rightarrow> nat \<Rightarrow> ip \<Rightarrow> bool" where
  "in_cidr net prefix a =
     (case (net, a) of (V4 n, V4 x) \<Rightarrow> in_net (n, prefix) x | (V6 n, V6 x) \<Rightarrow> in_net (n, prefix) x | _ \<Rightarrow> False)"

definition is_decimal :: "string \<Rightarrow> bool" where
  "is_decimal s = (s \<noteq> [] \<and> list_all is_digit s)"

text \<open>The prefix text of a range that is not checked beforehand, \<open>Number(prefixStr)\<close>: empty is zero. Spellings other than
  decimal digits are taken for no number.\<close>

definition read_prefix :: "string \<Rightarrow> nat option" where
  "read_prefix p = (if p = [] then Some 0 else if is_decimal p then Some (nat_of_digits p) else None)"

text \<open>One entry of \<open>buildExtra\<close> against an address: malformed, or a range whose prefix \<open>addSubnet\<close> refuses, throws; a
  range of the other family is skipped.\<close>

definition extra_entry :: "pton \<Rightarrow> string \<Rightarrow> ip \<Rightarrow> guard_fault + bool" where
  "extra_entry pton cidr a =
     (case split_on CHR ''/'' cidr of
        addr # p # _ \<Rightarrow>
          (case (if addr = [] then None else pton addr) of
             None \<Rightarrow> Inl ConfigFault
           | Some net \<Rightarrow>
               if family_of net \<noteq> family_of a then Inr False
               else (case read_prefix p of
                       None \<Rightarrow> Inl ConfigFault
                     | Some n \<Rightarrow> if n \<le> max_prefix (family_of net) then Inr (in_cidr net n a) else Inl ConfigFault))
      | _ \<Rightarrow> Inl ConfigFault)"

primrec extra_blocks :: "pton \<Rightarrow> string list \<Rightarrow> ip \<Rightarrow> guard_fault + bool" where
  "extra_blocks pton [] a = Inr False"
| "extra_blocks pton (c # cs) a =
     (case extra_entry pton c a of
        Inl e \<Rightarrow> Inl e
      | Inr b \<Rightarrow> (case extra_blocks pton cs a of Inl e \<Rightarrow> Inl e | Inr b1 \<Rightarrow> Inr (b \<or> b1)))"

datatype ip_class = Hard | Soft | Routable

definition classifyIp :: "pton \<Rightarrow> bool \<Rightarrow> string list \<Rightarrow> string \<Rightarrow> guard_fault + ip_class" where
  "classifyIp pton allowLoopback extra text =
     (case pton text of
        None \<Rightarrow> Inr Hard
      | Some a \<Rightarrow>
          if is_loopback a then Inr (if allowLoopback then Routable else Hard)
          else if is_hard a then Inr Hard
          else (case extra_blocks pton extra a of
                  Inl e \<Rightarrow> Inl e
                | Inr b \<Rightarrow> Inr (if b then Hard else if is_soft a then Soft else Routable)))"

text \<open>The tier of an address with no options, which cannot fail.\<close>

definition plain_class :: "ip \<Rightarrow> ip_class" where
  "plain_class a = (if is_loopback a \<or> is_hard a then Hard else if is_soft a then Soft else Routable)"

lemma classify_plain: "classifyIp pton False [] text = Inr (case pton text of None \<Rightarrow> Hard | Some a \<Rightarrow> plain_class a)"
  by (simp add: classifyIp_def plain_class_def split: option.split)

section \<open>The allowlist\<close>

record allowed_endpoint =
  ae_host :: string
  ae_cidr :: string
  ae_port :: "int option"

definition net_of :: "'a::len word \<Rightarrow> nat \<Rightarrow> 'a word" where
  "net_of x prefix = (x AND (if prefix = 0 then 0 else push_bit (LENGTH('a) - prefix) (- 1)))"

definition last_of :: "'a::len word \<Rightarrow> nat \<Rightarrow> 'a word" where
  "last_of x prefix = (net_of x prefix OR mask (LENGTH('a) - prefix))"

definition cidrRange :: "ip \<Rightarrow> nat \<Rightarrow> ip list" where
  "cidrRange a prefix =
     (case a of V4 x \<Rightarrow> [V4 (net_of x prefix), V4 (last_of x prefix)] | V6 x \<Rightarrow> [V6 (net_of x prefix), V6 (last_of x prefix)])"

text \<open>The strict grammar of an allowlist entry: one slash, no zone id, a decimal prefix within bounds.\<close>

definition strict_cidr :: "pton \<Rightarrow> string \<Rightarrow> (ip \<times> nat) option" where
  "strict_cidr pton cidr =
     (case split_on CHR ''/'' cidr of
        [addr, p] \<Rightarrow>
          if CHR ''%'' \<in> set cidr \<or> \<not> is_decimal p then None
          else (case pton addr of
                  None \<Rightarrow> None
                | Some a \<Rightarrow> if nat_of_digits p \<le> max_prefix (family_of a) then Some (a, nat_of_digits p) else None)
      | _ \<Rightarrow> None)"

definition endpoint_safe :: "pton \<Rightarrow> allowed_endpoint \<Rightarrow> bool" where
  "endpoint_safe pton e =
     (case strict_cidr pton (ae_cidr e) of
        None \<Rightarrow> False
      | Some (a, n) \<Rightarrow> list_all (\<lambda>b. plain_class b = Soft) (cidrRange a n))"

definition assertEndpointsSafe :: "pton \<Rightarrow> allowed_endpoint list \<Rightarrow> guard_fault + unit" where
  "assertEndpointsSafe pton es = (if list_all (endpoint_safe pton) es then Inr () else Inl (Refused BlockedIp))"

text \<open>One entry of \<open>endpointPermits\<close>. A prefix the block list refuses throws in the program; it permits nothing here, and
  no such entry passes \<open>assertEndpointsSafe\<close>, which every caller runs first.\<close>

definition entry_permits :: "pton \<Rightarrow> string \<Rightarrow> ip \<Rightarrow> int \<Rightarrow> allowed_endpoint \<Rightarrow> bool" where
  "entry_permits pton host a port e =
     (ae_host e = host \<and> (ae_port e = None \<or> ae_port e = Some port)
      \<and> extra_entry pton (ae_cidr e) a = Inr True)"

definition endpointPermits :: "pton \<Rightarrow> string \<Rightarrow> string \<Rightarrow> int \<Rightarrow> allowed_endpoint list \<Rightarrow> bool" where
  "endpointPermits pton host text port es =
     (case pton text of None \<Rightarrow> False | Some a \<Rightarrow> list_ex (entry_permits pton host a port) es)"

datatype guard_mode = SelfHosted | Cloud

record guard_options =
  go_mode :: guard_mode
  go_local :: bool   \<comment> \<open>\<open>providerKind === 'local'\<close>\<close>
  go_endpoints :: "allowed_endpoint list"
  go_extra :: "string list"
  go_maxRedirects :: nat

definition loopbackAllowed :: "guard_options \<Rightarrow> bool" where
  "loopbackAllowed opts = (go_mode opts = SelfHosted \<and> go_local opts)"

definition isAddressPermitted :: "pton \<Rightarrow> string \<Rightarrow> string \<Rightarrow> int \<Rightarrow> guard_options \<Rightarrow> guard_fault + bool" where
  "isAddressPermitted pton host text port opts =
     (case classifyIp pton (loopbackAllowed opts) (go_extra opts) text of
        Inl e \<Rightarrow> Inl e
      | Inr Routable \<Rightarrow> Inr True
      | Inr Hard \<Rightarrow> Inr False
      | Inr Soft \<Rightarrow> Inr (endpointPermits pton host text port (go_endpoints opts)))"

section \<open>URLs and the network\<close>

record url =
  url_https :: bool   \<comment> \<open>\<open>https:\<close> rather than \<open>http:\<close>\<close>
  url_hostname :: string
  url_port :: "int option"   \<comment> \<open>\<open>None\<close> for the empty string\<close>
  url_path :: string

datatype parsed_url = NoUrl | OtherScheme | HttpUrl url

text \<open>One connection attempt: whether the socket opens, its peer, and the response's status and location.\<close>

record reply =
  rp_opens :: bool
  rp_peer :: "string option"
  rp_status :: nat
  rp_location :: "string option"

datatype net_event = Dial string int string bool | SentTo string int bool   \<comment> \<open>host, port, (address,) https\<close>

record net =
  net_dns :: "string list option list"
  net_replies :: "reply list"
  net_log :: "net_event list"

type_synonym 'a nprog = "(net, guard_fault, 'a) prog"

definition stripBrackets :: "string \<Rightarrow> string" where
  "stripBrackets h =
     (if h \<noteq> [] \<and> hd h = CHR ''['' \<and> last h = CHR '']'' then butlast (tl h) else h)"

definition portOf :: "url \<Rightarrow> int" where
  "portOf u = (case url_port u of Some p \<Rightarrow> p | None \<Rightarrow> if url_https u then 443 else 80)"

definition same_origin :: "url \<Rightarrow> url \<Rightarrow> bool" where
  "same_origin u v = (url_https u = url_https v \<and> url_hostname u = url_hostname v \<and> url_port u = url_port v)"

definition resolveAll :: "string list nprog" where
  "resolveAll w =
     (case net_dns w of
        [] \<Rightarrow> (Inl NetworkFault, w)
      | Some ips # rest \<Rightarrow> (Inr ips, w\<lparr>net_dns := rest\<rparr>)
      | None # rest \<Rightarrow> (Inl NetworkFault, w\<lparr>net_dns := rest\<rparr>))"

text \<open>The addresses of a host: itself when it is a literal.\<close>

definition candidates_of :: "pton \<Rightarrow> string \<Rightarrow> string list nprog" where
  "candidates_of pton host = (if pton host \<noteq> None then give [host] else resolveAll)"

primrec all_permitted :: "pton \<Rightarrow> string \<Rightarrow> int \<Rightarrow> guard_options \<Rightarrow> string list \<Rightarrow> guard_fault + unit" where
  "all_permitted pton host port opts [] = Inr ()"
| "all_permitted pton host port opts (a # ips) =
     (case isAddressPermitted pton host a port opts of
        Inl e \<Rightarrow> Inl e
      | Inr ok \<Rightarrow> if ok then all_permitted pton host port opts ips else Inl (Refused BlockedIp))"

definition all_loopback :: "pton \<Rightarrow> string list \<Rightarrow> bool" where
  "all_loopback pton ips =
     list_all (\<lambda>a. classifyIp pton True [] a = Inr Routable \<and> classifyIp pton False [] a = Inr Hard) ips"

definition refuse :: "ssrf_code \<Rightarrow> 'a nprog" where "refuse c = throw (Refused c)"

definition answer :: "guard_fault + 'a \<Rightarrow> 'a nprog" where
  "answer r = (case r of Inl e \<Rightarrow> throw e | Inr a \<Rightarrow> give a)"

definition assertUrlSafe :: "pton \<Rightarrow> guard_options \<Rightarrow> parsed_url \<Rightarrow> url nprog" where
  "assertUrlSafe pton opts parsed =
     andThen (answer (assertEndpointsSafe pton (go_endpoints opts))) (\<lambda>_.
     case parsed of
       NoUrl \<Rightarrow> refuse BadProtocol
     | OtherScheme \<Rightarrow> refuse BadProtocol
     | HttpUrl u \<Rightarrow>
         (let host = stripBrackets (url_hostname u) in
          if CHR ''%'' \<in> set host then refuse BlockedIp
          else andThen (catching (candidates_of pton host) (\<lambda>_. give [])) (\<lambda>ips.
            if ips = [] then refuse Unresolvable
            else if \<not> url_https u
                 \<and> \<not> ((all_loopback pton ips \<and> loopbackAllowed opts) \<or> list_ex (\<lambda>e. ae_host e = host) (go_endpoints opts))
            then refuse NotHttps
            else andThen (answer (all_permitted pton host (portOf u) opts ips)) (\<lambda>_. give u))))"

section \<open>The connector and the fetch\<close>

definition event :: "net_event \<Rightarrow> unit nprog" where
  "event e = change (\<lambda>w. w\<lparr>net_log := net_log w @ [e]\<rparr>)"

definition next_reply :: "reply nprog" where
  "next_reply w = (case net_replies w of [] \<Rightarrow> (Inl NetworkFault, w) | r # rest \<Rightarrow> (Inr r, w\<lparr>net_replies := rest\<rparr>))"

definition connect_port :: "url \<Rightarrow> int" where
  "connect_port u = (case url_port u of Some p \<Rightarrow> if p = 0 then (if url_https u then 443 else 80) else p
                                  | None \<Rightarrow> if url_https u then 443 else 80)"

definition guarded_connect :: "pton \<Rightarrow> guard_options \<Rightarrow> url \<Rightarrow> reply nprog" where
  "guarded_connect pton opts u =
     (let host = stripBrackets (url_hostname u); port = connect_port u in
      andThen (candidates_of pton host) (\<lambda>ips.
      if ips = [] then refuse Unresolvable
      else
        andThen (answer (all_permitted pton host port opts ips)) (\<lambda>_.
        andThen (event (Dial host port (hd ips) (url_https u))) (\<lambda>_.
        andThen next_reply (\<lambda>r.
          if \<not> rp_opens r then throw NetworkFault
          else case rp_peer r of
            None \<Rightarrow> give r
          | Some peer \<Rightarrow>
              andThen (answer (isAddressPermitted pton host peer port opts)) (\<lambda>ok.
                if ok then give r else refuse BlockedIp))))))"

definition REDIRECT_STATUSES :: "nat list" where "REDIRECT_STATUSES = [301, 302, 303, 307, 308]"

text \<open>\<open>resolve_ref\<close> is \<open>new URL(location, current)\<close>. The recursion counts the hops left.\<close>

primrec fetch_hops ::
  "pton \<Rightarrow> (string \<Rightarrow> url \<Rightarrow> parsed_url) \<Rightarrow> guard_options \<Rightarrow> bool \<Rightarrow> nat \<Rightarrow> url \<Rightarrow> nat nprog" where
  "fetch_hops pton resolve_ref opts stream 0 current = refuse TooManyRedirects"
| "fetch_hops pton resolve_ref opts stream (Suc n) current =
     andThen (guarded_connect pton opts current) (\<lambda>r.
     andThen (event (SentTo (stripBrackets (url_hostname current)) (connect_port current) (url_https current))) (\<lambda>_.
     if rp_status r \<notin> set REDIRECT_STATUSES then give (rp_status r)
     else case rp_location r of
       None \<Rightarrow> give (rp_status r)
     | Some loc \<Rightarrow>
         if loc = [] then give (rp_status r)
         else (case resolve_ref loc current of
           NoUrl \<Rightarrow> throw NetworkFault
         | OtherScheme \<Rightarrow> refuse CrossOriginRedirect
         | HttpUrl nxt \<Rightarrow>
             if \<not> same_origin nxt current then refuse CrossOriginRedirect
             else if stream then refuse CrossOriginRedirect
             else andThen (assertUrlSafe pton opts (HttpUrl nxt)) (\<lambda>_. fetch_hops pton resolve_ref opts stream n nxt))))"

definition guardedFetch ::
  "pton \<Rightarrow> (string \<Rightarrow> url \<Rightarrow> parsed_url) \<Rightarrow> guard_options \<Rightarrow> bool \<Rightarrow> parsed_url \<Rightarrow> nat nprog" where
  "guardedFetch pton resolve_ref opts stream raw =
     andThen (answer (assertEndpointsSafe pton (go_endpoints opts))) (\<lambda>_.
     andThen (assertUrlSafe pton opts raw) (\<lambda>u. fetch_hops pton resolve_ref opts stream (Suc (go_maxRedirects opts)) u))"

end
