(* ===== verification/SsrfFacts.thy ===== *)
theory SsrfFacts
  imports Ssrf
begin

text \<open>
  What the outbound guard ensures: checking the two ends of an allowlisted range is as good as checking all
  of it, and every connection the guarded fetch opens goes to an address that is permitted for its host
  and port, whatever the resolver and the servers answer.
\<close>

section \<open>Ranges of words\<close>

lemma drop_bit_eq_iff:
  fixes x y :: "'a::len word"
  shows "drop_bit k x = drop_bit k y \<longleftrightarrow> (\<forall>i \<ge> k. bit x i = bit y i)"
proof
  assume eq: "drop_bit k x = drop_bit k y"
  show "\<forall>i \<ge> k. bit x i = bit y i"
  proof (intro allI impI)
    fix i :: nat
    assume "k \<le> i"
    then have "bit x i = bit (drop_bit k x) (i - k)" "bit y i = bit (drop_bit k y) (i - k)"
      by (simp_all add: bit_drop_bit_eq)
    with eq show "bit x i = bit y i" by simp
  qed
next
  assume "\<forall>i \<ge> k. bit x i = bit y i"
  then show "drop_bit k x = drop_bit k y"
    by (auto simp: bit_eq_iff bit_drop_bit_eq)
qed

lemma in_net_iff: "in_net (a, p) x \<longleftrightarrow> (\<forall>i \<ge> LENGTH('a) - p. bit x i = bit a i)" for x :: "'a::len word"
  by (simp add: in_net_def drop_bit_eq_iff)

lemma bit_net_of:
  fixes x :: "'a::len word"
  assumes "p \<le> LENGTH('a)"
  shows "bit (net_of x p) i \<longleftrightarrow> LENGTH('a) - p \<le> i \<and> bit x i"
proof (cases "bit x i")
  case True
  then have "i < LENGTH('a)" by (rule bit_imp_le_length)
  then show ?thesis
    using True assms by (auto simp: net_of_def bit_and_iff bit_push_bit_iff bit_not_iff bit_mask_iff)
qed (simp add: net_of_def bit_and_iff)

lemma bit_last_of:
  "p \<le> LENGTH('a) \<Longrightarrow> bit (last_of x p) i \<longleftrightarrow> (if LENGTH('a) - p \<le> i then bit x i else i < LENGTH('a))" for x :: "'a::len word"
  by (auto simp: last_of_def bit_or_iff bit_net_of bit_mask_iff dest: bit_imp_le_length)

lemma ends_in_net: "p \<le> LENGTH('a) \<Longrightarrow> in_net (a, p) (net_of a p) \<and> in_net (a, p) (last_of a p)" for a :: "'a::len word"
  by (auto simp: in_net_iff bit_net_of bit_last_of)

text \<open>Ranges are nested or disjoint.\<close>

lemma net_inside:
  fixes a :: "'a::len word"
  assumes "q \<le> p" "p \<le> LENGTH('a)" "in_net (s, q) (net_of a p)" "in_net (a, p) x"
  shows "in_net (s, q) x"
  using assms by (auto simp: in_net_iff bit_net_of)

lemma net_outside:
  fixes a :: "'a::len word"
  assumes "p < q" "q \<le> LENGTH('a)" "in_net (s, q) (net_of a p)"
  shows "net_of a p = net_of s p" "last_of a p = last_of s p"
proof -
  have top: "bit a i = bit s i" if "LENGTH('a) - p \<le> i" for i
  proof -
    have "LENGTH('a) - q \<le> i" using that assms(1) by linarith
    then have "bit (net_of a p) i = bit s i" using assms(3) by (simp add: in_net_iff)
    with that assms(1,2) show ?thesis by (simp add: bit_net_of)
  qed
  show "net_of a p = net_of s p" "last_of a p = last_of s p"
    using top assms(1,2) by (auto simp: bit_eq_iff bit_net_of bit_last_of)
qed

lemma nets_disjoint:
  fixes a :: "'a::len word"
  assumes "in_net (a, p) x" "in_net (b, q) x" "p \<le> LENGTH('a)" "q \<le> LENGTH('a)"
  shows "in_net (a, p) b \<or> in_net (b, q) a"
  using assms by (cases "p \<le> q") (auto simp: in_net_iff)

definition apart :: "('a::len word \<times> nat) list \<Rightarrow> ('a word \<times> nat) list \<Rightarrow> bool" where
  "apart hs ss = list_all (\<lambda>h. list_all (\<lambda>s. \<not> in_net h (fst s) \<and> \<not> in_net s (fst h)
      \<and> snd h \<le> LENGTH('a) \<and> snd s \<le> LENGTH('a)) ss) hs"

lemma apart_lists:
  fixes x :: "'a::len word"
  assumes "apart hs ss" "in_list hs x"
  shows "\<not> in_list ss x"
proof
  assume "in_list ss x"
  then obtain s h where sh: "s \<in> set ss" "in_net s x" "h \<in> set hs" "in_net h x"
    using assms(2) by (auto simp: in_list_def list_ex_iff)
  have "\<not> in_net h (fst s) \<and> \<not> in_net s (fst h) \<and> snd h \<le> LENGTH('a) \<and> snd s \<le> LENGTH('a)"
    using assms(1) sh by (auto simp: apart_def list_all_iff)
  with nets_disjoint[of "fst h" "snd h" x "fst s" "snd s"] sh show False by simp
qed

text \<open>No range wider than a private block has both its ends in private blocks.\<close>

definition ends_betray :: "('a::len word \<times> nat) list \<Rightarrow> bool" where
  "ends_betray ss = list_all (\<lambda>s. snd s \<le> LENGTH('a)
      \<and> list_all (\<lambda>p. \<not> (in_list ss (net_of (fst s) p) \<and> in_list ss (last_of (fst s) p))) [0..<snd s]) ss"

lemma ends_suffice:
  fixes a :: "'a::len word"
  assumes "ends_betray ss" "p \<le> LENGTH('a)" "in_list ss (net_of a p)" "in_list ss (last_of a p)" "in_net (a, p) x"
  shows "in_list ss x"
proof -
  obtain s q where s: "(s, q) \<in> set ss" "in_net (s, q) (net_of a p)"
    using assms(3) by (auto simp: in_list_def list_ex_iff)
  have q: "q \<le> LENGTH('a)" and wide: "\<And>k. k < q \<Longrightarrow> \<not> (in_list ss (net_of s k) \<and> in_list ss (last_of s k))"
    using assms(1) s(1) by (auto simp: ends_betray_def list_all_iff)
  have "q \<le> p"
  proof (rule ccontr)
    assume "\<not> q \<le> p"
    then have "p < q" by simp
    from net_outside[OF this q s(2)] wide[OF this] assms(3,4) show False by simp
  qed
  from net_inside[OF this assms(2) s(2) assms(5)] s(1) show ?thesis
    by (auto simp: in_list_def list_ex_iff)
qed

section \<open>The tables\<close>

lemma v4_apart: "apart (LOOPBACK_V4 @ HARD_V4) SOFT_V4"
  by code_simp

lemma v6_apart: "apart (LOOPBACK_V6 @ HARD_V6) SOFT_V6"
  by code_simp

lemma v4_ends: "ends_betray SOFT_V4"
  by code_simp

lemma v6_ends: "ends_betray SOFT_V6"
  by code_simp

lemma soft_v4: "plain_class (V4 x) = Soft \<longleftrightarrow> in_list SOFT_V4 x"
  using apart_lists[OF v4_apart, of x]
  by (auto simp: plain_class_def is_loopback_def is_hard_def is_soft_def in_list_def split: if_splits)

lemma soft_v6: "plain_class (V6 x) = Soft \<longleftrightarrow> in_list SOFT_V6 x"
  using apart_lists[OF v6_apart, of x]
  by (auto simp: plain_class_def is_loopback_def is_hard_def is_soft_def in_list_def split: if_splits)

lemma in_cidr_ends: "n \<le> max_prefix (family_of a) \<Longrightarrow> b \<in> set (cidrRange a n) \<Longrightarrow> in_cidr a n b"
  by (cases a) (auto simp: cidrRange_def in_cidr_def max_prefix_def family_of_def ends_in_net)

lemma soft_ends_soft_range:
  assumes "n \<le> max_prefix (family_of a)" "list_all (\<lambda>b. plain_class b = Soft) (cidrRange a n)" "in_cidr a n x"
  shows "plain_class x = Soft"
proof (cases a)
  case (V4 w)
  with assms obtain v where x: "x = V4 v" "in_net (w, n) v" by (auto simp: in_cidr_def split: ip.splits)
  from V4 assms(1,2) have "n \<le> LENGTH(32)" "in_list SOFT_V4 (net_of w n)" "in_list SOFT_V4 (last_of w n)"
    by (simp_all add: cidrRange_def max_prefix_def family_of_def soft_v4)
  from ends_suffice[OF v4_ends this x(2)] show ?thesis by (simp add: x soft_v4)
next
  case (V6 w)
  with assms obtain v where x: "x = V6 v" "in_net (w, n) v" by (auto simp: in_cidr_def split: ip.splits)
  from V6 assms(1,2) have "n \<le> LENGTH(128)" "in_list SOFT_V6 (net_of w n)" "in_list SOFT_V6 (last_of w n)"
    by (simp_all add: cidrRange_def max_prefix_def family_of_def soft_v6)
  from ends_suffice[OF v6_ends this x(2)] show ?thesis by (simp add: x soft_v6)
qed

lemma strict_cidr_bounds: "strict_cidr pton c = Some (a, n) \<Longrightarrow> n \<le> max_prefix (family_of a)"
  by (auto simp: strict_cidr_def split: list.splits if_splits option.splits)

text \<open>The allowlist check looks at the first and the last address of a range only, and that is exact: an entry is
  accepted just when it has the strict grammar and every address of its range, IPv4 or IPv6, is on a private
  network; no range with private ends reaches a public, loopback, link-local or otherwise reserved address.\<close>

theorem ends_check_is_exact:
  "endpoint_safe pton e \<longleftrightarrow>
     (\<exists>a n. strict_cidr pton (ae_cidr e) = Some (a, n) \<and> (\<forall>x. in_cidr a n x \<longrightarrow> plain_class x = Soft))"
proof (cases "strict_cidr pton (ae_cidr e)")
  case None
  then show ?thesis by (simp add: endpoint_safe_def)
next
  case (Some r)
  obtain a n where r: "r = (a, n)" by (cases r)
  note bound = strict_cidr_bounds[OF Some[unfolded r]]
  show ?thesis
  proof
    assume "endpoint_safe pton e"
    then have "list_all (\<lambda>b. plain_class b = Soft) (cidrRange a n)" by (simp add: endpoint_safe_def Some r)
    then show "\<exists>a n. strict_cidr pton (ae_cidr e) = Some (a, n) \<and> (\<forall>x. in_cidr a n x \<longrightarrow> plain_class x = Soft)"
      using Some r soft_ends_soft_range[OF bound] by blast
  next
    assume "\<exists>a n. strict_cidr pton (ae_cidr e) = Some (a, n) \<and> (\<forall>x. in_cidr a n x \<longrightarrow> plain_class x = Soft)"
    then have "\<forall>x. in_cidr a n x \<longrightarrow> plain_class x = Soft" by (simp add: Some r)
    then show "endpoint_safe pton e"
      using in_cidr_ends[OF bound] by (simp add: endpoint_safe_def Some r list_all_iff)
  qed
qed

text \<open>A private range that the check accepts, and one whose network is private while it reaches into public space.\<close>

definition sample_pton :: pton where
  "sample_pton t =
     (if t = ''10.0.0.0'' then Some (V4 0x0A000000) else if t = ''10.1.2.3'' then Some (V4 0x0A010203)
      else if t = ''8.8.8.8'' then Some (V4 0x08080808) else if t = ''127.0.0.1'' then Some (V4 0x7F000001)
      else if t = ''169.254.169.254'' then Some (V4 0xA9FEA9FE) else None)"

theorem ends_check_is_exact_witness:
  "(\<exists>a n. strict_cidr sample_pton ''10.0.0.0/8'' = Some (a, n) \<and> (\<forall>x. in_cidr a n x \<longrightarrow> plain_class x = Soft))
   \<and> \<not> (\<exists>a n. strict_cidr sample_pton ''10.0.0.0/7'' = Some (a, n) \<and> (\<forall>x. in_cidr a n x \<longrightarrow> plain_class x = Soft))"
proof -
  have "endpoint_safe sample_pton \<lparr>ae_host = ''h'', ae_cidr = ''10.0.0.0/8'', ae_port = None\<rparr>"
    "\<not> endpoint_safe sample_pton \<lparr>ae_host = ''h'', ae_cidr = ''10.0.0.0/7'', ae_port = None\<rparr>"
    by code_simp+
  then show ?thesis
    using ends_check_is_exact[of sample_pton "\<lparr>ae_host = ''h'', ae_cidr = ''10.0.0.0/8'', ae_port = None\<rparr>"]
      ends_check_is_exact[of sample_pton "\<lparr>ae_host = ''h'', ae_cidr = ''10.0.0.0/7'', ae_port = None\<rparr>"]
    by simp
qed

section \<open>The guarded fetch\<close>

definition event_ok :: "pton \<Rightarrow> guard_options \<Rightarrow> url \<Rightarrow> net_event \<Rightarrow> bool" where
  "event_ok pton opts u e =
     (case e of
        Dial host port a tls \<Rightarrow>
          host = stripBrackets (url_hostname u) \<and> port = connect_port u \<and> tls = url_https u
          \<and> isAddressPermitted pton host a port opts = Inr True
      | SentTo host port tls \<Rightarrow> host = stripBrackets (url_hostname u) \<and> port = connect_port u \<and> tls = url_https u)"

definition is_dial :: "net_event \<Rightarrow> bool" where
  "is_dial e = (case e of Dial _ _ _ _ \<Rightarrow> True | SentTo _ _ _ \<Rightarrow> False)"

definition log_ok :: "pton \<Rightarrow> guard_options \<Rightarrow> url \<Rightarrow> nat \<Rightarrow> net \<Rightarrow> bool" where
  "log_ok pton opts u n w \<longleftrightarrow> list_all (event_ok pton opts u) (net_log w) \<and> length (filter is_dial (net_log w)) \<le> n"

lemma same_origin_event: "same_origin v u \<Longrightarrow> event_ok pton opts v e = event_ok pton opts u e"
  by (simp add: event_ok_def same_origin_def connect_port_def split: net_event.split)

lemma all_permitted_hd: "all_permitted pton host port opts ips = Inr () \<Longrightarrow> ips \<noteq> [] \<Longrightarrow>
    isAddressPermitted pton host (hd ips) port opts = Inr True"
  by (cases ips) (auto split: sum.splits if_splits)

lemma answer_rule: "triple P (answer r) (\<lambda>a w. P w \<and> r = Inr a) P"
  by (cases r) (simp_all add: answer_def triple_def throw_def give_def)

lemma resolve_keeps [keeping]: "keeps (log_ok pton opts u n) resolveAll"
  by (simp add: triple_def resolveAll_def log_ok_def split: list.split option.split)

lemma candidates_keep [keeping]: "keeps (log_ok pton opts u n) (candidates_of p host)"
  unfolding candidates_of_def by (intro keeping)

lemma answer_keeps [keeping]: "keeps P (answer r)"
  unfolding answer_def by (intro keeping)

lemma refuse_keeps [keeping]: "keeps P (refuse c)"
  unfolding refuse_def by (intro keeping)

lemma reply_keeps [keeping]: "keeps (log_ok pton opts u n) next_reply"
  by (simp add: triple_def next_reply_def log_ok_def split: list.split)

lemma validation_keeps [keeping]: "keeps (log_ok pton opts u n) (assertUrlSafe p o' parsed)"
  unfolding assertUrlSafe_def Let_def
  by (intro keeping; auto split: parsed_url.split intro!: keeping)

lemma log_ok_mono: "log_ok pton opts u n w \<Longrightarrow> n \<le> m \<Longrightarrow> log_ok pton opts u m w"
  by (simp add: log_ok_def)

lemma validation_rule:
  "triple (log_ok pton opts u n) (assertUrlSafe p opts' parsed) (\<lambda>v w. log_ok pton opts u n w \<and> parsed = HttpUrl v) (log_ok pton opts u n)"
proof (rule tripleI)
  fix w e w1
  assume "log_ok pton opts u n w" "assertUrlSafe p opts' parsed w = (Inl e, w1)"
  then show "log_ok pton opts u n w1" using validation_keeps by (rule tripleD_fault[rotated])
next
  fix w v w1
  assume start: "log_ok pton opts u n w" and run: "assertUrlSafe p opts' parsed w = (Inr v, w1)"
  have "log_ok pton opts u n w1" using validation_keeps start run by (rule tripleD)
  moreover have "parsed = HttpUrl v"
    using run
    by (auto simp: assertUrlSafe_def andThen_def refuse_def throw_def give_def Let_def split: prod.splits sum.splits parsed_url.splits if_splits)
  ultimately show "log_ok pton opts u n w1 \<and> parsed = HttpUrl v" by blast
qed

lemma dial_rule:
  assumes "event_ok pton opts u (Dial host port a tls)"
  shows "triple (log_ok pton opts u n) (event (Dial host port a tls)) (\<lambda>_. log_ok pton opts u (Suc n)) E"
  unfolding event_def by (rule triple_change) (use assms in \<open>simp add: log_ok_def is_dial_def\<close>)

lemma sent_rule:
  assumes "event_ok pton opts u (SentTo host port tls)"
  shows "triple (log_ok pton opts u n) (event (SentTo host port tls)) (\<lambda>_. log_ok pton opts u n) E"
  unfolding event_def by (rule triple_change) (use assms in \<open>simp add: log_ok_def is_dial_def\<close>)

lemma connect_rule:
  assumes "same_origin v u"
  shows "triple (log_ok pton opts u n) (guarded_connect pton opts v) (\<lambda>_. log_ok pton opts u (Suc n)) (log_ok pton opts u (Suc n))"
proof -
  let ?host = "stripBrackets (url_hostname v)" and ?port = "connect_port v"
  have late: "triple (log_ok pton opts u n) m (\<lambda>_. log_ok pton opts u (Suc n)) (log_ok pton opts u (Suc n))"
    if "keeps (log_ok pton opts u n) m" for m :: "'z nprog"
    using that by (rule triple_weaken) (auto intro: log_ok_mono)
  have after: "keeps (log_ok pton opts u (Suc n)) (andThen next_reply (\<lambda>r.
          if \<not> rp_opens r then throw NetworkFault
          else case rp_peer r of
            None \<Rightarrow> give r
          | Some peer \<Rightarrow>
              andThen (answer (isAddressPermitted pton ?host peer ?port opts)) (\<lambda>ok.
                if ok then give r else refuse BlockedIp)))"
    by (intro keeping)
  have dial: "triple (\<lambda>w. log_ok pton opts u n w \<and> all_permitted pton ?host ?port opts ips = Inr ())
      (andThen (event (Dial ?host ?port (hd ips) (url_https v))) (\<lambda>_. andThen next_reply (\<lambda>r.
          if \<not> rp_opens r then throw NetworkFault
          else case rp_peer r of
            None \<Rightarrow> give r
          | Some peer \<Rightarrow>
              andThen (answer (isAddressPermitted pton ?host peer ?port opts)) (\<lambda>ok.
                if ok then give r else refuse BlockedIp))))
      (\<lambda>_. log_ok pton opts u (Suc n)) (log_ok pton opts u (Suc n))" if "ips \<noteq> []" for ips
  proof (rule triple_pull)
    assume "all_permitted pton ?host ?port opts ips = Inr ()"
    from all_permitted_hd[OF this that] have "event_ok pton opts v (Dial ?host ?port (hd ips) (url_https v))"
      by (simp add: event_ok_def)
    then have "event_ok pton opts u (Dial ?host ?port (hd ips) (url_https v))"
      using same_origin_event[OF assms] by blast
    from triple_andThen[OF dial_rule[OF this] after]
    show "triple (log_ok pton opts u n)
      (andThen (event (Dial ?host ?port (hd ips) (url_https v))) (\<lambda>_. andThen next_reply (\<lambda>r.
          if \<not> rp_opens r then throw NetworkFault
          else case rp_peer r of
            None \<Rightarrow> give r
          | Some peer \<Rightarrow>
              andThen (answer (isAddressPermitted pton ?host peer ?port opts)) (\<lambda>ok.
                if ok then give r else refuse BlockedIp))))
      (\<lambda>_. log_ok pton opts u (Suc n)) (log_ok pton opts u (Suc n))" .
  qed
  have checked: "triple (log_ok pton opts u n)
      (if ips = [] then refuse Unresolvable
       else andThen (answer (all_permitted pton ?host ?port opts ips)) (\<lambda>_.
         andThen (event (Dial ?host ?port (hd ips) (url_https v))) (\<lambda>_. andThen next_reply (\<lambda>r.
          if \<not> rp_opens r then throw NetworkFault
          else case rp_peer r of
            None \<Rightarrow> give r
          | Some peer \<Rightarrow>
              andThen (answer (isAddressPermitted pton ?host peer ?port opts)) (\<lambda>ok.
                if ok then give r else refuse BlockedIp)))))
      (\<lambda>_. log_ok pton opts u (Suc n)) (log_ok pton opts u (Suc n))" for ips
  proof (rule triple_if)
    show "triple (log_ok pton opts u n) (refuse Unresolvable) (\<lambda>_. log_ok pton opts u (Suc n)) (log_ok pton opts u (Suc n))"
      by (rule late) (rule refuse_keeps)
  next
    assume "ips \<noteq> []"
    have "triple (log_ok pton opts u n) (answer (all_permitted pton ?host ?port opts ips))
        (\<lambda>a w. log_ok pton opts u n w \<and> all_permitted pton ?host ?port opts ips = Inr a) (log_ok pton opts u (Suc n))"
      using answer_rule [where P = "log_ok pton opts u n"] by (rule triple_weaken) (auto intro: log_ok_mono)
    then show "triple (log_ok pton opts u n)
       (andThen (answer (all_permitted pton ?host ?port opts ips)) (\<lambda>_.
         andThen (event (Dial ?host ?port (hd ips) (url_https v))) (\<lambda>_. andThen next_reply (\<lambda>r.
          if \<not> rp_opens r then throw NetworkFault
          else case rp_peer r of
            None \<Rightarrow> give r
          | Some peer \<Rightarrow>
              andThen (answer (isAddressPermitted pton ?host peer ?port opts)) (\<lambda>ok.
                if ok then give r else refuse BlockedIp)))))
      (\<lambda>_. log_ok pton opts u (Suc n)) (log_ok pton opts u (Suc n))"
      by (rule triple_andThen) (use dial[OF \<open>ips \<noteq> []\<close>] in simp)
  qed
  have resolve: "triple (log_ok pton opts u n) (candidates_of pton ?host) (\<lambda>_. log_ok pton opts u n) (log_ok pton opts u (Suc n))"
    using candidates_keep [where n = n] by (rule triple_weaken) (auto intro: log_ok_mono)
  show ?thesis
    unfolding guarded_connect_def Let_def by (rule triple_andThen[OF resolve checked])
qed

lemma fetch_rule:
  assumes "same_origin v u"
  shows "triple (log_ok pton opts u k) (fetch_hops pton rr opts stream n v) (\<lambda>_. log_ok pton opts u (k + n)) (log_ok pton opts u (k + n))"
  using assms
proof (induction n arbitrary: k v)
  case 0
  then show ?case by (simp add: refuse_keeps)
next
  case (Suc n)
  have ok: "event_ok pton opts u (SentTo (stripBrackets (url_hostname v)) (connect_port v) (url_https v))"
  proof -
    have "event_ok pton opts v (SentTo (stripBrackets (url_hostname v)) (connect_port v) (url_https v))"
      by (simp add: event_ok_def)
    then show ?thesis using same_origin_event[OF Suc.prems] by blast
  qed
  have stop: "triple (log_ok pton opts u (Suc k)) m (\<lambda>_. log_ok pton opts u (k + Suc n)) (log_ok pton opts u (k + Suc n))"
    if "keeps (log_ok pton opts u (Suc k)) m" for m :: "nat nprog"
    using that by (rule triple_weaken) (auto intro: log_ok_mono)
  have hop: "triple (log_ok pton opts u (Suc k))
      (andThen (assertUrlSafe pton opts (HttpUrl nxt)) (\<lambda>_. fetch_hops pton rr opts stream n nxt))
      (\<lambda>_. log_ok pton opts u (k + Suc n)) (log_ok pton opts u (k + Suc n))" if "same_origin nxt v" for nxt
  proof -
    have "same_origin nxt u" using that Suc.prems by (simp add: same_origin_def)
    from Suc.IH[OF this, of "Suc k"] have rest: "triple (log_ok pton opts u (Suc k)) (fetch_hops pton rr opts stream n nxt)
        (\<lambda>_. log_ok pton opts u (k + Suc n)) (log_ok pton opts u (k + Suc n))" by simp
    have "triple (log_ok pton opts u (Suc k)) (assertUrlSafe pton opts (HttpUrl nxt)) (\<lambda>_. log_ok pton opts u (Suc k)) (log_ok pton opts u (k + Suc n))"
      using validation_keeps [where n = "Suc k"] by (rule triple_weaken) (auto intro: log_ok_mono)
    from triple_andThen[OF this rest] show ?thesis .
  qed
  have connect: "triple (log_ok pton opts u k) (guarded_connect pton opts v) (\<lambda>_. log_ok pton opts u (Suc k)) (log_ok pton opts u (k + Suc n))"
    using connect_rule[OF Suc.prems, where n = k] by (rule triple_weaken) (auto intro: log_ok_mono)
  let ?Q = "\<lambda>_ :: nat. log_ok pton opts u (k + Suc n)" and ?E = "log_ok pton opts u (k + Suc n)"
  have ends: "triple (log_ok pton opts u (Suc k)) (give x) ?Q ?E"
    "triple (log_ok pton opts u (Suc k)) (refuse c) ?Q ?E"
    "triple (log_ok pton opts u (Suc k)) (throw e) ?Q ?E" for x c e
    unfolding refuse_def by ((rule triple_give triple_throw, erule log_ok_mono, simp)+)
  have body: "triple (log_ok pton opts u (Suc k))
     (if rp_status r \<notin> set REDIRECT_STATUSES then give (rp_status r)
      else case rp_location r of
        None \<Rightarrow> give (rp_status r)
      | Some loc \<Rightarrow>
          if loc = [] then give (rp_status r)
          else (case rr loc v of
            NoUrl \<Rightarrow> throw NetworkFault
          | OtherScheme \<Rightarrow> refuse CrossOriginRedirect
          | HttpUrl nxt \<Rightarrow>
              if \<not> same_origin nxt v then refuse CrossOriginRedirect
              else if stream then refuse CrossOriginRedirect
              else andThen (assertUrlSafe pton opts (HttpUrl nxt)) (\<lambda>_. fetch_hops pton rr opts stream n nxt))) ?Q ?E" for r
    by (cases stream)
      (use hop in \<open>simp_all add: ends del: add_Suc_right split: option.split parsed_url.split\<close>)
  show ?case
    unfolding fetch_hops.simps by (rule triple_andThen[OF connect triple_andThen[OF sent_rule[OF ok] body]])
qed

lemma fetch_log:
  assumes "net_log w = []"
  shows "net_log (snd (guardedFetch pton rr opts stream raw w)) = []
    \<or> (\<exists>u. raw = HttpUrl u \<and> log_ok pton opts u (Suc (go_maxRedirects opts)) (snd (guardedFetch pton rr opts stream raw w)))"
proof (cases raw)
  case (HttpUrl u)
  have start: "log_ok pton opts u 0 w" using assms by (simp add: log_ok_def)
  have valid: "triple (log_ok pton opts u 0) (assertUrlSafe pton opts (HttpUrl u)) (\<lambda>v w. log_ok pton opts u 0 w \<and> HttpUrl u = HttpUrl v)
      (log_ok pton opts u (Suc (go_maxRedirects opts)))"
    using validation_rule [where n = 0] by (rule triple_weaken) (auto intro: log_ok_mono)
  have hops: "triple (\<lambda>w. log_ok pton opts u 0 w \<and> HttpUrl u = HttpUrl v) (fetch_hops pton rr opts stream (Suc (go_maxRedirects opts)) v)
      (\<lambda>_. log_ok pton opts u (Suc (go_maxRedirects opts))) (log_ok pton opts u (Suc (go_maxRedirects opts)))" for v
  proof (rule triple_pull)
    assume "HttpUrl u = HttpUrl v"
    then have "same_origin v u" by (simp add: same_origin_def)
    from fetch_rule[OF this, of pton opts 0 rr stream "Suc (go_maxRedirects opts)"]
    show "triple (log_ok pton opts u 0) (fetch_hops pton rr opts stream (Suc (go_maxRedirects opts)) v)
      (\<lambda>_. log_ok pton opts u (Suc (go_maxRedirects opts))) (log_ok pton opts u (Suc (go_maxRedirects opts)))" by simp
  qed
  have first: "triple (log_ok pton opts u 0) (answer (assertEndpointsSafe pton (go_endpoints opts))) (\<lambda>_. log_ok pton opts u 0)
      (log_ok pton opts u (Suc (go_maxRedirects opts)))"
    using answer_keeps [where P = "log_ok pton opts u 0"] by (rule triple_weaken) (auto intro: log_ok_mono)
  have whole: "triple (log_ok pton opts u 0) (guardedFetch pton rr opts stream raw)
      (\<lambda>_. log_ok pton opts u (Suc (go_maxRedirects opts))) (log_ok pton opts u (Suc (go_maxRedirects opts)))"
    unfolding guardedFetch_def HttpUrl by (rule triple_andThen[OF first triple_andThen[OF valid hops]])
  have "log_ok pton opts u (Suc (go_maxRedirects opts)) (snd (guardedFetch pton rr opts stream raw w))"
  proof (cases "guardedFetch pton rr opts stream raw w")
    case (Pair r w1)
    with whole start show ?thesis by (cases r) (auto dest: tripleD tripleD_fault)
  qed
  with HttpUrl show ?thesis by blast
qed (use assms in \<open>auto simp: guardedFetch_def andThen_def assertUrlSafe_def answer_def refuse_def throw_def give_def split: sum.split prod.split\<close>)

text \<open>The tier of an address that is permitted: a loopback one where loopback is allowed, a private one that an
  allowlist entry names for this host and port, or a routable one; never a reserved one.\<close>

lemma permitted_tier:
  assumes "isAddressPermitted pton host a port opts = Inr True"
  shows "\<exists>x. pton a = Some x
    \<and> (if is_loopback x then loopbackAllowed opts
       else \<not> is_hard x \<and> (is_soft x \<longrightarrow> (\<exists>e \<in> set (go_endpoints opts). entry_permits pton host x port e)))"
proof -
  from assms obtain c where c: "classifyIp pton (loopbackAllowed opts) (go_extra opts) a = Inr c"
    "c = Routable \<or> c = Soft \<and> endpointPermits pton host a port (go_endpoints opts)"
    by (auto simp: isAddressPermitted_def split: sum.splits ip_class.splits)
  then obtain x where x: "pton a = Some x" by (cases "pton a") (auto simp: classifyIp_def)
  have "if is_loopback x then loopbackAllowed opts else \<not> is_hard x \<and> (is_soft x \<longrightarrow> c = Soft)"
    using c x by (auto simp: classifyIp_def split: if_splits sum.splits)
  with c x show ?thesis by (auto simp: endpointPermits_def list_ex_iff)
qed

text \<open>Whatever the resolver and the servers answer, every connection a guarded fetch opens goes to the host, the
  port and the scheme it was asked for and to an address that is permitted there, and it opens at most one
  per redirect allowed and one more. Nothing is opened for a text that is no HTTP URL.\<close>

theorem guarded_fetch_connects_only_permitted:
  assumes "net_log w = []"
  shows "case raw of
      HttpUrl u \<Rightarrow>
        (\<forall>e \<in> set (net_log (snd (guardedFetch pton rr opts stream raw w))). event_ok pton opts u e)
        \<and> length (filter is_dial (net_log (snd (guardedFetch pton rr opts stream raw w)))) \<le> Suc (go_maxRedirects opts)
    | _ \<Rightarrow> net_log (snd (guardedFetch pton rr opts stream raw w)) = []"
  using fetch_log[OF assms, of pton rr opts stream raw]
  by (cases raw) (auto simp: log_ok_def list_all_iff)

section \<open>A limit\<close>

text \<open>The rule that plain HTTP is for loopback and allowlisted hosts is checked when the URL is validated and not
  again when the name is resolved for the connection: a name that answers with a loopback address first and
  with a public one afterwards gets its request over plain HTTP.\<close>

definition rebinding_net :: net where
  "rebinding_net = \<lparr>net_dns = [Some [''127.0.0.1''], Some [''8.8.8.8'']],
     net_replies = [\<lparr>rp_opens = True, rp_peer = None, rp_status = 200, rp_location = None\<rparr>], net_log = []\<rparr>"

definition local_options :: guard_options where
  "local_options = \<lparr>go_mode = SelfHosted, go_local = True, go_endpoints = [], go_extra = [], go_maxRedirects = 5\<rparr>"

lemma rebound_name_gets_plain_http:
  "net_log (snd (guardedFetch sample_pton (\<lambda>_ _. NoUrl) local_options False
      (HttpUrl \<lparr>url_https = False, url_hostname = ''h'', url_port = None, url_path = ''/''\<rparr>) rebinding_net))
   = [Dial ''h'' 80 ''8.8.8.8'' False, SentTo ''h'' 80 False]"
  by code_simp

end
