(* ===== verification/Spec2Isabelle.thy ===== *)
theory Spec2Isabelle
  imports RoutingFacts ErrorFacts BreakerFacts PlanCooldownFacts ChainFacts Watchdog OutputCaps Cascade UsageFacts OpenaiStream Pricing BudgetFacts BudgetCache StructuralFacts CalibrationLimits BatchLimits SsrfFacts
begin

text \<open>
  polyrouter: a verification development of the routing and provider-health core.

  polyrouter sits between agents and model providers. A request arrives in the Anthropic or the OpenAI
  protocol, is translated into a neutral form, is routed to a chain of provider models (explicitly, by a
  rule, or by its complexity), passes the spend budgets, and walks the chain under circuit breakers and plan
  pauses until a provider serves it; the answer is translated back, streamed or buffered, and priced. Beside
  the request path run asynchronous batch jobs, the reconciliation of the spend counters and the
  calibration of the complexity thresholds. The development models this core, in TypeScript under
  \<open>packages/shared\<close>, \<open>packages/data-plane\<close> and \<open>packages/control-plane\<close>, as executable functions.

  \<^bold>\<open>How the code is rendered.\<close> An interface is a record, a union a datatype, an optional or nullable field an
  option. A function that throws returns a sum whose left side is the exception. A function that awaits is a
  program of theory Effects: it maps the world to an answer or an exception and the world it leaves, and
  at every await a script in the world says what other requests or processes did in the meantime and
  what became of the call (it was answered, never arrived, or its answer was lost). A store shared by processes
  (Redis, PostgreSQL) is a map; a Lua script or a transaction is one function on it. Names are the source's;
  a constant that would clash carries its component's prefix. Proofs rest on contracts stated as locales
  and interpreted on the model's own definitions.

  \<^bold>\<open>The theories.\<close>

  \<^item> \<^bold>\<open>Prelude, Regex, Json, JsonText, WireJson, Effects.\<close> Strings over the code units 0 to 255, the stable
    \<open>Array.prototype.sort\<close>, object property order; the backtracking matcher of the patterns; \<open>JSON.parse\<close> and
    \<open>JSON.stringify\<close> with their round trip; programs that await, with rules for invariants.
  \<^item> \<^bold>\<open>Targets, Routing, RoutingFacts\<close> (\<open>routing-target.ts\<close>, \<open>model-variants.ts\<close>, \<open>routing/resolve.ts\<close>): the five
    phases of \<open>resolveRoute\<close> over the owner's snapshot. The facts: whatever a decision contains is servable, a
    synchronous chain holds no capacity reserved for batch, and the storage order of rules is irrelevant.
  \<^item> \<^bold>\<open>Structural, StructuralFacts, RoutingConfig, RoutingConfigFacts\<close> (\<open>routing/structural/*.ts\<close>,
    \<open>proxy/routing.config.ts\<close>): features, score, band and workload of a request, the boot configuration and the
    chain of thresholds from instance to tenant to agent. The facts: what boot accepts is well formed, the
    thresholds in use stay inside the envelope, and declared demand steers upwards only.
  \<^item> \<^bold>\<open>PlanErrors, ProviderErrors, ErrorFacts\<close> (\<open>providers/errors.ts\<close>, \<open>providers/plan-errors.ts\<close>): from a response to
    a typed error, and from its body to what may be stored. The facts: which spellings of a secret cannot
    survive the scrubber, and what passes the retention gates.
  \<^item> \<^bold>\<open>Breaker, BreakerFacts\<close> (\<open>providers/breaker.ts\<close>, \<open>providers/probe-patience.ts\<close>): the per-process store and the
    Lua store, admission with fallback, and the wrappers that settle a unary or a streamed attempt. The
    facts: the Lua record refines the per-process one over the live records, probes are single, and an attempt
    is completed exactly once.
  \<^item> \<^bold>\<open>PlanCooldown, PlanCooldownFacts\<close> (\<open>providers/plan-cooldown.ts\<close>): the pause of a provider whose plan cannot
    answer; both stores refine one specification (locale \<open>plan_store\<close>).
  \<^item> \<^bold>\<open>Ir, Usage, UsageFacts, Sse, Anthropic, AnthropicFacts, AnthropicStream, Openai, OpenaiFacts, OpenaiStream\<close>
    (\<open>proxy/translate/*.ts\<close>): the neutral form, usage and stop reasons, server-sent events and the two
    adapters. The facts: exactly what a request keeps on either wire, that a replayed answer is parsed back
    under every chunking, that a stream ends cleanly only after a stop reason, and where a cut between two
    chunks matters.
  \<^item> \<^bold>\<open>ChainWalk, ChainFacts, Watchdog, OutputCaps, Cascade\<close> (\<open>proxy/core.ts\<close>, \<open>proxy/output-caps.ts\<close>, \<open>proxy/cascade.ts\<close>,
    \<open>recording/billing.ts\<close>): both walks over a chain with the commit boundary of a stream, the deadline between
    events, the deliverability plan and the quality gate. The facts: the trail of failures, the billing
    evidence, and when the watchdog fires. Both walkers are shown to be instances of one walk.
  \<^item> \<^bold>\<open>Pricing\<close> (\<open>pricing/resolve.ts\<close>): catalog keys and the precedence of price sources.
  \<^item> \<^bold>\<open>Period, Budgets, BudgetFacts, BudgetCache\<close> (\<open>budgets/*.ts\<close>): the UTC calendar, the Redis counters with their
    scripts, the block check, reservations, reconciliation, and the cache of budget rows. The facts hold on
    every network: an admitted reservation fits, a fault under fail-closed never admits, counters only rise.
  \<^item> \<^bold>\<open>Calibration, CalibrationRun, CalibrationFacts, CalibrationAudit, CalibrationLimits\<close>
    (\<open>calibration/calibration.run.ts\<close>, the calibration accessors of \<open>database/port.ts\<close> and \<open>analytics.queries.ts\<close>,
    \<open>routing-config/auto-layers.service.ts\<close>): the transactions on settings, agents and events and the sweep over
    them. The facts: the audit trail explains every stored pair under every interleaving, and a move that
    landed saw the latest event.
  \<^item> \<^bold>\<open>Batch, BatchRun, BatchFacts, BatchMoney, BatchLimits\<close> (\<open>shared/batch-jobs.ts\<close>, \<open>batch/*.ts\<close>,
    \<open>database/batch-jobs.queries.ts\<close>): the job table with its row checks, the settlement, the poller, submission
    and cancel. The facts: a reservation is released at most once and only after the end, an ended job stays
    ended, a resumed settlement agrees with the ledger, and a ceiling covers the batch.
  \<^item> \<^bold>\<open>Ssrf, SsrfFacts\<close> (\<open>security/ssrf.ts\<close>): the outbound guard over 32- and 128-bit words. The facts: the check of
    the two ends of an allowlisted range is exact, and a guarded fetch connects to permitted addresses only.

  \<^bold>\<open>How the parts meet.\<close> ChainWalk calls Breaker and PlanCooldown around every attempt and reads the kinds of
  ProviderErrors and PlanErrors; the adapters build on Json, Sse, Usage and Ir; Cascade replays the events the
  adapters write; Calibration uses the thresholds of RoutingConfig; BatchRun reserves and releases through
  Budgets and prices its items with Usage under a rate of Pricing. Theorems whose names end in
  \<open>_witness\<close> apply the theorem before them to a concrete input. The lemmas of CalibrationLimits and BatchLimits,
  and a few marked as limits elsewhere, show on small runs where the code falls short of its own comments.

  \<^bold>\<open>Bounds and scripts.\<close> \<open>json_parse\<close> recurses on a fuel of the length of its text and more, which every value
  consumes (JsonText proves that printed values are read back). \<open>nextWithTimeout\<close> takes a bound of iterations, and
  \<open>silence_trips\<close> says how many are enough. The regular-expression engine bounds repetitions by the text left.
  The scripts of networks, calibration turns and batch turns are arbitrary lists; past their end every call is
  answered and nobody interferes. \<open>lasting\<close> says that no counter key expires before a network's script is over.
  Every other recursion is structural or has a termination proof.

  \<^bold>\<open>Idealizations.\<close> Strings are over the code units 0 to 255, so an escape for a code unit above them is
  rejected and the scrubber's zero-width characters are outside the fragment. Numbers that the code keeps as doubles are exact
  rationals, and numbers are printed as plain decimals. Objects keep their properties in insertion order, without
  the special order of integer-like keys. \<open>Date.parse\<close>, \<open>new URL\<close>, the reading of address texts and SHA-256 are
  parameters. Bodies that the code casts to an interface are values of it, leaves included. A key in Redis reads
  as gone from the instant it expires at. The clock of a store never runs backwards where a theorem says so.
  A missing token count in a usage object is read as zero.

  \<^bold>\<open>Not modelled.\<close> The frontend; the proxy service that wires the parts together and the HTTP controllers;
  persistence beyond the statements named above; the HTTP adapters, the catalog and the plan-usage readers of
  providers; the responses protocol; the semantic layer with its embeddings and learning; the batch ingress,
  upstream batch adapters and listings; notifications, authentication, OAuth subscriptions, body capture, metrics, the
  in-flight registry and the schedulers and queues around the modelled runs. They are listed with the reason
  in the list of components kept beside this development.
\<close>

end
